(* ===== verification/Prelude.thy ===== *)
theory Prelude
  imports Main "HOL-Library.List_Lexorder" "HOL-Library.Char_ord" "HOL-Library.Monad_Syntax"
begin

text \<open>
  Shared base of the development: the collections of simplification rules, Rust's checked and
  saturating integer arithmetic on \<open>nat\<close> with the bound written out, \<open>SystemTime\<close> and
  \<open>Duration\<close> as nanosecond counts, the ordered containers \<open>BTreeMap\<close> and \<open>BTreeSet\<close> as
  strictly sorted lists, and the interface locales the components share: an index built by
  inserting entries that must be new, and a table of stable names with its parser.
\<close>

named_theorems arith_defs \<open>definitions of the checked and saturating operations\<close>
named_theorems time_defs \<open>definitions of the operations on instants and durations\<close>
named_theorems container_simps \<open>lookup and key rules of the ordered containers\<close>

section \<open>Machine integers\<close>

abbreviation u16_max :: nat where "u16_max \<equiv> 65535"
abbreviation u32_max :: nat where "u32_max \<equiv> 4294967295"
abbreviation u64_max :: nat where "u64_max \<equiv> 18446744073709551615"
abbreviation u128_max :: nat where "u128_max \<equiv> 340282366920938463463374607431768211455"

text \<open>The first argument is the largest value of the machine type.\<close>

definition checked_add :: "nat \<Rightarrow> nat \<Rightarrow> nat \<Rightarrow> nat option" where
  [arith_defs]: "checked_add m a b = (if a + b \<le> m then Some (a + b) else None)"

definition checked_mul :: "nat \<Rightarrow> nat \<Rightarrow> nat \<Rightarrow> nat option" where
  [arith_defs]: "checked_mul m a b = (if a * b \<le> m then Some (a * b) else None)"

definition checked_sub :: "nat \<Rightarrow> nat \<Rightarrow> nat option" where
  [arith_defs]: "checked_sub a b = (if b \<le> a then Some (a - b) else None)"

definition checked_div :: "nat \<Rightarrow> nat \<Rightarrow> nat option" where
  [arith_defs]: "checked_div a b = (if b = 0 then None else Some (a div b))"

definition saturating_add :: "nat \<Rightarrow> nat \<Rightarrow> nat \<Rightarrow> nat" where
  [arith_defs]: "saturating_add m a b = min m (a + b)"

definition saturating_mul :: "nat \<Rightarrow> nat \<Rightarrow> nat \<Rightarrow> nat" where
  [arith_defs]: "saturating_mul m a b = min m (a * b)"

lemma checked_add_Some [simp]:
  "checked_add m a b = Some c \<longleftrightarrow> a + b \<le> m \<and> c = a + b"
  by (auto simp: checked_add_def)

lemma checked_mul_Some [simp]:
  "checked_mul m a b = Some c \<longleftrightarrow> a * b \<le> m \<and> c = a * b"
  by (auto simp: checked_mul_def)

lemma checked_sub_Some [simp]: "checked_sub a b = Some c \<longleftrightarrow> b \<le> a \<and> c = a - b"
  by (auto simp: checked_sub_def)

lemma checked_div_Some [simp]: "checked_div a b = Some c \<longleftrightarrow> b \<noteq> 0 \<and> c = a div b"
  by (auto simp: checked_div_def)

lemma saturating_add_bound [simp]: "saturating_add m a b \<le> m"
  by (simp add: saturating_add_def)

lemma saturating_add_ge: "a \<le> m \<Longrightarrow> a \<le> saturating_add m a b"
  by (simp add: saturating_add_def)

section \<open>Instants and durations\<close>

text \<open>
  A \<open>SystemTime\<close> is a signed count of nanoseconds around the Unix epoch whose seconds fit an
  \<open>i64\<close>; a \<open>Duration\<close> is a count of nanoseconds whose seconds fit a \<open>u64\<close>; a monotonic
  \<open>Instant\<close> is a count of nanoseconds.
\<close>

type_synonym systime = int
type_synonym duration = nat
type_synonym instant = nat

abbreviation systime_max :: systime where "systime_max \<equiv> 9223372036854775807999999999"
abbreviation systime_min :: systime where "systime_min \<equiv> - 9223372036854775808000000000"
abbreviation duration_max :: duration where "duration_max \<equiv> 18446744073709551615999999999"

definition of_secs :: "nat \<Rightarrow> duration" where
  [time_defs]: "of_secs n = n * 1000000000"

definition of_millis :: "nat \<Rightarrow> duration" where
  [time_defs]: "of_millis n = n * 1000000"

definition as_millis :: "duration \<Rightarrow> nat" where
  [time_defs]: "as_millis d = d div 1000000"

definition duration_since :: "systime \<Rightarrow> systime \<Rightarrow> duration option" where
  [time_defs]: "duration_since now earlier =
     (if earlier \<le> now then Some (nat (now - earlier)) else None)"

definition time_checked_add :: "systime \<Rightarrow> duration \<Rightarrow> systime option" where
  [time_defs]: "time_checked_add t d = (if t + int d \<le> systime_max then Some (t + int d) else None)"

definition time_checked_sub :: "systime \<Rightarrow> duration \<Rightarrow> systime option" where
  [time_defs]: "time_checked_sub t d = (if systime_min \<le> t - int d then Some (t - int d) else None)"

definition duration_saturating_mul :: "duration \<Rightarrow> nat \<Rightarrow> duration" where
  [time_defs]: "duration_saturating_mul d k = min duration_max (d * k)"

section \<open>Options\<close>

text \<open>Rust's \<open>Option::or\<close> and \<open>Option::filter\<close>.\<close>

definition opt_or :: "'a option \<Rightarrow> 'a option \<Rightarrow> 'a option" where
  "opt_or a b = (case a of None \<Rightarrow> b | Some x \<Rightarrow> Some x)"

definition opt_filter :: "('a \<Rightarrow> bool) \<Rightarrow> 'a option \<Rightarrow> 'a option" where
  "opt_filter P a = (case a of Some x \<Rightarrow> if P x then Some x else None | None \<Rightarrow> None)"

definition opt_any :: "('a \<Rightarrow> bool) \<Rightarrow> 'a option \<Rightarrow> bool" where
  "opt_any P a = (case a of Some x \<Rightarrow> P x | None \<Rightarrow> False)"

definition unwrap_or :: "'a \<Rightarrow> 'a option \<Rightarrow> 'a" where
  "unwrap_or d a = (case a of Some x \<Rightarrow> x | None \<Rightarrow> d)"

lemma opt_or_simps [simp]: "opt_or None b = b" "opt_or (Some x) b = Some x"
  by (simp_all add: opt_or_def)

lemma opt_filter_Some_iff [simp]: "opt_filter P a = Some x \<longleftrightarrow> a = Some x \<and> P x"
  by (auto simp: opt_filter_def split: option.splits)

lemma opt_filter_None [simp]: "opt_filter P None = None"
  by (simp add: opt_filter_def)

lemma opt_filter_Some [simp]: "opt_filter P (Some x) = (if P x then Some x else None)"
  by (simp add: opt_filter_def)

lemma opt_any_simps [simp]: "opt_any P None = False" "opt_any P (Some x) = P x"
  by (simp_all add: opt_any_def)

lemma opt_any_iff: "opt_any P a \<longleftrightarrow> (\<exists>x. a = Some x \<and> P x)"
  by (cases a) auto

lemma unwrap_or_simps [simp]: "unwrap_or d None = d" "unwrap_or d (Some x) = x"
  by (simp_all add: unwrap_or_def)

end
