(* ===== verification/Containers.thy ===== *)
theory Containers
  imports Prelude
begin

text \<open>
  \<open>BTreeMap\<close> and \<open>BTreeSet\<close> as strictly sorted lists (iteration order is the list order), the
  early-return loop \<open>try_fold\<close>, and two interface locales: \<open>unique_index\<close>, the contract of a
  loop that inserts entries whose keys must be new, and \<open>stable_names\<close>, the contract of an
  \<open>as_str\<close>/\<open>parse\<close> pair.
\<close>

section \<open>Ordered sets\<close>

primrec bs_insert :: "'a::linorder \<Rightarrow> 'a list \<Rightarrow> 'a list" where
  "bs_insert x [] = [x]"
| "bs_insert x (y # ys) =
     (if x < y then x # y # ys else if x = y then y # ys else y # bs_insert x ys)"

definition bs_of_list :: "'a::linorder list \<Rightarrow> 'a list" where
  "bs_of_list xs = fold bs_insert xs []"

definition bs_ok :: "'a::linorder list \<Rightarrow> bool" where
  "bs_ok xs = sorted_wrt (<) xs"

lemma set_bs_insert [simp, container_simps]: "set (bs_insert x xs) = insert x (set xs)"
  by (induction xs) auto

lemma bs_ok_Nil [simp]: "bs_ok []"
  by (simp add: bs_ok_def)

lemma bs_ok_Cons: "bs_ok (x # xs) \<longleftrightarrow> (\<forall>y \<in> set xs. x < y) \<and> bs_ok xs"
  by (simp add: bs_ok_def)

lemma bs_ok_insert [simp]: "bs_ok xs \<Longrightarrow> bs_ok (bs_insert x xs)"
  by (induction xs) (auto simp: bs_ok_Cons)

lemma bs_ok_fold: "bs_ok s \<Longrightarrow> bs_ok (fold bs_insert xs s)"
  by (induction xs arbitrary: s) simp_all

lemma set_fold_bs_insert: "set (fold bs_insert xs s) = set xs \<union> set s"
  by (induction xs arbitrary: s) auto

lemma bs_ok_of_list [simp]: "bs_ok (bs_of_list xs)"
  by (simp add: bs_of_list_def bs_ok_fold)

lemma set_bs_of_list [simp]: "set (bs_of_list xs) = set xs"
  by (simp add: bs_of_list_def set_fold_bs_insert)

lemma bs_ok_distinct: "bs_ok xs \<Longrightarrow> distinct xs"
  by (induction xs) (auto simp: bs_ok_Cons)

lemma bs_ok_filter: "bs_ok xs \<Longrightarrow> bs_ok (filter P xs)"
  by (simp add: bs_ok_def sorted_wrt_filter)

lemma bs_ok_unique: "bs_ok xs \<Longrightarrow> bs_ok ys \<Longrightarrow> set xs = set ys \<Longrightarrow> xs = ys"
  by (simp add: bs_ok_def strict_sorted_equal)

section \<open>Ordered maps\<close>

type_synonym ('k, 'v) btree = "('k \<times> 'v) list"

primrec bt_insert :: "'k::linorder \<Rightarrow> 'v \<Rightarrow> ('k, 'v) btree \<Rightarrow> ('k, 'v) btree" where
  "bt_insert k v [] = [(k, v)]"
| "bt_insert k v (p # m) =
     (if k < fst p then (k, v) # p # m
      else if k = fst p then (k, v) # m
      else p # bt_insert k v m)"

definition bt_ok :: "('k::linorder, 'v) btree \<Rightarrow> bool" where
  "bt_ok m = bs_ok (map fst m)"

definition bt_has :: "('k, 'v) btree \<Rightarrow> 'k \<Rightarrow> bool" where
  "bt_has m k = (map_of m k \<noteq> None)"

text \<open>\<open>BTreeMap::extend\<close>: the entries of the second map win.\<close>

definition bt_extend :: "('k::linorder, 'v) btree \<Rightarrow> ('k, 'v) btree \<Rightarrow> ('k, 'v) btree" where
  "bt_extend m n = fold (\<lambda>p. bt_insert (fst p) (snd p)) n m"

lemma map_of_bt_insert [simp, container_simps]: "map_of (bt_insert k v m) = (map_of m)(k \<mapsto> v)"
  by (induction m) (auto simp: fun_eq_iff)

lemma keys_bt_insert [simp, container_simps]:
  "fst ` set (bt_insert k v m) = insert k (fst ` set m)"
  by (induction m) auto

lemma map_fst_bt_insert: "map fst (bt_insert k v m) = bs_insert k (map fst m)"
  by (induction m) auto

lemma set_bt_insert_sub: "set (bt_insert k v m) \<subseteq> insert (k, v) (set m)"
  by (induction m) auto

lemma bt_ok_Nil [simp]: "bt_ok []"
  by (simp add: bt_ok_def)

lemma bt_ok_insert [simp]: "bt_ok m \<Longrightarrow> bt_ok (bt_insert k v m)"
  by (simp add: bt_ok_def map_fst_bt_insert)

lemma bt_ok_distinct: "bt_ok m \<Longrightarrow> distinct (map fst m)"
  by (simp add: bt_ok_def bs_ok_distinct)

lemma bt_has_iff: "bt_has m k \<longleftrightarrow> k \<in> fst ` set m"
  by (auto simp: bt_has_def map_of_eq_None_iff)

lemma bt_has_insert [simp]: "bt_has (bt_insert k v m) j \<longleftrightarrow> j = k \<or> bt_has m j"
  by (simp add: bt_has_def)

lemma bt_lookup_mem: "bt_ok m \<Longrightarrow> map_of m k = Some v \<longleftrightarrow> (k, v) \<in> set m"
  by (simp add: bt_ok_distinct)

lemma bt_ok_extend [simp]: "bt_ok m \<Longrightarrow> bt_ok (bt_extend m n)"
  unfolding bt_extend_def by (induction n arbitrary: m) simp_all

lemma map_of_fold_insert:
  "distinct (map fst n) \<Longrightarrow>
   map_of (fold (\<lambda>p. bt_insert (fst p) (snd p)) n m) = map_of m ++ map_of n"
proof (induction n arbitrary: m)
  case Nil
  then show ?case by simp
next
  case (Cons p n)
  obtain k v where p: "p = (k, v)" by (cases p)
  from Cons.prems p have d: "distinct (map fst n)" and new: "map_of n k = None"
    by (simp_all add: map_of_eq_None_iff)
  show ?case
    by (rule ext) (use Cons.IH [OF d] new in \<open>auto simp: p map_add_def split: option.splits\<close>)
qed

text \<open>A loop over the entries of \<open>n\<close> that updates or inserts each key once.\<close>

lemma map_of_fold_upsert:
  "distinct (map fst n) \<Longrightarrow>
   map_of (fold (\<lambda>p t. bt_insert (fst p) (f (map_of t (fst p)) (snd p)) t) n m) k =
     (case map_of n k of None \<Rightarrow> map_of m k | Some v \<Rightarrow> Some (f (map_of m k) v))"
proof (induction n arbitrary: m)
  case Nil
  then show ?case by simp
next
  case (Cons p n)
  obtain j v where p: "p = (j, v)" by (cases p)
  from Cons.prems p have d: "distinct (map fst n)" and new: "map_of n j = None"
    by (simp_all add: map_of_eq_None_iff)
  show ?case
    using Cons.IH [OF d] new by (auto simp: p split: option.splits)
qed

lemma bt_ok_fold_upsert:
  "bt_ok m \<Longrightarrow> bt_ok (fold (\<lambda>p t. bt_insert (fst p) (f (map_of t (fst p)) (snd p)) t) n m)"
  by (induction n arbitrary: m) simp_all

lemma map_of_bt_extend: "bt_ok n \<Longrightarrow> map_of (bt_extend m n) = map_of m ++ map_of n"
  by (simp add: bt_extend_def map_of_fold_insert bt_ok_distinct)

section \<open>Loops with early return\<close>

primrec try_fold :: "('a \<Rightarrow> 's \<Rightarrow> 'e + 's) \<Rightarrow> 'a list \<Rightarrow> 's \<Rightarrow> 'e + 's" where
  "try_fold f [] s = Inr s"
| "try_fold f (x # xs) s = (case f x s of Inl e \<Rightarrow> Inl e | Inr t \<Rightarrow> try_fold f xs t)"

lemma try_fold_append:
  "try_fold f (xs @ ys) s = (case try_fold f xs s of Inl e \<Rightarrow> Inl e | Inr t \<Rightarrow> try_fold f ys t)"
  by (induction xs arbitrary: s) (auto split: sum.splits)

lemma try_fold_invariant:
  assumes "\<And>x s t. x \<in> set xs \<Longrightarrow> P s \<Longrightarrow> f x s = Inr t \<Longrightarrow> P t"
    and "P s" and "try_fold f xs s = Inr t"
  shows "P t"
  using assms
proof (induction xs arbitrary: s)
  case Nil
  then show ?case by simp
next
  case (Cons x xs)
  from Cons.prems(3) obtain u where u: "f x s = Inr u" "try_fold f xs u = Inr t"
    by (auto split: sum.splits)
  have "P u" using Cons.prems(1) [of x s u] Cons.prems(2) u(1) by simp
  show ?case by (rule Cons.IH [OF _ \<open>P u\<close> u(2)]) (use Cons.prems(1) in auto)
qed

lemma try_fold_step:
  assumes "try_fold f xs s = Inr t" and "x \<in> set xs" and "\<And>u v. f x u = Inr v \<Longrightarrow> P"
  shows P
  using assms(1,2)
proof (induction xs arbitrary: s)
  case Nil
  then show ?case by simp
next
  case (Cons y ys)
  from Cons.prems(1) obtain u where "f y s = Inr u" "try_fold f ys u = Inr t" by (auto split: sum.splits)
  with Cons.IH [of u] Cons.prems(2) assms(3) show ?case by auto
qed

section \<open>Interfaces\<close>

text \<open>
  A loop step that inserts the entry of an item under a key and fails when the key is taken.
  Every run that succeeds was given pairwise different keys, none of them taken before, and adds
  exactly the entries of its items.
\<close>

locale unique_index =
  fixes step :: "'a \<Rightarrow> 's \<Rightarrow> 'e + 's"
    and key :: "'a \<Rightarrow> 'k"
    and val :: "'a \<Rightarrow> 'v"
    and lookup :: "'s \<Rightarrow> 'k \<Rightarrow> 'v option"
  assumes step_fresh: "step a s = Inr t \<Longrightarrow> lookup s (key a) = None"
    and step_lookup: "step a s = Inr t \<Longrightarrow> lookup t = (lookup s)(key a \<mapsto> val a)"
begin

lemma run_lookup_other:
  "try_fold step xs s = Inr t \<Longrightarrow> k \<notin> key ` set xs \<Longrightarrow> lookup t k = lookup s k"
  by (induction xs arbitrary: s) (auto split: sum.splits simp: step_lookup)

lemma run_fresh: "try_fold step xs s = Inr t \<Longrightarrow> a \<in> set xs \<Longrightarrow> lookup s (key a) = None"
proof (induction xs arbitrary: s)
  case Nil
  then show ?case by simp
next
  case (Cons x xs)
  from Cons.prems(1) obtain u where u: "step x s = Inr u" "try_fold step xs u = Inr t"
    by (auto split: sum.splits)
  show ?case
  proof (cases "a = x")
    case True
    with step_fresh [OF u(1)] show ?thesis by simp
  next
    case False
    with Cons.IH [OF u(2)] Cons.prems(2) have "lookup u (key a) = None" by simp
    with step_lookup [OF u(1)] show ?thesis by (simp split: if_splits)
  qed
qed

lemma run_distinct: "try_fold step xs s = Inr t \<Longrightarrow> distinct (map key xs)"
proof (induction xs arbitrary: s)
  case Nil
  then show ?case by simp
next
  case (Cons x xs)
  from Cons.prems obtain u where u: "step x s = Inr u" "try_fold step xs u = Inr t"
    by (auto split: sum.splits)
  have "key x \<noteq> key a" if "a \<in> set xs" for a
    using run_fresh [OF u(2) that] step_lookup [OF u(1)] by auto
  then have "key x \<notin> key ` set xs" by auto
  with Cons.IH [OF u(2)] show ?case by simp
qed

lemma run_lookup_item:
  "try_fold step xs s = Inr t \<Longrightarrow> a \<in> set xs \<Longrightarrow> lookup t (key a) = Some (val a)"
proof (induction xs arbitrary: s)
  case Nil
  then show ?case by simp
next
  case (Cons x xs)
  from Cons.prems(1) obtain u where u: "step x s = Inr u" "try_fold step xs u = Inr t"
    by (auto split: sum.splits)
  show ?case
  proof (cases "a \<in> set xs")
    case True
    then show ?thesis by (rule Cons.IH [OF u(2)])
  next
    case False
    with Cons.prems(2) have [simp]: "a = x" by simp
    have "key x \<notin> key ` set xs" using run_distinct [OF Cons.prems(1)] by simp
    with run_lookup_other [OF u(2)] step_lookup [OF u(1)] show ?thesis by simp
  qed
qed

lemma run_dom: "try_fold step xs s = Inr t \<Longrightarrow> dom (lookup t) = dom (lookup s) \<union> key ` set xs"
  by (induction xs arbitrary: s) (auto split: sum.splits simp: step_lookup)

end

text \<open>The stable names of an enum: \<open>parse\<close> is the partial inverse of \<open>as_str\<close>.\<close>

locale stable_names =
  fixes as_str :: "'a \<Rightarrow> string"
    and parse :: "string \<Rightarrow> 'a option"
  assumes parse_as_str: "parse (as_str x) = Some x"
    and as_str_of_parse: "parse s = Some x \<Longrightarrow> as_str x = s"
begin

lemma as_str_inj: "as_str x = as_str y \<longleftrightarrow> x = y"
  by (metis parse_as_str option.inject)

lemma parse_iff: "parse s = Some x \<longleftrightarrow> s = as_str x"
  by (auto simp: parse_as_str as_str_of_parse)

lemma parse_None: "parse s = None \<longleftrightarrow> s \<notin> range as_str"
  by (metis (no_types, lifting) as_str_of_parse not_None_eq parse_as_str rangeE rangeI option.distinct(1))

end

end
