(* ===== verification/Utf8.thy ===== *)
theory Utf8
  imports Containers
begin

text \<open>
  Rust's \<open>String\<close>: a \<open>string\<close> here is its UTF-8 byte sequence, so \<open>length\<close> is \<open>str::len\<close>, list
  equality and lexicographic order are those of \<open>str\<close>, and \<open>chars\<close> decodes the code points.
  \<open>char::is_control\<close>, \<open>char::is_whitespace\<close> and \<open>str::trim\<close> work on code points.
\<close>

definition utf8_cont :: "string \<Rightarrow> nat \<Rightarrow> nat" where
  "utf8_cont s i = (if i < length s then of_char (s ! i) - 128 else 0)"

fun utf8_chars :: "string \<Rightarrow> nat list" where
  "utf8_chars [] = []"
| "utf8_chars (a # s) =
     (if of_char a < (128 :: nat) then of_char a # utf8_chars s
      else if of_char a < (224 :: nat)
        then ((of_char a - 192) * 64 + utf8_cont s 0) # utf8_chars (drop 1 s)
      else if of_char a < (240 :: nat)
        then ((of_char a - 224) * 4096 + utf8_cont s 0 * 64 + utf8_cont s 1) # utf8_chars (drop 2 s)
      else ((of_char a - 240) * 262144 + utf8_cont s 0 * 4096 + utf8_cont s 1 * 64 + utf8_cont s 2)
             # utf8_chars (drop 3 s))"

definition utf8_char :: "nat \<Rightarrow> string" where
  "utf8_char n =
     (if n < 128 then [char_of n]
      else if n < 2048 then [char_of (192 + n div 64), char_of (128 + n mod 64)]
      else if n < 65536
        then [char_of (224 + n div 4096), char_of (128 + n div 64 mod 64), char_of (128 + n mod 64)]
      else [char_of (240 + n div 262144), char_of (128 + n div 4096 mod 64),
            char_of (128 + n div 64 mod 64), char_of (128 + n mod 64)])"

definition utf8_encode :: "nat list \<Rightarrow> string" where
  "utf8_encode ns = concat (map utf8_char ns)"

definition is_scalar :: "nat \<Rightarrow> bool" where
  "is_scalar n = (n < 55296 \<or> 57344 \<le> n \<and> n < 1114112)"

lemma of_char_char_of_nat [simp]: "(of_char (char_of (n :: nat)) :: nat) = n mod 256"
  by (simp add: of_char_of)

lemma cont_bits [simp]: "(128 + n mod 64) mod 256 - 128 = n mod (64 :: nat)"
proof -
  have "n mod 64 < 64" by simp
  then have "(128 + n mod 64) mod 256 = 128 + n mod 64" by (intro mod_less) linarith
  then show ?thesis by simp
qed

lemma utf8_chars_utf8_char:
  assumes "n < 1114112"
  shows "utf8_chars (utf8_char n @ s) = n # utf8_chars s"
proof -
  consider "n < 128" | "128 \<le> n" "n < 2048" | "2048 \<le> n" "n < 65536" | "65536 \<le> n" by linarith
  then show ?thesis
  proof cases
    case 1
    then show ?thesis by (simp add: utf8_char_def)
  next
    case 2
    then have "n div 64 < 32" by simp
    then show ?thesis
      using 2 by (auto simp: utf8_char_def utf8_cont_def)
  next
    case 3
    then have "n div 4096 < 16" by simp
    moreover have q: "n div 4096 = n div 64 div 64" using div_mult2_eq [of n 64 64] by simp
    moreover have "n = n div 4096 * 4096 + n div 64 mod 64 * 64 + n mod 64"
      unfolding q using div_mult_mod_eq [of "n div 64" 64] div_mult_mod_eq [of n 64] by linarith
    ultimately show ?thesis
      using 3 by (auto simp: utf8_char_def utf8_cont_def numeral_2_eq_2)
  next
    case 4
    with assms have "n div 262144 < 5" by simp
    moreover have q: "n div 4096 = n div 64 div 64" "n div 262144 = n div 64 div 64 div 64"
      using div_mult2_eq [of n 64 64] div_mult2_eq [of n 4096 64] by simp_all
    moreover have "n = n div 262144 * 262144 + n div 4096 mod 64 * 4096 + n div 64 mod 64 * 64 + n mod 64"
      unfolding q using div_mult_mod_eq [of "n div 64 div 64" 64] div_mult_mod_eq [of "n div 64" 64]
        div_mult_mod_eq [of n 64] by linarith
    ultimately show ?thesis
      using 4 by (auto simp: utf8_char_def utf8_cont_def numeral_2_eq_2 numeral_3_eq_3)
  qed
qed

lemma utf8_roundtrip: "list_all is_scalar ns \<Longrightarrow> utf8_chars (utf8_encode ns) = ns"
  by (induction ns) (auto simp: utf8_encode_def is_scalar_def utf8_chars_utf8_char)

section \<open>Character classes and trimming\<close>

definition is_control :: "nat \<Rightarrow> bool" where
  "is_control n = (n < 32 \<or> 127 \<le> n \<and> n < 160)"

definition is_whitespace :: "nat \<Rightarrow> bool" where
  "is_whitespace n =
     (9 \<le> n \<and> n \<le> 13 \<or> n = 32 \<or> n = 133 \<or> n = 160 \<or> n = 5760 \<or> 8192 \<le> n \<and> n \<le> 8202
      \<or> n = 8232 \<or> n = 8233 \<or> n = 8239 \<or> n = 8287 \<or> n = 12288)"

definition trim_chars :: "nat list \<Rightarrow> nat list" where
  "trim_chars ns = rev (dropWhile is_whitespace (rev (dropWhile is_whitespace ns)))"

definition str_trim :: "string \<Rightarrow> string" where
  "str_trim s = utf8_encode (trim_chars (utf8_chars s))"

definition has_control :: "string \<Rightarrow> bool" where
  "has_control s = list_ex is_control (utf8_chars s)"

definition starts_with :: "string \<Rightarrow> string \<Rightarrow> bool" where
  "starts_with p s = (take (length p) s = p)"

definition is_ascii_digit :: "char \<Rightarrow> bool" where
  "is_ascii_digit c = (48 \<le> (of_char c :: nat) \<and> (of_char c :: nat) \<le> 57)"

definition is_ascii_uppercase :: "char \<Rightarrow> bool" where
  "is_ascii_uppercase c = (65 \<le> (of_char c :: nat) \<and> (of_char c :: nat) \<le> 90)"

definition is_ascii_graphic :: "char \<Rightarrow> bool" where
  "is_ascii_graphic c = (33 \<le> (of_char c :: nat) \<and> (of_char c :: nat) \<le> 126)"

definition is_ascii_control :: "char \<Rightarrow> bool" where
  "is_ascii_control c = ((of_char c :: nat) < 32 \<or> (of_char c :: nat) = 127)"

lemma starts_with_iff: "starts_with p s \<longleftrightarrow> (\<exists>r. s = p @ r)"
proof
  assume "starts_with p s"
  then have "s = p @ drop (length p) s"
    by (metis append_take_drop_id starts_with_def)
  then show "\<exists>r. s = p @ r" by blast
qed (auto simp: starts_with_def)

lemma dropWhile_idem: "dropWhile P (dropWhile P xs) = dropWhile P xs"
  by (induction xs) simp_all

lemma hd_dropWhile_not: "dropWhile P xs \<noteq> [] \<Longrightarrow> \<not> P (hd (dropWhile P xs))"
  by (rule hd_dropWhile)

lemma trim_chars_idem: "trim_chars (trim_chars ns) = trim_chars ns"
proof -
  have *: "dropWhile P (rev (dropWhile P (rev (dropWhile P xs)))) = rev (dropWhile P (rev (dropWhile P xs)))"
    for P and xs :: "nat list"
  proof (cases "rev (dropWhile P (rev (dropWhile P xs)))")
    case (Cons a as)
    define ys where "ys = dropWhile P xs"
    have "ys = rev (dropWhile P (rev ys)) @ rev (takeWhile P (rev ys))"
      by (metis rev_append rev_rev_ident takeWhile_dropWhile_id)
    with Cons have "ys = a # as @ rev (takeWhile P (rev ys))" by (simp add: ys_def)
    then have "ys \<noteq> []" and "hd ys = a" by (metis list.distinct(1), metis list.sel(1))
    then have "\<not> P a" using hd_dropWhile [of P xs] unfolding ys_def by blast
    with Cons show ?thesis by simp
  next
    case Nil
    show ?thesis unfolding Nil by simp
  qed
  show ?thesis by (simp add: trim_chars_def * dropWhile_idem)
qed

lemma trim_chars_sub: "set (trim_chars ns) \<subseteq> set ns"
  unfolding trim_chars_def by (metis set_dropWhileD set_rev subsetI)

end
