(* ===== verification/Validation.thy ===== *)
theory Validation
  imports Utf8
begin

text \<open>
  The checked identifiers of \<open>gateway-core\<close>: \<open>validation.rs\<close> (text constraints and the errors of
  identifiers, routing, policy and metering) and the identifier newtypes of \<open>identity.rs\<close>,
  \<open>account/\<close>, \<open>routing/\<close>, \<open>policy/\<close> and \<open>engine/\<close>, with the byte order of their text.
\<close>

section \<open>Errors and text constraints\<close>

datatype identifier_error =
    Empty
  | TooLong nat
  | ReservedPrefix
  | ControlCharacter
  | MissingPrefix string
  | InvalidFormat

datatype routing_error =
    InvalidIdentifier
  | InvalidRevision
  | InvalidAccountScope
  | EmptyAccountScope
  | DuplicateEntity string string
  | NotFound string string
  | ModelNotFound string string
  | NoCapableProvider string
  | NoCapableProviderEndpoint string

datatype policy_error = Denied string

datatype metering_error = InvalidDecimal | InvalidCurrency

definition validate_text :: "string \<Rightarrow> nat \<Rightarrow> bool \<Rightarrow> string option \<Rightarrow> identifier_error + unit" where
  "validate_text value max_bytes reject_reserved_prefix required_prefix =
     (if value = [] then Inl Empty
      else if max_bytes < length value then Inl (TooLong max_bytes)
      else if has_control value then Inl ControlCharacter
      else if reject_reserved_prefix \<and> starts_with ''__'' value then Inl ReservedPrefix
      else case required_prefix of
             Some prefix \<Rightarrow> if starts_with prefix value then Inr () else Inl (MissingPrefix prefix)
           | None \<Rightarrow> Inr ())"

lemma validate_text_ok:
  "validate_text v m r p = Inr () \<longleftrightarrow>
     v \<noteq> [] \<and> length v \<le> m \<and> \<not> has_control v \<and> (r \<longrightarrow> \<not> starts_with ''__'' v)
     \<and> (\<forall>q. p = Some q \<longrightarrow> starts_with q v)"
  by (cases p) (auto simp: validate_text_def)

section \<open>Identifier newtypes\<close>

datatype provider_kind = ProviderKind (pk_str: string)
datatype provider_account_id = ProviderAccountId (account_str: string)
datatype account_group_id = AccountGroupId (group_str: string)
datatype client_api_key_id = ClientApiKeyId (key_str: string)
datatype public_model_id = PublicModelId (public_model_str: string)
datatype upstream_model_id = UpstreamModelId (upstream_model_str: string)
datatype model_request_id = ModelRequestId (request_str: string)
datatype upstream_transport = UpstreamTransport (transport_str: string)
datatype config_revision = ConfigRevision (revision_get: nat)

definition checked_id :: "(string \<Rightarrow> 'a) \<Rightarrow> nat \<Rightarrow> bool \<Rightarrow> string option \<Rightarrow> string
    \<Rightarrow> identifier_error + 'a" where
  "checked_id mk m r p value = (case validate_text value m r p of Inl e \<Rightarrow> Inl e | Inr _ \<Rightarrow> Inr (mk value))"

definition provider_kind_new :: "string \<Rightarrow> identifier_error + provider_kind" where
  "provider_kind_new value = checked_id ProviderKind 64 True None value"

definition provider_account_id_new :: "string \<Rightarrow> identifier_error + provider_account_id" where
  "provider_account_id_new value = checked_id ProviderAccountId 128 False (Some ''acct_'') value"

definition client_api_key_id_new :: "string \<Rightarrow> identifier_error + client_api_key_id" where
  "client_api_key_id_new value = checked_id ClientApiKeyId 128 False None value"

definition public_model_id_new :: "string \<Rightarrow> identifier_error + public_model_id" where
  "public_model_id_new value = checked_id PublicModelId 256 True None value"

definition upstream_model_id_new :: "string \<Rightarrow> identifier_error + upstream_model_id" where
  "upstream_model_id_new value = checked_id UpstreamModelId 256 True None value"

definition model_request_id_new :: "string \<Rightarrow> identifier_error + model_request_id" where
  "model_request_id_new value = checked_id ModelRequestId 128 False (Some ''req_'') value"

definition upstream_transport_new :: "string \<Rightarrow> identifier_error + upstream_transport" where
  "upstream_transport_new value = checked_id UpstreamTransport 64 True None value"

text \<open>The client wire only needs a non-empty model name.\<close>

definition public_model_from_client_wire :: "string \<Rightarrow> identifier_error + public_model_id" where
  "public_model_from_client_wire value = (if value = [] then Inl Empty else Inr (PublicModelId value))"

definition upstream_model_from_client_wire :: "string \<Rightarrow> identifier_error + upstream_model_id" where
  "upstream_model_from_client_wire value = (if value = [] then Inl Empty else Inr (UpstreamModelId value))"

definition is_group_suffix_byte :: "char \<Rightarrow> bool" where
  "is_group_suffix_byte c = (is_ascii_digit c \<or> 97 \<le> (of_char c :: nat) \<and> (of_char c :: nat) \<le> 102)"

definition account_group_id_new :: "string \<Rightarrow> identifier_error + account_group_id" where
  "account_group_id_new value =
     (if \<not> starts_with ''grp_'' value then Inl (MissingPrefix ''grp_'')
      else let suffix = drop (length ''grp_'') value in
        if length suffix \<noteq> 32 \<or> \<not> list_all is_group_suffix_byte suffix then Inl InvalidFormat
        else Inr (AccountGroupId value))"

definition config_revision_new :: "nat \<Rightarrow> routing_error + config_revision" where
  "config_revision_new value = (if value = 0 then Inl InvalidRevision else Inr (ConfigRevision value))"

lemma checked_id_Inr:
  "checked_id mk m r p v = Inr x \<longleftrightarrow> validate_text v m r p = Inr () \<and> x = mk v"
  by (auto simp: checked_id_def split: sum.splits)

lemma checked_id_Inl: "checked_id mk m r p v = Inl e \<longleftrightarrow> validate_text v m r p = Inl e"
  by (auto simp: checked_id_def split: sum.splits)

section \<open>Order of the identifiers: the byte order of their text\<close>

instantiation provider_kind :: linorder
begin
definition "x \<le> y \<longleftrightarrow> pk_str x \<le> pk_str y"
definition "x < y \<longleftrightarrow> pk_str x < pk_str y"
instance by standard (auto simp: less_eq_provider_kind_def less_provider_kind_def provider_kind.expand)
end

instantiation provider_account_id :: linorder
begin
definition "x \<le> y \<longleftrightarrow> account_str x \<le> account_str y"
definition "x < y \<longleftrightarrow> account_str x < account_str y"
instance by standard
  (auto simp: less_eq_provider_account_id_def less_provider_account_id_def provider_account_id.expand)
end

instantiation account_group_id :: linorder
begin
definition "x \<le> y \<longleftrightarrow> group_str x \<le> group_str y"
definition "x < y \<longleftrightarrow> group_str x < group_str y"
instance by standard
  (auto simp: less_eq_account_group_id_def less_account_group_id_def account_group_id.expand)
end

instantiation client_api_key_id :: linorder
begin
definition "x \<le> y \<longleftrightarrow> key_str x \<le> key_str y"
definition "x < y \<longleftrightarrow> key_str x < key_str y"
instance by standard
  (auto simp: less_eq_client_api_key_id_def less_client_api_key_id_def client_api_key_id.expand)
end

instantiation public_model_id :: linorder
begin
definition "x \<le> y \<longleftrightarrow> public_model_str x \<le> public_model_str y"
definition "x < y \<longleftrightarrow> public_model_str x < public_model_str y"
instance by standard
  (auto simp: less_eq_public_model_id_def less_public_model_id_def public_model_id.expand)
end

instantiation upstream_model_id :: linorder
begin
definition "x \<le> y \<longleftrightarrow> upstream_model_str x \<le> upstream_model_str y"
definition "x < y \<longleftrightarrow> upstream_model_str x < upstream_model_str y"
instance by standard
  (auto simp: less_eq_upstream_model_id_def less_upstream_model_id_def upstream_model_id.expand)
end

lemmas id_order_defs =
  less_eq_provider_kind_def less_provider_kind_def
  less_eq_provider_account_id_def less_provider_account_id_def
  less_eq_account_group_id_def less_account_group_id_def
  less_eq_client_api_key_id_def less_client_api_key_id_def
  less_eq_public_model_id_def less_public_model_id_def
  less_eq_upstream_model_id_def less_upstream_model_id_def

end
