(* ===== verification/Policy.thy ===== *)
theory Policy
  imports Validation
begin

text \<open>
  Request policy of \<open>gateway-core\<close>: the administrator's model policy of an account
  (\<open>account/model_access.rs\<close>), the request location (\<open>account/location.rs\<close>), the plaintext
  client key, the rate limits and the client policy (\<open>policy/mod.rs\<close>), and the minimum versions
  of Codex clients (\<open>policy/client_version.rs\<close>). The semantic-version parser is the \<open>semver\<close>
  crate's: it is an argument, and the order of versions is the \<open>linorder\<close> of the version type.
  A time zone is its IANA name.
\<close>

section \<open>Model access of an account\<close>

definition max_account_access_models :: nat where
  "max_account_access_models = 256"

datatype account_model_access_mode = All | Allowlist | Denylist

record account_model_access =
  ma_mode :: account_model_access_mode
  ma_models :: "string list"

definition model_access_all :: account_model_access where
  "model_access_all = \<lparr>ma_mode = All, ma_models = []\<rparr>"

definition model_access_bad_name :: "string \<Rightarrow> bool" where
  "model_access_bad_name model =
     (str_trim model \<noteq> model \<or> str_trim model = [] \<or> CHR ''*'' \<in> set model
      \<or> validate_text model 256 True None \<noteq> Inr ())"

definition model_access_new :: "account_model_access_mode \<Rightarrow> string list \<Rightarrow> account_model_access option" where
  "model_access_new mode models =
     (if max_account_access_models < length models
         \<or> (mode = All) \<noteq> (models = [])
         \<or> list_ex model_access_bad_name models
      then None
      else Some \<lparr>ma_mode = mode, ma_models = bs_of_list models\<rparr>)"

definition model_access_allows :: "account_model_access \<Rightarrow> string \<Rightarrow> bool" where
  "model_access_allows acc upstream_model =
     (case ma_mode acc of
        All \<Rightarrow> True
      | Allowlist \<Rightarrow> upstream_model \<in> set (ma_models acc)
      | Denylist \<Rightarrow> upstream_model \<notin> set (ma_models acc))"

lemma model_access_new_Some:
  "model_access_new mode models = Some acc \<longleftrightarrow>
     length models \<le> 256 \<and> (mode = All \<longleftrightarrow> models = []) \<and> (\<forall>m \<in> set models. \<not> model_access_bad_name m)
     \<and> acc = \<lparr>ma_mode = mode, ma_models = bs_of_list models\<rparr>"
  by (auto simp: model_access_new_def max_account_access_models_def list_ex_iff)

lemma model_access_dual:
  assumes "model_access_new Allowlist ms = Some a" and "model_access_new Denylist ms = Some d"
  shows "model_access_allows a m \<longleftrightarrow> \<not> model_access_allows d m"
  using assms by (auto simp: model_access_new_Some model_access_allows_def)

section \<open>Request location\<close>

record request_location =
  rl_country :: string
  rl_region :: string
  rl_city :: string
  rl_timezone :: string

datatype invalid_request_location = Country | Region | City

definition request_location_default :: request_location where
  "request_location_default =
     \<lparr>rl_country = ''US'', rl_region = ''Ohio'', rl_city = ''Piketon'',
      rl_timezone = ''America/New_York''\<rparr>"

definition bad_place :: "string \<Rightarrow> bool" where
  "bad_place value =
     (list_ex is_control (utf8_chars value) \<or> str_trim value = []
      \<or> 128 < length (utf8_chars (str_trim value)))"

definition request_location_validate :: "request_location \<Rightarrow> invalid_request_location + unit" where
  "request_location_validate l =
     (if length (rl_country l) \<noteq> 2 \<or> \<not> list_all is_ascii_uppercase (rl_country l) then Inl Country
      else if bad_place (rl_region l) then Inl Region
      else if bad_place (rl_city l) then Inl City
      else Inr ())"

definition request_location_normalized :: "request_location \<Rightarrow> invalid_request_location + request_location" where
  "request_location_normalized l =
     (case request_location_validate l of
        Inl e \<Rightarrow> Inl e
      | Inr _ \<Rightarrow> Inr (l\<lparr>rl_region := str_trim (rl_region l), rl_city := str_trim (rl_city l)\<rparr>))"

definition is_utf8 :: "string \<Rightarrow> bool" where
  "is_utf8 s = (list_all is_scalar (utf8_chars s) \<and> utf8_encode (utf8_chars s) = s)"

lemma utf8_chars_trim:
  assumes "is_utf8 s"
  shows "utf8_chars (str_trim s) = trim_chars (utf8_chars s)"
proof -
  have "list_all is_scalar (trim_chars (utf8_chars s))"
    using assms trim_chars_sub [of "utf8_chars s"] by (auto simp: is_utf8_def list_all_iff)
  then show ?thesis by (simp add: str_trim_def utf8_roundtrip)
qed

lemma str_trim_idem: "is_utf8 s \<Longrightarrow> str_trim (str_trim s) = str_trim s"
  by (simp add: str_trim_def [of "str_trim s"] utf8_chars_trim trim_chars_idem)
     (simp add: str_trim_def)

lemma bad_place_trim: "is_utf8 s \<Longrightarrow> \<not> bad_place s \<Longrightarrow> \<not> bad_place (str_trim s)"
  using trim_chars_sub [of "utf8_chars s"]
  by (auto simp: bad_place_def str_trim_idem utf8_chars_trim list_ex_iff)

text \<open>Normalising twice is normalising once, and a normalised location validates.\<close>

lemma normalized_stable:
  assumes "is_utf8 (rl_region l)" and "is_utf8 (rl_city l)"
    and "request_location_normalized l = Inr n"
  shows "request_location_validate n = Inr () \<and> request_location_normalized n = Inr n"
proof -
  from assms(3) have ok: "request_location_validate l = Inr ()"
    and n: "n = l\<lparr>rl_region := str_trim (rl_region l), rl_city := str_trim (rl_city l)\<rparr>"
    by (auto simp: request_location_normalized_def split: sum.splits)
  have "request_location_validate n = Inr ()"
    using ok assms(1,2) by (auto simp: n request_location_validate_def bad_place_trim split: if_splits)
  then show ?thesis
    using assms(1,2) by (simp add: request_location_normalized_def n str_trim_idem)
qed

section \<open>Client keys, limits and client policy\<close>

datatype plaintext_client_api_key = PlaintextClientApiKey (expose_for_auth: string)

definition plaintext_key_validate :: "string \<Rightarrow> identifier_error + unit" where
  "plaintext_key_validate value =
     (if value = [] then Inl Empty
      else if \<not> list_all is_ascii_graphic value then Inl InvalidFormat
      else Inr ())"

definition plaintext_key_new :: "string \<Rightarrow> identifier_error + plaintext_client_api_key" where
  "plaintext_key_new value =
     (case plaintext_key_validate value of Inl e \<Rightarrow> Inl e | Inr _ \<Rightarrow> Inr (PlaintextClientApiKey value))"

record rate_limits =
  rate_max_concurrency :: nat
  requests_per_minute :: nat

definition rate_limits_unlimited :: rate_limits where
  "rate_limits_unlimited = \<lparr>rate_max_concurrency = 0, requests_per_minute = 0\<rparr>"

record 'scope client_policy =
  cp_key_id :: client_api_key_id
  cp_plaintext_key :: plaintext_client_api_key
  cp_account_scope :: 'scope
  cp_enabled :: bool
  cp_limits :: rate_limits

definition client_policy_new ::
  "client_api_key_id \<Rightarrow> plaintext_client_api_key \<Rightarrow> 'scope \<Rightarrow> bool \<Rightarrow> rate_limits \<Rightarrow> 'scope client_policy" where
  "client_policy_new key_id plaintext_key account_scope enabled limits =
     \<lparr>cp_key_id = key_id, cp_plaintext_key = plaintext_key, cp_account_scope = account_scope,
      cp_enabled = enabled, cp_limits = limits\<rparr>"

definition client_policy_authorize :: "'scope client_policy \<Rightarrow> policy_error + unit" where
  "client_policy_authorize p =
     (if cp_enabled p then Inr () else Inl (Denied ''client API key is disabled''))"

section \<open>Minimum client versions\<close>

datatype codex_client_kind = Desktop | Cli

fun codex_client_kind_as_str :: "codex_client_kind \<Rightarrow> string" where
  "codex_client_kind_as_str Desktop = ''codex_desktop''"
| "codex_client_kind_as_str Cli = ''codex_cli''"

definition client_version_parse :: "(string \<Rightarrow> 'v option) \<Rightarrow> string \<Rightarrow> 'v option" where
  "client_version_parse semver_parse value =
     (if value = [] \<or> 64 < length value \<or> str_trim value \<noteq> value \<or> list_ex is_ascii_control value
      then None
      else semver_parse value)"

record 'v codex_client_min_versions =
  min_desktop :: "'v option"
  min_cli :: "'v option"

definition min_for :: "'v codex_client_min_versions \<Rightarrow> codex_client_kind \<Rightarrow> 'v option" where
  "min_for m kind = (case kind of Desktop \<Rightarrow> min_desktop m | Cli \<Rightarrow> min_cli m)"

datatype 'v client_version_rejection =
    Unavailable codex_client_kind 'v
  | TooOld codex_client_kind 'v 'v

definition enforce_min_version ::
  "'v::linorder codex_client_min_versions \<Rightarrow> codex_client_kind \<Rightarrow> 'v option
   \<Rightarrow> 'v client_version_rejection + unit" where
  "enforce_min_version m kind current =
     (case min_for m kind of
        None \<Rightarrow> Inr ()
      | Some mn \<Rightarrow>
          (case current of
             None \<Rightarrow> Inl (Unavailable kind mn)
           | Some cur \<Rightarrow> if cur < mn then Inl (TooOld kind cur mn) else Inr ()))"

lemma enforce_min_version_ok:
  "enforce_min_version m kind current = Inr () \<longleftrightarrow>
     (\<forall>mn. min_for m kind = Some mn \<longrightarrow> (\<exists>cur. current = Some cur \<and> mn \<le> cur))"
  by (auto simp: enforce_min_version_def split: option.splits)

end
