(* ===== verification/Metering.thy ===== *)
theory Metering
  imports Policy
begin

text \<open>
  \<open>metering/mod.rs\<close> and \<open>metering/pricing.rs\<close>: the fixed-point \<open>Decimal\<close> of
  \<open>numeric(20, 10)\<close> with its parser and its two printers, money, token usage, the cost of a
  request and its breakdown under a custom multiplier, token prices and the layering of price
  overrides. Amounts are \<open>nat\<close> ticks; every \<open>u128\<close> operation is checked as in the source.
\<close>

section \<open>Decimal numbers\<close>

definition decimal_scale :: nat where
  "decimal_scale = 10000000000"

definition max_scaled_decimal :: nat where
  "max_scaled_decimal = 99999999999999999999"

datatype decimal = Decimal (scaled: nat)

definition decimal_zero :: decimal where
  "decimal_zero = Decimal 0"

definition decimal_max :: decimal where
  "decimal_max = Decimal max_scaled_decimal"

definition decimal_ok :: "decimal \<Rightarrow> bool" where
  "decimal_ok d = (scaled d \<le> max_scaled_decimal)"

instantiation decimal :: linorder
begin
definition "x \<le> y \<longleftrightarrow> scaled x \<le> scaled y"
definition "x < y \<longleftrightarrow> scaled x < scaled y"
instance by standard (auto simp: less_eq_decimal_def less_decimal_def decimal.expand)
end

definition from_scaled :: "nat \<Rightarrow> metering_error + decimal" where
  "from_scaled value = (if max_scaled_decimal < value then Inl InvalidDecimal else Inr (Decimal value))"

definition sum_ok :: "'e + 'a \<Rightarrow> 'a option" where
  "sum_ok r = (case r of Inl _ \<Rightarrow> None | Inr x \<Rightarrow> Some x)"

definition decimal_saturating_sub :: "decimal \<Rightarrow> decimal \<Rightarrow> decimal" where
  "decimal_saturating_sub a b = Decimal (scaled a - scaled b)"

definition decimal_checked_add :: "decimal \<Rightarrow> decimal \<Rightarrow> decimal option" where
  "decimal_checked_add a b =
     map_option Decimal
       (opt_filter (\<lambda>value. value \<le> max_scaled_decimal) (checked_add u128_max (scaled a) (scaled b)))"

definition decimal_checked_div_u64 :: "decimal \<Rightarrow> nat \<Rightarrow> decimal option" where
  "decimal_checked_div_u64 a divisor =
     Option.bind (if divisor \<noteq> 0 then checked_div (scaled a) divisor else None)
       (\<lambda>value. sum_ok (from_scaled value))"

lemma sum_ok_Some [simp]: "sum_ok r = Some x \<longleftrightarrow> r = Inr x"
  by (cases r) (auto simp: sum_ok_def)

lemma from_scaled_Inr [simp]: "from_scaled v = Inr d \<longleftrightarrow> v \<le> max_scaled_decimal \<and> d = Decimal v"
  by (auto simp: from_scaled_def)

lemma decimal_checked_add_Some:
  "decimal_checked_add a b = Some c \<longleftrightarrow>
     scaled a + scaled b \<le> max_scaled_decimal \<and> c = Decimal (scaled a + scaled b)"
  by (auto simp: decimal_checked_add_def max_scaled_decimal_def)

lemma decimal_checked_add_ok: "decimal_checked_add a b = Some c \<Longrightarrow> decimal_ok c \<and> a \<le> c \<and> b \<le> c"
  by (auto simp: decimal_checked_add_Some decimal_ok_def less_eq_decimal_def)

section \<open>Digits\<close>

definition digit_char :: "nat \<Rightarrow> char" where
  "digit_char n = char_of (48 + n)"

fun nat_str :: "nat \<Rightarrow> string" where
  "nat_str n = (if n < 10 then [digit_char n] else nat_str (n div 10) @ [digit_char (n mod 10)])"

declare nat_str.simps [simp del]

text \<open>\<open>{n:010}\<close>: at least ten digits, padded with zeros on the left.\<close>

definition pad10 :: "nat \<Rightarrow> string" where
  "pad10 n = replicate (10 - length (nat_str n)) (CHR ''0'') @ nat_str n"

definition digits_value :: "string \<Rightarrow> nat" where
  "digits_value s = foldl (\<lambda>a c. a * 10 + (of_char c - 48)) 0 s"

text \<open>\<open>str::parse::<u128>\<close> of a text of decimal digits.\<close>

definition parse_u128 :: "string \<Rightarrow> nat option" where
  "parse_u128 s =
     (if s = [] \<or> \<not> list_all is_ascii_digit s \<or> u128_max < digits_value s then None
      else Some (digits_value s))"

definition trim_end_zeros :: "string \<Rightarrow> string" where
  "trim_end_zeros s = rev (dropWhile (\<lambda>c. c = CHR ''0'') (rev s))"

fun split_on :: "char \<Rightarrow> string \<Rightarrow> string list" where
  "split_on d [] = [[]]"
| "split_on d (c # s) =
     (if c = d then [] # split_on d s
      else case split_on d s of [] \<Rightarrow> [[c]] | p # ps \<Rightarrow> (c # p) # ps)"

lemma split_on_not_Nil [simp]: "split_on d s \<noteq> []"
  by (induction s) (auto split: list.splits)

lemma split_on_none: "d \<notin> set s \<Longrightarrow> split_on d s = [s]"
  by (induction s) auto

lemma split_on_append: "d \<notin> set a \<Longrightarrow> split_on d (a @ d # b) = a # split_on d b"
  by (induction a) auto

lemma foldl_digits:
  "foldl (\<lambda>a c. a * 10 + (of_char c - 48)) v s = v * 10 ^ length s + digits_value s"
proof (induction s rule: rev_induct)
  case Nil
  then show ?case by (simp add: digits_value_def)
next
  case (snoc c s)
  then show ?case by (simp add: digits_value_def algebra_simps)
qed

lemma digits_value_append:
  "digits_value (a @ b) = digits_value a * 10 ^ length b + digits_value b"
  using foldl_digits [of "digits_value a" b] by (simp add: digits_value_def)

lemma digits_value_snoc: "digits_value (a @ [c]) = digits_value a * 10 + (of_char c - 48)"
  by (simp add: digits_value_def)

lemma digits_value_zeros [simp]: "digits_value (replicate k (CHR ''0'')) = 0"
proof (induction k)
  case 0
  then show ?case by (simp add: digits_value_def)
next
  case (Suc k)
  have "replicate (Suc k) (CHR ''0'') = replicate k (CHR ''0'') @ [CHR ''0'']"
    by (simp add: replicate_append_same)
  with Suc show ?case by (simp add: digits_value_snoc del: replicate_Suc)
qed

lemma digits_value_bound: "list_all is_ascii_digit s \<Longrightarrow> digits_value s < 10 ^ length s"
proof (induction s rule: rev_induct)
  case Nil
  then show ?case by (simp add: digits_value_def)
next
  case (snoc c s)
  then have "digits_value s < 10 ^ length s" and "(of_char c :: nat) - 48 < 10"
    by (auto simp: is_ascii_digit_def)
  then show ?case by (simp add: digits_value_snoc)
qed

lemma of_char_digit [simp]: "n < 10 \<Longrightarrow> (of_char (digit_char n) :: nat) = 48 + n"
  by (simp add: digit_char_def)

lemma is_ascii_digit_char [simp]: "n < 10 \<Longrightarrow> is_ascii_digit (digit_char n)"
  by (simp add: is_ascii_digit_def)

lemma digits_nat_str: "list_all is_ascii_digit (nat_str n)"
  by (induction n rule: nat_str.induct) (subst nat_str.simps, simp)

lemma nat_str_not_Nil [simp]: "nat_str n \<noteq> []"
  by (subst nat_str.simps) simp

lemma digits_value_nat_str [simp]: "digits_value (nat_str n) = n"
proof (induction n rule: nat_str.induct)
  case (1 n)
  show ?case
  proof (cases "n < 10")
    case True
    then show ?thesis by (subst nat_str.simps) (simp add: digits_value_def)
  next
    case False
    then show ?thesis by (subst nat_str.simps) (simp add: 1 digits_value_snoc)
  qed
qed

lemma length_nat_str: "n < 10 ^ Suc k \<Longrightarrow> length (nat_str n) \<le> Suc k"
proof (induction k arbitrary: n)
  case 0
  then show ?case by (subst nat_str.simps) simp
next
  case (Suc k)
  show ?case
  proof (cases "n < 10")
    case True
    then show ?thesis by (subst nat_str.simps) simp
  next
    case False
    from Suc.prems have "n div 10 < 10 ^ Suc k" by (simp add: less_mult_imp_div_less mult.commute)
    then have "length (nat_str (n div 10)) \<le> Suc k" by (rule Suc.IH)
    with False show ?thesis by (subst nat_str.simps) simp
  qed
qed

lemma digits_pad10: "list_all is_ascii_digit (pad10 n)"
  by (auto simp: pad10_def digits_nat_str list_all_iff is_ascii_digit_def set_replicate_conv_if
      dest: digits_nat_str [unfolded list_all_iff, rule_format])

lemma digits_value_pad10 [simp]: "digits_value (pad10 n) = n"
  by (simp add: pad10_def digits_value_append)

lemma length_pad10: "n < 10 ^ 10 \<Longrightarrow> length (pad10 n) = 10"
  using length_nat_str [of n 9] by (simp add: pad10_def)

lemma dot_not_digit: "list_all is_ascii_digit s \<Longrightarrow> CHR ''.'' \<notin> set s"
  by (auto simp: list_all_iff is_ascii_digit_def)

section \<open>Parsing and printing\<close>

definition decimal_from_str :: "string \<Rightarrow> metering_error + decimal" where
  "decimal_from_str value =
     (if value = [] \<or> hd value = CHR ''-'' \<or> hd value = CHR ''+'' then Inl InvalidDecimal
      else
        let parts = split_on (CHR ''.'') value;
            integer = hd parts;
            fraction = (case tl parts of [] \<Rightarrow> [] | f # _ \<Rightarrow> f)
        in if tl (tl parts) \<noteq> []
              \<or> integer = []
              \<or> 10 < length integer
              \<or> \<not> list_all is_ascii_digit integer
              \<or> 10 < length fraction
              \<or> \<not> list_all is_ascii_digit fraction
           then Inl InvalidDecimal
           else case parse_u128 integer of
             None \<Rightarrow> Inl InvalidDecimal
           | Some whole \<Rightarrow>
               (case (if fraction = [] then Some 0
                      else map_option (\<lambda>f. f * 10 ^ (10 - length fraction)) (parse_u128 fraction)) of
                  None \<Rightarrow> Inl InvalidDecimal
                | Some frac \<Rightarrow>
                    (case Option.bind (checked_mul u128_max whole decimal_scale)
                            (\<lambda>w. checked_add u128_max w frac) of
                       None \<Rightarrow> Inl InvalidDecimal
                     | Some ticks \<Rightarrow> from_scaled ticks)))"

definition decimal_display :: "decimal \<Rightarrow> string" where
  "decimal_display d =
     (let integer = scaled d div decimal_scale; fraction = scaled d mod decimal_scale
      in nat_str integer @ ''.'' @ pad10 fraction)"

definition decimal_canonical :: "decimal \<Rightarrow> string" where
  "decimal_canonical d =
     (let integer = scaled d div decimal_scale; fraction = scaled d mod decimal_scale
      in if fraction = 0 then nat_str integer
         else nat_str integer @ ''.'' @ trim_end_zeros (pad10 fraction))"

lemma parse_u128_short:
  assumes "list_all is_ascii_digit s" and "s \<noteq> []" and "length s \<le> 10"
  shows "parse_u128 s = Some (digits_value s)"
proof -
  have "digits_value s < 10 ^ length s" using assms(1) by (rule digits_value_bound)
  also have "\<dots> \<le> (10 :: nat) ^ 10" using assms(3) by (intro power_increasing) simp_all
  finally show ?thesis using assms(1,2) by (simp add: parse_u128_def)
qed

text \<open>The value of a well-formed text: the integer digits, and a fraction of at most ten digits.\<close>

lemma from_str_parts:
  assumes i: "list_all is_ascii_digit i" "i \<noteq> []" "length i \<le> 10"
    and f: "list_all is_ascii_digit f" "length f \<le> 10"
    and v: "value = i \<and> f = [] \<or> value = i @ ''.'' @ f"
  shows "decimal_from_str value =
           Inr (Decimal (digits_value i * decimal_scale + digits_value f * 10 ^ (10 - length f)))"
proof -
  from i have hd: "hd i \<noteq> CHR ''-''" "hd i \<noteq> CHR ''+''"
    by (cases i; auto simp: is_ascii_digit_def)+
  have parts: "split_on (CHR ''.'') value = (if value = i then [i] else [i, f])"
    using v dot_not_digit [OF i(1)] dot_not_digit [OF f(1)]
    by (auto simp: split_on_none split_on_append)
  have "digits_value i < 10 ^ length i" using i(1) by (rule digits_value_bound)
  also have "\<dots> \<le> (10 :: nat) ^ 10" using i(3) by (intro power_increasing) simp_all
  finally have bi: "digits_value i \<le> 9999999999" by simp
  have bf: "digits_value f * 10 ^ (10 - length f) < 10 ^ 10"
  proof -
    have "digits_value f < 10 ^ length f" using f(1) by (rule digits_value_bound)
    then have "digits_value f * 10 ^ (10 - length f) < 10 ^ length f * 10 ^ (10 - length f)" by simp
    also have "\<dots> = 10 ^ 10" using f(2) by (simp flip: power_add)
    finally show ?thesis .
  qed
  have frac: "(if f = [] then Some 0 else map_option (\<lambda>g. g * 10 ^ (10 - length f)) (parse_u128 f))
      = Some (digits_value f * 10 ^ (10 - length f))"
    using f by (auto simp: parse_u128_short digits_value_def)
  have "value \<noteq> []" "hd value = hd i" using v i(2) by auto
  moreover have "value = i \<longrightarrow> f = []" using v by auto
  moreover have "digits_value i * 10000000000 + digits_value f * 10 ^ (10 - length f)
      \<le> 99999999999999999999" using bi bf by simp
  ultimately show ?thesis
    using hd i f frac
    by (auto simp: decimal_from_str_def parts parse_u128_short [OF i(1,2,3)] decimal_scale_def
        checked_mul_def checked_add_def from_scaled_def max_scaled_decimal_def Let_def)
qed

lemma trim_end_zeros_split: "\<exists>k. s = trim_end_zeros s @ replicate k (CHR ''0'')"
proof -
  let ?P = "\<lambda>c. c = CHR ''0''"
  have "rev s = takeWhile ?P (rev s) @ dropWhile ?P (rev s)" by simp
  then have "s = trim_end_zeros s @ rev (takeWhile ?P (rev s))"
    by (metis rev_append rev_rev_ident trim_end_zeros_def)
  moreover have "rev (takeWhile ?P (rev s)) = replicate (length (takeWhile ?P (rev s))) (CHR ''0'')"
    by (rule replicate_eqI) (auto dest: set_takeWhileD)
  ultimately show ?thesis by metis
qed

lemma nat_str_integer:
  assumes "decimal_ok d"
  shows "length (nat_str (scaled d div decimal_scale)) \<le> 10"
proof -
  have "scaled d div decimal_scale < 10 ^ Suc 9"
    using assms by (simp add: decimal_ok_def max_scaled_decimal_def decimal_scale_def)
  then show ?thesis using length_nat_str [of _ 9] by simp
qed

lemma display_parse:
  assumes "decimal_ok d"
  shows "decimal_from_str (decimal_display d) = Inr d"
proof -
  let ?i = "scaled d div decimal_scale" and ?f = "scaled d mod decimal_scale"
  have "?f < 10 ^ 10" by (simp add: decimal_scale_def)
  then have "decimal_from_str (decimal_display d) = Inr (Decimal (?i * decimal_scale + ?f))"
    using from_str_parts [of "nat_str ?i" "pad10 ?f" "decimal_display d"] nat_str_integer [OF assms]
    by (simp add: digits_nat_str digits_pad10 length_pad10 decimal_display_def Let_def)
  then show ?thesis by simp
qed

lemma canonical_parse:
  assumes "decimal_ok d"
  shows "decimal_from_str (decimal_canonical d) = Inr d"
proof (cases "scaled d mod decimal_scale = 0")
  case True
  then have "decimal_from_str (decimal_canonical d)
      = Inr (Decimal (scaled d div decimal_scale * decimal_scale))"
    using from_str_parts [of "nat_str (scaled d div decimal_scale)" "[]" "decimal_canonical d"]
      nat_str_integer [OF assms]
    by (simp add: digits_nat_str decimal_canonical_def digits_value_def [of "[]"] Let_def)
  then show ?thesis using True by (metis add_0_right decimal.collapse div_mult_mod_eq)
next
  case False
  let ?i = "scaled d div decimal_scale" and ?f = "scaled d mod decimal_scale"
  let ?t = "trim_end_zeros (pad10 ?f)"
  obtain k where k: "pad10 ?f = ?t @ replicate k (CHR ''0'')" using trim_end_zeros_split by blast
  have "?f < 10 ^ 10" by (simp add: decimal_scale_def)
  then have len: "length ?t + k = 10" using arg_cong [OF k, of length] length_pad10 by simp
  have "list_all is_ascii_digit ?t" using digits_pad10 [of ?f] k by (metis list_all_append)
  moreover have "digits_value ?t * 10 ^ (10 - length ?t) = ?f"
  proof -
    have "10 - length ?t = k" using len by simp
    then show ?thesis
      using arg_cong [OF k, of digits_value] by (simp only: digits_value_append digits_value_pad10) simp
  qed
  ultimately have "decimal_from_str (decimal_canonical d) = Inr (Decimal (?i * decimal_scale + ?f))"
    using from_str_parts [of "nat_str ?i" ?t "decimal_canonical d"] nat_str_integer [OF assms] len False
    by (simp add: digits_nat_str decimal_canonical_def Let_def)
  then show ?thesis by simp
qed

lemma from_str_ok: "decimal_from_str s = Inr d \<Longrightarrow> decimal_ok d"
  by (auto simp: decimal_from_str_def decimal_ok_def Let_def split: if_splits option.splits list.splits)

section \<open>Money\<close>

datatype currency_code = CurrencyCode (currency_str: string)

definition currency_new :: "string \<Rightarrow> metering_error + currency_code" where
  "currency_new value =
     (if length value \<noteq> 3 \<or> \<not> list_all is_ascii_uppercase value then Inl InvalidCurrency
      else Inr (CurrencyCode value))"

record money =
  amount :: decimal
  currency :: currency_code

definition money_new :: "decimal \<Rightarrow> currency_code \<Rightarrow> money" where
  "money_new a c = \<lparr>amount = a, currency = c\<rparr>"

abbreviation ticks :: "money \<Rightarrow> nat" where
  "ticks m \<equiv> scaled (amount m)"

definition money_checked_add :: "money \<Rightarrow> money \<Rightarrow> money option" where
  "money_checked_add a b =
     (if currency a \<noteq> currency b then None
      else map_option (\<lambda>x. money_new x (currency a)) (decimal_checked_add (amount a) (amount b)))"

section \<open>Usage\<close>

record usage =
  input_tokens :: "nat option"
  output_tokens :: "nat option"
  cached_tokens :: "nat option"
  cache_write_tokens :: "nat option"
  reasoning_tokens :: "nat option"
  image_input_tokens :: "nat option"
  image_output_tokens :: "nat option"
  total_tokens :: "nat option"

definition usage_new :: usage where
  "usage_new =
     \<lparr>input_tokens = None, output_tokens = None, cached_tokens = None, cache_write_tokens = None,
      reasoning_tokens = None, image_input_tokens = None, image_output_tokens = None,
      total_tokens = None\<rparr>"

definition usage_merge :: "usage \<Rightarrow> usage \<Rightarrow> usage" where
  "usage_merge u newer =
     (let u = (if input_tokens newer \<noteq> None then u\<lparr>input_tokens := input_tokens newer\<rparr> else u);
          u = (if output_tokens newer \<noteq> None then u\<lparr>output_tokens := output_tokens newer\<rparr> else u);
          u = (if cached_tokens newer \<noteq> None then u\<lparr>cached_tokens := cached_tokens newer\<rparr> else u);
          u = (if cache_write_tokens newer \<noteq> None
               then u\<lparr>cache_write_tokens := cache_write_tokens newer\<rparr> else u);
          u = (if reasoning_tokens newer \<noteq> None
               then u\<lparr>reasoning_tokens := reasoning_tokens newer\<rparr> else u);
          u = (if image_input_tokens newer \<noteq> None
               then u\<lparr>image_input_tokens := image_input_tokens newer\<rparr> else u);
          u = (if image_output_tokens newer \<noteq> None
               then u\<lparr>image_output_tokens := image_output_tokens newer\<rparr> else u);
          u = (if total_tokens newer \<noteq> None then u\<lparr>total_tokens := total_tokens newer\<rparr> else u)
      in u)"

text \<open>Field by field, the newer value when it is present.\<close>

lemma usage_merge_fields:
  "input_tokens (usage_merge u n) = opt_or (input_tokens n) (input_tokens u)"
  "output_tokens (usage_merge u n) = opt_or (output_tokens n) (output_tokens u)"
  "cached_tokens (usage_merge u n) = opt_or (cached_tokens n) (cached_tokens u)"
  "cache_write_tokens (usage_merge u n) = opt_or (cache_write_tokens n) (cache_write_tokens u)"
  "reasoning_tokens (usage_merge u n) = opt_or (reasoning_tokens n) (reasoning_tokens u)"
  "image_input_tokens (usage_merge u n) = opt_or (image_input_tokens n) (image_input_tokens u)"
  "image_output_tokens (usage_merge u n) = opt_or (image_output_tokens n) (image_output_tokens u)"
  "total_tokens (usage_merge u n) = opt_or (total_tokens n) (total_tokens u)"
  by (simp_all add: usage_merge_def opt_or_def Let_def split: option.splits)

lemma opt_or_assoc: "opt_or (opt_or a b) c = opt_or a (opt_or b c)"
  by (cases a) simp_all

lemma usage_merge_assoc: "usage_merge (usage_merge a b) c = usage_merge a (usage_merge b c)"
  by (rule usage.equality) (simp_all add: usage_merge_fields opt_or_assoc)

section \<open>Cost of a request\<close>

datatype cost_source = ProviderReported | Calculated | CostUnavailable

datatype cost_estimate_status = CostKnown | CostUnknown

fun cost_source_as_str :: "cost_source \<Rightarrow> string" where
  "cost_source_as_str ProviderReported = ''provider_reported''"
| "cost_source_as_str Calculated = ''calculated''"
| "cost_source_as_str CostUnavailable = ''unavailable''"

fun cost_status_as_str :: "cost_estimate_status \<Rightarrow> string" where
  "cost_status_as_str CostKnown = ''known''"
| "cost_status_as_str CostUnknown = ''unknown''"

record image_cost_breakdown =
  img_input_tokens :: nat
  img_cached_tokens :: nat
  img_input_amount :: money
  img_cache_read_amount :: money
  img_input_price_per_million :: money
  img_cache_read_price_per_million :: money

record calculated_cost_amounts =
  ca_input :: money
  ca_output :: money
  ca_cache_read :: money
  ca_cache_write :: money
  ca_standard :: money
  ca_total :: money

record calculated_cost_rates =
  cr_input :: money
  cr_output :: money
  cr_cache_read :: money
  cr_cache_write :: money

record calculated_cost_breakdown =
  long_context_billing_applied :: bool
  image :: "image_cost_breakdown option"
  input_amount :: money
  output_amount :: money
  cache_read_amount :: money
  cache_write_amount :: money
  standard_amount :: money
  total_amount :: money
  input_price_per_million :: money
  output_price_per_million :: money
  cache_read_price_per_million :: money
  cache_write_price_per_million :: money
  service_tier :: "string option"
  multiplier_percent :: nat
  custom_multiplier_bps :: nat

record cost_estimate =
  ce_status :: cost_estimate_status
  ce_source :: cost_source
  ce_total :: "money option"
  ce_breakdown :: "calculated_cost_breakdown option"

record calculated_cost =
  cc_total :: money
  cc_breakdown :: "calculated_cost_breakdown option"

record provider_reported_cost =
  prc_total :: money

definition breakdown_new ::
  "calculated_cost_amounts \<Rightarrow> calculated_cost_rates \<Rightarrow> string option \<Rightarrow> nat \<Rightarrow> calculated_cost_breakdown" where
  "breakdown_new amounts rates tier percent =
     \<lparr>long_context_billing_applied = False, image = None,
      input_amount = ca_input amounts, output_amount = ca_output amounts,
      cache_read_amount = ca_cache_read amounts, cache_write_amount = ca_cache_write amounts,
      standard_amount = ca_standard amounts, total_amount = ca_total amounts,
      input_price_per_million = cr_input rates, output_price_per_million = cr_output rates,
      cache_read_price_per_million = cr_cache_read rates,
      cache_write_price_per_million = cr_cache_write rates,
      service_tier = tier, multiplier_percent = percent, custom_multiplier_bps = 10000\<rparr>"

definition with_long_context_billing :: "calculated_cost_breakdown \<Rightarrow> bool \<Rightarrow> calculated_cost_breakdown" where
  "with_long_context_billing b applied = b\<lparr>long_context_billing_applied := applied\<rparr>"

definition with_image :: "calculated_cost_breakdown \<Rightarrow> image_cost_breakdown \<Rightarrow> calculated_cost_breakdown" where
  "with_image b img = b\<lparr>image := Some img\<rparr>"

definition breakdown_calculated_cost :: "calculated_cost_breakdown \<Rightarrow> calculated_cost" where
  "breakdown_calculated_cost b = \<lparr>cc_total = total_amount b, cc_breakdown = Some b\<rparr>"

definition provider_reported_from_usd_ticks :: "nat \<Rightarrow> metering_error + provider_reported_cost" where
  "provider_reported_from_usd_ticks t =
     (case from_scaled t of Inl e \<Rightarrow> Inl e
      | Inr d \<Rightarrow> Inr \<lparr>prc_total = money_new d (CurrencyCode ''USD'')\<rparr>)"

definition provider_reported_into_estimate :: "provider_reported_cost \<Rightarrow> cost_estimate" where
  "provider_reported_into_estimate c =
     \<lparr>ce_status = CostKnown, ce_source = ProviderReported, ce_total = Some (prc_total c),
      ce_breakdown = None\<rparr>"

definition calculated_from_usd_ticks :: "nat \<Rightarrow> metering_error + calculated_cost" where
  "calculated_from_usd_ticks t =
     (case from_scaled t of Inl e \<Rightarrow> Inl e
      | Inr d \<Rightarrow> Inr \<lparr>cc_total = money_new d (CurrencyCode ''USD''), cc_breakdown = None\<rparr>)"

definition calculated_into_estimate :: "calculated_cost \<Rightarrow> cost_estimate" where
  "calculated_into_estimate c =
     \<lparr>ce_status = CostKnown, ce_source = Calculated, ce_total = Some (cc_total c),
      ce_breakdown = cc_breakdown c\<rparr>"

definition cost_estimate_unavailable :: cost_estimate where
  "cost_estimate_unavailable =
     \<lparr>ce_status = CostUnknown, ce_source = CostUnavailable, ce_total = None, ce_breakdown = None\<rparr>"

section \<open>Custom multiplier\<close>

definition scale_money :: "nat \<Rightarrow> money \<Rightarrow> money option" where
  "scale_money bps money =
     do {
       product \<leftarrow> checked_mul u128_max (ticks money) bps;
       rounded \<leftarrow> checked_add u128_max product 5000;
       quotient \<leftarrow> checked_div rounded 10000;
       d \<leftarrow> sum_ok (from_scaled quotient);
       Some (money_new d (currency money))
     }"

definition scale_image :: "nat \<Rightarrow> image_cost_breakdown \<Rightarrow> image_cost_breakdown option" where
  "scale_image bps img =
     do {
       inp \<leftarrow> scale_money bps (img_input_amount img);
       cache \<leftarrow> scale_money bps (img_cache_read_amount img);
       inp_price \<leftarrow> scale_money bps (img_input_price_per_million img);
       cache_price \<leftarrow> scale_money bps (img_cache_read_price_per_million img);
       Some (img\<lparr>img_input_amount := inp, img_cache_read_amount := cache,
                 img_input_price_per_million := inp_price,
                 img_cache_read_price_per_million := cache_price\<rparr>)
     }"

definition add_ticks :: "nat \<Rightarrow> money list \<Rightarrow> nat option" where
  "add_ticks start ms =
     fold (\<lambda>m acc. Option.bind acc (\<lambda>a. checked_add u128_max a (ticks m))) ms (Some start)"

definition token_ticks :: "calculated_cost_breakdown \<Rightarrow> nat option" where
  "token_ticks b =
     do {
       t \<leftarrow> add_ticks (ticks (input_amount b)) [output_amount b, cache_read_amount b, cache_write_amount b];
       (case image b of
          None \<Rightarrow> Some t
        | Some img \<Rightarrow> add_ticks t [img_input_amount img, img_cache_read_amount img])
     }"

definition scale_amounts :: "nat \<Rightarrow> calculated_cost_breakdown \<Rightarrow> calculated_cost_breakdown option" where
  "scale_amounts bps b =
     do {
       img \<leftarrow> (case image b of None \<Rightarrow> Some None | Some img \<Rightarrow> map_option Some (scale_image bps img));
       inp \<leftarrow> scale_money bps (input_amount b);
       out \<leftarrow> scale_money bps (output_amount b);
       cread \<leftarrow> scale_money bps (cache_read_amount b);
       cwrite \<leftarrow> scale_money bps (cache_write_amount b);
       standard \<leftarrow> scale_money bps (standard_amount b);
       Some (b\<lparr>image := img, input_amount := inp, output_amount := out, cache_read_amount := cread,
               cache_write_amount := cwrite, standard_amount := standard\<rparr>)
     }"

definition total_ticks :: "calculated_cost_breakdown \<Rightarrow> money \<Rightarrow> nat option" where
  "total_ticks b other =
     do {
       t \<leftarrow> add_ticks (ticks (input_amount b))
              [output_amount b, cache_read_amount b, cache_write_amount b, other];
       (case image b of
          None \<Rightarrow> Some t
        | Some img \<Rightarrow> add_ticks t [img_input_amount img, img_cache_read_amount img])
     }"

definition scale_prices :: "nat \<Rightarrow> calculated_cost_breakdown \<Rightarrow> calculated_cost_breakdown option" where
  "scale_prices bps b =
     do {
       inp \<leftarrow> scale_money bps (input_price_per_million b);
       out \<leftarrow> scale_money bps (output_price_per_million b);
       cread \<leftarrow> scale_money bps (cache_read_price_per_million b);
       cwrite \<leftarrow> scale_money bps (cache_write_price_per_million b);
       Some (b\<lparr>input_price_per_million := inp, output_price_per_million := out,
               cache_read_price_per_million := cread, cache_write_price_per_million := cwrite\<rparr>)
     }"

definition with_custom_multiplier ::
  "calculated_cost_breakdown \<Rightarrow> nat \<Rightarrow> calculated_cost_breakdown option" where
  "with_custom_multiplier b0 bps =
     (if 1000000 < bps then None
      else do {
        let previous_total = total_amount b0;
        let same_standard = (standard_amount b0 = previous_total);
        token_total \<leftarrow> token_ticks b0;
        remainder \<leftarrow> checked_sub (ticks previous_total) token_total;
        other \<leftarrow> sum_ok (from_scaled remainder);
        b1 \<leftarrow> scale_amounts bps b0;
        scaled_other \<leftarrow> scale_money bps (money_new other (currency previous_total));
        total \<leftarrow> total_ticks b1 scaled_other;
        d \<leftarrow> sum_ok (from_scaled total);
        let b2 = b1\<lparr>total_amount := money_new d (currency previous_total)\<rparr>;
        let b3 = (if same_standard then b2\<lparr>standard_amount := total_amount b2\<rparr> else b2);
        b4 \<leftarrow> scale_prices bps b3;
        Some (b4\<lparr>custom_multiplier_bps := bps\<rparr>)
      })"

text \<open>The ticks of the separately priced parts, and what the total has beyond them.\<close>

definition part_ticks :: "calculated_cost_breakdown \<Rightarrow> nat list" where
  "part_ticks b =
     [ticks (input_amount b), ticks (output_amount b), ticks (cache_read_amount b),
      ticks (cache_write_amount b)]
     @ (case image b of None \<Rightarrow> []
        | Some img \<Rightarrow> [ticks (img_input_amount img), ticks (img_cache_read_amount img)])"

definition scaled_ticks :: "nat \<Rightarrow> nat \<Rightarrow> nat" where
  "scaled_ticks bps t = (t * bps + 5000) div 10000"

lemma scale_money_Some:
  "scale_money bps m = Some n \<Longrightarrow>
     ticks n = scaled_ticks bps (ticks m) \<and> currency n = currency m \<and> decimal_ok (amount n)"
  by (auto simp: scale_money_def scaled_ticks_def money_new_def decimal_ok_def bind_eq_Some_conv)

lemma scale_money_ok:
  assumes "scaled_ticks bps (ticks m) \<le> max_scaled_decimal"
  shows "scale_money bps m = Some (money_new (Decimal (scaled_ticks bps (ticks m))) (currency m))"
proof -
  from assms have "(ticks m * bps + 5000) div 10000 \<le> 99999999999999999999"
    by (simp add: scaled_ticks_def max_scaled_decimal_def)
  moreover have "ticks m * bps + 5000
      = (ticks m * bps + 5000) div 10000 * 10000 + (ticks m * bps + 5000) mod 10000"
    by (rule div_mult_mod_eq [symmetric])
  moreover have "(ticks m * bps + 5000) mod 10000 < 10000" by simp
  ultimately have "ticks m * bps + 5000 \<le> u128_max" by linarith
  then show ?thesis
    using assms
    by (simp add: scale_money_def checked_mul_def checked_add_def checked_div_def scaled_ticks_def
        from_scaled_def sum_ok_def)
qed

lemma scaled_ticks_unit [simp]: "scaled_ticks 10000 t = t"
  by (simp add: scaled_ticks_def)

lemma scaled_ticks_rounding: "\<bar>10000 * int (scaled_ticks bps t) - int bps * int t\<bar> \<le> 5000"
proof -
  define n where "n = t * bps"
  have "n + 5000 = (n + 5000) div 10000 * 10000 + (n + 5000) mod 10000"
    by (rule div_mult_mod_eq [symmetric])
  moreover have "(n + 5000) mod 10000 < 10000" by simp
  ultimately have "\<bar>10000 * int ((n + 5000) div 10000) - int n\<bar> \<le> 5000" by linarith
  then show ?thesis by (simp add: scaled_ticks_def n_def mult.commute)
qed

lemma add_ticks_Some:
  "add_ticks s ms = Some t \<Longrightarrow> t = s + sum_list (map ticks ms)"
proof (induction ms arbitrary: s)
  case Nil
  then show ?case by (simp add: add_ticks_def)
next
  case (Cons m ms)
  have none: "fold (\<lambda>m acc. Option.bind acc (\<lambda>a. checked_add u128_max a (ticks m))) ms None = None"
    by (induction ms) simp_all
  from Cons.prems have "checked_add u128_max s (ticks m) = Some (s + ticks m)"
    using none by (cases "checked_add u128_max s (ticks m)") (auto simp: add_ticks_def)
  with Cons.prems Cons.IH [of "s + ticks m"] show ?case by (simp add: add_ticks_def)
qed

lemma add_ticks_ok:
  "s + sum_list (map ticks ms) \<le> u128_max \<Longrightarrow> add_ticks s ms = Some (s + sum_list (map ticks ms))"
  by (induction ms arbitrary: s) (auto simp: add_ticks_def checked_add_def add.assoc)

lemma scale_image_Some:
  "scale_image bps img = Some j \<Longrightarrow>
     ticks (img_input_amount j) = scaled_ticks bps (ticks (img_input_amount img))
     \<and> ticks (img_cache_read_amount j) = scaled_ticks bps (ticks (img_cache_read_amount img))"
  by (auto simp: scale_image_def bind_eq_Some_conv dest: scale_money_Some)

lemma token_ticks_Some: "token_ticks b = Some t \<Longrightarrow> t = sum_list (part_ticks b)"
  by (cases "image b"; fastforce simp: token_ticks_def part_ticks_def bind_eq_Some_conv dest: add_ticks_Some)

lemma total_ticks_Some: "total_ticks b m = Some t \<Longrightarrow> t = sum_list (part_ticks b) + ticks m"
  by (cases "image b"; fastforce simp: total_ticks_def part_ticks_def bind_eq_Some_conv dest: add_ticks_Some)

lemma scale_amounts_Some:
  assumes "scale_amounts bps b = Some c"
  shows "part_ticks c = map (scaled_ticks bps) (part_ticks b)"
  using assms
  by (cases "image b")
     (auto simp: scale_amounts_def part_ticks_def bind_eq_Some_conv
      dest!: scale_money_Some scale_image_Some)

lemma part_ticks_update [simp]:
  "part_ticks (b\<lparr>total_amount := t\<rparr>) = part_ticks b"
  "part_ticks (b\<lparr>standard_amount := t\<rparr>) = part_ticks b"
  "part_ticks (b\<lparr>custom_multiplier_bps := n\<rparr>) = part_ticks b"
  by (simp_all add: part_ticks_def)

lemma scale_prices_Some:
  "scale_prices bps b = Some c \<Longrightarrow>
     part_ticks c = part_ticks b \<and> total_amount c = total_amount b
     \<and> standard_amount c = standard_amount b"
  by (auto simp: scale_prices_def part_ticks_def bind_eq_Some_conv)

text \<open>A successful call: every part is rescaled on its own and the new total is their sum.\<close>

lemma multiplier_parts:
  assumes "with_custom_multiplier b bps = Some c"
  shows "bps \<le> 1000000 \<and> custom_multiplier_bps c = bps
     \<and> sum_list (part_ticks b) \<le> ticks (total_amount b)
     \<and> part_ticks c = map (scaled_ticks bps) (part_ticks b)
     \<and> ticks (total_amount c)
           = sum_list (part_ticks c)
             + scaled_ticks bps (ticks (total_amount b) - sum_list (part_ticks b))
     \<and> currency (total_amount c) = currency (total_amount b)
     \<and> decimal_ok (amount (total_amount c))
     \<and> (standard_amount b = total_amount b \<longrightarrow> standard_amount c = total_amount c)"
  using assms
  by (cases "standard_amount b = total_amount b")
     (auto simp: with_custom_multiplier_def Let_def bind_eq_Some_conv money_new_def decimal_ok_def
      split: if_splits
      dest!: token_ticks_Some total_ticks_Some scale_amounts_Some scale_prices_Some scale_money_Some)

section \<open>Price overrides\<close>

datatype token_price = TokenPrice (price_decimal: decimal)

definition ticks_per_token :: "token_price \<Rightarrow> nat" where
  "ticks_per_token p = scaled (price_decimal p) div 1000000"

definition token_price_try_from :: "string \<Rightarrow> token_price option" where
  "token_price_try_from value =
     (case decimal_from_str value of
        Inl _ \<Rightarrow> None
      | Inr a \<Rightarrow>
          if scaled a mod 1000000 \<noteq> 0 \<or> 1000000 * 10000000000 < scaled a then None
          else Some (TokenPrice a))"

definition token_price_into :: "token_price \<Rightarrow> string" where
  "token_price_into p = decimal_canonical (price_decimal p)"

record token_price_override =
  tpo_input :: token_price
  tpo_output :: token_price
  tpo_cache_read :: token_price
  tpo_cache_write :: token_price

record model_price_override =
  multiplier_bps :: nat
  bands :: "(string, token_price_override) btree"

datatype price_error = MultiplierOutOfRange | UnsupportedBand

definition supported_bands :: "string list" where
  "supported_bands =
     [''standard'', ''fast'', ''flex'', ''long_standard'', ''long_fast'', ''long_flex'', ''image'']"

definition model_price_validate :: "model_price_override \<Rightarrow> price_error + unit" where
  "model_price_validate p =
     (if 1000000 < multiplier_bps p then Inl MultiplierOutOfRange
      else if list_ex (\<lambda>band. band \<notin> set supported_bands) (map fst (bands p)) then Inl UnsupportedBand
      else Inr ())"

type_synonym model_prices = "(string, model_price_override) btree"
type_synonym pricing_overrides = "(string, model_prices) btree"

definition merge_entry :: "model_price_override option \<Rightarrow> model_price_override \<Rightarrow> model_price_override" where
  "merge_entry old pricing =
     (let entry = unwrap_or \<lparr>multiplier_bps = 10000, bands = []\<rparr> old
      in entry\<lparr>multiplier_bps := multiplier_bps pricing,
               bands := bt_extend (bands entry) (bands pricing)\<rparr>)"

definition merge_models :: "model_prices option \<Rightarrow> model_prices \<Rightarrow> model_prices" where
  "merge_models target models =
     fold (\<lambda>p t. bt_insert (fst p) (merge_entry (map_of t (fst p)) (snd p)) t) models
       (unwrap_or [] target)"

definition merge_pricing :: "pricing_overrides \<Rightarrow> pricing_overrides \<Rightarrow> pricing_overrides" where
  "merge_pricing base overrides =
     fold (\<lambda>p b. bt_insert (fst p) (merge_models (map_of b (fst p)) (snd p)) b) overrides base"

definition pricing_ok :: "pricing_overrides \<Rightarrow> bool" where
  "pricing_ok p =
     (bt_ok p \<and> (\<forall>(_, ms) \<in> set p. bt_ok ms \<and> (\<forall>(_, e) \<in> set ms. bt_ok (bands e))))"

text \<open>The price of one band of one model, and the multiplier of a model.\<close>

definition band_price :: "pricing_overrides \<Rightarrow> string \<Rightarrow> string \<Rightarrow> string \<Rightarrow> token_price_override option" where
  "band_price p provider model band =
     Option.bind (map_of p provider)
       (\<lambda>ms. Option.bind (map_of ms model) (\<lambda>e. map_of (bands e) band))"

definition model_multiplier :: "pricing_overrides \<Rightarrow> string \<Rightarrow> string \<Rightarrow> nat option" where
  "model_multiplier p provider model =
     Option.bind (map_of p provider) (\<lambda>ms. map_option multiplier_bps (map_of ms model))"

lemma token_price_roundtrip:
  "token_price_try_from s = Some p \<Longrightarrow> token_price_try_from (token_price_into p) = Some p"
  using from_str_ok canonical_parse
  by (fastforce simp: token_price_try_from_def token_price_into_def split: sum.splits if_splits)

lemma pricing_okD:
  assumes "pricing_ok p"
  shows "bt_ok p"
    and "map_of p k = Some ms \<Longrightarrow> bt_ok ms"
    and "map_of p k = Some ms \<Longrightarrow> map_of ms m = Some e \<Longrightarrow> bt_ok (bands e)"
  using assms by (auto simp: pricing_ok_def dest!: map_of_SomeD)

lemma map_of_merge_models:
  "bt_ok models \<Longrightarrow> map_of (merge_models target models) m =
     (case map_of models m of
        None \<Rightarrow> map_of (unwrap_or [] target) m
      | Some e \<Rightarrow> Some (merge_entry (map_of (unwrap_or [] target) m) e))"
  by (simp add: merge_models_def map_of_fold_upsert bt_ok_distinct)

lemma map_of_merge_pricing:
  "bt_ok overrides \<Longrightarrow> map_of (merge_pricing base overrides) p =
     (case map_of overrides p of
        None \<Rightarrow> map_of base p
      | Some ms \<Rightarrow> Some (merge_models (map_of base p) ms))"
  by (simp add: merge_pricing_def map_of_fold_upsert bt_ok_distinct)

text \<open>Layering: an overriding band and an overriding multiplier win, every other one is kept.\<close>

lemma merge_pricing_lookup:
  assumes "pricing_ok overrides"
  shows "band_price (merge_pricing base overrides) p m b =
           opt_or (band_price overrides p m b) (band_price base p m b)"
    and "model_multiplier (merge_pricing base overrides) p m =
           opt_or (model_multiplier overrides p m) (model_multiplier base p m)"
  using pricing_okD [OF assms]
  by (auto simp: band_price_def model_multiplier_def map_of_merge_pricing map_of_merge_models
      merge_entry_def map_of_bt_extend map_add_def Let_def opt_or_def unwrap_or_def
      split: option.splits)

lemma sum_list_rounding:
  "\<bar>10000 * int (sum_list (map (scaled_ticks bps) ts)) - int bps * int (sum_list ts)\<bar>
     \<le> 5000 * int (length ts)"
proof (induction ts)
  case Nil
  then show ?case by simp
next
  case (Cons t ts)
  with scaled_ticks_rounding [of bps t] show ?case by (simp add: algebra_simps)
qed

section \<open>Properties\<close>

text \<open>
  C40. Both printers of an amount are inverted by the parser: for every amount in the database
  range, \<open>from_str\<close> of the ten-digit \<open>Display\<close> text and of the canonical text without trailing
  zeros give back the same ticks.
\<close>

theorem decimal_print_parse:
  assumes "decimal_ok d"
  shows "decimal_from_str (decimal_display d) = Inr d \<and> decimal_from_str (decimal_canonical d) = Inr d"
  using display_parse [OF assms] canonical_parse [OF assms] by simp

theorem decimal_print_parse_witness:
  "decimal_from_str (decimal_display (Decimal 12500000000)) = Inr (Decimal 12500000000)
   \<and> decimal_from_str (decimal_canonical (Decimal 12500000000)) = Inr (Decimal 12500000000)"
  by (rule decimal_print_parse) (simp add: decimal_ok_def max_scaled_decimal_def)


definition sample_usd :: "nat \<Rightarrow> money" where
  "sample_usd t = money_new (Decimal t) (CurrencyCode ''USD'')"

definition sample_breakdown :: calculated_cost_breakdown where
  "sample_breakdown =
     breakdown_new
       \<lparr>ca_input = sample_usd 3, ca_output = sample_usd 5, ca_cache_read = sample_usd 1,
        ca_cache_write = sample_usd 0, ca_standard = sample_usd 10, ca_total = sample_usd 10\<rparr>
       \<lparr>cr_input = sample_usd 1, cr_output = sample_usd 2, cr_cache_read = sample_usd 3,
        cr_cache_write = sample_usd 4\<rparr> None 100"

lemma sample_breakdown_half:
  "with_custom_multiplier sample_breakdown 5000 =
     Some (the (with_custom_multiplier sample_breakdown 5000))"
  by (simp add: sample_breakdown_def sample_usd_def breakdown_new_def with_custom_multiplier_def
      token_ticks_def total_ticks_def scale_amounts_def scale_prices_def scale_money_def add_ticks_def
      money_new_def checked_add_def checked_mul_def checked_sub_def checked_div_def from_scaled_def
      sum_ok_def max_scaled_decimal_def)


text \<open>
  Layering price overrides: for every provider, model and band the price of the merged table is
  the override's when it has one and the base's otherwise, and likewise the multiplier.
\<close>

theorem merge_pricing_layers:
  assumes "pricing_ok overrides"
  shows "band_price (merge_pricing base overrides) p m b =
           opt_or (band_price overrides p m b) (band_price base p m b)
       \<and> model_multiplier (merge_pricing base overrides) p m =
           opt_or (model_multiplier overrides p m) (model_multiplier base p m)"
  using merge_pricing_lookup [OF assms] by blast

definition sample_price :: "nat \<Rightarrow> token_price_override" where
  "sample_price n =
     \<lparr>tpo_input = TokenPrice (Decimal n), tpo_output = TokenPrice (Decimal n),
      tpo_cache_read = TokenPrice (Decimal n), tpo_cache_write = TokenPrice (Decimal n)\<rparr>"

theorem merge_pricing_layers_witness:
  "band_price (merge_pricing
       [(''openai'', [(''m'', \<lparr>multiplier_bps = 10000, bands = [(''fast'', sample_price 1)]\<rparr>)])]
       [(''openai'', [(''m'', \<lparr>multiplier_bps = 5000, bands = [(''flex'', sample_price 2)]\<rparr>)])])
     ''openai'' ''m'' ''fast'' = Some (sample_price 1)"
  by (subst merge_pricing_layers [THEN conjunct1])
     (simp_all add: pricing_ok_def bt_ok_def bs_ok_def band_price_def)

end
