(* ===== verification/AccountModel.thy ===== *)
theory AccountModel
  imports Policy
begin

text \<open>
  \<open>account/model.rs\<close>, \<open>account/error.rs\<close> and \<open>account/proxy.rs\<close>: scheduling limits, the credential
  revision, credential and quota states, the account cooldown, the resolver of the one public
  status, the account record with its builders, the refresh-candidate query and the credential
  compare-and-swap request. A provider's opaque document is a \<open>json\<close> object. The URL parser is the
  \<open>url\<close> crate's and an argument of \<open>outbound_proxy_parse\<close>.
\<close>

section \<open>JSON values\<close>

text \<open>\<open>serde_json::Value\<close>; a number is an integer or the text of a floating-point number.\<close>

datatype json =
    JNull
  | JBool bool
  | JInt int
  | JFloat string
  | JString string
  | JArray "json list"
  | JObject "(string \<times> json) list"

type_synonym json_map = "(string \<times> json) list"

section \<open>Scheduling limits and the credential revision\<close>

datatype account_concurrency_limit = AccountConcurrencyLimit (limit_get: nat)

definition concurrency_limit_new :: "nat \<Rightarrow> account_concurrency_limit option" where
  "concurrency_limit_new value = (if value = 0 then None else Some (AccountConcurrencyLimit value))"

datatype account_weight = AccountWeight (weight_get: nat)

definition weight_default :: account_weight where
  "weight_default = AccountWeight 1"

definition weight_new :: "nat \<Rightarrow> account_weight option" where
  "weight_new value = (if value \<noteq> 0 \<and> value \<le> 100 then Some (AccountWeight value) else None)"

instantiation account_weight :: linorder
begin
definition "x \<le> y \<longleftrightarrow> weight_get x \<le> weight_get y"
definition "x < y \<longleftrightarrow> weight_get x < weight_get y"
instance by standard
  (auto simp: less_eq_account_weight_def less_account_weight_def account_weight.expand)
end

record provider_account_identity =
  identity_upstream_user_id :: string
  identity_upstream_account_id :: "string option"

datatype credential_error =
    CredInvalidRevision
  | RevisionOverflow
  | ProfileAccountMismatch
  | InvalidRefreshSchedule

datatype credential_revision = CredentialRevision (cred_revision_get: nat)

definition credential_revision_new :: "nat \<Rightarrow> credential_error + credential_revision" where
  "credential_revision_new value =
     (if value = 0 then Inl CredInvalidRevision else Inr (CredentialRevision value))"

definition credential_revision_next :: "credential_revision \<Rightarrow> credential_error + credential_revision" where
  "credential_revision_next r =
     (case checked_add u64_max (cred_revision_get r) 1 of
        None \<Rightarrow> Inl RevisionOverflow
      | Some n \<Rightarrow> if n = 0 then Inl RevisionOverflow else Inr (CredentialRevision n))"

datatype plaintext_credential = PlaintextCredential (credential_map: json_map)
datatype opaque_provider_data = OpaqueProviderData (provider_data_map: json_map)

section \<open>Stable names of the account states\<close>

datatype credential_state = CredUnknown | Ready | Expired | Banned | Invalid

datatype quota_access_state = QuotaUnknown | Allowed | Exhausted

datatype quota_evidence = ProviderDenied | AccountLimitReached | UsageLimitReached | PaymentRequired

datatype account_status = Normal | QuotaExhausted | RateLimited | Disabled | StatusError

datatype account_error_reason =
    AccountUnverified
  | AccessTokenExpired
  | CredentialExpired
  | CredentialInvalid
  | AccountBanned

datatype account_cooldown_kind = RateLimit | CapacityFreeze | CapacityFreezeProbe

fun credential_state_as_str :: "credential_state \<Rightarrow> string" where
  "credential_state_as_str CredUnknown = ''unknown''"
| "credential_state_as_str Ready = ''ready''"
| "credential_state_as_str Expired = ''expired''"
| "credential_state_as_str Banned = ''banned''"
| "credential_state_as_str Invalid = ''invalid''"

definition credential_state_parse :: "string \<Rightarrow> credential_state option" where
  "credential_state_parse value =
     (if value = ''unknown'' then Some CredUnknown
      else if value = ''ready'' then Some Ready
      else if value = ''expired'' then Some Expired
      else if value = ''banned'' then Some Banned
      else if value = ''invalid'' then Some Invalid
      else None)"

fun credential_state_error_reason :: "credential_state \<Rightarrow> account_error_reason option" where
  "credential_state_error_reason CredUnknown = Some AccountUnverified"
| "credential_state_error_reason Expired = Some CredentialExpired"
| "credential_state_error_reason Banned = Some AccountBanned"
| "credential_state_error_reason Invalid = Some CredentialInvalid"
| "credential_state_error_reason Ready = None"

fun quota_access_as_str :: "quota_access_state \<Rightarrow> string" where
  "quota_access_as_str QuotaUnknown = ''unknown''"
| "quota_access_as_str Allowed = ''allowed''"
| "quota_access_as_str Exhausted = ''exhausted''"

definition quota_access_parse :: "string \<Rightarrow> quota_access_state option" where
  "quota_access_parse value =
     (if value = ''unknown'' then Some QuotaUnknown
      else if value = ''allowed'' then Some Allowed
      else if value = ''exhausted'' then Some Exhausted
      else None)"

fun quota_evidence_as_str :: "quota_evidence \<Rightarrow> string" where
  "quota_evidence_as_str ProviderDenied = ''provider_denied''"
| "quota_evidence_as_str AccountLimitReached = ''account_limit_reached''"
| "quota_evidence_as_str UsageLimitReached = ''usage_limit_reached''"
| "quota_evidence_as_str PaymentRequired = ''payment_required''"

definition quota_evidence_parse :: "string \<Rightarrow> quota_evidence option" where
  "quota_evidence_parse value =
     (if value = ''provider_denied'' then Some ProviderDenied
      else if value = ''account_limit_reached'' then Some AccountLimitReached
      else if value = ''usage_limit_reached'' then Some UsageLimitReached
      else if value = ''payment_required'' then Some PaymentRequired
      else None)"

fun account_status_as_str :: "account_status \<Rightarrow> string" where
  "account_status_as_str Normal = ''normal''"
| "account_status_as_str QuotaExhausted = ''quota_exhausted''"
| "account_status_as_str RateLimited = ''rate_limited''"
| "account_status_as_str Disabled = ''disabled''"
| "account_status_as_str StatusError = ''error''"

definition account_status_parse :: "string \<Rightarrow> account_status option" where
  "account_status_parse value =
     (if value = ''normal'' then Some Normal
      else if value = ''quota_exhausted'' then Some QuotaExhausted
      else if value = ''rate_limited'' then Some RateLimited
      else if value = ''disabled'' then Some Disabled
      else if value = ''error'' then Some StatusError
      else None)"

fun sort_rank :: "account_status \<Rightarrow> nat" where
  "sort_rank Normal = 0"
| "sort_rank RateLimited = 1"
| "sort_rank QuotaExhausted = 2"
| "sort_rank StatusError = 3"
| "sort_rank Disabled = 4"

fun error_reason_as_str :: "account_error_reason \<Rightarrow> string" where
  "error_reason_as_str AccountUnverified = ''account_unverified''"
| "error_reason_as_str AccessTokenExpired = ''access_token_expired''"
| "error_reason_as_str CredentialExpired = ''credential_expired''"
| "error_reason_as_str CredentialInvalid = ''credential_invalid''"
| "error_reason_as_str AccountBanned = ''account_banned''"

definition error_reason_parse :: "string \<Rightarrow> account_error_reason option" where
  "error_reason_parse value =
     (if value = ''account_unverified'' then Some AccountUnverified
      else if value = ''access_token_expired'' then Some AccessTokenExpired
      else if value = ''credential_expired'' then Some CredentialExpired
      else if value = ''credential_invalid'' then Some CredentialInvalid
      else if value = ''account_banned'' then Some AccountBanned
      else None)"

fun cooldown_kind_as_str :: "account_cooldown_kind \<Rightarrow> string" where
  "cooldown_kind_as_str RateLimit = ''rate_limit''"
| "cooldown_kind_as_str CapacityFreeze = ''capacity_freeze''"
| "cooldown_kind_as_str CapacityFreezeProbe = ''capacity_freeze_probe''"

definition cooldown_kind_parse :: "string \<Rightarrow> account_cooldown_kind option" where
  "cooldown_kind_parse value =
     (if value = ''rate_limit'' then Some RateLimit
      else if value = ''capacity_freeze'' then Some CapacityFreeze
      else if value = ''capacity_freeze_probe'' then Some CapacityFreezeProbe
      else None)"

interpretation credential_names: stable_names credential_state_as_str credential_state_parse
proof
  show "credential_state_parse (credential_state_as_str x) = Some x" for x
    by (cases x) (simp_all add: credential_state_parse_def)
  show "credential_state_as_str x = s" if "credential_state_parse s = Some x" for s x
    using that by (auto simp: credential_state_parse_def split: if_splits)
qed

interpretation quota_access_names: stable_names quota_access_as_str quota_access_parse
proof
  show "quota_access_parse (quota_access_as_str x) = Some x" for x
    by (cases x) (simp_all add: quota_access_parse_def)
  show "quota_access_as_str x = s" if "quota_access_parse s = Some x" for s x
    using that by (auto simp: quota_access_parse_def split: if_splits)
qed

interpretation quota_evidence_names: stable_names quota_evidence_as_str quota_evidence_parse
proof
  show "quota_evidence_parse (quota_evidence_as_str x) = Some x" for x
    by (cases x) (simp_all add: quota_evidence_parse_def)
  show "quota_evidence_as_str x = s" if "quota_evidence_parse s = Some x" for s x
    using that by (auto simp: quota_evidence_parse_def split: if_splits)
qed

interpretation account_status_names: stable_names account_status_as_str account_status_parse
proof
  show "account_status_parse (account_status_as_str x) = Some x" for x
    by (cases x) (simp_all add: account_status_parse_def)
  show "account_status_as_str x = s" if "account_status_parse s = Some x" for s x
    using that by (auto simp: account_status_parse_def split: if_splits)
qed

interpretation error_reason_names: stable_names error_reason_as_str error_reason_parse
proof
  show "error_reason_parse (error_reason_as_str x) = Some x" for x
    by (cases x) (simp_all add: error_reason_parse_def)
  show "error_reason_as_str x = s" if "error_reason_parse s = Some x" for s x
    using that by (auto simp: error_reason_parse_def split: if_splits)
qed

interpretation cooldown_names: stable_names cooldown_kind_as_str cooldown_kind_parse
proof
  show "cooldown_kind_parse (cooldown_kind_as_str x) = Some x" for x
    by (cases x) (simp_all add: cooldown_kind_parse_def)
  show "cooldown_kind_as_str x = s" if "cooldown_kind_parse s = Some x" for s x
    using that by (auto simp: cooldown_kind_parse_def split: if_splits)
qed

section \<open>Quota\<close>

record quota_state =
  qs_access :: quota_access_state
  qs_evidence :: "quota_evidence option"
  qs_observed_at :: "systime option"
  qs_reset_at :: "systime option"

definition quota_unknown :: quota_state where
  "quota_unknown =
     \<lparr>qs_access = QuotaUnknown, qs_evidence = None, qs_observed_at = None, qs_reset_at = None\<rparr>"

definition quota_observed_unknown :: "systime \<Rightarrow> quota_state" where
  "quota_observed_unknown at =
     \<lparr>qs_access = QuotaUnknown, qs_evidence = None, qs_observed_at = Some at, qs_reset_at = None\<rparr>"

definition quota_allowed :: "systime \<Rightarrow> quota_state" where
  "quota_allowed at =
     \<lparr>qs_access = Allowed, qs_evidence = None, qs_observed_at = Some at, qs_reset_at = None\<rparr>"

definition quota_exhausted :: "quota_evidence \<Rightarrow> systime \<Rightarrow> systime option \<Rightarrow> quota_state" where
  "quota_exhausted evidence at reset =
     \<lparr>qs_access = Exhausted, qs_evidence = Some evidence, qs_observed_at = Some at, qs_reset_at = reset\<rparr>"

definition quota_from_persisted ::
  "quota_access_state \<Rightarrow> quota_evidence option \<Rightarrow> systime option \<Rightarrow> systime option \<Rightarrow> quota_state option" where
  "quota_from_persisted acc evidence observed_at reset_at =
     (let q = \<lparr>qs_access = acc, qs_evidence = evidence, qs_observed_at = observed_at, qs_reset_at = reset_at\<rparr>
      in case acc of
           QuotaUnknown \<Rightarrow> if evidence = None \<and> reset_at = None then Some q else None
         | Allowed \<Rightarrow>
             if evidence = None \<and> observed_at \<noteq> None \<and> reset_at = None then Some q else None
         | Exhausted \<Rightarrow> if evidence \<noteq> None \<and> observed_at \<noteq> None then Some q else None)"

definition quota_is_exhausted :: "quota_state \<Rightarrow> bool" where
  "quota_is_exhausted q = (qs_access q = Exhausted)"

text \<open>
  \<open>checked_add\<close> of \<open>SystemTime\<close> fails beyond the last representable instant; a due time that
  cannot be computed counts as due.
\<close>

definition exhaustion_refresh_due :: "quota_state \<Rightarrow> systime \<Rightarrow> duration \<Rightarrow> bool" where
  "exhaustion_refresh_due q now fallback_interval =
     (if \<not> quota_is_exhausted q then False
      else
        let due_at = opt_or (qs_reset_at q)
                       (Option.bind (qs_observed_at q) (\<lambda>at. time_checked_add at fallback_interval))
        in (case due_at of None \<Rightarrow> True | Some due \<Rightarrow> due \<le> now))"

definition merge_observation :: "quota_state \<Rightarrow> quota_state \<Rightarrow> quota_state" where
  "merge_observation q observation =
     (if qs_access observation = QuotaUnknown \<and> qs_access q \<noteq> QuotaUnknown then q else observation)"

definition quota_ok :: "quota_state \<Rightarrow> bool" where
  "quota_ok q =
     (quota_from_persisted (qs_access q) (qs_evidence q) (qs_observed_at q) (qs_reset_at q) = Some q)"

lemma quota_from_persisted_ok: "quota_from_persisted a e ob r = Some q \<Longrightarrow> quota_ok q"
  by (cases a) (auto simp: quota_from_persisted_def quota_ok_def Let_def split: if_splits)

lemma quota_ok_intros [intro, simp]:
  "quota_ok quota_unknown" "quota_ok (quota_observed_unknown t)" "quota_ok (quota_allowed t)"
  "quota_ok (quota_exhausted ev t r)"
  by (simp_all add: quota_ok_def quota_from_persisted_def quota_unknown_def quota_observed_unknown_def
      quota_allowed_def quota_exhausted_def)

lemma quota_ok_merge: "quota_ok q \<Longrightarrow> quota_ok ob \<Longrightarrow> quota_ok (merge_observation q ob)"
  by (simp add: merge_observation_def)

text \<open>Over a whole sequence of observations the conclusion is that of the last conclusive one.\<close>

lemma merge_observations_access:
  "qs_access (fold (\<lambda>ob q. merge_observation q ob) obs q) =
     last (qs_access q # filter (\<lambda>a. a \<noteq> QuotaUnknown) (map qs_access obs))"
proof (induction obs arbitrary: q)
  case Nil
  then show ?case by simp
next
  case (Cons ob obs)
  have "qs_access (merge_observation q ob)
      = (if qs_access ob = QuotaUnknown then qs_access q else qs_access ob)"
    by (auto simp: merge_observation_def)
  with Cons show ?case by simp
qed

section \<open>Cooldown and the public status\<close>

definition is_capacity_freeze :: "account_cooldown_kind \<Rightarrow> bool" where
  "is_capacity_freeze k = (k = CapacityFreeze \<or> k = CapacityFreezeProbe)"

definition requires_probe :: "account_cooldown_kind \<Rightarrow> bool" where
  "requires_probe k = (k = CapacityFreezeProbe)"

record account_cooldown =
  cd_until :: systime
  cd_kind :: account_cooldown_kind

definition cooldown_is_active :: "account_cooldown \<Rightarrow> systime \<Rightarrow> bool" where
  "cooldown_is_active c now = (requires_probe (cd_kind c) \<or> now < cd_until c)"

definition cooldown_from_time :: "systime \<Rightarrow> account_cooldown" where
  "cooldown_from_time until = \<lparr>cd_until = until, cd_kind = RateLimit\<rparr>"

record account_status_facts =
  sf_enabled :: bool
  sf_credential_state :: credential_state
  sf_access_token_expires_at :: "systime option"
  sf_quota :: quota_state
  sf_cooldown :: "account_cooldown option"
  sf_last_error_reason :: "account_error_reason option"
  sf_last_error_message :: "string option"

record account_status_projection =
  sp_status :: account_status
  sp_error_reason :: "account_error_reason option"
  sp_error_message :: "string option"
  sp_cooldown :: "account_cooldown option"

definition plain_status_projection :: "account_status \<Rightarrow> account_status_projection" where
  "plain_status_projection s =
     \<lparr>sp_status = s, sp_error_reason = None, sp_error_message = None, sp_cooldown = None\<rparr>"

definition credential_error_of :: "account_status_facts \<Rightarrow> systime \<Rightarrow> account_error_reason option" where
  "credential_error_of facts now =
     opt_or (credential_state_error_reason (sf_credential_state facts))
       (if opt_any (\<lambda>expires_at. expires_at \<le> now) (sf_access_token_expires_at facts)
        then Some AccessTokenExpired else None)"

definition resolve_account_status :: "account_status_facts \<Rightarrow> systime \<Rightarrow> account_status_projection" where
  "resolve_account_status facts now =
     (if \<not> sf_enabled facts then plain_status_projection Disabled
      else case credential_error_of facts now of
        Some default_reason \<Rightarrow>
          \<lparr>sp_status = StatusError,
           sp_error_reason = Some (unwrap_or default_reason (sf_last_error_reason facts)),
           sp_error_message = sf_last_error_message facts,
           sp_cooldown = None\<rparr>
      | None \<Rightarrow>
          if quota_is_exhausted (sf_quota facts) then plain_status_projection QuotaExhausted
          else if opt_any (\<lambda>c. cooldown_is_active c now) (sf_cooldown facts)
          then \<lparr>sp_status = RateLimited, sp_error_reason = None, sp_error_message = None,
                sp_cooldown = sf_cooldown facts\<rparr>
          else plain_status_projection Normal)"

text \<open>The resolver as a decision table, each status with the facts that decide it.\<close>

lemma resolve_account_status_table:
  "sp_status (resolve_account_status f now) = Disabled \<longleftrightarrow> \<not> sf_enabled f"
  "sp_status (resolve_account_status f now) = StatusError \<longleftrightarrow>
     sf_enabled f \<and> credential_error_of f now \<noteq> None"
  "sp_status (resolve_account_status f now) = QuotaExhausted \<longleftrightarrow>
     sf_enabled f \<and> credential_error_of f now = None \<and> quota_is_exhausted (sf_quota f)"
  "sp_status (resolve_account_status f now) = RateLimited \<longleftrightarrow>
     sf_enabled f \<and> credential_error_of f now = None \<and> \<not> quota_is_exhausted (sf_quota f)
     \<and> opt_any (\<lambda>c. cooldown_is_active c now) (sf_cooldown f)"
  "sp_status (resolve_account_status f now) = Normal \<longleftrightarrow>
     sf_enabled f \<and> credential_error_of f now = None \<and> \<not> quota_is_exhausted (sf_quota f)
     \<and> \<not> opt_any (\<lambda>c. cooldown_is_active c now) (sf_cooldown f)"
  by (auto simp: resolve_account_status_def plain_status_projection_def split: option.splits)

section \<open>Outbound proxy\<close>

text \<open>The parsed URL, as the \<open>url\<close> crate reports it; the port is the explicit or the scheme's own.\<close>

record parsed_url =
  url_scheme :: string
  url_host :: "string option"
  url_port :: "nat option"
  url_path :: string
  url_query :: "string option"
  url_fragment :: "string option"
  url_text :: string

datatype outbound_proxy = OutboundProxy (proxy_url: parsed_url)

definition outbound_proxy_parse :: "(string \<Rightarrow> parsed_url option) \<Rightarrow> string \<Rightarrow> outbound_proxy option" where
  "outbound_proxy_parse url_parse value =
     (if 4096 < length value \<or> has_control value then None
      else case url_parse value of
        None \<Rightarrow> None
      | Some url \<Rightarrow>
          if url_scheme url \<notin> {''http'', ''https'', ''socks5'', ''socks5h''}
             \<or> url_host url = None
             \<or> (case url_port url of None \<Rightarrow> True | Some port \<Rightarrow> port = 0)
             \<or> url_path url \<notin> {[], ''/''}
             \<or> url_query url \<noteq> None
             \<or> url_fragment url \<noteq> None
          then None
          else Some (OutboundProxy url))"

section \<open>The account record\<close>

record provider_account =
  pa_id :: provider_account_id
  pa_provider :: provider_kind
  pa_name :: string
  pa_email :: "string option"
  pa_upstream_user_id :: "string option"
  pa_upstream_account_id :: "string option"
  pa_plan_type :: "string option"
  pa_authentication_kind :: string
  pa_revision :: credential_revision
  pa_enabled :: bool
  pa_concurrency_limit :: "account_concurrency_limit option"
  pa_weight :: account_weight
  pa_model_access :: account_model_access
  pa_credential_state :: credential_state
  pa_quota :: quota_state
  pa_last_error_reason :: "account_error_reason option"
  pa_last_error_message :: "string option"
  pa_access_token_expires_at :: "systime option"
  pa_next_refresh_at :: "systime option"
  pa_has_refresh_token :: bool
  pa_outbound_proxy :: "outbound_proxy option"
  pa_request_location :: "request_location option"

definition provider_account_new ::
  "provider_account_id \<Rightarrow> provider_kind \<Rightarrow> string \<Rightarrow> string option \<Rightarrow> string \<Rightarrow> credential_revision
   \<Rightarrow> systime option \<Rightarrow> provider_account" where
  "provider_account_new aid provider name upstream_user_id authentication_kind revision expires_at =
     \<lparr>pa_id = aid, pa_provider = provider, pa_name = name, pa_email = None,
      pa_upstream_user_id = upstream_user_id, pa_upstream_account_id = None, pa_plan_type = None,
      pa_authentication_kind = authentication_kind, pa_revision = revision, pa_enabled = True,
      pa_concurrency_limit = None, pa_weight = weight_default, pa_model_access = model_access_all,
      pa_credential_state = CredUnknown, pa_quota = quota_unknown, pa_last_error_reason = None,
      pa_last_error_message = None, pa_access_token_expires_at = expires_at,
      pa_next_refresh_at = None, pa_has_refresh_token = False, pa_outbound_proxy = None,
      pa_request_location = None\<rparr>"

definition with_profile ::
  "provider_account \<Rightarrow> string option \<Rightarrow> string option \<Rightarrow> string option \<Rightarrow> provider_account" where
  "with_profile a email upstream_account_id plan_type =
     a\<lparr>pa_email := email, pa_upstream_account_id := upstream_account_id, pa_plan_type := plan_type\<rparr>"

definition with_model_access :: "provider_account \<Rightarrow> account_model_access \<Rightarrow> provider_account" where
  "with_model_access a m = a\<lparr>pa_model_access := m\<rparr>"

definition with_outbound_proxy :: "provider_account \<Rightarrow> outbound_proxy option \<Rightarrow> provider_account" where
  "with_outbound_proxy a proxy = a\<lparr>pa_request_location := None, pa_outbound_proxy := proxy\<rparr>"

definition with_request_location :: "provider_account \<Rightarrow> request_location option \<Rightarrow> provider_account" where
  "with_request_location a location =
     a\<lparr>pa_request_location := (case pa_outbound_proxy a of None \<Rightarrow> None | Some _ \<Rightarrow> location)\<rparr>"

definition with_account_facts ::
  "provider_account \<Rightarrow> bool \<Rightarrow> credential_state \<Rightarrow> quota_state \<Rightarrow> account_error_reason option
   \<Rightarrow> string option \<Rightarrow> provider_account" where
  "with_account_facts a enabled state quota reason message =
     a\<lparr>pa_enabled := enabled, pa_credential_state := state, pa_quota := quota,
       pa_last_error_reason := reason, pa_last_error_message := message\<rparr>"

definition with_scheduling ::
  "provider_account \<Rightarrow> account_concurrency_limit option \<Rightarrow> account_weight \<Rightarrow> provider_account" where
  "with_scheduling a lim weight = a\<lparr>pa_concurrency_limit := lim, pa_weight := weight\<rparr>"

definition with_refresh_schedule :: "provider_account \<Rightarrow> bool \<Rightarrow> systime option \<Rightarrow> provider_account" where
  "with_refresh_schedule a has_rt next_at =
     a\<lparr>pa_has_refresh_token := has_rt, pa_next_refresh_at := next_at\<rparr>"

definition effective_concurrency :: "provider_account \<Rightarrow> nat \<Rightarrow> nat" where
  "effective_concurrency a dflt =
     (case pa_concurrency_limit a of Some lim \<Rightarrow> limit_get lim | None \<Rightarrow> dflt)"

definition provider_account_status ::
  "provider_account \<Rightarrow> systime \<Rightarrow> account_cooldown option \<Rightarrow> account_status_projection" where
  "provider_account_status a now cooldown =
     resolve_account_status
       \<lparr>sf_enabled = pa_enabled a, sf_credential_state = pa_credential_state a,
        sf_access_token_expires_at = pa_access_token_expires_at a, sf_quota = pa_quota a,
        sf_cooldown = cooldown, sf_last_error_reason = pa_last_error_reason a,
        sf_last_error_message = pa_last_error_message a\<rparr> now"

text \<open>A request location is only kept next to an outbound proxy.\<close>

definition location_has_proxy :: "provider_account \<Rightarrow> bool" where
  "location_has_proxy a = (pa_request_location a \<noteq> None \<longrightarrow> pa_outbound_proxy a \<noteq> None)"

datatype account_builder =
    BProfile "string option" "string option" "string option"
  | BModelAccess account_model_access
  | BOutboundProxy "outbound_proxy option"
  | BRequestLocation "request_location option"
  | BAccountFacts bool credential_state quota_state "account_error_reason option" "string option"
  | BScheduling "account_concurrency_limit option" account_weight
  | BRefreshSchedule bool "systime option"

fun apply_builder :: "account_builder \<Rightarrow> provider_account \<Rightarrow> provider_account" where
  "apply_builder (BProfile e u p) a = with_profile a e u p"
| "apply_builder (BModelAccess m) a = with_model_access a m"
| "apply_builder (BOutboundProxy p) a = with_outbound_proxy a p"
| "apply_builder (BRequestLocation l) a = with_request_location a l"
| "apply_builder (BAccountFacts e s q r m) a = with_account_facts a e s q r m"
| "apply_builder (BScheduling l w) a = with_scheduling a l w"
| "apply_builder (BRefreshSchedule h n) a = with_refresh_schedule a h n"

lemmas builder_defs =
  with_profile_def with_model_access_def with_outbound_proxy_def with_request_location_def
  with_account_facts_def with_scheduling_def with_refresh_schedule_def

lemma location_has_proxy_builder:
  "location_has_proxy a \<Longrightarrow> location_has_proxy (apply_builder b a)"
  by (cases b) (auto simp: location_has_proxy_def builder_defs split: option.splits)

lemma builder_keeps_identity [simp]:
  "pa_id (apply_builder b a) = pa_id a" "pa_provider (apply_builder b a) = pa_provider a"
  "pa_revision (apply_builder b a) = pa_revision a"
  by (cases b; simp add: builder_defs)+

section \<open>Refresh candidates and credential write-back\<close>

record provider_refresh_query =
  rq_provider :: provider_kind
  rq_refresh_due_before :: systime
  rq_force_due_before :: systime
  rq_observed_at :: systime
  rq_excluded_account_ids :: "provider_account_id list"
  rq_limit :: nat

definition refresh_query_contains :: "provider_refresh_query \<Rightarrow> provider_account \<Rightarrow> bool" where
  "refresh_query_contains q a =
     (pa_provider a = rq_provider q
      \<and> pa_enabled a
      \<and> pa_has_refresh_token a
      \<and> (pa_credential_state a = CredUnknown \<or> pa_credential_state a = Ready)
      \<and> pa_id a \<notin> set (rq_excluded_account_ids q)
      \<and> opt_any (\<lambda>expires_at.
           expires_at \<le> rq_force_due_before q
           \<or> (expires_at \<le> rq_refresh_due_before q
              \<and> (case pa_next_refresh_at a of None \<Rightarrow> True | Some t \<Rightarrow> t \<le> rq_observed_at q)))
         (pa_access_token_expires_at a))"

record provider_account_update =
  pu_account_id :: provider_account_id
  pu_name :: string
  pu_email :: "string option"
  pu_plan_type :: "string option"

record credential_state_write =
  csw_credential_state :: credential_state
  csw_observed_at :: systime
  csw_error_reason :: "account_error_reason option"
  csw_message :: "string option"

record credential_cas_update =
  cas_account_id :: provider_account_id
  cas_expected_revision :: credential_revision
  cas_profile :: provider_account_update
  cas_preserve_profile :: bool
  cas_credential :: plaintext_credential
  cas_has_refresh_token :: bool
  cas_access_token_expires_at :: "systime option"
  cas_next_refresh_at :: "systime option"
  cas_account_state :: "credential_state_write option"

definition credential_cas_update_new ::
  "provider_account_id \<Rightarrow> credential_revision \<Rightarrow> provider_account_update \<Rightarrow> plaintext_credential
   \<Rightarrow> bool \<Rightarrow> systime option \<Rightarrow> systime option \<Rightarrow> credential_error + credential_cas_update" where
  "credential_cas_update_new aid revision profile cred has_rt expires_at next_at =
     (if pu_account_id profile \<noteq> aid then Inl ProfileAccountMismatch
      else if \<not> has_rt \<and> next_at \<noteq> None then Inl InvalidRefreshSchedule
      else Inr
        \<lparr>cas_account_id = aid, cas_expected_revision = revision, cas_profile = profile,
         cas_preserve_profile = False, cas_credential = cred, cas_has_refresh_token = has_rt,
         cas_access_token_expires_at = expires_at, cas_next_refresh_at = next_at,
         cas_account_state = None\<rparr>)"

definition preserving_profile :: "credential_cas_update \<Rightarrow> credential_cas_update" where
  "preserving_profile u = u\<lparr>cas_preserve_profile := True\<rparr>"

definition with_account_state ::
  "credential_cas_update \<Rightarrow> credential_state \<Rightarrow> systime \<Rightarrow> account_error_reason option
   \<Rightarrow> string option \<Rightarrow> credential_cas_update" where
  "with_account_state u state observed_at reason message =
     (let message = opt_filter (\<lambda>v. str_trim v \<noteq> []) message;
          reason = (if state = Ready
                    then (case message of None \<Rightarrow> None | Some _ \<Rightarrow> reason)
                    else opt_or reason (credential_state_error_reason state))
      in u\<lparr>cas_account_state := Some
             \<lparr>csw_credential_state = state, csw_observed_at = observed_at,
              csw_error_reason = reason, csw_message = message\<rparr>\<rparr>)"

datatype credential_cas_outcome = CasUpdated credential_revision | CasConflict

record quota_observation =
  qo_account_id :: provider_account_id
  qo_expected_revision :: credential_revision
  qo_quota :: opaque_provider_data
  qo_plan_type :: "string option"
  qo_observed_at :: systime
  qo_state :: quota_state

text \<open>
  A written account state carries a reason exactly when it is not \<open>Ready\<close>, or when it is
  \<open>Ready\<close> with a message and a reason that came with it.
\<close>

lemma with_account_state_reason:
  assumes "cas_account_state (with_account_state u st t reason message) = Some w"
  shows "csw_credential_state w = st"
    and "st \<noteq> Ready \<Longrightarrow> csw_error_reason w \<noteq> None"
    and "st = Ready \<Longrightarrow> csw_message w = None \<Longrightarrow> csw_error_reason w = None"
    and "csw_message w = Some m \<Longrightarrow> str_trim m \<noteq> []"
  using assms
  by (auto simp: with_account_state_def Let_def opt_or_def split: option.splits)
     (cases st; simp)

lemma credential_revision_next_mono:
  "credential_revision_next r = Inr s \<longleftrightarrow>
     cred_revision_get r < u64_max \<and> cred_revision_get s = cred_revision_get r + 1"
  by (cases s) (auto simp: credential_revision_next_def checked_add_def)

section \<open>Properties\<close>

lemma credential_error_later:
  "now \<le> later \<Longrightarrow> credential_error_of f now \<noteq> None \<Longrightarrow> credential_error_of f later \<noteq> None"
  by (auto simp: credential_error_of_def opt_or_def opt_any_iff split: option.splits if_splits)

lemma cooldown_active_earlier:
  "now \<le> later \<Longrightarrow> cooldown_is_active c later \<Longrightarrow> cooldown_is_active c now"
  by (auto simp: cooldown_is_active_def)

text \<open>
  What time alone can do to the public status of an account: a disabled account stays disabled
  and a failed one stays failed; a normal or quota-exhausted one can only fail by its access token
  expiring, so that passing the reset time never brings an exhausted account back; a rate-limited
  one stays so exactly while its token is valid and its cooldown is active, which a probe freeze
  always is.
\<close>

theorem status_over_time:
  fixes f :: account_status_facts
  assumes "now \<le> later"
  shows "case sp_status (resolve_account_status f now) of
           Disabled \<Rightarrow> sp_status (resolve_account_status f later) = Disabled
         | StatusError \<Rightarrow> sp_status (resolve_account_status f later) = StatusError
         | QuotaExhausted \<Rightarrow>
             sp_status (resolve_account_status f later) \<in> {QuotaExhausted, StatusError}
         | Normal \<Rightarrow> sp_status (resolve_account_status f later) \<in> {Normal, StatusError}
         | RateLimited \<Rightarrow>
             sp_status (resolve_account_status f later) =
               (if credential_error_of f later \<noteq> None then StatusError
                else if opt_any (\<lambda>c. requires_probe (cd_kind c) \<or> later < cd_until c) (sf_cooldown f)
                then RateLimited else Normal)"
  using credential_error_later [OF assms, of f] cooldown_active_earlier [OF assms]
  by (auto simp: resolve_account_status_def plain_status_projection_def opt_any_iff
      cooldown_is_active_def split: option.splits)

theorem status_over_time_witness:
  "sp_status (resolve_account_status
     \<lparr>sf_enabled = True, sf_credential_state = Ready, sf_access_token_expires_at = None,
      sf_quota = quota_exhausted PaymentRequired 0 (Some 5), sf_cooldown = None,
      sf_last_error_reason = None, sf_last_error_message = None\<rparr> 10) \<in> {QuotaExhausted, StatusError}"
  using status_over_time [of 1 10
     "\<lparr>sf_enabled = True, sf_credential_state = Ready, sf_access_token_expires_at = None,
       sf_quota = quota_exhausted PaymentRequired 0 (Some 5), sf_cooldown = None,
       sf_last_error_reason = None, sf_last_error_message = None\<rparr>"]
  by (simp add: resolve_account_status_def plain_status_projection_def credential_error_of_def
      quota_is_exhausted_def quota_exhausted_def)

text \<open>
  Merging any sequence of quota observations into a state whose columns form a legal
  combination gives such a state, and its access conclusion is the last conclusive one of the
  sequence: an inconclusive observation never erases a conclusion.
\<close>

theorem merge_observations_last_conclusive:
  assumes "quota_ok q" and "\<forall>ob \<in> set obs. quota_ok ob"
  shows "quota_ok (fold (\<lambda>ob q. merge_observation q ob) obs q)
       \<and> qs_access (fold (\<lambda>ob q. merge_observation q ob) obs q) =
           last (qs_access q # filter (\<lambda>a. a \<noteq> QuotaUnknown) (map qs_access obs))"
proof -
  have "quota_ok (fold (\<lambda>ob q. merge_observation q ob) obs q)"
    using assms by (induction obs arbitrary: q) (auto simp: quota_ok_merge)
  then show ?thesis by (simp add: merge_observations_access)
qed

theorem merge_observations_last_conclusive_witness:
  "qs_access (fold (\<lambda>ob q. merge_observation q ob)
     [quota_allowed 1, quota_exhausted PaymentRequired 2 None, quota_observed_unknown 3]
     quota_unknown) = Exhausted"
  using merge_observations_last_conclusive
    [of quota_unknown "[quota_allowed 1, quota_exhausted PaymentRequired 2 None, quota_observed_unknown 3]"]
  by (simp add: quota_unknown_def quota_allowed_def quota_exhausted_def quota_observed_unknown_def
      quota_ok_def quota_from_persisted_def)

end
