(* ===== verification/Operation.thy ===== *)
theory Operation
  imports AccountModel
begin

text \<open>
  \<open>operation/mod.rs\<close>: the business operations, the capabilities a router derives from the body of a
  generate request, and the opaque session state of a provider. A JSON object is an association
  list; raw bytes are a \<open>string\<close>.
\<close>

section \<open>Kinds, features and requirements\<close>

datatype operation_kind = Generate | GenerateImage | Search

fun operation_kind_as_str :: "operation_kind \<Rightarrow> string" where
  "operation_kind_as_str Generate = ''generate''"
| "operation_kind_as_str GenerateImage = ''generate_image''"
| "operation_kind_as_str Search = ''search''"

datatype feature = Tools | Vision | Reasoning | JsonSchema | NativeContinuation

fun feature_rank :: "feature \<Rightarrow> nat" where
  "feature_rank Tools = 0"
| "feature_rank Vision = 1"
| "feature_rank Reasoning = 2"
| "feature_rank JsonSchema = 3"
| "feature_rank NativeContinuation = 4"

lemma feature_rank_inj: "feature_rank x = feature_rank y \<longleftrightarrow> x = y"
  by (cases x; cases y) simp_all

instantiation feature :: linorder
begin
definition "x \<le> y \<longleftrightarrow> feature_rank x \<le> feature_rank y"
definition "x < y \<longleftrightarrow> feature_rank x < feature_rank y"
instance by standard (auto simp: less_eq_feature_def less_feature_def feature_rank_inj)
end

record capability_requirements =
  req_operation :: operation_kind
  req_features :: "feature list"
  req_requested_output_tokens :: "nat option"

definition requirements_new :: "operation_kind \<Rightarrow> capability_requirements" where
  "requirements_new op =
     \<lparr>req_operation = op, req_features = [], req_requested_output_tokens = None\<rparr>"

definition require_feature :: "feature \<Rightarrow> capability_requirements \<Rightarrow> capability_requirements" where
  "require_feature f r = r\<lparr>req_features := bs_insert f (req_features r)\<rparr>"

definition with_requested_output_tokens :: "nat option \<Rightarrow> capability_requirements \<Rightarrow> capability_requirements" where
  "with_requested_output_tokens tokens r = r\<lparr>req_requested_output_tokens := tokens\<rparr>"

section \<open>Payloads\<close>

datatype operation_error = EmptyField string

record provider_session_state =
  pss_provider :: string
  pss_payload :: json_map

definition protocol_field :: "string \<Rightarrow> string \<Rightarrow> operation_error + string" where
  "protocol_field field value =
     (case validate_text value 64 True None of Inl _ \<Rightarrow> Inl (EmptyField field) | Inr _ \<Rightarrow> Inr value)"

definition provider_session_state_new :: "string \<Rightarrow> json_map \<Rightarrow> operation_error + provider_session_state" where
  "provider_session_state_new provider payload =
     (case protocol_field ''provider_session_state provider'' provider of
        Inl e \<Rightarrow> Inl e
      | Inr p \<Rightarrow> Inr \<lparr>pss_provider = p, pss_payload = payload\<rparr>)"

record protocol_payload =
  pp_protocol :: string
  pp_body :: json_map
  pp_context :: json_map

definition protocol_payload_json_object :: "string \<Rightarrow> json_map \<Rightarrow> operation_error + protocol_payload" where
  "protocol_payload_json_object protocol body =
     (case protocol_field ''protocol_payload protocol'' protocol of
        Inl e \<Rightarrow> Inl e
      | Inr p \<Rightarrow> Inr \<lparr>pp_protocol = p, pp_body = body, pp_context = []\<rparr>)"

definition protocol_payload_with_context :: "protocol_payload \<Rightarrow> json_map \<Rightarrow> protocol_payload" where
  "protocol_payload_with_context p context = p\<lparr>pp_context := context\<rparr>"

record raw_json_payload =
  rjp_protocol :: string
  rjp_body :: string
  rjp_context :: json_map

definition raw_json_payload_new :: "string \<Rightarrow> string \<Rightarrow> operation_error + raw_json_payload" where
  "raw_json_payload_new protocol body =
     (case protocol_field ''raw_json_payload protocol'' protocol of
        Inl e \<Rightarrow> Inl e
      | Inr p \<Rightarrow> Inr \<lparr>rjp_protocol = p, rjp_body = body, rjp_context = []\<rparr>)"

section \<open>Reading JSON\<close>

fun as_str :: "json \<Rightarrow> string option" where
  "as_str (JString s) = Some s"
| "as_str _ = None"

fun as_u64 :: "json \<Rightarrow> nat option" where
  "as_u64 (JInt n) = (if 0 \<le> n \<and> n \<le> int u64_max then Some (nat n) else None)"
| "as_u64 _ = None"

fun as_array :: "json \<Rightarrow> json list option" where
  "as_array (JArray vs) = Some vs"
| "as_array _ = None"

fun as_object :: "json \<Rightarrow> json_map option" where
  "as_object (JObject m) = Some m"
| "as_object _ = None"

definition json_get :: "string \<Rightarrow> json \<Rightarrow> json option" where
  "json_get key v = Option.bind (as_object v) (\<lambda>m. map_of m key)"

text \<open>\<open>contains_type\<close>, with the iterations over the elements and over the fields written out.\<close>

fun contains_type :: "string \<Rightarrow> json \<Rightarrow> bool"
  and contains_type_list :: "string \<Rightarrow> json list \<Rightarrow> bool"
  and contains_type_fields :: "string \<Rightarrow> json_map \<Rightarrow> bool"
where
  "contains_type expected (JArray vs) = contains_type_list expected vs"
| "contains_type expected (JObject m) =
     (Option.bind (map_of m ''type'') as_str = Some expected \<or> contains_type_fields expected m)"
| "contains_type expected JNull = False"
| "contains_type expected (JBool _) = False"
| "contains_type expected (JInt _) = False"
| "contains_type expected (JFloat _) = False"
| "contains_type expected (JString _) = False"
| "contains_type_list expected [] = False"
| "contains_type_list expected (v # vs) = (contains_type expected v \<or> contains_type_list expected vs)"
| "contains_type_fields expected [] = False"
| "contains_type_fields expected ((k, v) # m) = (contains_type expected v \<or> contains_type_fields expected m)"

section \<open>Requests\<close>

record generate_request =
  gr_protocol_payload :: protocol_payload
  gr_provider_session_state :: "provider_session_state option"

definition generate_from_payload :: "protocol_payload \<Rightarrow> generate_request" where
  "generate_from_payload p = \<lparr>gr_protocol_payload = p, gr_provider_session_state = None\<rparr>"

definition generate_set_session_state :: "generate_request \<Rightarrow> provider_session_state \<Rightarrow> generate_request" where
  "generate_set_session_state r st = r\<lparr>gr_provider_session_state := Some st\<rparr>"

definition generate_body :: "generate_request \<Rightarrow> json_map" where
  "generate_body r = pp_body (gr_protocol_payload r)"

definition max_output_tokens :: "generate_request \<Rightarrow> nat option" where
  "max_output_tokens r =
     opt_filter (\<lambda>tokens. 0 < tokens) (Option.bind (map_of (generate_body r) ''max_output_tokens'') as_u64)"

definition prompt_cache_key :: "generate_request \<Rightarrow> string option" where
  "prompt_cache_key r =
     opt_filter (\<lambda>key. str_trim key \<noteq> []) (Option.bind (map_of (generate_body r) ''prompt_cache_key'') as_str)"

definition native_continuation_requested :: "generate_request \<Rightarrow> bool" where
  "native_continuation_requested r =
     (Option.bind (map_of (generate_body r) ''previous_response_id'') as_str \<noteq> None)"

definition generate_image_requested :: "generate_request \<Rightarrow> bool" where
  "generate_image_requested r =
     opt_any (list_ex (\<lambda>tool. Option.bind (json_get ''type'' tool) as_str = Some ''image_generation''))
       (Option.bind (map_of (generate_body r) ''tools'') as_array)"

definition generate_provider_session_state :: "generate_request \<Rightarrow> string \<Rightarrow> provider_session_state option" where
  "generate_provider_session_state r provider =
     opt_filter (\<lambda>st. pss_provider st = provider) (gr_provider_session_state r)"

definition require_if :: "bool \<Rightarrow> feature \<Rightarrow> capability_requirements \<Rightarrow> capability_requirements" where
  "require_if b f r = (if b then require_feature f r else r)"

definition generate_requirements :: "generate_request \<Rightarrow> capability_requirements" where
  "generate_requirements r =
     (let body = generate_body r;
          reqs = with_requested_output_tokens (max_output_tokens r) (requirements_new Generate);
          reqs = require_if (opt_any (\<lambda>tools. tools \<noteq> []) (Option.bind (map_of body ''tools'') as_array))
                   Tools reqs;
          reqs = require_if (opt_any (contains_type ''input_image'') (map_of body ''input'')) Vision reqs;
          reqs = require_if (opt_any (\<lambda>v. as_object v \<noteq> None) (map_of body ''reasoning'')) Reasoning reqs;
          reqs = require_if
                   (Option.bind
                      (Option.bind
                         (Option.bind
                            (Option.bind (Option.bind (map_of body ''text'') as_object)
                               (\<lambda>text. map_of text ''format''))
                            as_object)
                         (\<lambda>fmt. map_of fmt ''type''))
                      as_str = Some ''json_schema'')
                   JsonSchema reqs
      in require_if (native_continuation_requested r) NativeContinuation reqs)"

datatype image_request_kind = ImageGeneration | ImageEdit

record image_request =
  ir_kind :: image_request_kind
  ir_payload :: raw_json_payload

record standalone_search_request =
  ss_payload :: raw_json_payload

datatype operation =
    OpGenerate generate_request
  | OpGenerateImage image_request
  | OpSearch standalone_search_request

fun operation_set_session_state :: "operation \<Rightarrow> provider_session_state \<Rightarrow> operation" where
  "operation_set_session_state (OpGenerate r) st = OpGenerate (generate_set_session_state r st)"
| "operation_set_session_state (OpGenerateImage r) st = OpGenerateImage r"
| "operation_set_session_state (OpSearch r) st = OpSearch r"

fun operation_kind_of :: "operation \<Rightarrow> operation_kind" where
  "operation_kind_of (OpGenerate _) = Generate"
| "operation_kind_of (OpGenerateImage _) = GenerateImage"
| "operation_kind_of (OpSearch _) = Search"

fun operation_requirements :: "operation \<Rightarrow> capability_requirements" where
  "operation_requirements (OpGenerate r) = generate_requirements r"
| "operation_requirements (OpGenerateImage _) = requirements_new GenerateImage"
| "operation_requirements (OpSearch _) = requirements_new Search"

fun operation_image_requested :: "operation \<Rightarrow> bool" where
  "operation_image_requested (OpGenerate r) = generate_image_requested r"
| "operation_image_requested (OpGenerateImage _) = True"
| "operation_image_requested (OpSearch _) = False"

fun operation_session_state :: "operation \<Rightarrow> string \<Rightarrow> provider_session_state option" where
  "operation_session_state (OpGenerate r) provider = generate_provider_session_state r provider"
| "operation_session_state (OpGenerateImage _) provider = None"
| "operation_session_state (OpSearch _) provider = None"

lemma body_set_session_state [simp]:
  "generate_body (generate_set_session_state r st) = generate_body r"
  by (simp add: generate_body_def generate_set_session_state_def)

lemma requirements_set_session_state [simp]:
  "operation_requirements (operation_set_session_state op st) = operation_requirements op"
  by (cases op)
     (simp_all add: generate_requirements_def max_output_tokens_def native_continuation_requested_def)

lemma kind_set_session_state [simp]:
  "operation_kind_of (operation_set_session_state op st) = operation_kind_of op"
  by (cases op) simp_all

lemma require_if_features:
  "bs_ok (req_features r) \<Longrightarrow> bs_ok (req_features (require_if b f r))"
  "set (req_features (require_if b f r)) = (if b then insert f (set (req_features r)) else set (req_features r))"
  by (simp_all add: require_if_def require_feature_def)

lemma require_if_operation: "req_operation (require_if b f r) = req_operation r"
  by (simp add: require_if_def require_feature_def)

lemma requirements_base:
  "req_features (with_requested_output_tokens t (requirements_new op)) = []"
  "req_operation (with_requested_output_tokens t (requirements_new op)) = op"
  "req_features (requirements_new op) = []" "req_operation (requirements_new op) = op"
  by (simp_all add: requirements_new_def with_requested_output_tokens_def)

lemma requirements_features_ok: "bs_ok (req_features (operation_requirements op))"
  by (cases op) (simp_all add: generate_requirements_def Let_def require_if_features requirements_base)

lemma requirements_operation [simp]: "req_operation (operation_requirements op) = operation_kind_of op"
  by (cases op) (simp_all add: generate_requirements_def Let_def require_if_operation requirements_base)

lemma requires_native_continuation:
  "NativeContinuation \<in> set (req_features (operation_requirements (OpGenerate r)))
     \<longleftrightarrow> native_continuation_requested r"
  by (simp add: generate_requirements_def Let_def require_if_features requirements_base)

end
