(* ===== verification/Events.thy ===== *)
theory Events
  imports Metering Operation
begin

text \<open>
  \<open>event.rs\<close> and \<open>upstream.rs\<close>: the canonical events of a provider stream, the protocol wire event
  and the response observation that travel with them, and the validator of the event order. Raw
  frames and bodies are byte strings; whether a text parses as a JSON object is asked from
  \<open>serde_json\<close>, an argument of \<open>response_metadata_new\<close>.
\<close>

section \<open>Upstream facts\<close>

datatype upstream_send_state = NotSent | Sent | Ambiguous

fun send_state_as_str :: "upstream_send_state \<Rightarrow> string" where
  "send_state_as_str NotSent = ''not_sent''"
| "send_state_as_str Sent = ''sent''"
| "send_state_as_str Ambiguous = ''ambiguous''"

datatype opaque_upstream_value = OpaqueUpstreamValue (opaque_str: string)

section \<open>Canonical events\<close>

datatype finish_reason = FinishStop | FinishLength | FinishToolCall | FinishContentFilter | FinishOther

datatype content_kind = KText | KReasoning | KToolCall | KImage | KAudio

record response_meta =
  rm_response_id :: string
  rm_model :: "string option"
  rm_finish_reason :: "finish_reason option"

definition response_meta_new :: "string \<Rightarrow> string \<Rightarrow> response_meta" where
  "response_meta_new response_id model =
     \<lparr>rm_response_id = response_id, rm_model = Some model, rm_finish_reason = None\<rparr>"

definition response_meta_for_provider_endpoint :: "string \<Rightarrow> response_meta" where
  "response_meta_for_provider_endpoint response_id =
     \<lparr>rm_response_id = response_id, rm_model = None, rm_finish_reason = None\<rparr>"

definition with_finish_reason :: "response_meta \<Rightarrow> finish_reason \<Rightarrow> response_meta" where
  "with_finish_reason m r = m\<lparr>rm_finish_reason := Some r\<rparr>"

record content_item =
  ci_index :: nat
  ci_kind :: content_kind

record text_delta =
  td_content_index :: nat
  td_text :: string

record reasoning_delta =
  rd_content_index :: nat
  rd_text :: string

record tool_call_delta =
  tcd_content_index :: nat
  tcd_call_id :: string
  tcd_name :: "string option"
  tcd_arguments_delta :: string

datatype gateway_event =
    EvStarted response_meta
  | EvContentAdded content_item
  | EvTextDelta text_delta
  | EvReasoningDelta reasoning_delta
  | EvToolCallDelta tool_call_delta
  | EvUsage usage
  | EvCalculatedCost calculated_cost
  | EvProviderCost provider_reported_cost
  | EvCompleted response_meta

section \<open>Wire events\<close>

record protocol_wire_event =
  we_protocol :: string
  we_event_type :: "string option"
  we_data :: json
  we_has_json_data :: bool
  we_raw_sse_frame :: "string option"
  we_raw_json_body :: "string option"
  we_sse_id :: "string option"
  we_sse_retry :: "nat option"

definition wire_json_with_sse_metadata ::
  "string \<Rightarrow> string option \<Rightarrow> json \<Rightarrow> string option \<Rightarrow> nat option
   \<Rightarrow> identifier_error + protocol_wire_event" where
  "wire_json_with_sse_metadata protocol event_type data sse_id sse_retry =
     (case validate_text protocol 64 True None of
        Inl e \<Rightarrow> Inl e
      | Inr _ \<Rightarrow> Inr
          \<lparr>we_protocol = protocol, we_event_type = event_type, we_data = data,
           we_has_json_data = True, we_raw_sse_frame = None, we_raw_json_body = None,
           we_sse_id = sse_id, we_sse_retry = sse_retry\<rparr>)"

definition wire_json :: "string \<Rightarrow> string option \<Rightarrow> json \<Rightarrow> identifier_error + protocol_wire_event" where
  "wire_json protocol event_type data = wire_json_with_sse_metadata protocol event_type data None None"

definition wire_json_with_raw_sse_metadata ::
  "string \<Rightarrow> string option \<Rightarrow> json \<Rightarrow> string \<Rightarrow> string option \<Rightarrow> nat option
   \<Rightarrow> identifier_error + protocol_wire_event" where
  "wire_json_with_raw_sse_metadata protocol event_type data frame sse_id sse_retry =
     (case wire_json_with_sse_metadata protocol event_type data sse_id sse_retry of
        Inl e \<Rightarrow> Inl e
      | Inr w \<Rightarrow> Inr (w\<lparr>we_raw_sse_frame := Some frame\<rparr>))"

definition wire_raw :: "string \<Rightarrow> string option \<Rightarrow> string option \<Rightarrow> identifier_error + protocol_wire_event" where
  "wire_raw protocol sse json_body =
     (case validate_text protocol 64 True None of
        Inl e \<Rightarrow> Inl e
      | Inr _ \<Rightarrow> Inr
          \<lparr>we_protocol = protocol, we_event_type = None, we_data = JNull, we_has_json_data = False,
           we_raw_sse_frame = sse, we_raw_json_body = json_body, we_sse_id = None,
           we_sse_retry = None\<rparr>)"

definition wire_raw_sse :: "string \<Rightarrow> string \<Rightarrow> identifier_error + protocol_wire_event" where
  "wire_raw_sse protocol frame = wire_raw protocol (Some frame) None"

definition wire_raw_json :: "string \<Rightarrow> string \<Rightarrow> identifier_error + protocol_wire_event" where
  "wire_raw_json protocol body = wire_raw protocol None (Some body)"

section \<open>Response observation\<close>

datatype upstream_http_version = HttpUnknown | Http09 | Http10 | Http11 | Http2 | Http3

definition ascii_uppercase :: "char \<Rightarrow> char" where
  "ascii_uppercase c =
     (if 97 \<le> (of_char c :: nat) \<and> (of_char c :: nat) \<le> 122 then char_of ((of_char c :: nat) - 32) else c)"

definition http_version_parse :: "string \<Rightarrow> upstream_http_version option" where
  "http_version_parse value =
     (let v = map ascii_uppercase (str_trim value) in
      if v \<in> {''HTTP/0.9'', ''0.9''} then Some Http09
      else if v \<in> {''HTTP/1.0'', ''HTTP/1'', ''1.0''} then Some Http10
      else if v \<in> {''HTTP/1.1'', ''1.1''} then Some Http11
      else if v \<in> {''HTTP/2'', ''HTTP/2.0'', ''2'', ''2.0''} then Some Http2
      else if v \<in> {''HTTP/3'', ''HTTP/3.0'', ''3'', ''3.0''} then Some Http3
      else None)"

fun http_version_as_str :: "upstream_http_version \<Rightarrow> string" where
  "http_version_as_str HttpUnknown = ''unknown''"
| "http_version_as_str Http09 = ''HTTP/0.9''"
| "http_version_as_str Http10 = ''HTTP/1.0''"
| "http_version_as_str Http11 = ''HTTP/1.1''"
| "http_version_as_str Http2 = ''HTTP/2''"
| "http_version_as_str Http3 = ''HTTP/3''"

record provider_response_timings =
  prt_transport_decision_wait_ms :: "nat option"
  prt_connect_ms :: "nat option"
  prt_headers_ms :: "nat option"
  prt_first_event_ms :: "nat option"
  prt_first_reasoning_ms :: "nat option"
  prt_first_text_ms :: "nat option"
  prt_first_token_ms :: "nat option"
  prt_provider_processing_ms :: "nat option"

definition response_timings_default :: provider_response_timings where
  "response_timings_default =
     \<lparr>prt_transport_decision_wait_ms = None, prt_connect_ms = None, prt_headers_ms = None,
      prt_first_event_ms = None, prt_first_reasoning_ms = None, prt_first_text_ms = None,
      prt_first_token_ms = None, prt_provider_processing_ms = None\<rparr>"

datatype provider_response_metadata = ProviderResponseMetadata (metadata_json: string)

definition response_metadata_new :: "(string \<Rightarrow> json option) \<Rightarrow> string \<Rightarrow> provider_response_metadata option" where
  "response_metadata_new json_parse text =
     (if 32 * 1024 < length text then None
      else if opt_any (\<lambda>v. as_object v \<noteq> None) (json_parse text)
        then Some (ProviderResponseMetadata text)
      else None)"

record provider_response_header =
  prh_name :: string
  prh_value :: string

datatype websocket_pool_kind = PoolNew | PoolReuse

fun websocket_pool_as_str :: "websocket_pool_kind \<Rightarrow> string" where
  "websocket_pool_as_str PoolNew = ''new''"
| "websocket_pool_as_str PoolReuse = ''reuse''"

record provider_response_observation =
  pro_transport :: upstream_transport
  pro_http_version :: "upstream_http_version option"
  pro_websocket_pool :: "websocket_pool_kind option"
  pro_status_code :: "nat option"
  pro_request_id :: "opaque_upstream_value option"
  pro_service_tier :: "string option"
  pro_upstream_response_model :: "string option"
  pro_timings :: provider_response_timings
  pro_client_headers :: "provider_response_header list"
  pro_provider_metadata :: "provider_response_metadata option"

definition response_observation_new :: "upstream_transport \<Rightarrow> provider_response_observation" where
  "response_observation_new transport =
     \<lparr>pro_transport = transport, pro_http_version = None, pro_websocket_pool = None,
      pro_status_code = None, pro_request_id = None, pro_service_tier = None,
      pro_upstream_response_model = None, pro_timings = response_timings_default,
      pro_client_headers = [], pro_provider_metadata = None\<rparr>"

definition valid_status :: "nat \<Rightarrow> bool" where
  "valid_status status = (100 \<le> status \<and> status \<le> 599)"

definition observation_with_status_code ::
  "provider_response_observation \<Rightarrow> nat \<Rightarrow> provider_response_observation" where
  "observation_with_status_code ob status =
     ob\<lparr>pro_status_code := (if valid_status status then Some status else None)\<rparr>"

definition observation_try_with_service_tier ::
  "provider_response_observation \<Rightarrow> string \<Rightarrow> identifier_error + provider_response_observation" where
  "observation_try_with_service_tier ob tier =
     (case validate_text tier 64 False None of
        Inl e \<Rightarrow> Inl e
      | Inr _ \<Rightarrow> Inr (ob\<lparr>pro_service_tier := Some tier\<rparr>))"

definition observation_with_service_tier_if_valid ::
  "provider_response_observation \<Rightarrow> string \<Rightarrow> provider_response_observation" where
  "observation_with_service_tier_if_valid ob tier =
     (if validate_text tier 64 False None = Inr () then ob\<lparr>pro_service_tier := Some tier\<rparr> else ob)"

definition observation_with_response_model_if_valid ::
  "provider_response_observation \<Rightarrow> string \<Rightarrow> provider_response_observation" where
  "observation_with_response_model_if_valid ob model =
     (let model = str_trim model in
      if validate_text model 256 False None = Inr ()
      then ob\<lparr>pro_upstream_response_model := Some model\<rparr> else ob)"

section \<open>Provider events\<close>

record provider_event =
  pe_canonical :: "gateway_event list"
  pe_wire :: "protocol_wire_event option"
  pe_observation :: "provider_response_observation option"
  pe_session_update :: "provider_session_state option"

definition provider_event_canonical :: "gateway_event \<Rightarrow> provider_event" where
  "provider_event_canonical e =
     \<lparr>pe_canonical = [e], pe_wire = None, pe_observation = None, pe_session_update = None\<rparr>"

definition provider_event_wire :: "protocol_wire_event \<Rightarrow> provider_event" where
  "provider_event_wire w =
     \<lparr>pe_canonical = [], pe_wire = Some w, pe_observation = None, pe_session_update = None\<rparr>"

definition provider_event_canonical_with_wire ::
  "gateway_event list \<Rightarrow> protocol_wire_event \<Rightarrow> provider_event" where
  "provider_event_canonical_with_wire es w =
     \<lparr>pe_canonical = es, pe_wire = Some w, pe_observation = None, pe_session_update = None\<rparr>"

definition provider_event_observation :: "provider_response_observation \<Rightarrow> provider_event" where
  "provider_event_observation ob =
     \<lparr>pe_canonical = [], pe_wire = None, pe_observation = Some ob, pe_session_update = None\<rparr>"

definition attach_session_update :: "provider_event \<Rightarrow> provider_session_state \<Rightarrow> provider_event" where
  "attach_session_update e st = e\<lparr>pe_session_update := Some st\<rparr>"

definition take_session_update :: "provider_event \<Rightarrow> provider_session_state option \<times> provider_event" where
  "take_session_update e = (pe_session_update e, e\<lparr>pe_session_update := None\<rparr>)"

definition take_observation :: "provider_event \<Rightarrow> provider_response_observation option \<times> provider_event" where
  "take_observation e = (pe_observation e, e\<lparr>pe_observation := None\<rparr>)"

definition has_canonical_facts :: "provider_event \<Rightarrow> bool" where
  "has_canonical_facts e = (pe_canonical e \<noteq> [])"

definition has_client_event :: "provider_event \<Rightarrow> bool" where
  "has_client_event e = (pe_canonical e \<noteq> [] \<or> pe_wire e \<noteq> None)"

section \<open>The order of canonical events\<close>

datatype event_sequence_error =
    MissingStarted
  | DuplicateStarted
  | DuplicateContent nat
  | InvalidDeltaTarget nat
  | EventAfterCompleted
  | MissingCompleted

record event_sequence_validator =
  v_started :: bool
  v_completed :: bool
  v_content :: "(nat, content_kind) btree"

definition validator_new :: event_sequence_validator where
  "validator_new = \<lparr>v_started = False, v_completed = False, v_content = []\<rparr>"

definition require_content ::
  "event_sequence_validator \<Rightarrow> nat \<Rightarrow> content_kind \<Rightarrow> event_sequence_error + unit" where
  "require_content v index expected =
     (if map_of (v_content v) index = Some expected then Inr () else Inl (InvalidDeltaTarget index))"

fun is_started :: "gateway_event \<Rightarrow> bool" where
  "is_started (EvStarted _) = True"
| "is_started _ = False"

text \<open>The result of a call and the validator after it: a duplicate item has already replaced the first.\<close>

definition validator_observe ::
  "event_sequence_validator \<Rightarrow> gateway_event
   \<Rightarrow> (event_sequence_error + unit) \<times> event_sequence_validator" where
  "validator_observe v event =
     (if v_completed v then (Inl EventAfterCompleted, v)
      else if \<not> v_started v \<and> \<not> is_started event then (Inl MissingStarted, v)
      else case event of
        EvStarted _ \<Rightarrow> if v_started v then (Inl DuplicateStarted, v) else (Inr (), v\<lparr>v_started := True\<rparr>)
      | EvContentAdded item \<Rightarrow>
          let v' = v\<lparr>v_content := bt_insert (ci_index item) (ci_kind item) (v_content v)\<rparr>
          in if bt_has (v_content v) (ci_index item) then (Inl (DuplicateContent (ci_index item)), v')
             else (Inr (), v')
      | EvTextDelta d \<Rightarrow> (require_content v (td_content_index d) KText, v)
      | EvReasoningDelta d \<Rightarrow> (require_content v (rd_content_index d) KReasoning, v)
      | EvToolCallDelta d \<Rightarrow> (require_content v (tcd_content_index d) KToolCall, v)
      | EvUsage _ \<Rightarrow> (Inr (), v)
      | EvCalculatedCost _ \<Rightarrow> (Inr (), v)
      | EvProviderCost _ \<Rightarrow> (Inr (), v)
      | EvCompleted _ \<Rightarrow> (Inr (), v\<lparr>v_completed := True\<rparr>))"

definition validator_finish :: "event_sequence_validator \<Rightarrow> event_sequence_error + unit" where
  "validator_finish v =
     (if \<not> v_started v then Inl MissingStarted
      else if \<not> v_completed v then Inl MissingCompleted
      else Inr ())"

section \<open>What the validator accepts\<close>

definition validate_event ::
  "gateway_event \<Rightarrow> event_sequence_validator \<Rightarrow> event_sequence_error + event_sequence_validator" where
  "validate_event e v =
     (case validator_observe v e of (Inl err, _) \<Rightarrow> Inl err | (Inr _, v') \<Rightarrow> Inr v')"

definition validate_stream :: "gateway_event list \<Rightarrow> event_sequence_error + event_sequence_validator" where
  "validate_stream es = try_fold validate_event es validator_new"

fun is_completed :: "gateway_event \<Rightarrow> bool" where
  "is_completed (EvCompleted _) = True"
| "is_completed _ = False"

text \<open>The content items a stream declares, and the item and kind a delta writes to.\<close>

fun declares :: "gateway_event \<Rightarrow> (nat \<times> content_kind) list" where
  "declares (EvContentAdded item) = [(ci_index item, ci_kind item)]"
| "declares _ = []"

definition declared :: "gateway_event list \<Rightarrow> (nat \<times> content_kind) list" where
  "declared es = concat (map declares es)"

fun delta_target :: "gateway_event \<Rightarrow> (nat \<times> content_kind) option" where
  "delta_target (EvTextDelta d) = Some (td_content_index d, KText)"
| "delta_target (EvReasoningDelta d) = Some (rd_content_index d, KReasoning)"
| "delta_target (EvToolCallDelta d) = Some (tcd_content_index d, KToolCall)"
| "delta_target _ = None"

text \<open>An event that may follow the body \<open>pre\<close> of a started stream.\<close>

definition may_follow :: "gateway_event list \<Rightarrow> gateway_event \<Rightarrow> bool" where
  "may_follow pre e =
     (\<not> is_started e \<and> \<not> is_completed e
      \<and> (\<forall>(i, k) \<in> set (declares e). i \<notin> fst ` set (declared pre))
      \<and> (case delta_target e of None \<Rightarrow> True | Some t \<Rightarrow> t \<in> set (declared pre)))"

definition canonical_body :: "gateway_event list \<Rightarrow> bool" where
  "canonical_body es = (\<forall>pre e post. es = pre @ e # post \<longrightarrow> may_follow pre e)"

definition canonical_stream :: "gateway_event list \<Rightarrow> bool" where
  "canonical_stream es =
     (\<exists>m body n. es = EvStarted m # body @ [EvCompleted n] \<and> canonical_body body)"

lemma declared_simps [simp]:
  "declared [] = []" "declared (xs @ ys) = declared xs @ declared ys"
  "declared [e] = declares e"
  by (simp_all add: declared_def)

lemma all_splits_snoc:
  "(\<forall>pre x post. xs @ [e] = pre @ x # post \<longrightarrow> P pre x) \<longleftrightarrow>
     (\<forall>pre x post. xs = pre @ x # post \<longrightarrow> P pre x) \<and> P xs e" (is "?L \<longleftrightarrow> ?R")
proof
  assume l: ?L
  have "P pre x" if "xs = pre @ x # post" for pre x post
    using l [rule_format, of pre x "post @ [e]"] that by simp
  moreover have "P xs e" using l by blast
  ultimately show ?R by blast
next
  assume r: ?R
  show ?L
  proof (intro allI impI)
    fix pre x post
    assume s: "xs @ [e] = pre @ x # post"
    show "P pre x"
    proof (cases post rule: rev_cases)
      case Nil
      with s r show ?thesis by simp
    next
      case (snoc ps p)
      with s have "xs = pre @ x # ps" by simp
      with r show ?thesis by blast
    qed
  qed
qed

lemma canonical_body_snoc: "canonical_body (es @ [e]) \<longleftrightarrow> canonical_body es \<and> may_follow es e"
  unfolding canonical_body_def by (rule all_splits_snoc)

lemma canonical_body_Nil [simp]: "canonical_body []"
  by (simp add: canonical_body_def)

text \<open>The validator inside a body.\<close>

definition in_body :: "gateway_event list \<Rightarrow> event_sequence_validator \<Rightarrow> bool" where
  "in_body es v \<longleftrightarrow>
     v_started v \<and> \<not> v_completed v
     \<and> (\<forall>i k. map_of (v_content v) i = Some k \<longleftrightarrow> (i, k) \<in> set (declared es))"

lemma in_body_has: "in_body es v \<Longrightarrow> bt_has (v_content v) i \<longleftrightarrow> i \<in> fst ` set (declared es)"
  by (force simp: in_body_def bt_has_def)

lemma validate_body_event:
  assumes b: "in_body es v" and "\<not> is_completed e"
  shows "may_follow es e \<Longrightarrow> \<exists>w. validate_event e v = Inr w \<and> in_body (es @ [e]) w"
    and "validate_event e v = Inr w \<Longrightarrow> may_follow es e"
proof -
  have v: "v_started v" "\<not> v_completed v"
    and c: "map_of (v_content v) i = Some k \<longleftrightarrow> (i, k) \<in> set (declared es)" for i k
    using b by (simp_all add: in_body_def)
  show "\<exists>w. validate_event e v = Inr w \<and> in_body (es @ [e]) w" if "may_follow es e"
  proof (cases e)
    case (EvContentAdded item)
    with that have "\<not> bt_has (v_content v) (ci_index item)"
      by (simp add: may_follow_def in_body_has [OF b])
    moreover from this have "(ci_index item, k) \<notin> set (declared es)" for k
      by (force simp: in_body_has [OF b])
    ultimately show ?thesis
      using v c EvContentAdded
      by (auto simp: validate_event_def validator_observe_def in_body_def Let_def)
  qed (use that b v in \<open>auto simp: validate_event_def validator_observe_def may_follow_def
        require_content_def in_body_def\<close>)
  show "may_follow es e" if "validate_event e v = Inr w"
    using that assms(2) v c
    by (cases e) (auto simp: validate_event_def validator_observe_def may_follow_def
        require_content_def Let_def in_body_has [OF b] split: if_splits sum.splits prod.splits)
qed

lemma validate_body:
  assumes "list_all (\<lambda>e. \<not> is_completed e) es" and "in_body [] v"
  shows "case try_fold validate_event es v of
           Inl _ \<Rightarrow> \<not> canonical_body es | Inr w \<Rightarrow> canonical_body es \<and> in_body es w"
  using assms(1)
proof (induction es rule: rev_induct)
  case Nil
  then show ?case using assms(2) by simp
next
  case (snoc e es)
  then have ih: "case try_fold validate_event es v of
      Inl _ \<Rightarrow> \<not> canonical_body es | Inr w \<Rightarrow> canonical_body es \<and> in_body es w" and e: "\<not> is_completed e"
    by simp_all
  show ?case
  proof (cases "try_fold validate_event es v")
    case (Inl err)
    with ih show ?thesis by (simp add: try_fold_append canonical_body_snoc)
  next
    case (Inr u)
    with ih have u: "canonical_body es" "in_body es u" by simp_all
    show ?thesis
    proof (cases "may_follow es e")
      case True
      with validate_body_event(1) [OF u(2) e] Inr u show ?thesis
        by (auto simp: try_fold_append canonical_body_snoc)
    next
      case False
      with validate_body_event(2) [OF u(2) e] have "validate_event e u \<noteq> Inr w" for w by blast
      then obtain err where "validate_event e u = Inl err" by (cases "validate_event e u") auto
      with Inr False show ?thesis by (simp add: try_fold_append canonical_body_snoc)
    qed
  qed
qed

lemma validate_event_completed:
  "validate_event e v = Inr w \<Longrightarrow>
     \<not> v_completed v \<and> (v_completed w \<longleftrightarrow> is_completed e) \<and> (is_completed e \<longrightarrow> v_started v)
     \<and> (v_started w \<longleftrightarrow> v_started v \<or> is_started e)"
  by (cases e) (auto simp: validate_event_def validator_observe_def Let_def
      split: if_splits sum.splits prod.splits)

lemma validated_completed:
  "try_fold validate_event es v = Inr w \<Longrightarrow>
     v_completed w \<longleftrightarrow> v_completed v \<or> (\<exists>e \<in> set es. is_completed e)"
proof (induction es arbitrary: v)
  case Nil
  then show ?case by simp
next
  case (Cons e es)
  then obtain u where "validate_event e v = Inr u" "try_fold validate_event es u = Inr w"
    by (auto split: sum.splits)
  with Cons.IH [of u] validate_event_completed [of e v u] show ?case by auto
qed

lemma canonical_body_not_completed: "canonical_body es \<Longrightarrow> list_all (\<lambda>e. \<not> is_completed e) es"
  unfolding list_all_iff canonical_body_def may_follow_def by (metis split_list)

lemma validate_started: "validate_event (EvStarted m) validator_new = Inr (validator_new\<lparr>v_started := True\<rparr>)"
  by (simp add: validate_event_def validator_observe_def validator_new_def)

lemma in_body_started: "in_body [] (validator_new\<lparr>v_started := True\<rparr>)"
  by (simp add: in_body_def validator_new_def)

lemma validated_canonical:
  "(\<exists>v. validate_stream es = Inr v \<and> validator_finish v = Inr ()) \<longleftrightarrow> canonical_stream es"
  (is "?L \<longleftrightarrow> ?R")
proof
  assume ?R
  then obtain m body n where es: "es = EvStarted m # body @ [EvCompleted n]" and b: "canonical_body body"
    by (auto simp: canonical_stream_def)
  from validate_body [OF canonical_body_not_completed [OF b] in_body_started] b
  obtain w where w: "try_fold validate_event body (validator_new\<lparr>v_started := True\<rparr>) = Inr w" "in_body body w"
    by (auto split: sum.splits)
  have "validate_event (EvCompleted n) w = Inr (w\<lparr>v_completed := True\<rparr>)"
    using w(2) by (simp add: validate_event_def validator_observe_def in_body_def)
  moreover have "v_started w" using w(2) by (simp add: in_body_def)
  ultimately show ?L
    using w by (simp add: es validate_stream_def validate_started try_fold_append validator_finish_def)
next
  assume ?L
  then obtain v where v: "try_fold validate_event es validator_new = Inr v" "v_started v" "v_completed v"
    by (auto simp: validate_stream_def validator_finish_def split: sum.splits if_splits)
  have "es \<noteq> []" using v by (auto simp: validator_new_def)
  then obtain e rest where es: "es = e # rest" by (cases es) auto
  with v obtain u where u: "validate_event e validator_new = Inr u" "try_fold validate_event rest u = Inr v"
    by (auto split: sum.splits)
  have "is_started e"
    using u(1) by (cases e) (simp_all add: validate_event_def validator_observe_def validator_new_def)
  then obtain m where m: "e = EvStarted m" by (cases e) simp_all
  with u have u': "u = validator_new\<lparr>v_started := True\<rparr>" by (simp add: validate_started)
  have "rest \<noteq> []" using u v(3) by (auto simp: u' validator_new_def)
  then obtain body l where rest: "rest = body @ [l]" by (cases rest rule: rev_cases) auto
  with u(2) obtain w where w: "try_fold validate_event body u = Inr w" "validate_event l w = Inr v"
    by (auto simp: try_fold_append split: sum.splits)
  from validate_event_completed [OF w(2)] v(3) have "is_completed l" and nc: "\<not> v_completed w" by auto
  then obtain n where n: "l = EvCompleted n" by (cases l) simp_all
  have "list_all (\<lambda>e. \<not> is_completed e) body"
    using validated_completed [OF w(1)] nc by (auto simp: list_all_iff)
  from validate_body [OF this, of u] w(1) have "canonical_body body"
    by (simp add: u' in_body_started)
  then show ?R by (auto simp: canonical_stream_def es m rest n)
qed

text \<open>
  C19. The incremental validator accepts exactly the canonical streams: one \<open>Started\<close>, then a body
  whose content items have different indexes and whose every delta writes to an item of its kind
  declared before it, then one \<open>Completed\<close> and nothing after it.
\<close>

theorem validator_accepts_canonical_streams:
  "(case validate_stream es of Inl _ \<Rightarrow> False | Inr v \<Rightarrow> validator_finish v = Inr ())
     \<longleftrightarrow> canonical_stream es"
  unfolding validated_canonical [symmetric] by (auto split: sum.splits)

end
