(* ===== verification/Concurrency.thy ===== *)
theory Concurrency
  imports Prelude "HOL-Library.AList" "HOL-Library.Multiset"
begin

text \<open>
  \<open>concurrency.rs\<close>: the bounded waiting lines in front of the admission of a key or an account, the
  ticket that holds a place and gives it back when dropped, the time budget a request shares over
  all its waits, and the wait of one layer. A waker is its identity (the \<open>Arc\<close> pointer the code
  compares), drawn from a counter; the wakers the code has called are logged. The clock is an
  argument of each operation.
\<close>

section \<open>Interface: lines of tickets\<close>

text \<open>
  What a waiting line promises: entering appends at the end of the line of its key, leaving removes
  one ticket and moves no other. Then nobody is overtaken.
\<close>

locale ticket_lines =
  fixes line :: "'s \<Rightarrow> 'k \<Rightarrow> 't list"
    and enter :: "'k \<Rightarrow> 't \<Rightarrow> 's \<Rightarrow> 's"
    and leave :: "'k \<Rightarrow> 't \<Rightarrow> 's \<Rightarrow> 's"
  assumes line_enter: "line (enter k t s) j = (if j = k then line s k @ [t] else line s j)"
    and line_leave: "line (leave k t s) j = (if j = k then remove1 t (line s k) else line s j)"
begin

fun move :: "(bool \<times> 'k \<times> 't) \<Rightarrow> 's \<Rightarrow> 's" where
  "move (True, k, t) s = enter k t s"
| "move (False, k, t) s = leave k t s"

definition ahead :: "'s \<Rightarrow> 'k \<Rightarrow> 't \<Rightarrow> 't \<Rightarrow> bool" where
  "ahead s k a b = (\<exists>xs ys zs. line s k = xs @ a # ys @ b # zs)"

lemma ahead_enter: "ahead s k a b \<Longrightarrow> ahead (enter j t s) k a b"
  unfolding ahead_def line_enter by (metis append.assoc append_Cons)

lemma ahead_leave:
  assumes "ahead s k a b" and "(j, t) \<noteq> (k, a)" and "(j, t) \<noteq> (k, b)"
  shows "ahead (leave j t s) k a b"
proof (cases "j = k")
  case False
  with assms(1) show ?thesis by (simp add: ahead_def line_leave)
next
  case True
  with assms have t: "t \<noteq> a" "t \<noteq> b" by auto
  from assms(1) obtain xs ys zs where l: "line s k = xs @ a # ys @ b # zs" by (auto simp: ahead_def)
  have r: "remove1 t (xs @ a # ys @ b # zs) =
      (if t \<in> set xs then remove1 t xs @ a # ys @ b # zs
       else if t \<in> set ys then xs @ a # remove1 t ys @ b # zs
       else xs @ a # ys @ b # remove1 t zs)"
    using t by (simp add: remove1_append)
  have "line (leave j t s) k = remove1 t (xs @ a # ys @ b # zs)" using True by (simp add: line_leave l)
  then show ?thesis unfolding ahead_def r by (metis (full_types))
qed

lemma ahead_moves:
  assumes "ahead s k a b" and "(False, k, a) \<notin> set ms" and "(False, k, b) \<notin> set ms"
  shows "ahead (fold move ms s) k a b"
  using assms
proof (induction ms arbitrary: s)
  case Nil
  then show ?case by simp
next
  case (Cons m ms)
  obtain e j t where m: "m = (e, j, t)" by (cases m)
  have "ahead (move m s) k a b"
    using Cons.prems by (cases e) (auto simp: m intro: ahead_enter ahead_leave)
  then show ?case using Cons by simp
qed

text \<open>Whoever is ahead is at the head first: the one behind is not at the head while both wait.\<close>

lemma no_overtaking:
  assumes "ahead s k a b" and "(False, k, a) \<notin> set ms" and "(False, k, b) \<notin> set ms"
    and "distinct (line (fold move ms s) k)"
  shows "hd (line (fold move ms s) k) \<noteq> b"
proof -
  obtain xs ys zs where l: "line (fold move ms s) k = xs @ a # ys @ b # zs"
    using ahead_moves [OF assms(1-3)] by (auto simp: ahead_def)
  with assms(4) show ?thesis by (cases xs) auto
qed

end

section \<open>State\<close>

definition max_total_waiting :: nat where
  "max_total_waiting = 1024"

definition capacity_recheck_interval :: duration where
  "capacity_recheck_interval = of_millis 100"

record concurrency_queue_policy =
  qp_max_waiting :: nat
  qp_timeout :: duration

datatype queue_rejection = QueueFull | QueueTimeout

record 'k queue_state =
  q_queues :: "('k \<times> nat list) list"
  q_total :: nat
  q_next_waker :: nat
  q_woken :: "nat list"

definition queue_default :: "'k queue_state" where
  "queue_default = \<lparr>q_queues = [], q_total = 0, q_next_waker = 0, q_woken = []\<rparr>"

record 'k wait_ticket =
  wt_key :: 'k
  wt_waker :: nat
  wt_deadline :: instant

definition queue_line :: "'k queue_state \<Rightarrow> 'k \<Rightarrow> nat list" where
  "queue_line s key = unwrap_or [] (map_of (q_queues s) key)"

definition has_waiters :: "'k queue_state \<Rightarrow> 'k \<Rightarrow> bool" where
  "has_waiters s key = opt_any (\<lambda>queue. queue \<noteq> []) (map_of (q_queues s) key)"

section \<open>Entering and leaving\<close>

text \<open>\<open>Iterator::min_by_key\<close>: the first of the smallest.\<close>

fun min_by_len :: "('k \<times> nat) list \<Rightarrow> ('k \<times> nat) option" where
  "min_by_len [] = None"
| "min_by_len (x # xs) =
     (case min_by_len xs of None \<Rightarrow> Some x | Some y \<Rightarrow> if snd y < snd x then Some y else Some x)"

definition open_lines :: "'k queue_state \<Rightarrow> nat \<Rightarrow> 'k list \<Rightarrow> ('k \<times> nat) list" where
  "open_lines s max_waiting keys =
     List.map_filter (\<lambda>key. let len = length (queue_line s key)
                            in if len < max_waiting then Some (key, len) else None) keys"

definition push_waker :: "'k \<Rightarrow> nat \<Rightarrow> 'k queue_state \<Rightarrow> 'k queue_state" where
  "push_waker key waker s =
     s\<lparr>q_queues := AList.update key (queue_line s key @ [waker]) (q_queues s),
       q_total := q_total s + 1\<rparr>"

definition enqueue ::
  "'k queue_state \<Rightarrow> 'k list \<Rightarrow> nat \<Rightarrow> instant \<Rightarrow> instant
   \<Rightarrow> queue_rejection + ('k wait_ticket \<times> 'k queue_state)" where
  "enqueue s keys max_waiting deadline now =
     (if deadline \<le> now then Inl QueueTimeout
      else if max_total_waiting \<le> q_total s then Inl QueueFull
      else case min_by_len (open_lines s max_waiting keys) of
             None \<Rightarrow> Inl QueueFull
           | Some (key, _) \<Rightarrow>
               let waker = q_next_waker s in
               Inr (\<lparr>wt_key = key, wt_waker = waker, wt_deadline = deadline\<rparr>,
                    push_waker key waker (s\<lparr>q_next_waker := waker + 1\<rparr>)))"

fun position :: "'a \<Rightarrow> 'a list \<Rightarrow> nat option" where
  "position x [] = None"
| "position x (y # ys) = (if x = y then Some 0 else map_option Suc (position x ys))"

definition remove_at :: "nat \<Rightarrow> 'a list \<Rightarrow> 'a list" where
  "remove_at i xs = take i xs @ drop (Suc i) xs"

text \<open>The \<open>Drop\<close> of a ticket.\<close>

definition drop_waker :: "'k \<Rightarrow> nat \<Rightarrow> 'k queue_state \<Rightarrow> 'k queue_state" where
  "drop_waker key waker s =
     (case map_of (q_queues s) key of
        None \<Rightarrow> s
      | Some queue \<Rightarrow>
          (case position waker queue of
             None \<Rightarrow> s
           | Some index \<Rightarrow>
               let rest = remove_at index queue;
                   next = (case rest of [] \<Rightarrow> None | w # _ \<Rightarrow> Some w)
               in s\<lparr>q_queues := (if rest = [] then AList.delete key (q_queues s)
                                 else AList.update key rest (q_queues s)),
                    q_total := q_total s - 1,
                    q_woken := (case next of
                                  Some w \<Rightarrow> if index = 0 then q_woken s @ [w] else q_woken s
                                | None \<Rightarrow> q_woken s)\<rparr>))"

definition drop_ticket :: "'k wait_ticket \<Rightarrow> 'k queue_state \<Rightarrow> 'k queue_state" where
  "drop_ticket t s = drop_waker (wt_key t) (wt_waker t) s"

text \<open>
  One poll of \<open>turn\<close>: the timer is looked at first, and a ticket at the head still fails when its
  deadline has passed. \<open>None\<close> is a pending poll.
\<close>

definition at_head :: "'k queue_state \<Rightarrow> 'k wait_ticket \<Rightarrow> bool" where
  "at_head s t = (case queue_line s (wt_key t) of [] \<Rightarrow> False | w # _ \<Rightarrow> w = wt_waker t)"

definition poll_turn ::
  "'k queue_state \<Rightarrow> 'k wait_ticket \<Rightarrow> bool \<Rightarrow> instant \<Rightarrow> (queue_rejection + unit) option" where
  "poll_turn s t timer_fired now =
     (if timer_fired then Some (Inl QueueTimeout)
      else if at_head s t then Some (if now < wt_deadline t then Inr () else Inl QueueTimeout)
      else None)"

text \<open>The delay \<open>retry\<close> sleeps before it takes its turn.\<close>

definition retry_delay :: "'k wait_ticket \<Rightarrow> instant \<Rightarrow> duration" where
  "retry_delay t now = min capacity_recheck_interval (wt_deadline t - now)"

lemma position_None: "position x xs = None \<longleftrightarrow> x \<notin> set xs"
  by (induction xs) auto

lemma position_remove_at: "position x xs = Some i \<Longrightarrow> remove_at i xs = remove1 x xs"
proof (induction xs arbitrary: i)
  case Nil
  then show ?case by simp
next
  case (Cons y ys)
  then show ?case by (auto simp: remove_at_def split: if_splits)
qed

lemma position_0: "position x xs = Some i \<Longrightarrow> i = 0 \<longleftrightarrow> xs \<noteq> [] \<and> hd xs = x"
  by (cases xs) (auto split: if_splits)

lemma queue_line_push:
  "queue_line (push_waker k t s) j = (if j = k then queue_line s k @ [t] else queue_line s j)"
  by (simp add: queue_line_def push_waker_def update_conv')

lemma queue_line_drop:
  "queue_line (drop_waker k t s) j = (if j = k then remove1 t (queue_line s k) else queue_line s j)"
proof (cases "t \<in> set (queue_line s k)")
  case False
  then show ?thesis
    by (auto simp: drop_waker_def queue_line_def remove1_idem position_None [symmetric]
        split: option.splits)
next
  case True
  then obtain q where q: "map_of (q_queues s) k = Some q" and tq: "t \<in> set q"
    by (cases "map_of (q_queues s) k") (auto simp: queue_line_def)
  then obtain i where i: "position t q = Some i" using position_None [of t q] by auto
  show ?thesis
    using q i position_remove_at [OF i]
    by (auto simp: drop_waker_def queue_line_def Let_def update_conv' delete_conv')
qed

interpretation wait_lines: ticket_lines queue_line push_waker drop_waker
  by unfold_locales (rule queue_line_push, rule queue_line_drop)

section \<open>The wait of one layer\<close>

text \<open>
  \<open>ConcurrencyWaitBudget\<close> is the deadline cell of the request; \<open>started_at\<close> and the ticket belong to
  the layer. \<open>sys_now\<close> is the wall clock the request deadline is compared with.
\<close>

type_synonym wait_budget = "instant option"

definition budget_deadline ::
  "wait_budget \<Rightarrow> duration \<Rightarrow> systime \<Rightarrow> instant \<Rightarrow> systime \<Rightarrow> instant \<times> wait_budget" where
  "budget_deadline budget timeout request_deadline now sys_now =
     (let remaining = unwrap_or 0 (duration_since request_deadline sys_now);
          deadline = unwrap_or (now + timeout) budget
      in (min deadline (now + remaining), Some deadline))"

record 'k capacity_wait =
  cw_policy :: concurrency_queue_policy
  cw_request_deadline :: systime
  cw_started_at :: "instant option"
  cw_ticket :: "'k wait_ticket option"

definition capacity_wait_new :: "concurrency_queue_policy \<Rightarrow> systime \<Rightarrow> 'k capacity_wait" where
  "capacity_wait_new policy request_deadline =
     \<lparr>cw_policy = policy, cw_request_deadline = request_deadline, cw_started_at = None,
      cw_ticket = None\<rparr>"

definition can_try :: "'k queue_state \<Rightarrow> 'k capacity_wait \<Rightarrow> 'k \<Rightarrow> bool" where
  "can_try s w key = (opt_any (\<lambda>t. wt_key t = key) (cw_ticket w) \<or> \<not> has_waiters s key)"

definition wait_elapsed :: "'k capacity_wait \<Rightarrow> instant \<Rightarrow> duration" where
  "wait_elapsed w now = (case cw_started_at w of None \<Rightarrow> 0 | Some start \<Rightarrow> now - start)"

text \<open>
  \<open>wait\<close> up to its first suspension: the ticket of a key that is no longer asked for is dropped
  before a new place is taken.
\<close>

definition wait_begin ::
  "'k list \<Rightarrow> instant \<Rightarrow> systime \<Rightarrow> wait_budget \<Rightarrow> 'k queue_state \<Rightarrow> 'k capacity_wait
   \<Rightarrow> (queue_rejection + 'k wait_ticket) \<times> wait_budget \<times> 'k queue_state \<times> 'k capacity_wait" where
  "wait_begin keys now sys_now budget s w =
     (let w = w\<lparr>cw_started_at := Some (unwrap_or now (cw_started_at w))\<rparr>;
          (deadline, budget) =
            budget_deadline budget (qp_timeout (cw_policy w)) (cw_request_deadline w) now sys_now;
          (s, w) =
            (case cw_ticket w of
               Some t \<Rightarrow> if wt_key t \<notin> set keys then (drop_ticket t s, w\<lparr>cw_ticket := None\<rparr>) else (s, w)
             | None \<Rightarrow> (s, w))
      in case cw_ticket w of
           Some t \<Rightarrow> (Inr t, budget, s, w)
         | None \<Rightarrow>
             (case enqueue s keys (qp_max_waiting (cw_policy w)) deadline now of
                Inl e \<Rightarrow> (Inl e, budget, s, w)
              | Inr (t, s) \<Rightarrow> (Inr t, budget, s, w\<lparr>cw_ticket := Some t\<rparr>)))"

section \<open>Reachable queues\<close>

text \<open>
  The states a shared queue goes through when every place is asked for with at most \<open>m\<close> waiters
  per key: tickets are taken by \<open>enqueue\<close> and given back by their drop.
\<close>

inductive queue_step :: "nat \<Rightarrow> 'k queue_state \<Rightarrow> 'k queue_state \<Rightarrow> bool" for m where
  step_enqueue: "max_waiting \<le> m \<Longrightarrow> enqueue s keys max_waiting deadline now = Inr (t, s') \<Longrightarrow> queue_step m s s'"
| step_drop: "queue_step m s (drop_ticket t s)"

inductive_cases queue_stepE: "queue_step m s s'"

inductive queue_reachable :: "nat \<Rightarrow> 'k queue_state \<Rightarrow> bool" for m where
  reach_default: "queue_reachable m queue_default"
| reach_step: "queue_reachable m s \<Longrightarrow> queue_step m s s' \<Longrightarrow> queue_reachable m s'"

definition queue_wakers :: "'k queue_state \<Rightarrow> nat list" where
  "queue_wakers s = concat (map snd (q_queues s))"

definition queue_ok :: "nat \<Rightarrow> 'k queue_state \<Rightarrow> bool" where
  "queue_ok m s =
     (distinct (map fst (q_queues s))
      \<and> (\<forall>(k, q) \<in> set (q_queues s). q \<noteq> [] \<and> length q \<le> m)
      \<and> q_total s = length (queue_wakers s)
      \<and> q_total s \<le> max_total_waiting
      \<and> distinct (queue_wakers s)
      \<and> (\<forall>w \<in> set (queue_wakers s). w < q_next_waker s))"

lemma queue_ok_default: "queue_ok m queue_default"
  by (simp add: queue_ok_def queue_default_def queue_wakers_def)

lemma min_by_len_mem: "min_by_len xs = Some x \<Longrightarrow> x \<in> set xs"
  by (induction xs arbitrary: x) (auto split: option.splits if_splits)

lemma min_by_len_None: "min_by_len xs = None \<longleftrightarrow> xs = []"
  by (cases xs) (auto split: option.splits if_splits)

lemma min_by_len_least: "min_by_len xs = Some x \<Longrightarrow> y \<in> set xs \<Longrightarrow> snd x \<le> snd y"
proof (induction xs arbitrary: x)
  case Nil
  then show ?case by simp
next
  case (Cons z zs)
  show ?case
  proof (cases "min_by_len zs")
    case None
    with Cons.prems show ?thesis by (simp add: min_by_len_None)
  next
    case (Some w)
    with Cons.IH [of w] Cons.prems show ?thesis by (auto split: if_splits)
  qed
qed

lemma open_lines_mem:
  "(k, n) \<in> set (open_lines s m keys) \<longleftrightarrow> k \<in> set keys \<and> n = length (queue_line s k) \<and> n < m"
  by (auto simp: open_lines_def List.map_filter_def Let_def)

lemma enqueue_Inr:
  assumes "enqueue s keys mw deadline now = Inr (t, s')"
  shows "now < deadline \<and> q_total s < max_total_waiting \<and> wt_key t \<in> set keys
       \<and> length (queue_line s (wt_key t)) < mw
       \<and> (\<forall>k \<in> set keys. length (queue_line s k) < mw
            \<longrightarrow> length (queue_line s (wt_key t)) \<le> length (queue_line s k))
       \<and> wt_waker t = q_next_waker s \<and> wt_deadline t = deadline
       \<and> s' = push_waker (wt_key t) (wt_waker t) (s\<lparr>q_next_waker := q_next_waker s + 1\<rparr>)"
proof -
  from assms obtain key n where k: "min_by_len (open_lines s mw keys) = Some (key, n)"
    and t: "t = \<lparr>wt_key = key, wt_waker = q_next_waker s, wt_deadline = deadline\<rparr>"
    and s': "s' = push_waker key (q_next_waker s) (s\<lparr>q_next_waker := q_next_waker s + 1\<rparr>)"
    and g: "now < deadline" "q_total s < max_total_waiting"
    by (auto simp: enqueue_def Let_def split: if_splits option.splits)
  from min_by_len_mem [OF k] have "key \<in> set keys" "n = length (queue_line s key)" "n < mw"
    by (simp_all add: open_lines_mem)
  moreover have "length (queue_line s key) \<le> length (queue_line s j)"
    if "j \<in> set keys" "length (queue_line s j) < mw" for j
    using min_by_len_least [OF k, of "(j, length (queue_line s j))"] that calculation
    by (simp add: open_lines_mem)
  ultimately show ?thesis using t s' g by simp
qed

lemma mset_update:
  "distinct (map fst qs) \<Longrightarrow>
   mset (concat (map snd (AList.update k v qs))) + mset (unwrap_or [] (map_of qs k)) =
     mset (concat (map snd qs)) + mset v"
proof (induction qs)
  case Nil
  then show ?case by simp
next
  case (Cons p qs)
  obtain j q where p: "p = (j, q)" by (cases p)
  show ?case
  proof (cases "j = k")
    case True
    then show ?thesis by (simp add: p)
  next
    case False
    with Cons show ?thesis by (simp add: p add.assoc)
  qed
qed

lemma mset_delete:
  "distinct (map fst qs) \<Longrightarrow>
   mset (concat (map snd (AList.delete k qs))) + mset (unwrap_or [] (map_of qs k)) =
     mset (concat (map snd qs))"
proof (induction qs)
  case Nil
  then show ?case by simp
next
  case (Cons p qs)
  obtain j q where p: "p = (j, q)" by (cases p)
  show ?case
  proof (cases "j = k")
    case True
    then have "AList.delete k qs = qs" using Cons.prems p by (simp add: delete_id)
    with True show ?thesis by (simp add: p add.commute)
  next
    case False
    with Cons show ?thesis by (simp add: p add.assoc)
  qed
qed

lemma wakers_push:
  assumes "distinct (map fst (q_queues s))"
  shows "mset (queue_wakers (push_waker k w s)) = add_mset w (mset (queue_wakers s))"
  using mset_update [OF assms, of k "queue_line s k @ [w]"]
  by (simp add: queue_wakers_def push_waker_def queue_line_def)

lemma wakers_drop:
  assumes "distinct (map fst (q_queues s))" and "w \<in> set (queue_line s k)"
  shows "add_mset w (mset (queue_wakers (drop_waker k w s))) = mset (queue_wakers s)"
proof -
  from assms(2) obtain q where q: "map_of (q_queues s) k = Some q" and wq: "w \<in> set q"
    by (cases "map_of (q_queues s) k") (auto simp: queue_line_def)
  from wq obtain i where i: "position w q = Some i" using position_None [of w q] by auto
  have rest: "remove_at i q = remove1 w q" using i by (rule position_remove_at)
  have mq: "mset q = add_mset w (mset (remove1 w q))" using wq by simp
  show ?thesis
  proof (cases "remove1 w q = []")
    case True
    then have "mset q = {#w#}" using mq by simp
    moreover have "mset (queue_wakers (drop_waker k w s)) + mset q = mset (queue_wakers s)"
      using mset_delete [OF assms(1), of k] q i rest True
      by (simp add: queue_wakers_def drop_waker_def Let_def)
    ultimately show ?thesis by simp
  next
    case False
    then have "mset (queue_wakers (drop_waker k w s)) + mset q
        = mset (queue_wakers s) + mset (remove1 w q)"
      using mset_update [OF assms(1), of k "remove1 w q"] q i rest
      by (simp add: queue_wakers_def drop_waker_def Let_def)
    then show ?thesis unfolding mq by simp
  qed
qed

lemma queue_entries:
  "distinct (map fst qs) \<Longrightarrow>
   (\<forall>(k, q) \<in> set qs. P q) \<longleftrightarrow> (\<forall>k q. map_of qs k = Some q \<longrightarrow> P q)"
  by (auto simp: map_of_eq_Some_iff)

lemma queue_ok_push:
  assumes ok: "queue_ok m s" and "length (queue_line s k) < m" and "q_total s < max_total_waiting"
  shows "queue_ok m (push_waker k (q_next_waker s) (s\<lparr>q_next_waker := q_next_waker s + 1\<rparr>))"
    (is "queue_ok m ?t")
proof -
  let ?s = "s\<lparr>q_next_waker := q_next_waker s + 1\<rparr>"
  have d: "distinct (map fst (q_queues s))" using ok by (simp add: queue_ok_def)
  have w: "mset (queue_wakers ?t) = mset (q_next_waker s # queue_wakers s)"
    using wakers_push [of ?s k "q_next_waker s"] d by (simp add: queue_wakers_def)
  have d': "distinct (map fst (q_queues ?t))" using d by (simp add: push_waker_def distinct_update)
  have "\<forall>(j, q) \<in> set (q_queues ?t). q \<noteq> [] \<and> length q \<le> m"
    unfolding queue_entries [OF d']
    using ok assms(2) queue_entries [OF d, of "\<lambda>q. q \<noteq> [] \<and> length q \<le> m"]
    by (auto simp: queue_ok_def push_waker_def update_conv' queue_line_def split: if_splits)
  moreover have "length (queue_wakers ?t) = Suc (q_total s)"
    using arg_cong [OF w, of size] ok by (simp add: queue_ok_def)
  moreover have "distinct (queue_wakers ?t)"
    using mset_eq_imp_distinct_iff [OF w] ok by (auto simp: queue_ok_def)
  moreover have "set (queue_wakers ?t) = insert (q_next_waker s) (set (queue_wakers s))"
    using mset_eq_setD [OF w] by simp
  ultimately show ?thesis
    using ok assms(3) d' by (auto simp: queue_ok_def push_waker_def less_Suc_eq)
qed

lemma queue_ok_drop:
  assumes ok: "queue_ok m s"
  shows "queue_ok m (drop_waker k w s)"
proof (cases "w \<in> set (queue_line s k)")
  case False
  then have "drop_waker k w s = s"
    by (auto simp: drop_waker_def queue_line_def position_None [symmetric] split: option.splits)
  with ok show ?thesis by simp
next
  case True
  let ?t = "drop_waker k w s"
  have d: "distinct (map fst (q_queues s))" using ok by (simp add: queue_ok_def)
  have w: "mset (w # queue_wakers ?t) = mset (queue_wakers s)" using wakers_drop [OF d True] by simp
  from True obtain q where q: "map_of (q_queues s) k = Some q" and wq: "w \<in> set q"
    by (cases "map_of (q_queues s) k") (auto simp: queue_line_def)
  from wq obtain i where i: "position w q = Some i" using position_None [of w q] by auto
  have t: "q_queues ?t = (if remove1 w q = [] then AList.delete k (q_queues s)
      else AList.update k (remove1 w q) (q_queues s))"
      "q_total ?t = q_total s - 1" "q_next_waker ?t = q_next_waker s"
    using q i position_remove_at [OF i] by (simp_all add: drop_waker_def Let_def)
  have d': "distinct (map fst (q_queues ?t))" using d by (simp add: t distinct_update distinct_delete)
  have "\<forall>(j, q) \<in> set (q_queues ?t). q \<noteq> [] \<and> length q \<le> m"
    unfolding queue_entries [OF d']
    using ok q queue_entries [OF d, of "\<lambda>q. q \<noteq> [] \<and> length q \<le> m"]
    by (auto simp: queue_ok_def t update_conv' delete_conv' length_remove1 split: if_splits
        intro: le_trans [OF diff_le_self])
  moreover have "Suc (length (queue_wakers ?t)) = length (queue_wakers s)"
    using arg_cong [OF w, of size] by simp
  moreover have "distinct (w # queue_wakers ?t)"
    using mset_eq_imp_distinct_iff [OF w] ok by (simp add: queue_ok_def)
  moreover have "set (queue_wakers ?t) \<subseteq> set (queue_wakers s)"
    using mset_eq_setD [OF w] by auto
  ultimately show ?thesis
    using ok d' by (auto simp: queue_ok_def t)
qed

lemma queue_reachable_ok: "queue_reachable m s \<Longrightarrow> queue_ok m s"
proof (induction rule: queue_reachable.induct)
  case reach_default
  then show ?case by (rule queue_ok_default)
next
  case (reach_step s s')
  from reach_step(2) show ?case
  proof (cases rule: queue_step.cases)
    case (step_enqueue max_waiting keys deadline now t)
    from enqueue_Inr [OF step_enqueue(2)] step_enqueue(1) reach_step(3) show ?thesis
      using queue_ok_push [of m s "wt_key t"] by auto
  next
    case (step_drop t)
    with reach_step(3) show ?thesis by (simp add: drop_ticket_def queue_ok_drop)
  qed
qed

lemma queue_ok_line: "queue_ok m s \<Longrightarrow> length (queue_line s k) \<le> m \<and> distinct (queue_line s k)"
proof -
  assume ok: "queue_ok m s"
  then have d: "distinct (map fst (q_queues s))" by (simp add: queue_ok_def)
  show ?thesis
  proof (cases "map_of (q_queues s) k")
    case None
    then show ?thesis by (simp add: queue_line_def)
  next
    case (Some q)
    then have "(k, q) \<in> set (q_queues s)" by (rule map_of_SomeD)
    then have "length q \<le> m" using ok unfolding queue_ok_def by fast
    moreover have "distinct (concat (map snd (q_queues s)))"
      using ok by (simp add: queue_ok_def queue_wakers_def)
    then have "distinct q"
      using \<open>(k, q) \<in> set (q_queues s)\<close> unfolding distinct_concat_iff
      by (metis image_eqI set_map snd_conv)
    ultimately show ?thesis using Some by (simp add: queue_line_def)
  qed
qed

section \<open>Runs of a shared queue\<close>

datatype 'k queue_call =
    QEnqueue "'k list" nat instant instant
  | QDrop "'k wait_ticket"

fun queue_event :: "'k queue_call \<Rightarrow> 'k queue_state \<Rightarrow> 'k queue_state" where
  "queue_event (QEnqueue keys mw deadline now) s =
     (case enqueue s keys mw deadline now of Inl _ \<Rightarrow> s | Inr (_, s') \<Rightarrow> s')"
| "queue_event (QDrop t) s = drop_ticket t s"

text \<open>A call that asks for a place with at most \<open>m\<close> waiters, and one that keeps both tickets.\<close>

fun within :: "nat \<Rightarrow> 'k queue_call \<Rightarrow> bool" where
  "within m (QEnqueue keys mw deadline now) = (mw \<le> m)"
| "within m (QDrop t) = True"

fun keeps_both :: "'k \<Rightarrow> nat \<Rightarrow> nat \<Rightarrow> 'k queue_call \<Rightarrow> bool" where
  "keeps_both k a b (QEnqueue keys mw deadline now) = True"
| "keeps_both k a b (QDrop t) = (wt_key t \<noteq> k \<or> wt_waker t \<noteq> a \<and> wt_waker t \<noteq> b)"

lemma ahead_next_waker [simp]:
  "wait_lines.ahead (s\<lparr>q_next_waker := n\<rparr>) k a b = wait_lines.ahead s k a b"
  by (simp add: wait_lines.ahead_def queue_line_def)

lemma ahead_event:
  assumes "wait_lines.ahead s k a b"
    and "keeps_both k a b e"
  shows "wait_lines.ahead (queue_event e s) k a b"
proof (cases e)
  case (QEnqueue keys mw deadline now)
  then show ?thesis
    using assms(1) enqueue_Inr [of s keys mw deadline now]
    by (auto intro!: wait_lines.ahead_enter split: sum.splits)
next
  case (QDrop t)
  with assms show ?thesis by (auto simp: drop_ticket_def intro!: wait_lines.ahead_leave)
qed

lemma ahead_run:
  assumes "wait_lines.ahead s k a b"
    and "list_all (keeps_both k a b) es"
  shows "wait_lines.ahead (fold queue_event es s) k a b"
  using assms
proof (induction es arbitrary: s)
  case Nil
  then show ?case by simp
next
  case (Cons e es)
  have "wait_lines.ahead (queue_event e s) k a b"
    using Cons.prems by (intro ahead_event) auto
  with Cons show ?case by simp
qed

lemma queue_reachable_run:
  assumes "queue_reachable m s" and "list_all (within m) es"
  shows "queue_reachable m (fold queue_event es s)"
  using assms
proof (induction es arbitrary: s)
  case Nil
  then show ?case by simp
next
  case (Cons e es)
  have "queue_reachable m (queue_event e s)"
  proof (cases e)
    case (QEnqueue keys mw deadline now)
    then have "mw \<le> m" using Cons.prems(2) by simp
    then show ?thesis
      using Cons.prems(1) QEnqueue
      by (auto split: sum.splits intro: reach_step step_enqueue [of mw])
  next
    case (QDrop t)
    then show ?thesis using Cons.prems by (auto intro: reach_step step_drop)
  qed
  with Cons show ?case by simp
qed

section \<open>Properties\<close>

text \<open>
  C20. However tickets come and go, the waiting places stay bounded and counted: no line is longer
  than the limit places were asked for with, the total is the number of waiting tickets and never
  exceeds 1024, and no ticket stands in line twice.
\<close>

theorem queue_bounded:
  assumes "list_all (within m) es"
  shows "length (queue_line (fold queue_event es queue_default) k) \<le> m
       \<and> distinct (queue_line (fold queue_event es queue_default) k)
       \<and> q_total (fold queue_event es queue_default)
           = length (queue_wakers (fold queue_event es queue_default))
       \<and> q_total (fold queue_event es queue_default) \<le> max_total_waiting"
proof -
  have "queue_ok m (fold queue_event es queue_default)"
    using queue_reachable_run [OF reach_default assms] by (rule queue_reachable_ok)
  from queue_ok_line [OF this] this show ?thesis by (simp add: queue_ok_def)
qed

theorem queue_bounded_witness:
  "q_total (fold queue_event (replicate 3 (QEnqueue [''a'', ''b''] 1 9 0)) queue_default)
     \<le> max_total_waiting"
  by (intro queue_bounded [where m = 1, THEN conjunct2, THEN conjunct2, THEN conjunct2])
     (simp add: list_all_iff)

text \<open>
  C21. First come, first served: while the ticket in front keeps its place, no sequence of arrivals
  and departures lets a ticket behind it on the same line take its turn.
\<close>

theorem queue_fifo:
  assumes "queue_reachable m s"
    and "queue_line s (wt_key t) = xs @ a # ys @ wt_waker t # zs"
    and "list_all (within m) es"
    and "list_all (keeps_both (wt_key t) a (wt_waker t)) es"
  shows "poll_turn (fold queue_event es s) t fired now \<noteq> Some (Inr ())"
proof -
  let ?s = "fold queue_event es s"
  have "wait_lines.ahead s (wt_key t) a (wt_waker t)"
    using assms(2) by (auto simp: wait_lines.ahead_def)
  then have "wait_lines.ahead ?s (wt_key t) a (wt_waker t)" using assms(4) by (intro ahead_run) auto
  then obtain us vs ws where l: "queue_line ?s (wt_key t) = us @ a # vs @ wt_waker t # ws"
    by (auto simp: wait_lines.ahead_def)
  moreover have "distinct (queue_line ?s (wt_key t))"
    using queue_ok_line [OF queue_reachable_ok [OF queue_reachable_run [OF assms(1,3)]]] by blast
  ultimately have "\<not> at_head ?s t" by (cases us) (auto simp: at_head_def)
  then show ?thesis by (simp add: poll_turn_def)
qed

definition sample_queue :: "string queue_state" where
  "sample_queue = fold queue_event [QEnqueue [''k''] 3 9 0, QEnqueue [''k''] 3 9 0] queue_default"

theorem queue_fifo_witness:
  "poll_turn (fold queue_event [QEnqueue [''k''] 3 9 0] sample_queue)
     \<lparr>wt_key = ''k'', wt_waker = 1, wt_deadline = 9\<rparr> False 0 \<noteq> Some (Inr ())"
proof (rule queue_fifo [where m = 3 and xs = "[]" and a = 0 and ys = "[]" and zs = "[]"])
  show "queue_reachable 3 sample_queue"
    unfolding sample_queue_def by (rule queue_reachable_run [OF reach_default]) simp
  show "queue_line sample_queue (wt_key \<lparr>wt_key = ''k'', wt_waker = 1, wt_deadline = 9\<rparr>)
      = [] @ 0 # [] @ wt_waker \<lparr>wt_key = ''k'', wt_waker = 1, wt_deadline = 9\<rparr> # []"
    by (simp add: sample_queue_def enqueue_def queue_default_def open_lines_def List.map_filter_simps
        queue_line_def push_waker_def max_total_waiting_def)
qed simp_all

text \<open>
  A dropped ticket hands its turn over: exactly when the dropped one stood at the head and
  somebody waits behind it, the new head is woken, and nobody else ever is.
\<close>

theorem drop_hands_over:
  "q_woken (drop_ticket t s) = q_woken s @
     (if at_head s t \<and> queue_line (drop_ticket t s) (wt_key t) \<noteq> []
      then [hd (queue_line (drop_ticket t s) (wt_key t))] else [])"
proof (cases "wt_waker t \<in> set (queue_line s (wt_key t))")
  case False
  then have "drop_ticket t s = s" and "\<not> at_head s t"
    by (auto simp: drop_ticket_def drop_waker_def queue_line_def at_head_def position_None [symmetric]
        split: option.splits list.splits)
  then show ?thesis by simp
next
  case True
  then obtain q where q: "map_of (q_queues s) (wt_key t) = Some q" and wq: "wt_waker t \<in> set q"
    by (cases "map_of (q_queues s) (wt_key t)") (auto simp: queue_line_def)
  from wq obtain i where i: "position (wt_waker t) q = Some i"
    using position_None [of "wt_waker t" q] by auto
  have l: "queue_line (drop_ticket t s) (wt_key t) = remove1 (wt_waker t) q"
    using q by (simp add: drop_ticket_def queue_line_drop, simp add: queue_line_def)
  have "at_head s t \<longleftrightarrow> i = 0"
    using position_0 [OF i] q by (cases q) (auto simp: at_head_def queue_line_def)
  then show ?thesis
    unfolding l using q i position_remove_at [OF i]
    by (auto simp: drop_ticket_def drop_waker_def Let_def split: list.splits)
qed

end
