(* ===== verification/ErrorModel.thy ===== *)
theory ErrorModel
  imports Events Concurrency
begin

text \<open>
  \<open>error.rs\<close>: the failure kinds of a provider call, the retry and recovery intents a provider may
  attach, the error record with its builders and its clone, and the mapping to the gateway error a
  client sees. \<open>QueueRejection\<close> of \<open>concurrency.rs\<close> is mapped here, where both sides exist.
\<close>

section \<open>Kinds and intents\<close>

datatype provider_error_kind =
    PkInvalidRequest
  | PkContinuationRecoveryRequired
  | PkUnsupported
  | PkUnauthorized
  | PkPermissionDenied
  | PkRateLimited
  | PkQuotaExhausted
  | PkAccountCapacityUnavailable
  | PkConcurrencyQueueFull
  | PkConcurrencyQueueTimeout
  | PkNoEligibleAccount
  | PkProviderInfrastructureUnavailable
  | PkTimeout
  | PkTransport
  | PkProtocol
  | PkUnavailable
  | PkUpstreamCapacityUnavailable
  | PkCancelled
  | PkProcessTerminated

fun provider_error_kind_as_str :: "provider_error_kind \<Rightarrow> string" where
  "provider_error_kind_as_str PkInvalidRequest = ''invalid_request''"
| "provider_error_kind_as_str PkContinuationRecoveryRequired = ''continuation_recovery_required''"
| "provider_error_kind_as_str PkUnsupported = ''unsupported''"
| "provider_error_kind_as_str PkUnauthorized = ''unauthorized''"
| "provider_error_kind_as_str PkPermissionDenied = ''permission_denied''"
| "provider_error_kind_as_str PkRateLimited = ''rate_limited''"
| "provider_error_kind_as_str PkQuotaExhausted = ''quota_exhausted''"
| "provider_error_kind_as_str PkAccountCapacityUnavailable = ''account_capacity_unavailable''"
| "provider_error_kind_as_str PkConcurrencyQueueFull = ''concurrency_queue_full''"
| "provider_error_kind_as_str PkConcurrencyQueueTimeout = ''concurrency_queue_timeout''"
| "provider_error_kind_as_str PkNoEligibleAccount = ''no_eligible_account''"
| "provider_error_kind_as_str PkProviderInfrastructureUnavailable = ''provider_infrastructure_unavailable''"
| "provider_error_kind_as_str PkTimeout = ''timeout''"
| "provider_error_kind_as_str PkTransport = ''transport''"
| "provider_error_kind_as_str PkProtocol = ''protocol''"
| "provider_error_kind_as_str PkUnavailable = ''unavailable''"
| "provider_error_kind_as_str PkUpstreamCapacityUnavailable = ''upstream_capacity_unavailable''"
| "provider_error_kind_as_str PkCancelled = ''cancelled''"
| "provider_error_kind_as_str PkProcessTerminated = ''process_terminated''"

datatype continuation_failure = Busy | HistoryUnavailable

datatype continuation_recovery_disposition =
    RetryExactConnection
  | ClientReplayRequired
  | ProviderReplayAllowed

datatype pre_delivery_retry =
    AccountRotation
  | SameAccountTransientRetry (tr_max_retries: nat) (tr_initial_delay: duration) (tr_max_delay: duration)
  | SameAccountTransportRetry (tr_retry_index: nat) (tr_delay: duration)
  | SameAccountTransportFallback

record client_visible_upstream_error =
  cve_message :: string
  cve_code :: "opaque_upstream_value option"
  cve_error_type :: "opaque_upstream_value option"

definition client_visible_error_new ::
  "string \<Rightarrow> string option \<Rightarrow> string option \<Rightarrow> client_visible_upstream_error" where
  "client_visible_error_new message code error_type =
     \<lparr>cve_message = message, cve_code = map_option OpaqueUpstreamValue code,
      cve_error_type = map_option OpaqueUpstreamValue error_type\<rparr>"

record provider_diagnostic =
  pd_message :: string
  pd_stage :: "string option"
  pd_code :: "string option"

definition diagnostic_new :: "string \<Rightarrow> provider_diagnostic" where
  "diagnostic_new message = \<lparr>pd_message = message, pd_stage = None, pd_code = None\<rparr>"

definition with_classification :: "provider_diagnostic \<Rightarrow> string \<Rightarrow> string \<Rightarrow> provider_diagnostic" where
  "with_classification d stage code = d\<lparr>pd_stage := Some stage, pd_code := Some code\<rparr>"

text \<open>
  The I/O kinds of an error chain, the outermost error first; \<open>None\<close> is an error of the chain that
  is not an I/O error.
\<close>

datatype io_error_kind =
    IoConnectionRefused
  | IoConnectionReset
  | IoConnectionAborted
  | IoBrokenPipe
  | IoUnexpectedEof
  | IoTimedOut
  | IoNetworkUnreachable
  | IoHostUnreachable
  | IoOther

fun io_cause_code :: "io_error_kind \<Rightarrow> string option" where
  "io_cause_code IoConnectionRefused = Some ''connection_refused''"
| "io_cause_code IoConnectionReset = Some ''tcp_reset''"
| "io_cause_code IoConnectionAborted = Some ''connection_aborted''"
| "io_cause_code IoBrokenPipe = Some ''broken_pipe''"
| "io_cause_code IoUnexpectedEof = Some ''unexpected_eof''"
| "io_cause_code IoTimedOut = Some ''io_timeout''"
| "io_cause_code IoNetworkUnreachable = Some ''network_unreachable''"
| "io_cause_code IoHostUnreachable = Some ''host_unreachable''"
| "io_cause_code IoOther = None"

fun with_io_cause :: "provider_diagnostic \<Rightarrow> io_error_kind option list \<Rightarrow> provider_diagnostic" where
  "with_io_cause d [] = d"
| "with_io_cause d (e # es) =
     (case Option.bind e io_cause_code of
        Some code \<Rightarrow> d\<lparr>pd_message := pd_message d @ ''; I/O cause: '' @ code, pd_code := Some code\<rparr>
      | None \<Rightarrow> with_io_cause d es)"

datatype raw_upstream_error = RawUpstreamError (raw_error_str: string)

record provider_connection_observation =
  pco_connection_id :: string
  pco_exit_reason :: string
  pco_age_ms :: nat
  pco_idle_ms :: nat

record client_visible_upstream_response =
  cvr_status :: nat
  cvr_content_type :: "string option"
  cvr_headers :: "provider_response_header list"
  cvr_body :: string

section \<open>The provider error\<close>

record error_upstream_values =
  uv_code :: "opaque_upstream_value option"
  uv_request_id :: "opaque_upstream_value option"

definition upstream_values_default :: error_upstream_values where
  "upstream_values_default = \<lparr>uv_code = None, uv_request_id = None\<rparr>"

record error_failure_observation =
  fo_continuation_unavailable_reason :: "string option"
  fo_connection :: "provider_connection_observation option"

definition failure_observation_default :: error_failure_observation where
  "failure_observation_default = \<lparr>fo_continuation_unavailable_reason = None, fo_connection = None\<rparr>"

record provider_error =
  err_kind :: provider_error_kind
  err_send_state :: upstream_send_state
  err_upstream_status :: "nat option"
  err_upstream_values :: "error_upstream_values option"
  err_retry_after :: "duration option"
  err_continuation_failure :: "continuation_failure option"
  err_continuation_recovery_disposition :: "continuation_recovery_disposition option"
  err_failure_observation :: "error_failure_observation option"
  err_replay_safe :: bool
  err_pre_delivery_retry :: "pre_delivery_retry option"
  err_credential_recovery_required :: bool
  err_retry_same_account :: bool
  err_sensitive_context_redacted :: bool
  err_diagnostic :: "provider_diagnostic option"
  err_raw_upstream_error :: "raw_upstream_error option"
  err_client_visible_upstream_error :: "client_visible_upstream_error option"
  err_client_visible_upstream_response :: "client_visible_upstream_response option"
  err_atomic_client_events :: "provider_event list option"

definition provider_error_new :: "provider_error_kind \<Rightarrow> upstream_send_state \<Rightarrow> provider_error" where
  "provider_error_new kind send_state =
     \<lparr>err_kind = kind, err_send_state = send_state, err_upstream_status = None,
      err_upstream_values = None, err_retry_after = None, err_continuation_failure = None,
      err_continuation_recovery_disposition = None, err_failure_observation = None,
      err_replay_safe = False, err_pre_delivery_retry = None,
      err_credential_recovery_required = False, err_retry_same_account = False,
      err_sensitive_context_redacted = False, err_diagnostic = None,
      err_raw_upstream_error = None, err_client_visible_upstream_error = None,
      err_client_visible_upstream_response = None, err_atomic_client_events = None\<rparr>"

definition err_with_status :: "provider_error \<Rightarrow> nat \<Rightarrow> provider_error" where
  "err_with_status e status = (if valid_status status then e\<lparr>err_upstream_status := Some status\<rparr> else e)"

definition err_with_upstream_code :: "provider_error \<Rightarrow> opaque_upstream_value \<Rightarrow> provider_error" where
  "err_with_upstream_code e code =
     e\<lparr>err_upstream_values :=
         Some ((unwrap_or upstream_values_default (err_upstream_values e))\<lparr>uv_code := Some code\<rparr>)\<rparr>"

definition err_with_upstream_request_id :: "provider_error \<Rightarrow> opaque_upstream_value \<Rightarrow> provider_error" where
  "err_with_upstream_request_id e rid =
     e\<lparr>err_upstream_values :=
         Some ((unwrap_or upstream_values_default (err_upstream_values e))\<lparr>uv_request_id := Some rid\<rparr>)\<rparr>"

definition err_with_retry_after :: "provider_error \<Rightarrow> duration \<Rightarrow> provider_error" where
  "err_with_retry_after e d = e\<lparr>err_retry_after := Some d\<rparr>"

definition err_with_continuation_failure :: "provider_error \<Rightarrow> continuation_failure \<Rightarrow> provider_error" where
  "err_with_continuation_failure e f = e\<lparr>err_continuation_failure := Some f\<rparr>"

definition err_with_continuation_recovery_disposition ::
  "provider_error \<Rightarrow> continuation_recovery_disposition \<Rightarrow> provider_error" where
  "err_with_continuation_recovery_disposition e d = e\<lparr>err_continuation_recovery_disposition := Some d\<rparr>"

definition err_with_continuation_unavailable_reason :: "provider_error \<Rightarrow> string \<Rightarrow> provider_error" where
  "err_with_continuation_unavailable_reason e reason =
     e\<lparr>err_failure_observation :=
         Some ((unwrap_or failure_observation_default (err_failure_observation e))
                 \<lparr>fo_continuation_unavailable_reason := Some reason\<rparr>)\<rparr>"

definition err_with_connection_observation ::
  "provider_error \<Rightarrow> provider_connection_observation \<Rightarrow> provider_error" where
  "err_with_connection_observation e ob =
     e\<lparr>err_failure_observation :=
         Some ((unwrap_or failure_observation_default (err_failure_observation e))
                 \<lparr>fo_connection := Some ob\<rparr>)\<rparr>"

definition err_set_replay_safe :: "provider_error \<Rightarrow> provider_error" where
  "err_set_replay_safe e = e\<lparr>err_replay_safe := True\<rparr>"

definition err_with_pre_delivery_retry :: "provider_error \<Rightarrow> provider_error" where
  "err_with_pre_delivery_retry e = e\<lparr>err_pre_delivery_retry := Some AccountRotation\<rparr>"

definition err_set_pre_delivery_transport_fallback :: "provider_error \<Rightarrow> provider_error" where
  "err_set_pre_delivery_transport_fallback e =
     e\<lparr>err_pre_delivery_retry := Some SameAccountTransportFallback\<rparr>"

definition err_set_pre_delivery_transport_retry :: "provider_error \<Rightarrow> nat \<Rightarrow> duration \<Rightarrow> provider_error" where
  "err_set_pre_delivery_transport_retry e index delay =
     e\<lparr>err_pre_delivery_retry := Some (SameAccountTransportRetry index delay)\<rparr>"

definition err_with_same_account_retry :: "provider_error \<Rightarrow> provider_error" where
  "err_with_same_account_retry e = e\<lparr>err_retry_same_account := True\<rparr>"

definition err_with_transient_retry :: "provider_error \<Rightarrow> nat \<Rightarrow> duration \<Rightarrow> duration \<Rightarrow> provider_error" where
  "err_with_transient_retry e max_retries initial_delay max_delay =
     e\<lparr>err_pre_delivery_retry := Some (SameAccountTransientRetry max_retries initial_delay max_delay)\<rparr>"

definition err_with_credential_recovery :: "provider_error \<Rightarrow> provider_error" where
  "err_with_credential_recovery e = e\<lparr>err_credential_recovery_required := True\<rparr>"

definition err_with_atomic_client_events :: "provider_error \<Rightarrow> provider_event list \<Rightarrow> provider_error" where
  "err_with_atomic_client_events e events =
     e\<lparr>err_atomic_client_events := (if events \<noteq> [] then Some events else None)\<rparr>"

definition err_redact_sensitive_context :: "provider_error \<Rightarrow> provider_error" where
  "err_redact_sensitive_context e = e\<lparr>err_sensitive_context_redacted := True\<rparr>"

definition err_upstream_code :: "provider_error \<Rightarrow> opaque_upstream_value option" where
  "err_upstream_code e = Option.bind (err_upstream_values e) uv_code"

definition err_upstream_request_id :: "provider_error \<Rightarrow> opaque_upstream_value option" where
  "err_upstream_request_id e = Option.bind (err_upstream_values e) uv_request_id"

definition err_connection_observation :: "provider_error \<Rightarrow> provider_connection_observation option" where
  "err_connection_observation e = Option.bind (err_failure_observation e) fo_connection"

definition err_continuation_unavailable_reason :: "provider_error \<Rightarrow> string option" where
  "err_continuation_unavailable_reason e =
     Option.bind (err_failure_observation e) fo_continuation_unavailable_reason"

definition take_atomic_client_events :: "provider_error \<Rightarrow> provider_event list \<times> provider_error" where
  "take_atomic_client_events e =
     (unwrap_or [] (err_atomic_client_events e), e\<lparr>err_atomic_client_events := None\<rparr>)"

text \<open>The \<open>Clone\<close> of an error: the client-only wire data stays behind.\<close>

definition provider_error_clone :: "provider_error \<Rightarrow> provider_error" where
  "provider_error_clone e =
     \<lparr>err_kind = err_kind e, err_send_state = err_send_state e,
      err_upstream_status = err_upstream_status e, err_upstream_values = err_upstream_values e,
      err_retry_after = err_retry_after e, err_continuation_failure = err_continuation_failure e,
      err_continuation_recovery_disposition = err_continuation_recovery_disposition e,
      err_failure_observation = err_failure_observation e, err_replay_safe = err_replay_safe e,
      err_pre_delivery_retry = err_pre_delivery_retry e,
      err_credential_recovery_required = err_credential_recovery_required e,
      err_retry_same_account = err_retry_same_account e,
      err_sensitive_context_redacted = err_sensitive_context_redacted e,
      err_diagnostic = err_diagnostic e, err_raw_upstream_error = err_raw_upstream_error e,
      err_client_visible_upstream_error = err_client_visible_upstream_error e,
      err_client_visible_upstream_response = None, err_atomic_client_events = None\<rparr>"

section \<open>The gateway error\<close>

datatype gateway_error_kind =
    GkInvalidRequest
  | GkUnsupported
  | GkUnauthorized
  | GkPolicyDenied
  | GkModelNotFound
  | GkNoAvailableProvider
  | GkAccountCapacityUnavailable
  | GkConcurrencyQueueFull
  | GkConcurrencyQueueTimeout
  | GkProviderInfrastructureUnavailable
  | GkRateLimited
  | GkUpstreamUnavailable
  | GkTimeout
  | GkCancelled
  | GkInternal

fun gateway_error_kind_as_str :: "gateway_error_kind \<Rightarrow> string" where
  "gateway_error_kind_as_str GkInvalidRequest = ''invalid_request''"
| "gateway_error_kind_as_str GkUnsupported = ''unsupported''"
| "gateway_error_kind_as_str GkUnauthorized = ''unauthorized''"
| "gateway_error_kind_as_str GkPolicyDenied = ''policy_denied''"
| "gateway_error_kind_as_str GkModelNotFound = ''model_not_found''"
| "gateway_error_kind_as_str GkNoAvailableProvider = ''no_available_provider''"
| "gateway_error_kind_as_str GkAccountCapacityUnavailable = ''account_capacity_unavailable''"
| "gateway_error_kind_as_str GkConcurrencyQueueFull = ''concurrency_queue_full''"
| "gateway_error_kind_as_str GkConcurrencyQueueTimeout = ''concurrency_queue_timeout''"
| "gateway_error_kind_as_str GkProviderInfrastructureUnavailable = ''provider_infrastructure_unavailable''"
| "gateway_error_kind_as_str GkRateLimited = ''rate_limited''"
| "gateway_error_kind_as_str GkUpstreamUnavailable = ''upstream_unavailable''"
| "gateway_error_kind_as_str GkTimeout = ''timeout''"
| "gateway_error_kind_as_str GkCancelled = ''cancelled''"
| "gateway_error_kind_as_str GkInternal = ''internal_error''"

record gateway_client_error_details =
  gd_code :: "string option"
  gd_retry_after :: "duration option"

record gateway_error =
  ge_kind :: gateway_error_kind
  ge_message :: string
  ge_diagnostic :: "provider_diagnostic option"
  ge_client_visible_upstream_error :: "client_visible_upstream_error option"
  ge_client_details :: "gateway_client_error_details option"

definition gateway_error_new :: "gateway_error_kind \<Rightarrow> string \<Rightarrow> gateway_error" where
  "gateway_error_new kind message =
     \<lparr>ge_kind = kind, ge_message = message, ge_diagnostic = None,
      ge_client_visible_upstream_error = None, ge_client_details = None\<rparr>"

definition client_details_default :: gateway_client_error_details where
  "client_details_default = \<lparr>gd_code = None, gd_retry_after = None\<rparr>"

definition ge_with_client_code :: "gateway_error \<Rightarrow> string \<Rightarrow> gateway_error" where
  "ge_with_client_code g code =
     g\<lparr>ge_client_details :=
         Some ((unwrap_or client_details_default (ge_client_details g))\<lparr>gd_code := Some code\<rparr>)\<rparr>"

definition ge_with_retry_after :: "gateway_error \<Rightarrow> duration \<Rightarrow> gateway_error" where
  "ge_with_retry_after g delay =
     g\<lparr>ge_client_details :=
         Some ((unwrap_or client_details_default (ge_client_details g))\<lparr>gd_retry_after := Some delay\<rparr>)\<rparr>"

definition ge_retry_after :: "gateway_error \<Rightarrow> duration option" where
  "ge_retry_after g = Option.bind (ge_client_details g) gd_retry_after"

fun gateway_kind_of_provider :: "provider_error_kind \<Rightarrow> gateway_error_kind \<times> string" where
  "gateway_kind_of_provider PkInvalidRequest = (GkInvalidRequest, ''invalid upstream request'')"
| "gateway_kind_of_provider PkContinuationRecoveryRequired =
     (GkInvalidRequest, ''conversation continuation must be rebuilt'')"
| "gateway_kind_of_provider PkUnsupported = (GkUnsupported, ''requested capability is unsupported'')"
| "gateway_kind_of_provider PkUnauthorized =
     (GkUpstreamUnavailable, ''upstream authentication resource is unavailable'')"
| "gateway_kind_of_provider PkPermissionDenied =
     (GkUpstreamUnavailable, ''upstream authentication resource is unavailable'')"
| "gateway_kind_of_provider PkRateLimited =
     (GkRateLimited, ''upstream capacity is temporarily unavailable'')"
| "gateway_kind_of_provider PkQuotaExhausted =
     (GkRateLimited, ''upstream capacity is temporarily unavailable'')"
| "gateway_kind_of_provider PkConcurrencyQueueFull =
     (GkConcurrencyQueueFull, ''concurrency wait queue is full'')"
| "gateway_kind_of_provider PkConcurrencyQueueTimeout =
     (GkConcurrencyQueueTimeout, ''concurrency wait deadline elapsed'')"
| "gateway_kind_of_provider PkAccountCapacityUnavailable =
     (GkAccountCapacityUnavailable, ''all eligible upstream accounts are temporarily busy'')"
| "gateway_kind_of_provider PkNoEligibleAccount =
     (GkNoAvailableProvider, ''no upstream provider is currently available for this request'')"
| "gateway_kind_of_provider PkProviderInfrastructureUnavailable =
     (GkProviderInfrastructureUnavailable,
      ''provider account infrastructure is temporarily unavailable'')"
| "gateway_kind_of_provider PkTimeout = (GkTimeout, ''upstream request timed out'')"
| "gateway_kind_of_provider PkCancelled = (GkCancelled, ''request was cancelled'')"
| "gateway_kind_of_provider PkTransport = (GkUpstreamUnavailable, ''upstream service is unavailable'')"
| "gateway_kind_of_provider PkProtocol = (GkUpstreamUnavailable, ''upstream service is unavailable'')"
| "gateway_kind_of_provider PkUnavailable = (GkUpstreamUnavailable, ''upstream service is unavailable'')"
| "gateway_kind_of_provider PkUpstreamCapacityUnavailable =
     (GkUpstreamUnavailable, ''upstream service is unavailable'')"
| "gateway_kind_of_provider PkProcessTerminated =
     (GkUpstreamUnavailable, ''upstream service is unavailable'')"

definition gateway_from_provider :: "provider_error \<Rightarrow> gateway_error" where
  "gateway_from_provider e =
     (let (kind, message) = gateway_kind_of_provider (err_kind e);
          g = gateway_error_new kind message;
          g = (case err_diagnostic e of Some d \<Rightarrow> g\<lparr>ge_diagnostic := Some d\<rparr> | None \<Rightarrow> g)
      in case err_client_visible_upstream_error e of
           Some u \<Rightarrow> g\<lparr>ge_client_visible_upstream_error := Some u\<rparr>
         | None \<Rightarrow> g)"

definition ge_client_message :: "gateway_error \<Rightarrow> string" where
  "ge_client_message g =
     (case ge_client_visible_upstream_error g of None \<Rightarrow> ge_message g | Some u \<Rightarrow> cve_message u)"

definition ge_client_error_type :: "gateway_error \<Rightarrow> string option" where
  "ge_client_error_type g =
     Option.bind (ge_client_visible_upstream_error g) (\<lambda>u. map_option opaque_str (cve_error_type u))"

definition ge_client_error_code :: "gateway_error \<Rightarrow> string option" where
  "ge_client_error_code g =
     opt_or (Option.bind (ge_client_visible_upstream_error g) (\<lambda>u. map_option opaque_str (cve_code u)))
       (Option.bind (ge_client_details g) gd_code)"

fun queue_rejection_provider_kind :: "queue_rejection \<Rightarrow> provider_error_kind" where
  "queue_rejection_provider_kind QueueFull = PkConcurrencyQueueFull"
| "queue_rejection_provider_kind QueueTimeout = PkConcurrencyQueueTimeout"

fun queue_rejection_gateway_error :: "queue_rejection \<Rightarrow> gateway_error" where
  "queue_rejection_gateway_error QueueFull =
     gateway_error_new GkConcurrencyQueueFull ''concurrency wait queue is full''"
| "queue_rejection_gateway_error QueueTimeout =
     gateway_error_new GkConcurrencyQueueTimeout ''concurrency wait deadline elapsed''"

section \<open>Store errors\<close>

datatype store_error_kind = SkConflict | SkUnavailable | SkInvalidState | SkInvalidData

datatype store_error = StoreError (store_error_kind: store_error_kind)

section \<open>Lemmas\<close>

lemma clone_idem [simp]: "provider_error_clone (provider_error_clone e) = provider_error_clone e"
  by (simp add: provider_error_clone_def)

lemma gateway_from_clone: "gateway_from_provider (provider_error_clone e) = gateway_from_provider e"
  by (simp add: gateway_from_provider_def provider_error_clone_def cong: option.case_cong)

lemma ge_message_from_provider: "ge_message (gateway_from_provider e) = snd (gateway_kind_of_provider (err_kind e))"
  by (simp add: gateway_from_provider_def gateway_error_new_def Let_def split: prod.splits option.splits)

lemma ge_kind_from_provider: "ge_kind (gateway_from_provider e) = fst (gateway_kind_of_provider (err_kind e))"
  by (simp add: gateway_from_provider_def gateway_error_new_def Let_def split: prod.splits option.splits)

lemma take_atomic_fst: "snd (take_atomic_client_events e) = e\<lparr>err_atomic_client_events := None\<rparr>"
  by (simp add: take_atomic_client_events_def)

lemma queue_rejection_agree:
  "gateway_from_provider (provider_error_new (queue_rejection_provider_kind r) s)
     = queue_rejection_gateway_error r"
  by (cases r) (simp_all add: gateway_from_provider_def provider_error_new_def)

section \<open>Properties\<close>

text \<open>
  Client-only wire data never leaves the original error: whatever raw HTTP response and pending
  client events an error carries, its clone is the same and carries neither, and whatever raw
  upstream body it carries besides, the gateway error made from it is the same and shows one of the
  static messages.
\<close>

theorem wire_data_stays_behind:
  "provider_error_clone (e\<lparr>err_client_visible_upstream_response := r, err_atomic_client_events := a\<rparr>)
     = provider_error_clone e
   \<and> err_client_visible_upstream_response (provider_error_clone e) = None
   \<and> fst (take_atomic_client_events (provider_error_clone e)) = []
   \<and> gateway_from_provider
       (e\<lparr>err_client_visible_upstream_response := r, err_atomic_client_events := a,
          err_raw_upstream_error := w\<rparr>)
     = gateway_from_provider (provider_error_clone e)
   \<and> ge_message (gateway_from_provider e) \<in> (\<lambda>k. snd (gateway_kind_of_provider k)) ` UNIV"
proof -
  have "gateway_from_provider
       (e\<lparr>err_client_visible_upstream_response := r, err_atomic_client_events := a,
          err_raw_upstream_error := w\<rparr>) = gateway_from_provider e"
    by (simp add: gateway_from_provider_def cong: option.case_cong)
  then show ?thesis
    by (simp add: gateway_from_clone ge_message_from_provider)
       (simp add: provider_error_clone_def take_atomic_client_events_def)
qed

end
