(* ===== verification/AccountScope.thy ===== *)
theory AccountScope
  imports AccountModel
begin

text \<open>
  \<open>account/scope.rs\<close>: the directory of runtime accounts with its reverse indexes, the scope a
  client key compiles to, and the scope frozen with a request, which decides the accounts and
  models the request may use.
\<close>

section \<open>The account directory\<close>

record runtime_account =
  ra_provider_kind :: provider_kind
  ra_group_ids :: "account_group_id list"
  ra_model_access :: account_model_access

definition runtime_account_new :: "provider_kind \<Rightarrow> account_group_id list \<Rightarrow> runtime_account" where
  "runtime_account_new kind groups =
     \<lparr>ra_provider_kind = kind, ra_group_ids = groups, ra_model_access = model_access_all\<rparr>"

definition runtime_account_with_model_access :: "runtime_account \<Rightarrow> account_model_access \<Rightarrow> runtime_account" where
  "runtime_account_with_model_access a m = a\<lparr>ra_model_access := m\<rparr>"

record runtime_account_directory =
  dir_accounts :: "(provider_account_id, runtime_account) btree"
  dir_providers_with_accounts :: "provider_kind list"
  dir_providers_by_group :: "(account_group_id, provider_kind list) btree"

definition index_group ::
  "provider_kind \<Rightarrow> account_group_id \<Rightarrow> (account_group_id, provider_kind list) btree
   \<Rightarrow> (account_group_id, provider_kind list) btree" where
  "index_group kind g m = bt_insert g (bs_insert kind (unwrap_or [] (map_of m g))) m"

definition index_account ::
  "runtime_account \<Rightarrow> (account_group_id, provider_kind list) btree
   \<Rightarrow> (account_group_id, provider_kind list) btree" where
  "index_account a m = fold (index_group (ra_provider_kind a)) (ra_group_ids a) m"

definition directory_new :: "(provider_account_id, runtime_account) btree \<Rightarrow> runtime_account_directory" where
  "directory_new accounts =
     \<lparr>dir_accounts = accounts,
      dir_providers_with_accounts = fold (\<lambda>p. bs_insert (ra_provider_kind (snd p))) accounts [],
      dir_providers_by_group = fold (\<lambda>p. index_account (snd p)) accounts []\<rparr>"

definition directory_account :: "runtime_account_directory \<Rightarrow> provider_account_id \<Rightarrow> runtime_account option" where
  "directory_account d aid = map_of (dir_accounts d) aid"

definition providers_for_groups :: "runtime_account_directory \<Rightarrow> account_group_id list \<Rightarrow> provider_kind list" where
  "providers_for_groups d groups =
     bs_of_list (concat (List.map_filter (map_of (dir_providers_by_group d)) groups))"

text \<open>The provider kinds recorded under a group.\<close>

definition group_kinds :: "(account_group_id, provider_kind list) btree \<Rightarrow> account_group_id \<Rightarrow> provider_kind set" where
  "group_kinds m g = set (unwrap_or [] (map_of m g))"

lemma group_kinds_index_group:
  "group_kinds (index_group k h m) g = (if g = h then insert k (group_kinds m g) else group_kinds m g)"
  by (simp add: group_kinds_def index_group_def)

lemma group_kinds_fold_group:
  "group_kinds (fold (index_group k) hs m) g =
     group_kinds m g \<union> (if g \<in> set hs then {k} else {})"
  by (induction hs arbitrary: m) (auto simp: group_kinds_index_group)

lemma group_kinds_fold_account:
  "group_kinds (fold (\<lambda>p. index_account (snd p)) as m) g =
     group_kinds m g \<union> {ra_provider_kind a | a. a \<in> snd ` set as \<and> g \<in> set (ra_group_ids a)}"
proof (induction as arbitrary: m)
  case Nil
  then show ?case by simp
next
  case (Cons p as)
  then show ?case by (auto simp: index_account_def group_kinds_fold_group)
qed

lemma providers_with_accounts_fold:
  "set (fold (\<lambda>p. bs_insert (ra_provider_kind (snd p))) as s) =
     set s \<union> (ra_provider_kind \<circ> snd) ` set as"
  by (induction as arbitrary: s) auto

lemma set_providers_for_groups:
  "set (providers_for_groups (directory_new accounts) groups) =
     {ra_provider_kind a | a. a \<in> snd ` set accounts \<and> set (ra_group_ids a) \<inter> set groups \<noteq> {}}"
proof -
  let ?m = "dir_providers_by_group (directory_new accounts)"
  have "set (concat (List.map_filter (map_of ?m) groups)) = (\<Union>g \<in> set groups. group_kinds ?m g)"
    by (induction groups) (auto simp: List.map_filter_simps group_kinds_def split: option.splits)
  also have "group_kinds ?m = (\<lambda>g. {ra_provider_kind a | a. a \<in> snd ` set accounts \<and> g \<in> set (ra_group_ids a)})"
    by (rule ext) (simp add: directory_new_def group_kinds_fold_account, simp add: group_kinds_def)
  finally show ?thesis unfolding providers_for_groups_def set_bs_of_list by fastforce
qed

section \<open>Scopes\<close>

datatype account_routing_scope_kind = ScopeAll | ScopeGroups

fun scope_kind_as_str :: "account_routing_scope_kind \<Rightarrow> string" where
  "scope_kind_as_str ScopeAll = ''all''"
| "scope_kind_as_str ScopeGroups = ''groups''"

record routing_group_snapshot =
  rg_id :: account_group_id
  rg_name :: string

record account_routing_snapshot =
  rs_kind :: account_routing_scope_kind
  rs_groups :: "routing_group_snapshot list"

definition routing_snapshot_all :: account_routing_snapshot where
  "routing_snapshot_all = \<lparr>rs_kind = ScopeAll, rs_groups = []\<rparr>"

definition routing_snapshot_groups :: "routing_group_snapshot list \<Rightarrow> account_routing_snapshot" where
  "routing_snapshot_groups groups = \<lparr>rs_kind = ScopeGroups, rs_groups = groups\<rparr>"

datatype client_routing_scope =
    AllAccounts
  | Restricted
      (bound_groups: "routing_group_snapshot list")
      (enabled_group_ids: "account_group_id list")
      (scope_provider_kinds: "provider_kind list")

definition client_scope_restricted ::
  "routing_group_snapshot list \<Rightarrow> account_group_id list \<Rightarrow> provider_kind list
   \<Rightarrow> routing_error + client_routing_scope" where
  "client_scope_restricted bound enabled kinds =
     (if bound = [] then Inl InvalidAccountScope else Inr (Restricted bound enabled kinds))"

record frozen_account_scope =
  fs_disable_fast :: bool
  fs_request_profiles :: "(provider_kind, opaque_provider_data) btree"
  fs_directory :: runtime_account_directory
  fs_client_scope :: client_routing_scope

definition frozen_scope_new :: "runtime_account_directory \<Rightarrow> client_routing_scope \<Rightarrow> frozen_account_scope" where
  "frozen_scope_new d cs =
     \<lparr>fs_disable_fast = False, fs_request_profiles = [], fs_directory = d, fs_client_scope = cs\<rparr>"

definition with_request_profiles ::
  "frozen_account_scope \<Rightarrow> (provider_kind, opaque_provider_data) btree \<Rightarrow> frozen_account_scope" where
  "with_request_profiles s profiles = s\<lparr>fs_request_profiles := profiles\<rparr>"

definition request_profile :: "frozen_account_scope \<Rightarrow> provider_kind \<Rightarrow> opaque_provider_data option" where
  "request_profile s provider = map_of (fs_request_profiles s) provider"

definition with_disable_fast :: "frozen_account_scope \<Rightarrow> bool \<Rightarrow> frozen_account_scope" where
  "with_disable_fast s b = s\<lparr>fs_disable_fast := b\<rparr>"

definition scope_allows :: "frozen_account_scope \<Rightarrow> provider_account_id \<Rightarrow> bool" where
  "scope_allows s aid =
     (case directory_account (fs_directory s) aid of
        None \<Rightarrow> False
      | Some account \<Rightarrow>
          (case fs_client_scope s of
             AllAccounts \<Rightarrow> True
           | Restricted _ enabled _ \<Rightarrow> list_ex (\<lambda>g. g \<in> set enabled) (ra_group_ids account)))"

definition scope_allows_model :: "frozen_account_scope \<Rightarrow> provider_account_id \<Rightarrow> string \<Rightarrow> bool" where
  "scope_allows_model s aid upstream_model =
     (scope_allows s aid
      \<and> opt_any (\<lambda>account. model_access_allows (ra_model_access account) upstream_model)
          (directory_account (fs_directory s) aid))"

definition scope_allows_provider_model :: "frozen_account_scope \<Rightarrow> provider_kind \<Rightarrow> string \<Rightarrow> bool" where
  "scope_allows_provider_model s provider upstream_model =
     list_ex (\<lambda>(aid, account). ra_provider_kind account = provider \<and> scope_allows_model s aid upstream_model)
       (dir_accounts (fs_directory s))"

definition frozen_provider_kinds :: "frozen_account_scope \<Rightarrow> provider_kind list" where
  "frozen_provider_kinds s =
     (case fs_client_scope s of
        AllAccounts \<Rightarrow> dir_providers_with_accounts (fs_directory s)
      | Restricted _ _ kinds \<Rightarrow> kinds)"

definition frozen_routing_snapshot :: "frozen_account_scope \<Rightarrow> account_routing_snapshot" where
  "frozen_routing_snapshot s =
     (case fs_client_scope s of
        AllAccounts \<Rightarrow> routing_snapshot_all
      | Restricted bound _ _ \<Rightarrow> routing_snapshot_groups bound)"

text \<open>
  A scope over a directory built by \<open>directory_new\<close>, whose restricted provider kinds are those of
  the enabled groups, which is how the runtime snapshot compiles it.
\<close>

definition scope_compiled :: "frozen_account_scope \<Rightarrow> bool" where
  "scope_compiled s =
     (bt_ok (dir_accounts (fs_directory s))
      \<and> fs_directory s = directory_new (dir_accounts (fs_directory s))
      \<and> (case fs_client_scope s of
           AllAccounts \<Rightarrow> True
         | Restricted _ enabled kinds \<Rightarrow> kinds = providers_for_groups (fs_directory s) enabled))"

lemma directory_new_accounts [simp]: "dir_accounts (directory_new as) = as"
  by (simp add: directory_new_def)

definition scope_admits :: "frozen_account_scope \<Rightarrow> runtime_account \<Rightarrow> bool" where
  "scope_admits s a =
     (case fs_client_scope s of AllAccounts \<Rightarrow> True
      | Restricted _ enabled _ \<Rightarrow> set (ra_group_ids a) \<inter> set enabled \<noteq> {})"

lemma scope_allows_admits:
  "scope_allows s aid \<longleftrightarrow>
     (\<exists>a. directory_account (fs_directory s) aid = Some a \<and> scope_admits s a)"
  by (auto simp: scope_allows_def scope_admits_def list_ex_iff
      split: option.splits client_routing_scope.splits)

lemma frozen_provider_kinds_admits:
  assumes "scope_compiled s"
  shows "set (frozen_provider_kinds s) =
           {ra_provider_kind a | a. a \<in> snd ` set (dir_accounts (fs_directory s)) \<and> scope_admits s a}"
proof -
  define as where "as = dir_accounts (fs_directory s)"
  have d: "fs_directory s = directory_new as"
    using assms unfolding scope_compiled_def as_def by blast
  show ?thesis
  proof (cases "fs_client_scope s")
    case AllAccounts
    then show ?thesis
      by (auto simp: frozen_provider_kinds_def d directory_new_def providers_with_accounts_fold
          scope_admits_def)
  next
    case (Restricted bound enabled kinds)
    then have "kinds = providers_for_groups (directory_new as) enabled"
      using assms d by (simp add: scope_compiled_def)
    then show ?thesis
      by (simp add: frozen_provider_kinds_def scope_admits_def Restricted d set_providers_for_groups)
  qed
qed

text \<open>The provider kinds of a compiled scope are exactly those of the accounts it allows.\<close>

lemma compiled_scope_kinds:
  assumes "scope_compiled s"
  shows "k \<in> set (frozen_provider_kinds s) \<longleftrightarrow>
     (\<exists>aid a. directory_account (fs_directory s) aid = Some a \<and> scope_allows s aid
        \<and> ra_provider_kind a = k)"
proof -
  let ?as = "dir_accounts (fs_directory s)"
  have "bt_ok ?as" using assms by (simp add: scope_compiled_def)
  then have mem: "directory_account (fs_directory s) aid = Some a \<longleftrightarrow> (aid, a) \<in> set ?as" for aid a
    by (simp add: directory_account_def bt_lookup_mem)
  have "k \<in> set (frozen_provider_kinds s) \<longleftrightarrow>
      (\<exists>aid a. (aid, a) \<in> set ?as \<and> scope_admits s a \<and> k = ra_provider_kind a)"
    unfolding frozen_provider_kinds_admits [OF assms] by (force simp: image_iff)
  also have "\<dots> \<longleftrightarrow> (\<exists>aid a. directory_account (fs_directory s) aid = Some a \<and> scope_allows s aid
        \<and> ra_provider_kind a = k)" (is "?L \<longleftrightarrow> ?R")
  proof
    assume ?L
    then show ?R using mem scope_allows_admits by fast
  next
    assume ?R
    then obtain aid a where *: "directory_account (fs_directory s) aid = Some a"
      "scope_allows s aid" "ra_provider_kind a = k" by blast
    then have "scope_admits s a" by (auto simp: scope_allows_admits)
    with * mem show ?L by blast
  qed
  finally show ?thesis .
qed

end
