(* ===== verification/Float64.thy ===== *)
theory Float64
  imports Complex_Main
begin

text \<open>
  Rust's \<open>f64\<close> on the values the program computes with: finite, non-negative, and either zero or
  in the normal range. A float is the rational number it denotes; each operation rounds its exact
  result to 53 significant bits, ties to even. Rounding is shown monotone and exact on zero and
  powers of two, which is all the scheduling proofs need.
\<close>

fun bitlen :: "nat \<Rightarrow> nat" where
  "bitlen n = (if n = 0 then 0 else Suc (bitlen (n div 2)))"

declare bitlen.simps [simp del]

text \<open>\<open>2 ^ k\<close> for an integer exponent.\<close>

definition pow2 :: "int \<Rightarrow> rat" where
  "pow2 k = (if 0 \<le> k then 2 ^ nat k else 1 / 2 ^ nat (- k))"

text \<open>The exponent of a positive number: the \<open>e\<close> with \<open>2 ^ e \<le> x < 2 ^ (e + 1)\<close>.\<close>

definition exponent_of :: "rat \<Rightarrow> int" where
  "exponent_of x =
     (let (a, b) = quotient_of x;
          k = int (bitlen (nat a)) - int (bitlen (nat b))
      in if pow2 k \<le> x then k else k - 1)"

definition round_half_even :: "rat \<Rightarrow> int" where
  "round_half_even x =
     (let n = \<lfloor>x\<rfloor>; r = x - of_int n
      in if r < 1 / 2 then n else if 1 / 2 < r then n + 1 else if even n then n else n + 1)"

definition fl :: "rat \<Rightarrow> rat" where
  "fl x =
     (if x \<le> 0 then 0
      else let u = pow2 (exponent_of x - 52) in of_int (round_half_even (x / u)) * u)"

definition f_add :: "rat \<Rightarrow> rat \<Rightarrow> rat" where
  "f_add x y = fl (x + y)"

definition f_sub :: "rat \<Rightarrow> rat \<Rightarrow> rat" where
  "f_sub x y = fl (x - y)"

definition f_mul :: "rat \<Rightarrow> rat \<Rightarrow> rat" where
  "f_mul x y = fl (x * y)"

definition f_div :: "rat \<Rightarrow> rat \<Rightarrow> rat" where
  "f_div x y = fl (x / y)"

text \<open>A literal, and an integer converted to a float.\<close>

definition f_of_nat :: "nat \<Rightarrow> rat" where
  "f_of_nat n = fl (of_nat n)"

definition f_clamp :: "rat \<Rightarrow> rat \<Rightarrow> rat \<Rightarrow> rat" where
  "f_clamp x lo hi = (if x < lo then lo else if hi < x then hi else x)"

section \<open>Powers of two and the exponent\<close>

lemma pow2_pos [simp]: "0 < pow2 k"
  by (simp add: pow2_def)

lemma pow2_nonneg [simp]: "0 \<le> pow2 k"
  using pow2_pos [of k] by linarith

lemma pow2_neq_0 [simp]: "pow2 k \<noteq> 0"
  using pow2_pos [of k] by linarith

lemma pow2_Suc: "pow2 (k + 1) = 2 * pow2 k"
proof -
  consider "0 \<le> k" | "k = -1" | "k < -1" by linarith
  then show ?thesis
  proof cases
    case 1
    then have "nat (k + 1) = Suc (nat k)" by simp
    with 1 show ?thesis by (simp add: pow2_def)
  next
    case 2
    then show ?thesis by (simp add: pow2_def)
  next
    case 3
    then have "nat (- k) = Suc (nat (- (k + 1)))" by simp
    with 3 show ?thesis by (simp add: pow2_def)
  qed
qed

lemma pow2_add_nat: "pow2 (k + int n) = 2 ^ n * pow2 k"
proof (induction n)
  case 0
  then show ?case by simp
next
  case (Suc n)
  have "pow2 (k + int (Suc n)) = pow2 ((k + int n) + 1)" by (simp add: algebra_simps)
  also have "\<dots> = 2 ^ Suc n * pow2 k" using Suc by (simp add: pow2_Suc)
  finally show ?case .
qed

lemma pow2_mono: "j \<le> k \<Longrightarrow> pow2 j \<le> pow2 k"
proof -
  assume "j \<le> k"
  then have "pow2 k = 2 ^ nat (k - j) * pow2 j" using pow2_add_nat [of j "nat (k - j)"] by simp
  moreover have "(1 :: rat) \<le> 2 ^ nat (k - j)" by (rule one_le_power) simp
  ultimately show "pow2 j \<le> pow2 k"
    using mult_right_mono [of 1 "2 ^ nat (k - j)" "pow2 j"] by simp
qed

lemma pow2_diff: "pow2 (int a - int b) = 2 ^ a / 2 ^ b"
proof -
  have "pow2 (int a) = 2 ^ b * pow2 (int a - int b)" using pow2_add_nat [of "int a - int b" b] by simp
  moreover have "pow2 (int a) = 2 ^ a" by (simp add: pow2_def)
  ultimately show ?thesis by (simp add: field_simps)
qed

lemma bitlen_bounds: "0 < n \<Longrightarrow> 2 ^ bitlen n \<le> 2 * n \<and> n < 2 ^ bitlen n"
proof (induction n rule: bitlen.induct)
  case (1 n)
  show ?case
  proof (cases "n = 1")
    case True
    then show ?thesis by (subst (1 2) bitlen.simps) (simp add: bitlen.simps)
  next
    case False
    with 1 have ih: "2 ^ bitlen (n div 2) \<le> 2 * (n div 2)" "n div 2 < 2 ^ bitlen (n div 2)" by simp_all
    have "bitlen n = Suc (bitlen (n div 2))" using 1(2) by (subst bitlen.simps) simp
    have "2 * (n div 2) \<le> n" "n < 2 * (n div 2) + 2" by linarith+
    with ih \<open>bitlen n = _\<close> show ?thesis by (simp only: power_Suc) linarith
  qed
qed

lemma exponent_bounds:
  assumes "0 < x"
  shows "pow2 (exponent_of x) \<le> x" and "x < pow2 (exponent_of x + 1)"
proof -
  obtain a b where q: "quotient_of x = (a, b)" by (cases "quotient_of x")
  have b: "0 < b" using quotient_of_denom_pos [OF q] .
  have x: "x = of_int a / of_int b" using quotient_of_div [OF q] .
  with assms b have a: "0 < a" by (simp add: zero_less_divide_iff)
  define m n where "m = nat a" and "n = nat b"
  have x': "x = of_nat m / of_nat n" using x a b by (simp add: m_def n_def)
  have mn: "0 < m" "0 < n" using a b by (simp_all add: m_def n_def)
  define k where "k = int (bitlen m) - int (bitlen n)"
  have e: "exponent_of x = (if pow2 k \<le> x then k else k - 1)"
    by (simp add: exponent_of_def q k_def m_def n_def)
  have pk: "pow2 k = 2 ^ bitlen m / 2 ^ bitlen n" by (simp add: k_def pow2_diff)
  have m1: "2 ^ bitlen m \<le> 2 * (of_nat m :: rat)" and m2: "(of_nat m :: rat) < 2 ^ bitlen m"
    using bitlen_bounds [OF mn(1)] by (metis of_nat_le_iff of_nat_mult of_nat_numeral of_nat_power, metis of_nat_less_iff of_nat_numeral of_nat_power)
  have n1: "2 ^ bitlen n \<le> 2 * (of_nat n :: rat)" and n2: "(of_nat n :: rat) < 2 ^ bitlen n"
    using bitlen_bounds [OF mn(2)] by (metis of_nat_le_iff of_nat_mult of_nat_numeral of_nat_power, metis of_nat_less_iff of_nat_numeral of_nat_power)
  have up: "x < 2 * pow2 k"
  proof -
    have "(of_nat m :: rat) * 2 ^ bitlen n < 2 ^ bitlen m * (2 * of_nat n)"
      using m2 n1 mn by (intro mult_less_le_imp_less) simp_all
    then show ?thesis using mn by (simp add: x' pk field_simps)
  qed
  have low: "pow2 (k - 1) \<le> x"
  proof -
    have "2 ^ bitlen m * (of_nat n :: rat) \<le> 2 * of_nat m * 2 ^ bitlen n"
      using m1 n2 by (intro mult_mono) simp_all
    moreover have "pow2 k = 2 * pow2 (k - 1)" using pow2_Suc [of "k - 1"] by simp
    ultimately have "2 * pow2 (k - 1) \<le> 2 * x" using mn by (simp add: x' pk field_simps)
    then show ?thesis by simp
  qed
  show "pow2 (exponent_of x) \<le> x" using low by (simp add: e)
  show "x < pow2 (exponent_of x + 1)" using up pow2_Suc [of "k - 1"] by (auto simp: e pow2_Suc)
qed

section \<open>Rounding\<close>

lemma round_half_even_mono: "x \<le> y \<Longrightarrow> round_half_even x \<le> round_half_even y"
proof -
  assume xy: "x \<le> y"
  show ?thesis
  proof (cases "\<lfloor>x\<rfloor> = \<lfloor>y\<rfloor>")
    case True
    with xy show ?thesis by (auto simp: round_half_even_def Let_def)
  next
    case False
    then have "\<lfloor>x\<rfloor> + 1 \<le> \<lfloor>y\<rfloor>" using floor_mono [OF xy] by simp
    then show ?thesis by (auto simp: round_half_even_def Let_def)
  qed
qed

lemma round_half_even_int [simp]: "round_half_even (of_int n) = n"
  by (simp add: round_half_even_def)

lemma fl_0 [simp]: "fl 0 = 0"
  by (simp add: fl_def)

lemma fl_bounds:
  assumes "0 < x"
  shows "pow2 (exponent_of x) \<le> fl x" and "fl x \<le> pow2 (exponent_of x + 1)"
proof -
  define u where "u = pow2 (exponent_of x - 52)"
  have u: "0 < u" by (simp add: u_def)
  have e: "pow2 (exponent_of x) = 2 ^ 52 * u" using pow2_add_nat [of "exponent_of x - 52" 52] by (simp add: u_def)
  have e1: "pow2 (exponent_of x + 1) = 2 ^ 53 * u" using e by (simp add: pow2_Suc)
  have f: "fl x = of_int (round_half_even (x / u)) * u" using assms by (simp add: fl_def u_def Let_def)
  have "of_int (2 ^ 52) \<le> x / u" using exponent_bounds(1) [OF assms] u by (simp add: e field_simps)
  from round_half_even_mono [OF this] have "2 ^ 52 \<le> round_half_even (x / u)"
    by (simp only: round_half_even_int)
  then have "(2 ^ 52 :: rat) \<le> of_int (round_half_even (x / u))" by (metis of_int_le_iff of_int_numeral of_int_power)
  then show "pow2 (exponent_of x) \<le> fl x" using u by (simp add: f e)
  have "x < 2 ^ 53 * u" using exponent_bounds(2) [OF assms] unfolding e1 .
  then have "x / u \<le> of_int (2 ^ 53)" using u by (simp add: field_simps)
  from round_half_even_mono [OF this] have "round_half_even (x / u) \<le> 2 ^ 53"
    by (simp only: round_half_even_int)
  then have "of_int (round_half_even (x / u)) \<le> (2 ^ 53 :: rat)" by (metis of_int_le_iff of_int_numeral of_int_power)
  then show "fl x \<le> pow2 (exponent_of x + 1)" using u by (simp add: f e1)
qed

lemma fl_nonneg [simp]: "0 \<le> fl x"
proof (cases "x \<le> 0")
  case True
  then show ?thesis by (simp add: fl_def)
next
  case False
  then have "pow2 (exponent_of x) \<le> fl x" by (intro fl_bounds) simp
  then show ?thesis using pow2_pos [of "exponent_of x"] by linarith
qed

lemma fl_mono:
  assumes "x \<le> y"
  shows "fl x \<le> fl y"
proof (cases "x \<le> 0")
  case True
  then show ?thesis using fl_nonneg [of y] by (simp add: fl_def [of x])
next
  case False
  then have x: "0 < x" and y: "0 < y" using assms by simp_all
  consider "exponent_of x = exponent_of y" | "exponent_of x < exponent_of y" | "exponent_of y < exponent_of x"
    by linarith
  then show ?thesis
  proof cases
    case 1
    define u where "u = pow2 (exponent_of y - 52)"
    have "0 < u" by (simp add: u_def)
    then have "round_half_even (x / u) \<le> round_half_even (y / u)"
      using assms by (intro round_half_even_mono) (simp add: divide_right_mono)
    with \<open>0 < u\<close> x y 1 show ?thesis by (simp add: fl_def u_def Let_def)
  next
    case 2
    then have "pow2 (exponent_of x + 1) \<le> pow2 (exponent_of y)" by (intro pow2_mono) simp
    with fl_bounds(2) [OF x] fl_bounds(1) [OF y] show ?thesis by linarith
  next
    case 3
    then have "pow2 (exponent_of y + 1) \<le> pow2 (exponent_of x)" by (intro pow2_mono) simp
    with exponent_bounds(1) [OF x] exponent_bounds(2) [OF y] assms show ?thesis by linarith
  qed
qed

lemma fl_pow2 [simp]: "fl (pow2 k) = pow2 k"
proof -
  have "exponent_of (pow2 k) = k"
  proof (rule ccontr)
    assume "exponent_of (pow2 k) \<noteq> k"
    then consider "exponent_of (pow2 k) + 1 \<le> k" | "k + 1 \<le> exponent_of (pow2 k)" by linarith
    then show False
    proof cases
      case 1
      then show False using exponent_bounds(2) [OF pow2_pos, of k] pow2_mono [OF 1] by linarith
    next
      case 2
      have "pow2 k < pow2 (k + 1)" by (simp add: pow2_Suc)
      then show False using exponent_bounds(1) [OF pow2_pos, of k] pow2_mono [OF 2] by linarith
    qed
  qed
  moreover have "pow2 k / pow2 (k - 52) = of_int (2 ^ 52)"
    using pow2_add_nat [of "k - 52" 52] by simp
  ultimately show ?thesis
    using pow2_add_nat [of "k - 52" 52] round_half_even_int [of "2 ^ 52"]
    by (simp add: fl_def not_le Let_def)
qed

lemma fl_1 [simp]: "fl 1 = 1"
  using fl_pow2 [of 0] by (simp add: pow2_def)

lemma f_clamp_bounds: "lo \<le> hi \<Longrightarrow> lo \<le> f_clamp x lo hi \<and> f_clamp x lo hi \<le> hi"
  by (simp add: f_clamp_def)

lemma f_clamp_mono: "x \<le> y \<Longrightarrow> lo \<le> hi \<Longrightarrow> f_clamp x lo hi \<le> f_clamp y lo hi"
  by (auto simp: f_clamp_def)

lemma f_ops_nonneg [simp]: "0 \<le> f_add x y" "0 \<le> f_sub x y" "0 \<le> f_mul x y" "0 \<le> f_div x y" "0 \<le> f_of_nat n"
  by (simp_all add: f_add_def f_sub_def f_mul_def f_div_def f_of_nat_def)

lemma f_add_mono: "x \<le> x' \<Longrightarrow> y \<le> y' \<Longrightarrow> f_add x y \<le> f_add x' y'"
  by (simp add: f_add_def fl_mono)

lemma f_sub_mono: "x \<le> x' \<Longrightarrow> y' \<le> y \<Longrightarrow> f_sub x y \<le> f_sub x' y'"
  by (simp add: f_sub_def fl_mono)

lemma f_mul_mono: "0 \<le> x \<Longrightarrow> x \<le> x' \<Longrightarrow> 0 \<le> y \<Longrightarrow> y \<le> y' \<Longrightarrow> f_mul x y \<le> f_mul x' y'"
  by (simp add: f_mul_def fl_mono mult_mono)

lemma f_div_mono: "0 \<le> x \<Longrightarrow> x \<le> x' \<Longrightarrow> 0 < y' \<Longrightarrow> y' \<le> y \<Longrightarrow> f_div x y \<le> f_div x' y'"
  unfolding f_div_def by (intro fl_mono frac_le) simp_all

lemma f_of_nat_mono: "m \<le> n \<Longrightarrow> f_of_nat m \<le> f_of_nat n"
  by (simp add: f_of_nat_def fl_mono)

lemma f_of_nat_pos: "0 < n \<Longrightarrow> 1 \<le> f_of_nat n"
  using fl_mono [of 1 "of_nat n"] by (simp add: f_of_nat_def)

end
