(* ===== verification/Selection.thy ===== *)
theory Selection
  imports AccountScope Concurrency Float64 "HOL-Library.Product_Lexorder" "HOL-Library.Option_ord"
begin

text \<open>
  \<open>account/selection.rs\<close>: the scheduling policy, the feedback statistics of accounts, the blocker
  that keeps a candidate out of the pool, the capacity snapshot, the four rotation strategies and
  the order in which accounts are waited for. Scores are \<open>f64\<close> values of \<open>Float64\<close>; the power
  function of the mathematics library is an argument of the feedback decay. Sorting is stable and
  by key, as in the source, with the lexicographic orders of the library.
\<close>

section \<open>Policy and signals\<close>

datatype rotation_strategy = Smart | QuotaResetPriority | RoundRobin | Sticky

fun rotation_strategy_as_str :: "rotation_strategy \<Rightarrow> string" where
  "rotation_strategy_as_str Smart = ''smart''"
| "rotation_strategy_as_str QuotaResetPriority = ''quota_reset_priority''"
| "rotation_strategy_as_str RoundRobin = ''round_robin''"
| "rotation_strategy_as_str Sticky = ''sticky''"

definition rotation_strategy_parse :: "string \<Rightarrow> rotation_strategy option" where
  "rotation_strategy_parse value =
     (if value = ''smart'' then Some Smart
      else if value = ''quota_reset_priority'' then Some QuotaResetPriority
      else if value = ''round_robin'' then Some RoundRobin
      else if value = ''sticky'' then Some Sticky
      else None)"

interpretation rotation_names: stable_names rotation_strategy_as_str rotation_strategy_parse
proof
  show "rotation_strategy_parse (rotation_strategy_as_str x) = Some x" for x
    by (cases x) (simp_all add: rotation_strategy_parse_def)
  show "rotation_strategy_as_str x = s" if "rotation_strategy_parse s = Some x" for s x
    using that by (auto simp: rotation_strategy_parse_def split: if_splits)
qed

record account_selection_policy =
  asp_strategy :: rotation_strategy
  asp_max_concurrent_per_account :: nat
  asp_request_interval :: duration
  asp_queue_policy :: concurrency_queue_policy

definition selection_policy_new :: "rotation_strategy \<Rightarrow> nat \<Rightarrow> duration \<Rightarrow> account_selection_policy" where
  "selection_policy_new strategy max_concurrent interval =
     \<lparr>asp_strategy = strategy, asp_max_concurrent_per_account = max_concurrent,
      asp_request_interval = interval,
      asp_queue_policy = \<lparr>qp_max_waiting = 0, qp_timeout = 0\<rparr>\<rparr>"

definition with_queue :: "account_selection_policy \<Rightarrow> concurrency_queue_policy \<Rightarrow> account_selection_policy" where
  "with_queue p q = p\<lparr>asp_queue_policy := q\<rparr>"

record account_runtime_signals =
  sig_in_flight :: nat
  sig_last_started_at :: "systime option"
  sig_quota_reset_at :: "systime option"
  sig_quota_remaining_rank :: "nat option"
  sig_cooldown :: "account_cooldown option"
  sig_failure_rate_basis_points :: "nat option"
  sig_first_output_latency_ms :: "nat option"

record account_quota_signals =
  aqs_reset_at :: "systime option"
  aqs_remaining_rank :: "nat option"

definition with_provider_quota ::
  "account_runtime_signals \<Rightarrow> account_quota_signals option \<Rightarrow> account_runtime_signals" where
  "with_provider_quota s quota =
     (case quota of
        None \<Rightarrow> s
      | Some q \<Rightarrow> s\<lparr>sig_quota_reset_at := aqs_reset_at q,
                    sig_quota_remaining_rank := aqs_remaining_rank q\<rparr>)"

definition with_rate_limit ::
  "account_runtime_signals \<Rightarrow> account_cooldown option \<Rightarrow> account_runtime_signals" where
  "with_rate_limit s cooldown = s\<lparr>sig_cooldown := cooldown\<rparr>"

definition with_runtime_health ::
  "account_runtime_signals \<Rightarrow> nat option \<Rightarrow> nat option \<Rightarrow> account_runtime_signals" where
  "with_runtime_health s failure latency =
     s\<lparr>sig_failure_rate_basis_points := failure, sig_first_output_latency_ms := latency\<rparr>"

section \<open>Feedback of upstream attempts\<close>

text \<open>
  The failure rate decays with a half-life of fifteen minutes. \<open>powf\<close> is \<open>f64::powf\<close>; the model
  keeps full precision where an \<open>f64\<close> would become subnormal, after about eleven days without
  feedback.
\<close>

datatype account_attempt_feedback =
    FbSucceeded "nat option"
  | FbFailed "nat option"
  | FbCapacityRejected "nat option"

record decaying_failure_rate =
  fr_value :: rat
  fr_updated_at :: "instant option"

record account_feedback =
  af_failure_rate :: decaying_failure_rate
  af_first_output_ms :: "rat option"

definition account_feedback_default :: account_feedback where
  "account_feedback_default =
     \<lparr>af_failure_rate = \<lparr>fr_value = 0, fr_updated_at = None\<rparr>, af_first_output_ms = None\<rparr>"

definition feedback_ewma_alpha :: rat where
  "feedback_ewma_alpha = fl (1 / 5)"

definition capacity_failure_ewma_alpha :: rat where
  "capacity_failure_ewma_alpha = fl (2 / 5)"

definition as_secs_f64 :: "duration \<Rightarrow> rat" where
  "as_secs_f64 d =
     f_add (f_of_nat (d div 1000000000)) (f_div (f_of_nat (d mod 1000000000)) (f_of_nat 1000000000))"

definition failure_rate_value_at ::
  "(rat \<Rightarrow> rat \<Rightarrow> rat) \<Rightarrow> decaying_failure_rate \<Rightarrow> instant \<Rightarrow> rat" where
  "failure_rate_value_at powf r now =
     (case fr_updated_at r of
        None \<Rightarrow> fr_value r
      | Some updated_at \<Rightarrow>
          let elapsed = now - updated_at in
          f_mul (fr_value r) (powf (1 / 2) (f_div (as_secs_f64 elapsed) (as_secs_f64 (of_secs (15 * 60))))))"

definition ewma :: "rat \<Rightarrow> rat \<Rightarrow> rat \<Rightarrow> rat" where
  "ewma alpha sample previous = f_add (f_mul alpha sample) (f_mul (f_sub 1 alpha) previous)"

definition failure_rate_report_at ::
  "(rat \<Rightarrow> rat \<Rightarrow> rat) \<Rightarrow> rat \<Rightarrow> rat \<Rightarrow> instant \<Rightarrow> decaying_failure_rate \<Rightarrow> decaying_failure_rate" where
  "failure_rate_report_at powf sample alpha now r =
     (let now = (case fr_updated_at r of None \<Rightarrow> now | Some updated_at \<Rightarrow> max updated_at now);
          decayed = failure_rate_value_at powf r now
      in r\<lparr>fr_value := ewma alpha sample decayed, fr_updated_at := Some now\<rparr>)"

definition update_feedback_ewma :: "rat option \<Rightarrow> rat \<Rightarrow> rat option" where
  "update_feedback_ewma current sample =
     Some (case current of None \<Rightarrow> sample | Some previous \<Rightarrow> ewma feedback_ewma_alpha sample previous)"

fun feedback_sample :: "account_attempt_feedback \<Rightarrow> rat \<times> rat \<times> nat option" where
  "feedback_sample (FbSucceeded ms) = (0, feedback_ewma_alpha, ms)"
| "feedback_sample (FbFailed ms) = (1, feedback_ewma_alpha, ms)"
| "feedback_sample (FbCapacityRejected ms) = (1, capacity_failure_ewma_alpha, ms)"

definition feedback_report_at ::
  "(rat \<Rightarrow> rat \<Rightarrow> rat) \<Rightarrow> account_attempt_feedback \<Rightarrow> instant \<Rightarrow> account_feedback \<Rightarrow> account_feedback" where
  "feedback_report_at powf feedback now a =
     (let (failure, alpha, first_output_ms) = feedback_sample feedback;
          a = a\<lparr>af_failure_rate := failure_rate_report_at powf failure alpha now (af_failure_rate a)\<rparr>
      in case opt_filter (\<lambda>v. 0 < v) first_output_ms of
           None \<Rightarrow> a
         | Some ms \<Rightarrow>
             a\<lparr>af_first_output_ms := update_feedback_ewma (af_first_output_ms a) (f_of_nat ms)\<rparr>)"

text \<open>\<open>f64::round\<close>, half away from zero, of a non-negative number.\<close>

definition f_round :: "rat \<Rightarrow> nat" where
  "f_round x = nat \<lfloor>x + 1 / 2\<rfloor>"

definition feedback_signals_at ::
  "(rat \<Rightarrow> rat \<Rightarrow> rat) \<Rightarrow> account_feedback \<Rightarrow> instant \<Rightarrow> nat option \<times> nat option" where
  "feedback_signals_at powf a now =
     (let rate = failure_rate_value_at powf (af_failure_rate a) now
      in (Some (min u16_max (f_round (f_mul (f_clamp rate 0 1) 10000))),
          map_option (\<lambda>v. min u64_max (f_round v)) (opt_filter (\<lambda>v. 0 < v) (af_first_output_ms a))))"

type_synonym feedback_stats = "provider_kind \<times> provider_account_id \<Rightarrow> account_feedback option"

definition stats_signals_at ::
  "(rat \<Rightarrow> rat \<Rightarrow> rat) \<Rightarrow> feedback_stats \<Rightarrow> provider_kind \<Rightarrow> provider_account_id \<Rightarrow> instant
   \<Rightarrow> nat option \<times> nat option" where
  "stats_signals_at powf stats provider account now =
     (case stats (provider, account) of
        None \<Rightarrow> (None, None)
      | Some a \<Rightarrow> feedback_signals_at powf a now)"

definition stats_report_at ::
  "(rat \<Rightarrow> rat \<Rightarrow> rat) \<Rightarrow> feedback_stats \<Rightarrow> provider_kind \<Rightarrow> provider_account_id
   \<Rightarrow> account_attempt_feedback \<Rightarrow> instant \<Rightarrow> feedback_stats" where
  "stats_report_at powf stats provider account feedback now =
     (let key = (provider, account);
          old = unwrap_or account_feedback_default (stats key)
      in stats(key \<mapsto> feedback_report_at powf feedback now old))"

section \<open>Candidates and blockers\<close>

text \<open>\<open>std::cmp::Reverse\<close>.\<close>

datatype 'a reverse = Reverse (reversed: 'a)

instantiation reverse :: (linorder) linorder
begin
definition "x \<le> y \<longleftrightarrow> reversed y \<le> reversed x"
definition "x < y \<longleftrightarrow> reversed y < reversed x"
instance by standard (auto simp: less_eq_reverse_def less_reverse_def reverse.expand)
end

record account_candidate =
  cand_account :: provider_account
  cand_signals :: account_runtime_signals

abbreviation cand_id :: "account_candidate \<Rightarrow> provider_account_id" where
  "cand_id c \<equiv> pa_id (cand_account c)"

abbreviation cand_weight :: "account_candidate \<Rightarrow> account_weight" where
  "cand_weight c \<equiv> pa_weight (cand_account c)"

record account_capacity_snapshot =
  used_slots :: nat
  total_slots :: nat

definition with_acquired_request :: "account_capacity_snapshot \<Rightarrow> account_capacity_snapshot" where
  "with_acquired_request s =
     \<lparr>used_slots = min (saturating_add u64_max (used_slots s) 1) (total_slots s),
      total_slots = total_slots s\<rparr>"

datatype account_eligibility_policy = Enforce | BypassForDiagnostic

definition bypasses_local_eligibility :: "account_eligibility_policy \<Rightarrow> bool" where
  "bypasses_local_eligibility p = (p = BypassForDiagnostic)"

record account_selection_context =
  sc_policy :: account_selection_policy
  sc_now :: systime
  sc_excluded_accounts :: "provider_account_id list"
  sc_preferred_account :: "provider_account_id option"
  sc_preferred_account_overrides_weight :: bool
  sc_round_robin_cursor :: nat
  sc_eligibility :: account_eligibility_policy
  sc_account_scope :: "frozen_account_scope option"

datatype account_scheduling_blocker =
    OutsideClientScope
  | LocalAvailability
  | BlockExcluded
  | ConcurrencyLimit
  | RequestInterval
  | LowerWeight

datatype preferred_account_selection =
    NotRequested
  | PreferredHit
  | PreferredMissing
  | PreferredBlocked account_scheduling_blocker

record account_selection =
  sel_candidate :: account_candidate
  sel_preferred :: preferred_account_selection

abbreviation cand_concurrency :: "account_selection_context \<Rightarrow> account_candidate \<Rightarrow> nat" where
  "cand_concurrency ctx c \<equiv>
     effective_concurrency (cand_account c) (asp_max_concurrent_per_account (sc_policy ctx))"

definition interval_elapsed :: "account_selection_context \<Rightarrow> systime \<Rightarrow> bool" where
  "interval_elapsed ctx last_started =
     (case duration_since (sc_now ctx) last_started of
        None \<Rightarrow> False
      | Some elapsed \<Rightarrow> asp_request_interval (sc_policy ctx) \<le> elapsed)"

definition scheduling_blocker ::
  "account_candidate \<Rightarrow> account_selection_context \<Rightarrow> account_scheduling_blocker option" where
  "scheduling_blocker c ctx =
     (if opt_any (\<lambda>s. \<not> scope_allows s (cand_id c)) (sc_account_scope ctx) then Some OutsideClientScope
      else if \<not> bypasses_local_eligibility (sc_eligibility ctx)
              \<and> sp_status (provider_account_status (cand_account c) (sc_now ctx)
                             (sig_cooldown (cand_signals c))) \<noteq> Normal
        then Some LocalAvailability
      else if cand_id c \<in> set (sc_excluded_accounts ctx) then Some BlockExcluded
      else if cand_concurrency ctx c \<le> sig_in_flight (cand_signals c) then Some ConcurrencyLimit
      else if opt_any (\<lambda>t. \<not> interval_elapsed ctx t) (sig_last_started_at (cand_signals c))
        then Some RequestInterval
      else None)"

section \<open>Capacity\<close>

definition counts_for_capacity :: "account_selection_context \<Rightarrow> account_candidate \<Rightarrow> bool" where
  "counts_for_capacity ctx c =
     (scheduling_blocker c ctx \<notin>
        {Some OutsideClientScope, Some LocalAvailability, Some BlockExcluded})"

definition capacity_snapshot ::
  "account_candidate list \<Rightarrow> account_selection_context \<Rightarrow> account_capacity_snapshot option" where
  "capacity_snapshot candidates ctx =
     (let (used, total) =
        fold (\<lambda>c (used, total).
               (saturating_add u64_max used (sig_in_flight (cand_signals c)),
                saturating_add u64_max total (cand_concurrency ctx c)))
          (filter (counts_for_capacity ctx) candidates) (0, 0)
      in if 0 < total then Some \<lparr>used_slots = min used total, total_slots = total\<rparr> else None)"

section \<open>Scores\<close>

definition capacity_utilization :: "account_candidate \<Rightarrow> nat \<Rightarrow> rat" where
  "capacity_utilization c default_concurrency =
     f_div (f_of_nat (sig_in_flight (cand_signals c)))
       (f_of_nat (effective_concurrency (cand_account c) default_concurrency))"

definition smart_score_tolerance :: rat where
  "smart_score_tolerance = fl (1 / 20)"

definition smart_load :: "account_candidate \<Rightarrow> nat \<Rightarrow> rat" where
  "smart_load c default_concurrency =
     f_sub 1 (f_clamp (capacity_utilization c default_concurrency) 0 1)"

definition smart_quota :: "account_runtime_signals \<Rightarrow> rat" where
  "smart_quota s =
     (case sig_quota_remaining_rank s of
        None \<Rightarrow> 1 / 2
      | Some quota \<Rightarrow> f_div (f_of_nat (min quota 10000)) 10000)"

definition smart_failure :: "account_runtime_signals \<Rightarrow> rat" where
  "smart_failure s =
     f_sub 1 (f_div (f_of_nat (min (unwrap_or 0 (sig_failure_rate_basis_points s)) 10000)) 10000)"

definition smart_latency :: "account_runtime_signals \<Rightarrow> rat" where
  "smart_latency s =
     (case opt_filter (\<lambda>latency. 0 < latency) (sig_first_output_latency_ms s) of
        None \<Rightarrow> 1
      | Some latency \<Rightarrow> f_div 10000 (f_add 10000 (f_of_nat latency)))"

definition smart_score :: "account_candidate \<Rightarrow> nat \<Rightarrow> rat" where
  "smart_score c default_concurrency =
     f_add
       (f_add
          (f_add (f_mul 1 (smart_load c default_concurrency))
                 (f_mul (fl (4 / 5)) (smart_quota (cand_signals c))))
          (f_mul 1 (smart_failure (cand_signals c))))
       (f_mul (1 / 2) (smart_latency (cand_signals c)))"

section \<open>Selection\<close>

definition best_score :: "(account_candidate \<times> rat) list \<Rightarrow> rat" where
  "best_score ranked = Max (set (map snd ranked))"

definition smart_ranked :: "account_candidate list \<Rightarrow> nat \<Rightarrow> (account_candidate \<times> rat) list" where
  "smart_ranked candidates default_concurrency =
     (let ranked = map (\<lambda>c. (c, smart_score c default_concurrency)) candidates
      in sort_key (\<lambda>p. cand_id (fst p))
           (filter (\<lambda>p. f_sub (best_score ranked) (snd p) \<le> smart_score_tolerance) ranked))"

definition select_smart_candidate ::
  "account_candidate list \<Rightarrow> nat \<Rightarrow> nat \<Rightarrow> account_candidate option" where
  "select_smart_candidate candidates default_concurrency cursor =
     (if candidates = [] then None
      else
        let ranked = smart_ranked candidates default_concurrency
        in Some (fst (ranked ! (cursor mod length ranked))))"

text \<open>The sort keys of the strategies; \<open>first_of\<close> is \<open>first().copied()\<close>.\<close>

definition quota_reset_key ::
  "nat \<Rightarrow> account_candidate \<Rightarrow> bool \<times> systime option \<times> rat \<times> systime option \<times> provider_account_id" where
  "quota_reset_key default_concurrency c =
     (sig_quota_reset_at (cand_signals c) = None, sig_quota_reset_at (cand_signals c),
      capacity_utilization c default_concurrency, sig_last_started_at (cand_signals c), cand_id c)"

definition sticky_key :: "account_candidate \<Rightarrow> systime option reverse \<times> provider_account_id" where
  "sticky_key c = (Reverse (sig_last_started_at (cand_signals c)), cand_id c)"

definition first_of :: "'a list \<Rightarrow> 'a option" where
  "first_of xs = (case xs of [] \<Rightarrow> None | x # _ \<Rightarrow> Some x)"

definition rotate_candidates ::
  "account_selection_context \<Rightarrow> account_candidate list \<Rightarrow> account_candidate option" where
  "rotate_candidates ctx eligible =
     (case asp_strategy (sc_policy ctx) of
        QuotaResetPriority \<Rightarrow>
          first_of (sort_key (quota_reset_key (asp_max_concurrent_per_account (sc_policy ctx))) eligible)
      | RoundRobin \<Rightarrow>
          (let sorted = sort_key cand_id eligible;
               index = sc_round_robin_cursor ctx mod length eligible
           in if index < length sorted then Some (sorted ! index) else None)
      | Smart \<Rightarrow>
          select_smart_candidate eligible (asp_max_concurrent_per_account (sc_policy ctx))
            (sc_round_robin_cursor ctx)
      | Sticky \<Rightarrow> first_of (sort_key sticky_key eligible))"

definition eligible_candidates ::
  "account_candidate list \<Rightarrow> account_selection_context \<Rightarrow> account_candidate list" where
  "eligible_candidates candidates ctx = filter (\<lambda>c. scheduling_blocker c ctx = None) candidates"

definition highest_weight :: "account_candidate list \<Rightarrow> account_weight" where
  "highest_weight eligible = Max (set (map cand_weight eligible))"

definition preferred_decision ::
  "account_candidate list \<Rightarrow> account_selection_context \<Rightarrow> account_weight
   \<Rightarrow> account_candidate + preferred_account_selection" where
  "preferred_decision candidates ctx highest =
     (case sc_preferred_account ctx of
        None \<Rightarrow> Inr NotRequested
      | Some preferred \<Rightarrow>
          (case List.find (\<lambda>c. cand_id c = preferred) candidates of
             None \<Rightarrow> Inr PreferredMissing
           | Some c \<Rightarrow>
               (case scheduling_blocker c ctx of
                  Some blocker \<Rightarrow> Inr (PreferredBlocked blocker)
                | None \<Rightarrow>
                    if \<not> sc_preferred_account_overrides_weight ctx \<and> cand_weight c < highest
                    then Inr (PreferredBlocked LowerWeight)
                    else Inl c)))"

definition select_account ::
  "account_candidate list \<Rightarrow> account_selection_context \<Rightarrow> account_selection option" where
  "select_account candidates ctx =
     (let eligible = eligible_candidates candidates ctx in
      if eligible = [] then None
      else
        let highest = highest_weight eligible in
        case preferred_decision candidates ctx highest of
          Inl c \<Rightarrow> Some \<lparr>sel_candidate = c, sel_preferred = PreferredHit\<rparr>
        | Inr preferred \<Rightarrow>
            map_option (\<lambda>c. \<lparr>sel_candidate = c, sel_preferred = preferred\<rparr>)
              (rotate_candidates ctx (filter (\<lambda>c. cand_weight c = highest) eligible)))"

definition wait_key ::
  "account_selection_context \<Rightarrow> account_candidate \<Rightarrow> bool \<times> account_weight reverse \<times> provider_account_id" where
  "wait_key ctx c =
     (sc_preferred_account ctx \<noteq> Some (cand_id c), Reverse (cand_weight c), cand_id c)"

definition may_wait :: "account_selection_context \<Rightarrow> account_candidate \<Rightarrow> bool" where
  "may_wait ctx c =
     (scheduling_blocker c ctx \<in> {None, Some ConcurrencyLimit, Some RequestInterval})"

definition wait_candidates ::
  "account_candidate list \<Rightarrow> account_selection_context \<Rightarrow> provider_account_id list" where
  "wait_candidates candidates ctx =
     map cand_id (sort_key (wait_key ctx) (filter (may_wait ctx) candidates))"

section \<open>Lemmas\<close>

lemma find_Some_mem: "List.find P xs = Some x \<Longrightarrow> x \<in> set xs \<and> P x"
  by (induction xs) (auto split: if_splits)

lemma first_of_mem: "first_of xs = Some x \<Longrightarrow> x \<in> set xs"
  by (cases xs) (auto simp: first_of_def)

lemma first_of_None: "first_of xs = None \<longleftrightarrow> xs = []"
  by (cases xs) (auto simp: first_of_def)

lemma smart_ranked_set:
  "p \<in> set (smart_ranked cs n) \<longleftrightarrow>
     fst p \<in> set cs \<and> snd p = smart_score (fst p) n
     \<and> f_sub (best_score (map (\<lambda>c. (c, smart_score c n)) cs)) (snd p) \<le> smart_score_tolerance"
  by (cases p) (auto simp: smart_ranked_def Let_def)

lemma best_score_attained:
  assumes "cs \<noteq> []"
  obtains c where "c \<in> set cs" and "best_score (map (\<lambda>c. (c, smart_score c n)) cs) = smart_score c n"
proof -
  have "Max (set (map snd (map (\<lambda>c. (c, smart_score c n)) cs)))
      \<in> set (map snd (map (\<lambda>c. (c, smart_score c n)) cs))"
    by (rule Max_in) (use assms in simp_all)
  then show thesis using that by (auto simp: best_score_def)
qed

lemma best_score_ge: "c \<in> set cs \<Longrightarrow> smart_score c n \<le> best_score (map (\<lambda>c. (c, smart_score c n)) cs)"
  unfolding best_score_def by (rule Max_ge) (auto simp: image_image)

lemma smart_score_tolerance_pos: "0 \<le> smart_score_tolerance"
  by (simp add: smart_score_tolerance_def)

lemma smart_ranked_not_Nil:
  assumes "cs \<noteq> []"
  shows "smart_ranked cs n \<noteq> []"
proof -
  obtain c where "c \<in> set cs" and "best_score (map (\<lambda>c. (c, smart_score c n)) cs) = smart_score c n"
    using best_score_attained [OF assms] .
  then have "(c, smart_score c n) \<in> set (smart_ranked cs n)"
    using smart_score_tolerance_pos by (simp add: smart_ranked_set f_sub_def)
  then show ?thesis by auto
qed

lemma select_smart_Some:
  assumes "select_smart_candidate cs n cursor = Some c"
  shows "c \<in> set cs
       \<and> f_sub (best_score (map (\<lambda>c. (c, smart_score c n)) cs)) (smart_score c n) \<le> smart_score_tolerance"
proof -
  from assms have cs: "cs \<noteq> []" by (auto simp: select_smart_candidate_def)
  let ?r = "smart_ranked cs n"
  have "cursor mod length ?r < length ?r" using smart_ranked_not_Nil [OF cs] by simp
  then have "?r ! (cursor mod length ?r) \<in> set ?r" by simp
  with assms cs show ?thesis
    unfolding smart_ranked_set by (auto simp: select_smart_candidate_def Let_def)
qed

lemma rotate_Some: "rotate_candidates ctx cs = Some c \<Longrightarrow> c \<in> set cs"
proof (cases "asp_strategy (sc_policy ctx)")
  case RoundRobin
  assume "rotate_candidates ctx cs = Some c"
  with RoundRobin have "c \<in> set (sort_key cand_id cs)"
    by (auto simp: rotate_candidates_def Let_def split: if_splits simp del: set_sort)
  then show ?thesis by simp
qed (auto simp: rotate_candidates_def dest: first_of_mem select_smart_Some)

lemma rotate_None: "rotate_candidates ctx cs = None \<longleftrightarrow> cs = []"
proof (cases "asp_strategy (sc_policy ctx)")
  case QuotaResetPriority
  then show ?thesis by (simp add: rotate_candidates_def first_of_None) (metis length_0_conv length_sort)
next
  case Sticky
  then show ?thesis by (simp add: rotate_candidates_def first_of_None) (metis length_0_conv length_sort)
next
  case RoundRobin
  then show ?thesis by (cases cs) (simp_all add: rotate_candidates_def Let_def)
qed (auto simp: rotate_candidates_def Let_def select_smart_candidate_def)

lemma highest_weight_attained:
  assumes "cs \<noteq> []"
  shows "\<exists>c \<in> set cs. cand_weight c = highest_weight cs"
proof -
  have "Max (set (map cand_weight cs)) \<in> set (map cand_weight cs)"
    by (rule Max_in) (use assms in simp_all)
  then show ?thesis by (auto simp: highest_weight_def)
qed

lemma highest_weight_ge: "c \<in> set cs \<Longrightarrow> cand_weight c \<le> highest_weight cs"
  by (simp add: highest_weight_def)

lemma select_account_None: "select_account cs ctx = None \<longleftrightarrow> eligible_candidates cs ctx = []"
proof (cases "eligible_candidates cs ctx = []")
  case True
  then show ?thesis by (simp add: select_account_def)
next
  case False
  from highest_weight_attained [OF this]
  have "filter (\<lambda>c. cand_weight c = highest_weight (eligible_candidates cs ctx)) (eligible_candidates cs ctx) \<noteq> []"
    by (auto simp: filter_empty_conv)
  then obtain c where "rotate_candidates ctx
      (filter (\<lambda>c. cand_weight c = highest_weight (eligible_candidates cs ctx)) (eligible_candidates cs ctx))
      = Some c" using rotate_None by (metis option.exhaust)
  with False show ?thesis
    by (simp add: select_account_def Let_def split: sum.splits)
qed

lemma select_account_Some:
  assumes "select_account cs ctx = Some s"
  shows "sel_candidate s \<in> set cs \<and> scheduling_blocker (sel_candidate s) ctx = None
       \<and> (sel_preferred s = PreferredHit
            \<longrightarrow> sc_preferred_account ctx = Some (cand_id (sel_candidate s)))
       \<and> (sel_preferred s \<noteq> PreferredHit \<or> \<not> sc_preferred_account_overrides_weight ctx
            \<longrightarrow> cand_weight (sel_candidate s) = highest_weight (eligible_candidates cs ctx))"
proof -
  let ?e = "eligible_candidates cs ctx"
  from assms have e: "?e \<noteq> []" by (auto simp: select_account_def)
  show ?thesis
  proof (cases "preferred_decision cs ctx (highest_weight ?e)")
    case (Inl c)
    then have s: "s = \<lparr>sel_candidate = c, sel_preferred = PreferredHit\<rparr>"
      using assms e by (simp add: select_account_def Let_def)
    from Inl obtain p where p: "sc_preferred_account ctx = Some p"
      "List.find (\<lambda>c. cand_id c = p) cs = Some c" "scheduling_blocker c ctx = None"
      "sc_preferred_account_overrides_weight ctx \<or> highest_weight ?e \<le> cand_weight c"
      by (auto simp: preferred_decision_def not_less split: option.splits if_splits)
    then have "c \<in> set cs" "cand_id c = p" by (auto dest: find_Some_mem)
    moreover from this p(3) have "cand_weight c \<le> highest_weight ?e"
      by (intro highest_weight_ge) (simp add: eligible_candidates_def)
    ultimately show ?thesis using p s by auto
  next
    case (Inr pref)
    then obtain c where s: "s = \<lparr>sel_candidate = c, sel_preferred = pref\<rparr>"
      and c: "rotate_candidates ctx (filter (\<lambda>c. cand_weight c = highest_weight ?e) ?e) = Some c"
      using assms e by (auto simp: select_account_def Let_def)
    from Inr have "pref \<noteq> PreferredHit"
      by (auto simp: preferred_decision_def split: option.splits if_splits)
    with rotate_Some [OF c] s show ?thesis by (auto simp: eligible_candidates_def)
  qed
qed

text \<open>What an unblocked candidate satisfies.\<close>

lemma unblocked_iff:
  "scheduling_blocker c ctx = None \<longleftrightarrow>
     (\<forall>s. sc_account_scope ctx = Some s \<longrightarrow> scope_allows s (cand_id c))
     \<and> (sc_eligibility ctx = BypassForDiagnostic
        \<or> sp_status (provider_account_status (cand_account c) (sc_now ctx)
             (sig_cooldown (cand_signals c))) = Normal)
     \<and> cand_id c \<notin> set (sc_excluded_accounts ctx)
     \<and> sig_in_flight (cand_signals c) < cand_concurrency ctx c
     \<and> (\<forall>t. sig_last_started_at (cand_signals c) = Some t \<longrightarrow>
          t + int (asp_request_interval (sc_policy ctx)) \<le> sc_now ctx)"
  by (auto simp: scheduling_blocker_def bypasses_local_eligibility_def opt_any_iff interval_elapsed_def
      duration_since_def split: if_splits option.splits)

lemma cyclic_hits:
  assumes "xs \<noteq> []"
  shows "(\<lambda>i. xs ! ((k + i) mod length xs)) ` {..<length xs} = set xs"
proof -
  let ?n = "length xs"
  have n: "0 < ?n" using assms by simp
  have "\<exists>i < ?n. (k + i) mod ?n = j" if "j < ?n" for j
  proof -
    let ?i = "(j + (?n - k mod ?n)) mod ?n"
    have le: "k mod ?n \<le> ?n" using n by (simp add: less_imp_le)
    have "(k + ?i) mod ?n = (k mod ?n + (j + (?n - k mod ?n))) mod ?n" by (simp add: mod_simps)
    also have "k mod ?n + (j + (?n - k mod ?n)) = j + ?n" using le by simp
    finally have "(k + ?i) mod ?n = j" using that by simp
    moreover have "?i < ?n" using n by simp
    ultimately show ?thesis by blast
  qed
  then have "(\<lambda>i. (k + i) mod ?n) ` {..<?n} = {..<?n}" using n by force
  then have "(\<lambda>j. xs ! j) ` ((\<lambda>i. (k + i) mod ?n) ` {..<?n}) = (\<lambda>j. xs ! j) ` {..<?n}" by simp
  also have "\<dots> = set xs" by (auto simp: set_conv_nth)
  finally show ?thesis by (simp add: image_image)
qed

lemma interval_cursor [simp]:
  "interval_elapsed (ctx\<lparr>sc_round_robin_cursor := k\<rparr>) = interval_elapsed ctx"
  by (rule ext) (simp add: interval_elapsed_def cong: option.case_cong)

lemma blocker_cursor [simp]:
  "scheduling_blocker c (ctx\<lparr>sc_round_robin_cursor := k\<rparr>) = scheduling_blocker c ctx"
  by (simp add: scheduling_blocker_def)

lemma eligible_cursor [simp]:
  "eligible_candidates cs (ctx\<lparr>sc_round_robin_cursor := k\<rparr>) = eligible_candidates cs ctx"
  by (simp add: eligible_candidates_def)

definition top_candidates :: "account_candidate list \<Rightarrow> account_selection_context \<Rightarrow> account_candidate list" where
  "top_candidates cs ctx =
     (let eligible = eligible_candidates cs ctx
      in filter (\<lambda>c. cand_weight c = highest_weight eligible) eligible)"

text \<open>The candidates a cursor rotates through.\<close>

definition rotation_pool :: "account_candidate list \<Rightarrow> account_selection_context \<Rightarrow> account_candidate list" where
  "rotation_pool cs ctx =
     (case asp_strategy (sc_policy ctx) of
        RoundRobin \<Rightarrow> sort_key cand_id (top_candidates cs ctx)
      | Smart \<Rightarrow>
          (if top_candidates cs ctx = [] then []
           else map fst (smart_ranked (top_candidates cs ctx)
                          (asp_max_concurrent_per_account (sc_policy ctx))))
      | _ \<Rightarrow> [])"

lemma select_by_cursor:
  assumes "sc_preferred_account ctx = None" and "rotation_pool cs ctx \<noteq> []"
  shows "map_option sel_candidate (select_account cs ctx) =
           Some (rotation_pool cs ctx ! (sc_round_robin_cursor ctx mod length (rotation_pool cs ctx)))"
proof -
  let ?e = "eligible_candidates cs ctx"
  have top: "top_candidates cs ctx \<noteq> []"
    using assms(2) by (cases "asp_strategy (sc_policy ctx)") (auto simp: rotation_pool_def)
  then have e: "?e \<noteq> []" by (auto simp: top_candidates_def Let_def)
  have sel: "map_option sel_candidate (select_account cs ctx) = rotate_candidates ctx (top_candidates cs ctx)"
    using e assms(1)
    by (simp add: select_account_def preferred_decision_def top_candidates_def Let_def
        option.map_comp comp_def option.map_ident)
  show ?thesis
  proof (cases "asp_strategy (sc_policy ctx)")
    case RoundRobin
    then show ?thesis
      using top by (simp add: sel rotate_candidates_def rotation_pool_def Let_def)
  next
    case Smart
    then show ?thesis
      using top smart_ranked_not_Nil [OF top]
      by (simp add: sel rotate_candidates_def rotation_pool_def select_smart_candidate_def Let_def nth_map)
  qed (use assms(2) in \<open>simp_all add: rotation_pool_def\<close>)
qed

lemma pool_cursor [simp]: "rotation_pool cs (ctx\<lparr>sc_round_robin_cursor := k\<rparr>) = rotation_pool cs ctx"
  by (cases "asp_strategy (sc_policy ctx)") (simp_all add: rotation_pool_def top_candidates_def)

section \<open>Sample candidates\<close>

definition sample_account :: "string \<Rightarrow> nat \<Rightarrow> provider_account" where
  "sample_account name weight =
     with_scheduling
       (with_account_facts
          (provider_account_new (ProviderAccountId name) (ProviderKind ''openai'') name None ''oauth''
             (CredentialRevision 1) None)
          True Ready (quota_allowed 0) None None)
       None (AccountWeight weight)"

definition sample_candidate :: "string \<Rightarrow> nat \<Rightarrow> nat \<Rightarrow> account_candidate" where
  "sample_candidate name weight in_flight =
     \<lparr>cand_account = sample_account name weight,
      cand_signals = \<lparr>sig_in_flight = in_flight, sig_last_started_at = None, sig_quota_reset_at = None,
        sig_quota_remaining_rank = None, sig_cooldown = None, sig_failure_rate_basis_points = None,
        sig_first_output_latency_ms = None\<rparr>\<rparr>"

definition sample_context :: "rotation_strategy \<Rightarrow> account_selection_context" where
  "sample_context strategy =
     \<lparr>sc_policy = selection_policy_new strategy 4 0, sc_now = 0, sc_excluded_accounts = [],
      sc_preferred_account = None, sc_preferred_account_overrides_weight = False,
      sc_round_robin_cursor = 0, sc_eligibility = Enforce, sc_account_scope = None\<rparr>"

lemma sample_unblocked [simp]:
  "scheduling_blocker (sample_candidate n w f) (sample_context st) = (if 4 \<le> f then Some ConcurrencyLimit else None)"
  by (simp add: scheduling_blocker_def sample_candidate_def sample_context_def sample_account_def
      with_scheduling_def with_account_facts_def provider_account_new_def provider_account_status_def
      resolve_account_status_def credential_error_of_def quota_is_exhausted_def quota_allowed_def
      plain_status_projection_def bypasses_local_eligibility_def effective_concurrency_def
      selection_policy_new_def)

lemma sample_fields [simp]:
  "cand_weight (sample_candidate n w f) = AccountWeight w"
  "cand_id (sample_candidate n w f) = ProviderAccountId n"
  by (simp_all add: sample_candidate_def sample_account_def with_scheduling_def with_account_facts_def
      provider_account_new_def)

section \<open>Properties\<close>

text \<open>
  C16. A selection fails exactly when every candidate is blocked, and a selected account is one the
  request may use now: inside the client's scope, with status normal (unless a diagnostic bypasses
  that), not excluded, below its concurrency limit and past its request interval; only a preferred
  account that may override weights is chosen over an account of a higher weight.
\<close>

theorem selection_sound_and_total:
  "case select_account cs ctx of
     None \<Rightarrow> list_all (\<lambda>c. scheduling_blocker c ctx \<noteq> None) cs
   | Some s \<Rightarrow>
       (let c = sel_candidate s in
         c \<in> set cs
         \<and> (case sc_account_scope ctx of None \<Rightarrow> True | Some sc \<Rightarrow> scope_allows sc (cand_id c))
         \<and> (if sc_eligibility ctx = BypassForDiagnostic then True
            else sp_status (provider_account_status (cand_account c) (sc_now ctx)
                  (sig_cooldown (cand_signals c))) = Normal)
         \<and> cand_id c \<notin> set (sc_excluded_accounts ctx)
         \<and> sig_in_flight (cand_signals c) < cand_concurrency ctx c
         \<and> (case sig_last_started_at (cand_signals c) of
              None \<Rightarrow> True
            | Some t \<Rightarrow> t + int (asp_request_interval (sc_policy ctx)) \<le> sc_now ctx)
         \<and> (if sel_preferred s = PreferredHit
            then sc_preferred_account ctx = Some (cand_id c)
                 \<and> (sc_preferred_account_overrides_weight ctx
                    \<or> cand_weight c = highest_weight (eligible_candidates cs ctx))
            else cand_weight c = highest_weight (eligible_candidates cs ctx)))"
proof (cases "select_account cs ctx")
  case None
  then show ?thesis
    using select_account_None [of cs ctx] by (auto simp: eligible_candidates_def filter_empty_conv list_all_iff)
next
  case (Some s)
  note sound = select_account_Some [OF Some]
  with unblocked_iff [of "sel_candidate s" ctx] Some show ?thesis
    by (auto simp: Let_def split: option.splits)
qed

text \<open>
  C39. Rotation is fair: with no preferred account, as many consecutive cursor values as the pool of
  \<open>round_robin\<close> or \<open>smart\<close> has accounts select every account of the pool, and nothing else.
\<close>

theorem rotation_fair:
  assumes "sc_preferred_account ctx = None" and "rotation_pool cs ctx \<noteq> []"
  shows "(\<lambda>i. map_option sel_candidate (select_account cs (ctx\<lparr>sc_round_robin_cursor := k + i\<rparr>)))
           ` {..<length (rotation_pool cs ctx)} = Some ` set (rotation_pool cs ctx)"
proof -
  have "map_option sel_candidate (select_account cs (ctx\<lparr>sc_round_robin_cursor := k + i\<rparr>))
      = Some (rotation_pool cs ctx ! ((k + i) mod length (rotation_pool cs ctx)))" for i
    using select_by_cursor [of "ctx\<lparr>sc_round_robin_cursor := k + i\<rparr>" cs] assms by simp
  then have "(\<lambda>i. map_option sel_candidate (select_account cs (ctx\<lparr>sc_round_robin_cursor := k + i\<rparr>)))
      = Some \<circ> (\<lambda>i. rotation_pool cs ctx ! ((k + i) mod length (rotation_pool cs ctx)))"
    by (simp only: comp_def)
  then show ?thesis by (simp only: image_comp [symmetric] cyclic_hits [OF assms(2)])
qed

definition sample_pool :: "account_candidate list" where
  "sample_pool = [sample_candidate ''acct_b'' 1 0, sample_candidate ''acct_a'' 1 0]"

lemma sample_pool_top: "top_candidates sample_pool (sample_context st) = sample_pool"
  by (simp add: top_candidates_def eligible_candidates_def sample_pool_def highest_weight_def)

lemma sample_policy [simp]:
  "asp_strategy (sc_policy (sample_context st)) = st"
  "asp_max_concurrent_per_account (sc_policy (sample_context st)) = 4"
  "sc_preferred_account (sample_context st) = None"
  by (simp_all add: sample_context_def selection_policy_new_def)

lemma sample_rotation_pool:
  "set (rotation_pool sample_pool (sample_context RoundRobin)) = set sample_pool"
  "length (rotation_pool sample_pool (sample_context RoundRobin)) = 2"
  by (simp_all add: rotation_pool_def sample_pool_top) (simp add: sample_pool_def)

theorem rotation_fair_witness:
  "(\<lambda>i. map_option sel_candidate
          (select_account sample_pool (sample_context RoundRobin\<lparr>sc_round_robin_cursor := 5 + i\<rparr>)))
     ` {..<2} = Some ` set sample_pool"
proof -
  have "rotation_pool sample_pool (sample_context RoundRobin) \<noteq> []"
    using sample_rotation_pool(2) by auto
  from rotation_fair [OF sample_policy(3) this, of 5] show ?thesis
    by (simp only: sample_rotation_pool)
qed

section \<open>Scores, capacity and waiting\<close>

text \<open>The preference order of one candidate over another on every signal the score reads.\<close>

definition no_worse :: "nat \<Rightarrow> account_candidate \<Rightarrow> account_candidate \<Rightarrow> bool" where
  "no_worse n a b =
     (let s = cand_signals a; t = cand_signals b in
      sig_in_flight s \<le> sig_in_flight t
      \<and> effective_concurrency (cand_account b) n \<le> effective_concurrency (cand_account a) n
      \<and> 0 < effective_concurrency (cand_account b) n
      \<and> unwrap_or 5000 (sig_quota_remaining_rank t) \<le> unwrap_or 5000 (sig_quota_remaining_rank s)
      \<and> unwrap_or 0 (sig_failure_rate_basis_points s) \<le> unwrap_or 0 (sig_failure_rate_basis_points t)
      \<and> unwrap_or 0 (sig_first_output_latency_ms s) \<le> unwrap_or 0 (sig_first_output_latency_ms t))"

lemma utilization_mono:
  assumes "sig_in_flight (cand_signals a) \<le> sig_in_flight (cand_signals b)"
    and "effective_concurrency (cand_account b) n \<le> effective_concurrency (cand_account a) n"
    and "0 < effective_concurrency (cand_account b) n"
  shows "capacity_utilization a n \<le> capacity_utilization b n"
  unfolding capacity_utilization_def
  by (intro f_div_mono f_of_nat_mono)
     (use assms f_of_nat_pos [of "effective_concurrency (cand_account b) n"] in simp_all)

lemma smart_load_mono:
  "capacity_utilization a n \<le> capacity_utilization b n \<Longrightarrow> smart_load b n \<le> smart_load a n"
  unfolding smart_load_def by (intro f_sub_mono f_clamp_mono) simp_all

lemma f_half_exact: "f_div (f_of_nat 5000) 10000 = 1 / 2"
proof -
  have e: "exponent_of 5000 = 12"
    by (simp add: exponent_of_def quotient_of_number bitlen.simps pow2_def)
  have "f_of_nat 5000 = 5000"
    by (simp add: f_of_nat_def fl_def e pow2_def round_half_even_def Let_def)
  then show ?thesis
    using fl_pow2 [of "-1"] by (simp add: f_div_def pow2_def)
qed

lemma smart_quota_mono:
  "unwrap_or 5000 (sig_quota_remaining_rank t) \<le> unwrap_or 5000 (sig_quota_remaining_rank s)
   \<Longrightarrow> smart_quota t \<le> smart_quota s"
proof -
  have q: "smart_quota u = f_div (f_of_nat (min (unwrap_or 5000 (sig_quota_remaining_rank u)) 10000)) 10000" for u
    using f_half_exact by (simp add: smart_quota_def split: option.splits)
  show "unwrap_or 5000 (sig_quota_remaining_rank t) \<le> unwrap_or 5000 (sig_quota_remaining_rank s)
   \<Longrightarrow> smart_quota t \<le> smart_quota s"
    unfolding q by (intro f_div_mono f_of_nat_mono) simp_all
qed

lemma smart_failure_mono:
  "unwrap_or 0 (sig_failure_rate_basis_points s) \<le> unwrap_or 0 (sig_failure_rate_basis_points t)
   \<Longrightarrow> smart_failure t \<le> smart_failure s"
  unfolding smart_failure_def by (intro f_sub_mono f_div_mono f_of_nat_mono) simp_all

lemma f_add_10000: "10000 \<le> f_add 10000 x" if "0 \<le> x"
proof -
  have e: "exponent_of 10000 = 13"
    by (simp add: exponent_of_def quotient_of_number bitlen.simps pow2_def)
  have "fl 10000 = 10000" by (simp add: fl_def e pow2_def round_half_even_def Let_def)
  then show ?thesis using fl_mono [of 10000 "10000 + x"] that by (simp add: f_add_def)
qed

lemma smart_latency_le_1: "smart_latency s \<le> 1"
proof (cases "opt_filter (\<lambda>latency. 0 < latency) (sig_first_output_latency_ms s)")
  case None
  then show ?thesis by (simp add: smart_latency_def)
next
  case (Some l)
  have "10000 \<le> f_add 10000 (f_of_nat l)" by (rule f_add_10000) simp
  then have "f_div 10000 (f_add 10000 (f_of_nat l)) \<le> fl 1"
    unfolding f_div_def by (intro fl_mono) (simp add: divide_le_eq_1)
  with Some show ?thesis by (simp add: smart_latency_def)
qed

lemma smart_latency_mono:
  assumes "unwrap_or 0 (sig_first_output_latency_ms s) \<le> unwrap_or 0 (sig_first_output_latency_ms t)"
  shows "smart_latency t \<le> smart_latency s"
proof (cases "opt_filter (\<lambda>latency. 0 < latency) (sig_first_output_latency_ms s)")
  case None
  then show ?thesis using smart_latency_le_1 by (simp add: smart_latency_def [of s])
next
  case (Some k)
  then obtain l where t: "sig_first_output_latency_ms t = Some l" and "0 < l" "k \<le> l"
    using assms by (cases "sig_first_output_latency_ms t") auto
  have "10000 \<le> f_add 10000 (f_of_nat k)" by (rule f_add_10000) simp
  then have "f_div 10000 (f_add 10000 (f_of_nat l)) \<le> f_div 10000 (f_add 10000 (f_of_nat k))"
    using \<open>k \<le> l\<close> by (intro f_div_mono f_add_mono f_of_nat_mono) simp_all
  then show ?thesis using Some t \<open>0 < l\<close> by (simp add: smart_latency_def)
qed

lemma smart_load_nonneg: "0 \<le> smart_load a n" "0 \<le> smart_quota s" "0 \<le> smart_failure s" "0 \<le> smart_latency s"
  by (simp_all add: smart_load_def smart_quota_def smart_failure_def smart_latency_def split: option.splits)

text \<open>
  The smart score respects every signal, through all of its floating-point roundings: a candidate
  that is no worse in load, remaining quota, failure rate and latency never scores less.
\<close>

theorem smart_score_monotone:
  assumes "no_worse n a b"
  shows "smart_score b n \<le> smart_score a n"
proof -
  from assms have "smart_load b n \<le> smart_load a n" "smart_quota (cand_signals b) \<le> smart_quota (cand_signals a)"
    "smart_failure (cand_signals b) \<le> smart_failure (cand_signals a)"
    "smart_latency (cand_signals b) \<le> smart_latency (cand_signals a)"
    by (auto simp: no_worse_def Let_def intro: smart_load_mono utilization_mono smart_quota_mono
        smart_failure_mono smart_latency_mono)
  then show ?thesis
    unfolding smart_score_def
    by (intro f_add_mono f_mul_mono) (simp_all add: smart_load_nonneg)
qed

theorem smart_score_monotone_witness:
  "smart_score (sample_candidate ''acct_a'' 1 3) 4 \<le> smart_score (sample_candidate ''acct_b'' 1 1) 4"
  by (rule smart_score_monotone)
     (simp add: no_worse_def sample_candidate_def sample_account_def with_scheduling_def
      with_account_facts_def provider_account_new_def effective_concurrency_def)

lemma f_sub_le_mono: "x \<le> y \<Longrightarrow> f_sub y z \<le> t \<Longrightarrow> f_sub x z \<le> t"
  using f_sub_mono [of x y z z] by simp

text \<open>
  C32. The account \<open>smart\<close> selects without a preferred account is near the best: no unblocked account
  of the highest weight beats its score by more than the tolerance.
\<close>

theorem smart_selection_near_best:
  assumes "asp_strategy (sc_policy ctx) = Smart" and "sc_preferred_account ctx = None"
    and "select_account cs ctx = Some s"
    and "d \<in> set cs" and "scheduling_blocker d ctx = None"
    and "cand_weight d = highest_weight (eligible_candidates cs ctx)"
  shows "f_sub (smart_score d (asp_max_concurrent_per_account (sc_policy ctx)))
               (smart_score (sel_candidate s) (asp_max_concurrent_per_account (sc_policy ctx)))
           \<le> smart_score_tolerance"
proof -
  let ?n = "asp_max_concurrent_per_account (sc_policy ctx)"
  have d: "d \<in> set (top_candidates cs ctx)"
    using assms(4-6) by (simp add: top_candidates_def eligible_candidates_def)
  have "eligible_candidates cs ctx \<noteq> []" using assms(3) select_account_None [of cs ctx] by auto
  then have "select_smart_candidate (top_candidates cs ctx) ?n (sc_round_robin_cursor ctx)
      = Some (sel_candidate s)"
    using assms(1-3)
    by (auto simp: select_account_def preferred_decision_def rotate_candidates_def top_candidates_def Let_def)
  from select_smart_Some [OF this] best_score_ge [OF d, of ?n] show ?thesis
    using f_sub_le_mono by blast
qed

theorem smart_selection_near_best_witness:
  "\<exists>s. select_account [sample_candidate ''acct_a'' 1 0] (sample_context Smart) = Some s
     \<and> f_sub (smart_score (sample_candidate ''acct_a'' 1 0) 4) (smart_score (sel_candidate s) 4)
         \<le> smart_score_tolerance"
proof -
  let ?cs = "[sample_candidate ''acct_a'' 1 0]"
  have e: "eligible_candidates ?cs (sample_context Smart) = ?cs" by (simp add: eligible_candidates_def)
  then obtain s where s: "select_account ?cs (sample_context Smart) = Some s"
    using select_account_None [of ?cs "sample_context Smart"] by auto
  from smart_selection_near_best [OF _ _ this, of "sample_candidate ''acct_a'' 1 0"] e s show ?thesis
    by (simp add: highest_weight_def)
qed

lemma hd_sort_key_least:
  assumes "x \<in> set xs" and "\<And>y. y \<in> set xs \<Longrightarrow> g y \<noteq> g x \<Longrightarrow> f x < f y"
  shows "g (hd (sort_key f xs)) = g x"
proof (rule ccontr)
  assume neq: "g (hd (sort_key f xs)) \<noteq> g x"
  obtain y ys where s: "sort_key f xs = y # ys" using assms(1) by (cases "sort_key f xs") (auto dest: arg_cong [of _ _ set])
  then have "y \<in> set xs" by (metis list.set_intros(1) set_sort)
  with neq s assms(2) have "f x < f y" by simp
  moreover have "x \<in> set (y # ys)" using assms(1) s by (metis set_sort)
  moreover have "sorted (map f (y # ys))" using sorted_sort_key [of f xs] s by simp
  ultimately show False by auto
qed

text \<open>
  Waiting matches selecting: the accounts waited for are those that are free or blocked only by
  local concurrency or the request interval, so every account that could be selected is among them;
  a preferred account that may be waited for comes first.
\<close>

theorem wait_candidates_cover:
  "set (wait_candidates cs ctx) = cand_id ` {c \<in> set cs. may_wait ctx c}
   \<and> cand_id ` set (eligible_candidates cs ctx) \<subseteq> set (wait_candidates cs ctx)
   \<and> (case sc_preferred_account ctx of
        None \<Rightarrow> True
      | Some p \<Rightarrow> if p \<in> set (wait_candidates cs ctx) then hd (wait_candidates cs ctx) = p else True)"
proof -
  have set: "set (wait_candidates cs ctx) = cand_id ` {c \<in> set cs. may_wait ctx c}"
    by (auto simp: wait_candidates_def)
  moreover have "cand_id ` set (eligible_candidates cs ctx) \<subseteq> set (wait_candidates cs ctx)"
    unfolding set by (auto simp: eligible_candidates_def may_wait_def)
  moreover have "hd (wait_candidates cs ctx) = p"
    if p: "sc_preferred_account ctx = Some p" and "p \<in> set (wait_candidates cs ctx)" for p
  proof -
    from that(2) obtain c where c: "c \<in> set (filter (may_wait ctx) cs)" and "cand_id c = p"
      unfolding set by auto
    then have "cand_id (hd (sort_key (wait_key ctx) (filter (may_wait ctx) cs))) = cand_id c"
      by (intro hd_sort_key_least) (auto simp: wait_key_def p less_prod_def)
    moreover have "sort_key (wait_key ctx) (filter (may_wait ctx) cs) \<noteq> []"
      using c by (metis empty_iff list.set(1) set_sort)
    ultimately show ?thesis using \<open>cand_id c = p\<close> by (simp add: wait_candidates_def hd_map)
  qed
  ultimately show ?thesis by (auto split: option.splits)
qed

end
