(* ===== verification/Routing.thy ===== *)
theory Routing
  imports Selection Operation Metering
begin

text \<open>
  \<open>routing/mod.rs\<close> and \<open>routing/catalog.rs\<close>: the capabilities a provider catalog reports for a
  model, how the requirements of an operation are matched against them, the presentation facts of
  public models, and the routing plan frozen for a request.
\<close>

section \<open>Model capabilities\<close>

definition max_request_attempts :: nat where
  "max_request_attempts = 32"

datatype support_level = Native | Emulated | Unsupported | SupportUnknown

record model_capabilities =
  mc_operations :: "operation_kind list"
  mc_features :: "(feature, support_level) btree"
  mc_max_output_tokens :: "nat option"
  mc_upstream_validates_features :: bool

definition model_capabilities_new :: "operation_kind list \<Rightarrow> nat option \<Rightarrow> model_capabilities" where
  "model_capabilities_new ops max_tokens =
     \<lparr>mc_operations = ops, mc_features = [], mc_max_output_tokens = max_tokens,
      mc_upstream_validates_features = False\<rparr>"

definition with_feature :: "model_capabilities \<Rightarrow> feature \<Rightarrow> support_level \<Rightarrow> model_capabilities" where
  "with_feature c f s = c\<lparr>mc_features := bt_insert f s (mc_features c)\<rparr>"

definition with_upstream_feature_validation :: "model_capabilities \<Rightarrow> model_capabilities" where
  "with_upstream_feature_validation c = c\<lparr>mc_upstream_validates_features := True\<rparr>"

definition feature_support :: "model_capabilities \<Rightarrow> feature \<Rightarrow> support_level" where
  "feature_support c f = unwrap_or SupportUnknown (map_of (mc_features c) f)"

fun match_features :: "model_capabilities \<Rightarrow> feature list \<Rightarrow> feature list \<Rightarrow> feature list option" where
  "match_features c [] emulated = Some emulated"
| "match_features c (f # fs) emulated =
     (case feature_support c f of
        Native \<Rightarrow> match_features c fs emulated
      | Emulated \<Rightarrow> match_features c fs (bs_insert f emulated)
      | Unsupported \<Rightarrow> None
      | SupportUnknown \<Rightarrow> None)"

definition match_requirements :: "model_capabilities \<Rightarrow> capability_requirements \<Rightarrow> feature list option" where
  "match_requirements c r =
     (if req_operation r \<notin> set (mc_operations c)
         \<or> opt_any (\<lambda>requested. opt_any (\<lambda>maximum. maximum < requested) (mc_max_output_tokens c))
             (req_requested_output_tokens r)
      then None
      else if mc_upstream_validates_features c then Some []
      else match_features c (req_features r) [])"

lemma match_features_Some:
  "match_features c fs em = Some out \<longleftrightarrow>
     (\<forall>f \<in> set fs. feature_support c f \<in> {Native, Emulated})
     \<and> out = fold bs_insert (filter (\<lambda>f. feature_support c f = Emulated) fs) em"
proof (induction fs arbitrary: em)
  case Nil
  then show ?case by auto
next
  case (Cons f fs)
  show ?case by (cases "feature_support c f") (auto simp: Cons.IH)
qed

text \<open>A model serves an operation when it lists it, its output bound allows the requested tokens
  and every required feature is native or emulated, unless the upstream validates features.\<close>

definition serves :: "model_capabilities \<Rightarrow> capability_requirements \<Rightarrow> bool" where
  "serves c r =
     (req_operation r \<in> set (mc_operations c)
      \<and> (case (req_requested_output_tokens r, mc_max_output_tokens c) of
           (Some requested, Some maximum) \<Rightarrow> requested \<le> maximum | _ \<Rightarrow> True)
      \<and> (mc_upstream_validates_features c
         \<or> list_all (\<lambda>f. feature_support c f \<in> {Native, Emulated}) (req_features r)))"

definition emulated_of :: "model_capabilities \<Rightarrow> capability_requirements \<Rightarrow> feature list" where
  "emulated_of c r =
     (if mc_upstream_validates_features c then []
      else filter (\<lambda>f. feature_support c f = Emulated) (req_features r))"

lemma fold_bs_insert_sorted:
  assumes "bs_ok xs" shows "fold bs_insert xs [] = xs"
  using assms bs_ok_unique [of "bs_of_list xs" xs] by (simp add: bs_of_list_def [symmetric])

text \<open>
  Matching the requirements of an operation against the capabilities of a model succeeds
  exactly when the model serves the operation, and then reports exactly the required features
  the model only emulates, in order.
\<close>

theorem match_requirements_exact:
  assumes "bs_ok (req_features r)"
  shows "match_requirements c r = (if serves c r then Some (emulated_of c r) else None)"
proof (cases "match_features c (req_features r) []")
  case None
  then have "\<not> list_all (\<lambda>f. feature_support c f \<in> {Native, Emulated}) (req_features r)"
    using match_features_Some [of c "req_features r" "[]"] by (auto simp: list_all_iff)
  then show ?thesis
    using None
    by (auto simp: match_requirements_def serves_def emulated_of_def not_less split: option.splits)
next
  case (Some out)
  have "bs_ok (filter (\<lambda>f. feature_support c f = Emulated) (req_features r))"
    using assms by (rule bs_ok_filter)
  with Some have "list_all (\<lambda>f. feature_support c f \<in> {Native, Emulated}) (req_features r)"
    "out = filter (\<lambda>f. feature_support c f = Emulated) (req_features r)"
    by (simp_all add: match_features_Some fold_bs_insert_sorted list_all_iff)
  then show ?thesis
    using Some
    by (auto simp: match_requirements_def serves_def emulated_of_def not_less split: option.splits)
qed

definition sample_capabilities :: model_capabilities where
  "sample_capabilities =
     with_feature (with_feature (model_capabilities_new [Generate] (Some 4096)) Tools Emulated)
       Vision Native"

definition sample_requirements :: capability_requirements where
  "sample_requirements =
     with_requested_output_tokens (Some 1000) (require_feature Vision (require_feature Tools (requirements_new Generate)))"

lemmas sample_match_defs =
  sample_requirements_def sample_capabilities_def with_requested_output_tokens_def require_feature_def
  requirements_new_def with_feature_def model_capabilities_new_def less_feature_def

theorem match_requirements_exact_witness:
  "match_requirements sample_capabilities sample_requirements = Some [Tools]"
  by (subst match_requirements_exact)
     (simp_all add: sample_match_defs serves_def emulated_of_def bs_ok_def feature_support_def)

section \<open>Presentation facts\<close>

record model_service_tier =
  st_id :: string
  st_name :: string
  st_description :: string
  st_speed_tier :: "string option"

definition model_service_tier_new :: "string \<Rightarrow> string \<Rightarrow> string \<Rightarrow> model_service_tier" where
  "model_service_tier_new i n d = \<lparr>st_id = i, st_name = n, st_description = d, st_speed_tier = None\<rparr>"

definition with_speed_tier :: "model_service_tier \<Rightarrow> string \<Rightarrow> model_service_tier" where
  "with_speed_tier t s = t\<lparr>st_speed_tier := Some s\<rparr>"

record model_presentation =
  mp_display_name :: "string option"
  mp_description :: "string option"
  mp_default_reasoning_effort :: "string option"
  mp_supported_reasoning_efforts :: "string list"
  mp_context_window_tokens :: "nat option"
  mp_max_context_window_tokens :: "nat option"
  mp_image_input :: bool
  mp_agent_tools :: bool
  mp_parallel_tool_calls :: bool
  mp_search_tool :: bool
  mp_image_detail_original :: bool
  mp_verbosity :: bool
  mp_service_tiers :: "model_service_tier list"
  mp_hidden :: bool

definition model_presentation_new :: "string option \<Rightarrow> string option \<Rightarrow> model_presentation" where
  "model_presentation_new name description =
     \<lparr>mp_display_name = name, mp_description = description, mp_default_reasoning_effort = None,
      mp_supported_reasoning_efforts = [], mp_context_window_tokens = None,
      mp_max_context_window_tokens = None, mp_image_input = False, mp_agent_tools = False,
      mp_parallel_tool_calls = False, mp_search_tool = False, mp_image_detail_original = False,
      mp_verbosity = False, mp_service_tiers = [], mp_hidden = False\<rparr>"

definition with_reasoning :: "model_presentation \<Rightarrow> string option \<Rightarrow> string list \<Rightarrow> model_presentation" where
  "with_reasoning p default_effort efforts =
     p\<lparr>mp_default_reasoning_effort := default_effort, mp_supported_reasoning_efforts := efforts\<rparr>"

definition with_context_window_tokens :: "model_presentation \<Rightarrow> nat option \<Rightarrow> model_presentation" where
  "with_context_window_tokens p n = p\<lparr>mp_context_window_tokens := n\<rparr>"

definition with_max_context_window_tokens :: "model_presentation \<Rightarrow> nat option \<Rightarrow> model_presentation" where
  "with_max_context_window_tokens p n = p\<lparr>mp_max_context_window_tokens := n\<rparr>"

definition with_image_input :: "model_presentation \<Rightarrow> bool \<Rightarrow> model_presentation" where
  "with_image_input p b = p\<lparr>mp_image_input := b\<rparr>"

definition with_agent_tools :: "model_presentation \<Rightarrow> bool \<Rightarrow> bool \<Rightarrow> model_presentation" where
  "with_agent_tools p agent parallel = p\<lparr>mp_agent_tools := agent, mp_parallel_tool_calls := parallel\<rparr>"

definition with_search_tool :: "model_presentation \<Rightarrow> bool \<Rightarrow> model_presentation" where
  "with_search_tool p b = p\<lparr>mp_search_tool := b\<rparr>"

definition with_image_detail_original :: "model_presentation \<Rightarrow> bool \<Rightarrow> model_presentation" where
  "with_image_detail_original p b = p\<lparr>mp_image_detail_original := b\<rparr>"

definition with_verbosity :: "model_presentation \<Rightarrow> bool \<Rightarrow> model_presentation" where
  "with_verbosity p b = p\<lparr>mp_verbosity := b\<rparr>"

definition with_service_tiers :: "model_presentation \<Rightarrow> model_service_tier list \<Rightarrow> model_presentation" where
  "with_service_tiers p ts = p\<lparr>mp_service_tiers := ts\<rparr>"

definition with_hidden :: "model_presentation \<Rightarrow> bool \<Rightarrow> model_presentation" where
  "with_hidden p b = p\<lparr>mp_hidden := b\<rparr>"

record public_model_profile =
  pmp_model :: public_model_id
  pmp_presentation :: model_presentation

section \<open>Catalog entries\<close>

datatype provider_model_content = ContentNative raw_json_payload | ContentAdapted model_presentation

record provider_model_descriptor =
  pmd_model :: upstream_model_id
  pmd_content :: provider_model_content

datatype public_model_descriptor =
    PublicNative public_model_id raw_json_payload
  | PublicAdapted public_model_profile

fun for_public_model :: "provider_model_content \<Rightarrow> public_model_id \<Rightarrow> public_model_descriptor" where
  "for_public_model (ContentNative payload) model = PublicNative model payload"
| "for_public_model (ContentAdapted presentation) model =
     PublicAdapted \<lparr>pmp_model = model, pmp_presentation = presentation\<rparr>"

record provider_model_capabilities =
  pmc_upstream_model :: upstream_model_id
  pmc_capabilities :: model_capabilities
  pmc_presentation :: "model_presentation option"

definition provider_model_capabilities_new ::
  "upstream_model_id \<Rightarrow> model_capabilities \<Rightarrow> provider_model_capabilities" where
  "provider_model_capabilities_new m c =
     \<lparr>pmc_upstream_model = m, pmc_capabilities = c, pmc_presentation = None\<rparr>"

definition pmc_with_presentation ::
  "provider_model_capabilities \<Rightarrow> model_presentation \<Rightarrow> provider_model_capabilities" where
  "pmc_with_presentation c p = c\<lparr>pmc_presentation := Some p\<rparr>"

datatype provider_catalog_generation = ProviderCatalogGeneration (generation_get: nat)

record provider_model =
  pm_provider :: provider_kind
  pm_upstream_model :: upstream_model_id
  pm_capabilities :: model_capabilities
  pm_presentation :: "model_presentation option"

definition provider_model_new ::
  "provider_kind \<Rightarrow> upstream_model_id \<Rightarrow> model_capabilities \<Rightarrow> provider_model" where
  "provider_model_new p m c =
     \<lparr>pm_provider = p, pm_upstream_model = m, pm_capabilities = c, pm_presentation = None\<rparr>"

definition pm_with_presentation :: "provider_model \<Rightarrow> model_presentation \<Rightarrow> provider_model" where
  "pm_with_presentation m p = m\<lparr>pm_presentation := Some p\<rparr>"

section \<open>Plans\<close>

record routing_context =
  rc_required_provider :: "provider_kind option"
  rc_blocked_providers :: "provider_kind list"

record provider_candidate =
  pc_provider :: provider_kind
  pc_upstream_model :: "upstream_model_id option"
  pc_emulated_features :: "feature list"
  pc_account_scope :: frozen_account_scope

record routing_plan =
  rp_pricing :: pricing_overrides
  rp_request_location :: "request_location option"
  rp_config_revision :: config_revision
  rp_account_selection_policy :: account_selection_policy
  rp_operation :: operation_kind
  rp_max_attempts :: nat
  rp_account_scope :: frozen_account_scope
  rp_candidates :: "provider_candidate list"

definition rp_disable_fast :: "routing_plan \<Rightarrow> bool" where
  "rp_disable_fast p = fs_disable_fast (rp_account_scope p)"

end
