(* ===== verification/EngineModel.thy ===== *)
theory EngineModel
  imports ErrorModel Routing
begin

text \<open>
  The request-local facts of the engine: \<open>engine/mod.rs\<close> (outcomes, attempt contexts, the records
  written to the execution store, coordinated events and engine errors), \<open>engine/continuation.rs\<close>
  (response pins), \<open>engine/budget.rs\<close> and \<open>engine/observation.rs\<close>. Monotonic clock readings are
  arguments; the diagnostic trace is left out.
\<close>

section \<open>Continuation pins\<close>

datatype previous_response_id = PreviousResponseId (response_id_str: string)

datatype native_continuation_scope = Persisted | ConnectionLocal

record native_continuation_pin =
  ncp_previous_response_id :: previous_response_id
  ncp_upstream_response_id :: previous_response_id
  ncp_client_api_key_id :: client_api_key_id
  ncp_provider :: provider_kind
  ncp_account :: provider_account_id
  ncp_scope :: native_continuation_scope
  ncp_session_state :: "provider_session_state option"

definition native_pin_new ::
  "previous_response_id \<Rightarrow> previous_response_id \<Rightarrow> client_api_key_id \<Rightarrow> provider_kind
   \<Rightarrow> provider_account_id \<Rightarrow> native_continuation_pin" where
  "native_pin_new previous upstream key provider account =
     \<lparr>ncp_previous_response_id = previous, ncp_upstream_response_id = upstream,
      ncp_client_api_key_id = key, ncp_provider = provider, ncp_account = account,
      ncp_scope = ConnectionLocal, ncp_session_state = None\<rparr>"

definition pin_with_scope :: "native_continuation_pin \<Rightarrow> native_continuation_scope \<Rightarrow> native_continuation_pin" where
  "pin_with_scope p scope = p\<lparr>ncp_scope := scope\<rparr>"

definition pin_with_session_state :: "native_continuation_pin \<Rightarrow> provider_session_state \<Rightarrow> native_continuation_pin" where
  "pin_with_session_state p st = p\<lparr>ncp_session_state := Some st\<rparr>"

definition pin_matches_client :: "native_continuation_pin \<Rightarrow> client_api_key_id \<Rightarrow> bool" where
  "pin_matches_client p key = (ncp_client_api_key_id p = key)"

definition pin_matches :: "native_continuation_pin \<Rightarrow> provider_kind \<Rightarrow> provider_account_id \<Rightarrow> bool" where
  "pin_matches p provider account = (ncp_provider p = provider \<and> ncp_account p = account)"

datatype continuation_binding = Pinned native_continuation_pin | External previous_response_id

fun binding_previous_response_id :: "continuation_binding \<Rightarrow> previous_response_id" where
  "binding_previous_response_id (Pinned pin) = ncp_previous_response_id pin"
| "binding_previous_response_id (External previous) = previous"

fun pinned :: "continuation_binding \<Rightarrow> native_continuation_pin option" where
  "pinned (Pinned pin) = Some pin"
| "pinned (External _) = None"

datatype native_continuation_store_error_kind = NcUnavailable | NcInvalidData | NcOwnershipMismatch

section \<open>Outcomes and attempts\<close>

datatype execution_outcome = Running | Succeeded | Failed | Cancelled | Incomplete

fun execution_outcome_as_str :: "execution_outcome \<Rightarrow> string" where
  "execution_outcome_as_str Running = ''running''"
| "execution_outcome_as_str Succeeded = ''succeeded''"
| "execution_outcome_as_str Failed = ''failed''"
| "execution_outcome_as_str Cancelled = ''cancelled''"
| "execution_outcome_as_str Incomplete = ''incomplete''"

datatype attempt_trigger = InitialAttempt | AccountRetry

fun attempt_trigger_as_str :: "attempt_trigger \<Rightarrow> string" where
  "attempt_trigger_as_str InitialAttempt = ''initial''"
| "attempt_trigger_as_str AccountRetry = ''account_retry''"

datatype attempt_transport = TransportDefault | TransportRetry nat | TransportFallback

datatype provider_attempt_outcome =
    AttemptSucceeded (pao_provider_kind: provider_kind)
  | AttemptFailed (pao_provider_kind: provider_kind) provider_error_kind

fun pao_error_kind :: "provider_attempt_outcome \<Rightarrow> provider_error_kind option" where
  "pao_error_kind (AttemptSucceeded _) = None"
| "pao_error_kind (AttemptFailed _ k) = Some k"

record provider_account_state_owner =
  so_provider :: provider_kind
  so_account :: provider_account_id

definition state_owner_from_continuation :: "native_continuation_pin \<Rightarrow> provider_account_state_owner" where
  "state_owner_from_continuation pin = \<lparr>so_provider = ncp_provider pin, so_account = ncp_account pin\<rparr>"

definition state_owner_matches :: "provider_account_state_owner \<Rightarrow> provider_kind \<Rightarrow> provider_account_id \<Rightarrow> bool" where
  "state_owner_matches o' provider account = (so_provider o' = provider \<and> so_account o' = account)"

record account_attempt_context =
  aac_excluded_accounts :: "provider_account_id list"
  aac_required_account :: "provider_account_id option"
  aac_state_owner :: "provider_account_state_owner option"
  aac_credential_recovery_attempted :: bool
  aac_diagnostic_required_account :: bool
  aac_account_scope :: "frozen_account_scope option"

definition account_context_new ::
  "provider_account_id list \<Rightarrow> provider_account_id option \<Rightarrow> provider_account_state_owner option
   \<Rightarrow> account_attempt_context" where
  "account_context_new excluded required owner =
     \<lparr>aac_excluded_accounts = excluded, aac_required_account = required, aac_state_owner = owner,
      aac_credential_recovery_attempted = False, aac_diagnostic_required_account = False,
      aac_account_scope = None\<rparr>"

definition account_context_diagnostic ::
  "provider_account_id list \<Rightarrow> provider_account_id \<Rightarrow> provider_account_state_owner option
   \<Rightarrow> account_attempt_context" where
  "account_context_diagnostic excluded required owner =
     \<lparr>aac_excluded_accounts = excluded, aac_required_account = Some required, aac_state_owner = owner,
      aac_credential_recovery_attempted = False, aac_diagnostic_required_account = True,
      aac_account_scope = None\<rparr>"

definition context_with_account_scope ::
  "account_attempt_context \<Rightarrow> frozen_account_scope \<Rightarrow> account_attempt_context" where
  "context_with_account_scope c scope = c\<lparr>aac_account_scope := Some scope\<rparr>"

definition with_credential_recovery_attempted :: "account_attempt_context \<Rightarrow> bool \<Rightarrow> account_attempt_context" where
  "with_credential_recovery_attempted c b = c\<lparr>aac_credential_recovery_attempted := b\<rparr>"

datatype continuation_attempt = CaNone | CaNative | CaReplayOwner | CaReplayAny

fun continuation_attempt_as_str :: "continuation_attempt \<Rightarrow> string" where
  "continuation_attempt_as_str CaNone = ''none''"
| "continuation_attempt_as_str CaNative = ''native''"
| "continuation_attempt_as_str CaReplayOwner = ''replay_owner''"
| "continuation_attempt_as_str CaReplayAny = ''replay_any''"

record request_attempt_context =
  rac_pricing :: pricing_overrides
  rac_request_profile :: "opaque_provider_data option"
  rac_disable_fast :: bool
  rac_request_location :: "request_location option"
  rac_request_id :: model_request_id
  rac_client_api_key_ref :: client_api_key_id
  rac_timing_started_at :: instant
  rac_concurrency_wait_budget :: wait_budget

record attempt_context =
  ac_request :: request_attempt_context
  ac_attempt_index :: nat
  ac_deadline :: systime
  ac_account_selection_policy :: account_selection_policy
  ac_account :: account_attempt_context
  ac_continuation :: "continuation_binding option"
  ac_continuation_attempt :: continuation_attempt
  ac_transport :: attempt_transport

definition attempt_context_new ::
  "request_attempt_context \<Rightarrow> nat \<Rightarrow> systime \<Rightarrow> account_selection_policy \<Rightarrow> account_attempt_context
   \<Rightarrow> continuation_binding option \<Rightarrow> attempt_context" where
  "attempt_context_new request index deadline policy account continuation =
     \<lparr>ac_request = request, ac_attempt_index = index, ac_deadline = deadline,
      ac_account_selection_policy = policy, ac_account = account, ac_continuation = continuation,
      ac_continuation_attempt = (if continuation \<noteq> None then CaNative else CaNone),
      ac_transport = TransportDefault\<rparr>"

section \<open>Store records\<close>

record continuation_request_observation =
  cro_affinity_hash :: "string option"
  cro_previous_response_id_hash :: "string option"
  cro_requested :: bool

record new_model_request =
  nmr_id :: model_request_id
  nmr_client_api_key_id :: "client_api_key_id option"
  nmr_client_api_key_ref :: client_api_key_id
  nmr_config_revision :: config_revision
  nmr_routing :: account_routing_snapshot
  nmr_protocol :: string
  nmr_operation :: operation_kind
  nmr_endpoint :: string
  nmr_client_transport :: string
  nmr_requested_model :: "public_model_id option"
  nmr_client_ip :: "string option"
  nmr_user_agent :: "string option"
  nmr_reasoning_effort :: "string option"
  nmr_reasoning_preset :: "string option"
  nmr_request_kind :: "string option"
  nmr_subagent_kind :: "string option"
  nmr_compact :: bool
  nmr_continuation :: continuation_request_observation
  nmr_image_generation_requested :: bool
  nmr_admission_decision_ms :: "nat option"
  nmr_started_at :: systime
  nmr_deadline_at :: systime

record attempt_record =
  ar_request_id :: model_request_id
  ar_attempt_count :: nat
  ar_trigger :: attempt_trigger
  ar_provider_kind :: provider_kind
  ar_provider_account_id :: "provider_account_id option"
  ar_provider_account_ref :: "provider_account_id option"
  ar_upstream_model_id :: "upstream_model_id option"
  ar_upstream_transport :: string
  ar_http_version :: "string option"
  ar_account_selection_wait_ms :: "nat option"
  ar_capacity_used_slots :: "nat option"
  ar_capacity_total_slots :: "nat option"

record intermediate_failure =
  if_request_id :: model_request_id
  if_attempt_index :: nat
  if_trigger :: attempt_trigger
  if_provider_kind :: provider_kind
  if_account_id :: "provider_account_id option"
  if_upstream_model_id :: "upstream_model_id option"
  if_upstream_status_code :: "nat option"
  if_upstream_request_id :: "string option"
  if_error :: provider_error
  if_latency :: duration

record model_request_timings =
  mt_transport_decision_wait_ms :: "nat option"
  mt_connect_ms :: "nat option"
  mt_headers_ms :: "nat option"
  mt_first_event_ms :: "nat option"
  mt_first_reasoning_ms :: "nat option"
  mt_first_text_ms :: "nat option"
  mt_first_token_ms :: "nat option"
  mt_provider_processing_ms :: "nat option"
  mt_latency_ms :: "nat option"

definition timings_default :: model_request_timings where
  "timings_default =
     \<lparr>mt_transport_decision_wait_ms = None, mt_connect_ms = None, mt_headers_ms = None,
      mt_first_event_ms = None, mt_first_reasoning_ms = None, mt_first_text_ms = None,
      mt_first_token_ms = None, mt_provider_processing_ms = None, mt_latency_ms = None\<rparr>"

record model_request_failure_observation =
  mfo_continuation_unavailable_reason :: "string option"
  mfo_upstream_connection :: "provider_connection_observation option"

definition model_failure_observation_default :: model_request_failure_observation where
  "model_failure_observation_default =
     \<lparr>mfo_continuation_unavailable_reason = None, mfo_upstream_connection = None\<rparr>"

text \<open>The final write of a request, without its diagnostic trace.\<close>

record model_request_finalization =
  fin_request_id :: model_request_id
  fin_outcome :: execution_outcome
  fin_send_state :: upstream_send_state
  fin_attempt_count :: nat
  fin_downstream_committed_at :: "systime option"
  fin_client_status_code :: "nat option"
  fin_client_response_id :: "string option"
  fin_upstream_status_code :: "nat option"
  fin_upstream_request_id :: "string option"
  fin_upstream_response_id :: "string option"
  fin_upstream_transport :: "string option"
  fin_http_version :: "string option"
  fin_websocket_pool :: "string option"
  fin_service_tier :: "string option"
  fin_upstream_response_model :: "string option"
  fin_provider_metadata_json :: "string option"
  fin_error :: "gateway_error option"
  fin_provider_error_code :: "string option"
  fin_raw_upstream_error :: "string option"
  fin_failure_observation :: model_request_failure_observation
  fin_retry_after_ms :: "nat option"
  fin_usage :: usage
  fin_image_generation_succeeded :: "bool option"
  fin_cost :: cost_estimate
  fin_timings :: model_request_timings
  fin_completed_at :: systime

section \<open>Coordinated events and engine errors\<close>

datatype commit_requirement = CommitBeforeDelivery | AlreadyCommitted

datatype engine_error =
    EngStore store_error
  | EngProviderNotRegistered string
  | EngProviderMetadataMismatch
  | EngContinuationPinMismatch
  | EngRequiredAccountMismatch
  | EngAccountOutsideClientScope
  | EngProvider provider_error
  | EngCancelled
  | EngDeadline
  | EngEmptyRoutingPlan
  | EngNoActiveAttempt
  | EngDownstreamCommitRequired
  | EngInvalidDeliveryState

record coordinated_event =
  coe_events :: "provider_event list"
  coe_commit_requirement :: commit_requirement

definition coordinated_single :: "provider_event \<Rightarrow> commit_requirement \<Rightarrow> coordinated_event" where
  "coordinated_single e r = \<lparr>coe_events = [e], coe_commit_requirement = r\<rparr>"

definition coordinated_try_batch ::
  "provider_event list \<Rightarrow> commit_requirement \<Rightarrow> engine_error + coordinated_event" where
  "coordinated_try_batch es r =
     (if es = [] then Inl EngInvalidDeliveryState
      else Inr \<lparr>coe_events = es, coe_commit_requirement = r\<rparr>)"

definition coordinated_session_update :: "coordinated_event \<Rightarrow> provider_session_state option" where
  "coordinated_session_update c =
     (case List.find (\<lambda>e. pe_session_update e \<noteq> None) (coe_events c) of
        None \<Rightarrow> None | Some e \<Rightarrow> pe_session_update e)"

section \<open>Budget\<close>

record client_budget_limits =
  bl_daily_usd :: decimal
  bl_weekly_usd :: decimal

definition budget_is_limited :: "client_budget_limits \<Rightarrow> bool" where
  "budget_is_limited l = (bl_daily_usd l \<noteq> decimal_zero \<or> bl_weekly_usd l \<noteq> decimal_zero)"

record client_budget_charge =
  bc_key_id :: client_api_key_id
  bc_request_id :: model_request_id
  bc_amount_usd :: decimal
  bc_completed_at :: systime

section \<open>Observation of a response\<close>

record response_observation =
  ro_timing_started_at :: instant
  ro_usage :: usage
  ro_cost :: cost_estimate
  ro_timings :: model_request_timings
  ro_client_response_id :: "string option"
  ro_upstream_response_id :: "string option"

definition observation_new :: "instant \<Rightarrow> response_observation" where
  "observation_new started_at =
     \<lparr>ro_timing_started_at = started_at, ro_usage = usage_new, ro_cost = cost_estimate_unavailable,
      ro_timings = timings_default, ro_client_response_id = None, ro_upstream_response_id = None\<rparr>"

definition observation_elapsed_ms :: "response_observation \<Rightarrow> instant \<Rightarrow> nat" where
  "observation_elapsed_ms ob now = min u64_max (as_millis (now - ro_timing_started_at ob))"

definition observation_finish :: "instant \<Rightarrow> response_observation \<Rightarrow> response_observation" where
  "observation_finish now ob =
     ob\<lparr>ro_timings := (ro_timings ob)\<lparr>mt_latency_ms := Some (observation_elapsed_ms ob now)\<rparr>\<rparr>"

text \<open>\<open>Option::get_or_insert\<close>.\<close>

definition get_or_insert :: "'a \<Rightarrow> 'a option \<Rightarrow> 'a option" where
  "get_or_insert x cur = (case cur of None \<Rightarrow> Some x | Some y \<Rightarrow> Some y)"

definition observe_event_timing :: "model_request_timings \<Rightarrow> gateway_event \<Rightarrow> nat \<Rightarrow> model_request_timings" where
  "observe_event_timing t event elapsed =
     (let t = t\<lparr>mt_first_event_ms := get_or_insert elapsed (mt_first_event_ms t)\<rparr>
      in case event of
           EvReasoningDelta _ \<Rightarrow>
             t\<lparr>mt_first_reasoning_ms := get_or_insert elapsed (mt_first_reasoning_ms t),
               mt_first_token_ms := get_or_insert elapsed (mt_first_token_ms t)\<rparr>
         | EvTextDelta _ \<Rightarrow>
             t\<lparr>mt_first_text_ms := get_or_insert elapsed (mt_first_text_ms t),
               mt_first_token_ms := get_or_insert elapsed (mt_first_token_ms t)\<rparr>
         | EvToolCallDelta d \<Rightarrow>
             if tcd_arguments_delta d \<noteq> []
             then t\<lparr>mt_first_token_ms := get_or_insert elapsed (mt_first_token_ms t)\<rparr> else t
         | _ \<Rightarrow> t)"

definition observation_observe_event ::
  "instant \<Rightarrow> gateway_event \<Rightarrow> response_observation \<Rightarrow> response_observation" where
  "observation_observe_event now event ob =
     (let elapsed = observation_elapsed_ms ob now;
          ob = ob\<lparr>ro_timings := observe_event_timing (ro_timings ob) event elapsed\<rparr>
      in case event of
           EvUsage observed \<Rightarrow> ob\<lparr>ro_usage := usage_merge (ro_usage ob) observed\<rparr>
         | EvCalculatedCost observed \<Rightarrow>
             if ce_source (ro_cost ob) \<noteq> ProviderReported
             then ob\<lparr>ro_cost := calculated_into_estimate observed\<rparr> else ob
         | EvProviderCost observed \<Rightarrow> ob\<lparr>ro_cost := provider_reported_into_estimate observed\<rparr>
         | _ \<Rightarrow> ob)"

fun observation_observe_identity :: "gateway_event \<Rightarrow> response_observation \<Rightarrow> response_observation" where
  "observation_observe_identity (EvStarted m) ob =
     ob\<lparr>ro_client_response_id := Some (rm_response_id m), ro_upstream_response_id := Some (rm_response_id m)\<rparr>"
| "observation_observe_identity (EvCompleted m) ob =
     ob\<lparr>ro_client_response_id := Some (rm_response_id m), ro_upstream_response_id := Some (rm_response_id m)\<rparr>"
| "observation_observe_identity _ ob = ob"

definition observation_reset_for_attempt :: "response_observation \<Rightarrow> response_observation" where
  "observation_reset_for_attempt ob =
     ob\<lparr>ro_usage := usage_new, ro_cost := cost_estimate_unavailable, ro_client_response_id := None,
        ro_upstream_response_id := None,
        ro_timings := timings_default\<lparr>mt_latency_ms := mt_latency_ms (ro_timings ob)\<rparr>\<rparr>"

definition observation_observe_response ::
  "provider_response_observation \<Rightarrow> response_observation \<Rightarrow> response_observation" where
  "observation_observe_response o' ob =
     (let p = pro_timings o'; t = ro_timings ob
      in ob\<lparr>ro_timings := t
        \<lparr>mt_transport_decision_wait_ms := opt_or (prt_transport_decision_wait_ms p) (mt_transport_decision_wait_ms t),
         mt_connect_ms := opt_or (prt_connect_ms p) (mt_connect_ms t),
         mt_headers_ms := opt_or (prt_headers_ms p) (mt_headers_ms t),
         mt_first_event_ms := opt_or (prt_first_event_ms p) (mt_first_event_ms t),
         mt_first_reasoning_ms := opt_or (prt_first_reasoning_ms p) (mt_first_reasoning_ms t),
         mt_first_text_ms := opt_or (prt_first_text_ms p) (mt_first_text_ms t),
         mt_first_token_ms := opt_or (prt_first_token_ms p) (mt_first_token_ms t),
         mt_provider_processing_ms := opt_or (prt_provider_processing_ms p) (mt_provider_processing_ms t)\<rparr>\<rparr>)"

end
