(* ===== verification/Snapshot.thy ===== *)
theory Snapshot
  imports Routing
begin

text \<open>
  \<open>routing/snapshot.rs\<close>: the persistent facts of a runtime snapshot, their compilation together
  with the live provider catalogs, the retry loop that publishes only a stable compilation, and
  the routing of a request over a compiled snapshot. The catalog port answers through the fields
  of a compile round; the parser of semantic versions is a parameter.
\<close>

section \<open>Persistent facts\<close>

record snapshot_settings_facts =
  ss_pricing :: pricing_overrides
  ss_request_profiles :: "(provider_kind, opaque_provider_data) btree"
  ss_request_location_enabled :: bool
  ss_request_location :: request_location
  ss_max_concurrent_per_account :: nat
  ss_max_waiting_per_key :: nat
  ss_max_waiting_per_account :: nat
  ss_concurrency_wait_timeout_seconds :: nat
  ss_responses_max_decompressed_body_bytes :: nat
  ss_request_interval_ms :: nat
  ss_rotation_strategy :: string
  ss_model_mappings :: "(string, string) btree"
  ss_min_codex_desktop_version :: "string option"
  ss_min_codex_cli_version :: "string option"

definition settings_facts_new ::
  "nat \<Rightarrow> nat \<Rightarrow> string \<Rightarrow> (string, string) btree \<Rightarrow> string option \<Rightarrow> string option
   \<Rightarrow> snapshot_settings_facts" where
  "settings_facts_new max_concurrent interval_ms strategy mappings desktop cli =
     \<lparr>ss_pricing = [], ss_request_profiles = [], ss_request_location_enabled = False,
      ss_request_location = request_location_default,
      ss_max_concurrent_per_account = max_concurrent, ss_max_waiting_per_key = 0,
      ss_max_waiting_per_account = 0, ss_concurrency_wait_timeout_seconds = 30,
      ss_responses_max_decompressed_body_bytes = 67108864,
      ss_request_interval_ms = interval_ms, ss_rotation_strategy = strategy,
      ss_model_mappings = mappings, ss_min_codex_desktop_version = desktop,
      ss_min_codex_cli_version = cli\<rparr>"

definition settings_with_concurrency_queues ::
  "snapshot_settings_facts \<Rightarrow> nat \<Rightarrow> nat \<Rightarrow> nat \<Rightarrow> snapshot_settings_facts" where
  "settings_with_concurrency_queues s per_key per_account timeout =
     s\<lparr>ss_max_waiting_per_key := per_key, ss_max_waiting_per_account := per_account,
       ss_concurrency_wait_timeout_seconds := timeout\<rparr>"

definition settings_with_request_location ::
  "snapshot_settings_facts \<Rightarrow> request_location \<Rightarrow> bool \<Rightarrow> snapshot_settings_facts" where
  "settings_with_request_location s loc enabled =
     s\<lparr>ss_request_location_enabled := enabled, ss_request_location := loc\<rparr>"

record snapshot_client_policy_facts =
  scp_request_profiles :: "(provider_kind, opaque_provider_data) btree"
  scp_key_id :: client_api_key_id
  scp_plaintext_key :: plaintext_client_api_key
  scp_group_ids :: "account_group_id list"
  scp_limits :: rate_limits

definition client_policy_facts_new ::
  "client_api_key_id \<Rightarrow> plaintext_client_api_key \<Rightarrow> account_group_id list \<Rightarrow> rate_limits
   \<Rightarrow> snapshot_client_policy_facts" where
  "client_policy_facts_new key_id key groups limits =
     \<lparr>scp_request_profiles = [], scp_key_id = key_id, scp_plaintext_key = key,
      scp_group_ids = groups, scp_limits = limits\<rparr>"

record snapshot_account_group_facts =
  sg_disable_fast :: bool
  sg_id :: account_group_id
  sg_name :: string
  sg_enabled :: bool

definition account_group_facts_new :: "account_group_id \<Rightarrow> string \<Rightarrow> bool \<Rightarrow> snapshot_account_group_facts" where
  "account_group_facts_new i n e =
     \<lparr>sg_disable_fast = False, sg_id = i, sg_name = n, sg_enabled = e\<rparr>"

record snapshot_provider_account_facts =
  spa_account_id :: provider_account_id
  spa_provider_kind :: string
  spa_model_access :: account_model_access

definition provider_account_facts_new :: "provider_account_id \<Rightarrow> string \<Rightarrow> snapshot_provider_account_facts" where
  "provider_account_facts_new aid kind =
     \<lparr>spa_account_id = aid, spa_provider_kind = kind, spa_model_access = model_access_all\<rparr>"

record snapshot_account_group_member_facts =
  sm_group_id :: account_group_id
  sm_account_id :: provider_account_id

record snapshot_facts =
  sn_config_revision :: config_revision
  sn_observed_current_revision :: config_revision
  sn_settings :: snapshot_settings_facts
  sn_client_policies :: "snapshot_client_policy_facts list"
  sn_account_groups :: "snapshot_account_group_facts list"
  sn_provider_accounts :: "snapshot_provider_account_facts list"
  sn_group_memberships :: "snapshot_account_group_member_facts list"

datatype runtime_snapshot_compile_error = StoreUnavailable | RevisionChanged | InvalidData | CatalogChanged

section \<open>The snapshot\<close>

record 'v runtime_snapshot =
  rt_pricing :: pricing_overrides
  rt_responses_max_decompressed_body_bytes :: nat
  rt_request_location :: "request_location option"
  rt_revision :: config_revision
  rt_client_queue_policy :: concurrency_queue_policy
  rt_account_selection_policy :: account_selection_policy
  rt_providers :: "provider_kind list"
  rt_provider_models :: "(provider_kind, (upstream_model_id, model_capabilities) btree) btree"
  rt_provider_model_presentations :: "(provider_kind, (upstream_model_id, model_presentation) btree) btree"
  rt_model_mappings :: "(string, string) btree"
  rt_provider_catalog_generations :: "(provider_kind, provider_catalog_generation) btree"
  rt_exhaustive_provider_catalogs :: "provider_kind list"
  rt_account_directory :: runtime_account_directory
  rt_client_policies :: "(client_api_key_id, frozen_account_scope client_policy) btree"
  rt_min_codex_client_versions :: "'v codex_client_min_versions"

text \<open>The three loops of \<open>RuntimeSnapshot::new\<close>.\<close>

definition add_provider :: "provider_kind \<Rightarrow> provider_kind list \<Rightarrow> routing_error + provider_kind list" where
  "add_provider p s =
     (if p \<in> set s then Inl (DuplicateEntity ''provider'' (pk_str p)) else Inr (bs_insert p s))"

record model_maps =
  mm_exhaustive :: "provider_kind list"
  mm_models :: "(provider_kind, (upstream_model_id, model_capabilities) btree) btree"
  mm_presentations :: "(provider_kind, (upstream_model_id, model_presentation) btree) btree"

definition add_provider_model :: "provider_kind list \<Rightarrow> provider_model \<Rightarrow> model_maps \<Rightarrow> routing_error + model_maps" where
  "add_provider_model providers m s =
     (let provider = pm_provider m;
          exhaustive = bs_insert provider (mm_exhaustive s)
      in if provider \<notin> set providers then Inl (NotFound ''provider'' (pk_str provider))
         else
           let models = unwrap_or [] (map_of (mm_models s) provider)
           in if bt_has models (pm_upstream_model m)
              then Inl (DuplicateEntity ''provider model'' (upstream_model_str (pm_upstream_model m)))
              else
                let model_map = bt_insert provider (bt_insert (pm_upstream_model m) (pm_capabilities m) models) (mm_models s);
                    presentations = (case pm_presentation m of
                      None \<Rightarrow> mm_presentations s
                    | Some p \<Rightarrow> bt_insert provider
                        (bt_insert (pm_upstream_model m) p (unwrap_or [] (map_of (mm_presentations s) provider)))
                        (mm_presentations s))
                in Inr \<lparr>mm_exhaustive = exhaustive, mm_models = model_map, mm_presentations = presentations\<rparr>)"

definition add_policy ::
  "frozen_account_scope client_policy \<Rightarrow> (client_api_key_id, frozen_account_scope client_policy) btree
   \<Rightarrow> routing_error + (client_api_key_id, frozen_account_scope client_policy) btree" where
  "add_policy p s =
     (if bt_has s (cp_key_id p) then Inl (DuplicateEntity ''client API key'' (key_str (cp_key_id p)))
      else Inr (bt_insert (cp_key_id p) p s))"

definition queue_policy_default :: concurrency_queue_policy where
  "queue_policy_default = \<lparr>qp_max_waiting = 0, qp_timeout = 0\<rparr>"

definition runtime_snapshot_new ::
  "config_revision \<Rightarrow> account_selection_policy \<Rightarrow> provider_kind list \<Rightarrow> provider_model list
   \<Rightarrow> frozen_account_scope client_policy list \<Rightarrow> routing_error + 'v runtime_snapshot" where
  "runtime_snapshot_new revision selection providers models policies =
     (case try_fold add_provider providers [] of Inl e \<Rightarrow> Inl e
      | Inr provider_set \<Rightarrow>
     (case try_fold (add_provider_model provider_set) models
             \<lparr>mm_exhaustive = [], mm_models = [], mm_presentations = []\<rparr> of Inl e \<Rightarrow> Inl e
      | Inr maps \<Rightarrow>
     (case try_fold add_policy policies [] of Inl e \<Rightarrow> Inl e
      | Inr policy_map \<Rightarrow>
        Inr \<lparr>rt_pricing = [], rt_responses_max_decompressed_body_bytes = 67108864,
             rt_request_location = None, rt_revision = revision,
             rt_client_queue_policy = queue_policy_default,
             rt_account_selection_policy = selection, rt_providers = provider_set,
             rt_provider_models = mm_models maps,
             rt_provider_model_presentations = mm_presentations maps,
             rt_model_mappings = [], rt_provider_catalog_generations = [],
             rt_exhaustive_provider_catalogs = mm_exhaustive maps,
             rt_account_directory = directory_new [],
             rt_client_policies = filter (\<lambda>p. cp_enabled (snd p)) policy_map,
             rt_min_codex_client_versions = \<lparr>min_desktop = None, min_cli = None\<rparr>\<rparr>)))"

section \<open>Compilation\<close>

text \<open>The catalog port at one moment: the answer of a query (\<open>None\<close> when unavailable) and
  whether the catalog is exhaustive.\<close>

record catalog_answers =
  ca_query :: "provider_kind \<Rightarrow> provider_model_capabilities list option"
  ca_exhaustive :: "provider_kind \<Rightarrow> bool"

definition compile_model :: "provider_kind \<Rightarrow> provider_model_capabilities \<Rightarrow> provider_model" where
  "compile_model provider m =
     (let compiled = provider_model_new provider (pmc_upstream_model m) (pmc_capabilities m)
      in case pmc_presentation m of Some p \<Rightarrow> pm_with_presentation compiled p | None \<Rightarrow> compiled)"

fun compile_catalogs ::
  "catalog_answers \<Rightarrow> provider_kind list \<Rightarrow> provider_model list \<times> provider_kind list
   \<Rightarrow> provider_model list \<times> provider_kind list" where
  "compile_catalogs c [] s = s"
| "compile_catalogs c (p # ps) (models, exhaustive) =
     (case ca_query c p of
        None \<Rightarrow> compile_catalogs c ps (models, exhaustive)
      | Some ms \<Rightarrow>
          compile_catalogs c ps
            (models @ map (compile_model p) ms,
             if ca_exhaustive c p then bs_insert p exhaustive else exhaustive))"

definition add_group ::
  "snapshot_account_group_facts \<Rightarrow> (account_group_id, snapshot_account_group_facts) btree
   \<Rightarrow> runtime_snapshot_compile_error + (account_group_id, snapshot_account_group_facts) btree" where
  "add_group g s =
     (if str_trim (sg_name g) \<noteq> sg_name g
         \<or> sg_name g = []
         \<or> 100 < length (utf8_chars (sg_name g))
         \<or> has_control (sg_name g)
         \<or> bt_has s (sg_id g)
      then Inl InvalidData
      else Inr (bt_insert (sg_id g) g s))"

type_synonym account_maps =
  "(provider_account_id, account_group_id list) btree \<times> (provider_account_id, runtime_account) btree"

definition add_account ::
  "provider_kind list \<Rightarrow> snapshot_provider_account_facts \<Rightarrow> account_maps
   \<Rightarrow> runtime_snapshot_compile_error + account_maps" where
  "add_account registered a s =
     (case provider_kind_new (spa_provider_kind a) of
        Inl _ \<Rightarrow> Inl InvalidData
      | Inr kind \<Rightarrow>
          if kind \<notin> set registered \<or> bt_has (snd s) (spa_account_id a) then Inl InvalidData
          else Inr
            (bt_insert (spa_account_id a) [] (fst s),
             bt_insert (spa_account_id a)
               (runtime_account_with_model_access (runtime_account_new kind []) (spa_model_access a)) (snd s)))"

type_synonym membership_state =
  "(account_group_id \<times> provider_account_id) list \<times> (provider_account_id, account_group_id list) btree"

definition add_membership ::
  "(account_group_id, snapshot_account_group_facts) btree \<Rightarrow> (provider_account_id, runtime_account) btree
   \<Rightarrow> snapshot_account_group_member_facts \<Rightarrow> membership_state
   \<Rightarrow> runtime_snapshot_compile_error + membership_state" where
  "add_membership groups accounts m s =
     (if \<not> bt_has groups (sm_group_id m)
         \<or> \<not> bt_has accounts (sm_account_id m)
         \<or> (sm_group_id m, sm_account_id m) \<in> set (fst s)
      then Inl InvalidData
      else case map_of (snd s) (sm_account_id m) of
        None \<Rightarrow> Inl InvalidData
      | Some gs \<Rightarrow>
          Inr (bs_insert (sm_group_id m, sm_account_id m) (fst s),
               bt_insert (sm_account_id m) (bs_insert (sm_group_id m) gs) (snd s)))"

definition assign_groups ::
  "provider_account_id \<times> account_group_id list \<Rightarrow> (provider_account_id, runtime_account) btree
   \<Rightarrow> runtime_snapshot_compile_error + (provider_account_id, runtime_account) btree" where
  "assign_groups p accounts =
     (case map_of accounts (fst p) of
        None \<Rightarrow> Inl InvalidData
      | Some a \<Rightarrow>
          Inr (bt_insert (fst p)
            (runtime_account_with_model_access (runtime_account_new (ra_provider_kind a) (snd p))
               (ra_model_access a)) accounts))"

definition compile_directory ::
  "(account_group_id, snapshot_account_group_facts) btree \<Rightarrow> provider_kind list
   \<Rightarrow> snapshot_provider_account_facts list \<Rightarrow> snapshot_account_group_member_facts list
   \<Rightarrow> runtime_snapshot_compile_error + runtime_account_directory" where
  "compile_directory groups registered accounts memberships =
     (case try_fold (add_account registered) accounts ([], []) of Inl e \<Rightarrow> Inl e
      | Inr (account_groups, account_map) \<Rightarrow>
     (case try_fold (add_membership groups account_map) memberships ([], account_groups) of Inl e \<Rightarrow> Inl e
      | Inr (_, account_groups) \<Rightarrow>
     (case try_fold assign_groups account_groups account_map of Inl e \<Rightarrow> Inl e
      | Inr account_map \<Rightarrow> Inr (directory_new account_map))))"

text \<open>One group id of a client policy.\<close>

record bound_state =
  bd_seen :: "account_group_id list"
  bd_bound :: "routing_group_snapshot list"
  bd_enabled :: "account_group_id list"
  bd_disable_fast :: bool

definition bind_group ::
  "(account_group_id, snapshot_account_group_facts) btree \<Rightarrow> account_group_id \<Rightarrow> bound_state
   \<Rightarrow> runtime_snapshot_compile_error + bound_state" where
  "bind_group groups gid s =
     (if gid \<in> set (bd_seen s) then Inl InvalidData
      else case map_of groups gid of
        None \<Rightarrow> Inl InvalidData
      | Some g \<Rightarrow>
          Inr \<lparr>bd_seen = bs_insert gid (bd_seen s),
               bd_bound = bd_bound s @ [\<lparr>rg_id = sg_id g, rg_name = sg_name g\<rparr>],
               bd_enabled = (if sg_enabled g then bs_insert gid (bd_enabled s) else bd_enabled s),
               bd_disable_fast = (bd_disable_fast s \<or> sg_disable_fast g)\<rparr>)"

definition compile_scope ::
  "(account_group_id, snapshot_account_group_facts) btree \<Rightarrow> runtime_account_directory
   \<Rightarrow> account_group_id list \<Rightarrow> runtime_snapshot_compile_error + (frozen_account_scope \<times> bool)" where
  "compile_scope groups directory group_ids =
     (if group_ids = [] then Inr (frozen_scope_new directory AllAccounts, False)
      else
        case try_fold (bind_group groups) group_ids
               \<lparr>bd_seen = [], bd_bound = [], bd_enabled = [], bd_disable_fast = False\<rparr> of
          Inl e \<Rightarrow> Inl e
        | Inr s \<Rightarrow>
            (let bound = sort_key rg_id (bd_bound s);
                 kinds = providers_for_groups directory (bd_enabled s)
             in case client_scope_restricted bound (bd_enabled s) kinds of
                  Inl _ \<Rightarrow> Inl InvalidData
                | Inr scope \<Rightarrow> Inr (frozen_scope_new directory scope, bd_disable_fast s)))"

definition compile_policy ::
  "(account_group_id, snapshot_account_group_facts) btree \<Rightarrow> runtime_account_directory
   \<Rightarrow> (provider_kind, opaque_provider_data) btree \<Rightarrow> snapshot_client_policy_facts
   \<Rightarrow> frozen_account_scope client_policy list
   \<Rightarrow> runtime_snapshot_compile_error + frozen_account_scope client_policy list" where
  "compile_policy groups directory profiles p acc =
     (case compile_scope groups directory (scp_group_ids p) of
        Inl e \<Rightarrow> Inl e
      | Inr (scope, disable_fast) \<Rightarrow>
          Inr (acc @
            [client_policy_new (scp_key_id p) (scp_plaintext_key p)
               (with_request_profiles (with_disable_fast scope disable_fast)
                  (bt_extend profiles (scp_request_profiles p)))
               True (scp_limits p)]))"

definition parse_min_version :: "(string \<Rightarrow> 'v option) \<Rightarrow> string option \<Rightarrow> runtime_snapshot_compile_error + 'v option" where
  "parse_min_version semver v =
     (case v of
        None \<Rightarrow> Inr None
      | Some s \<Rightarrow> (case client_version_parse semver s of None \<Rightarrow> Inl InvalidData | Some x \<Rightarrow> Inr (Some x)))"

text \<open>\<open>usize\<close> has 64 bits, so a limit fits \<open>isize\<close> below \<open>2 ^ 63\<close>.\<close>

definition body_limit_ok :: "nat \<Rightarrow> bool" where
  "body_limit_ok bytes = (0 < bytes \<and> bytes \<le> 9223372036854775807)"

definition queue_settings_ok :: "snapshot_settings_facts \<Rightarrow> bool" where
  "queue_settings_ok s =
     (ss_max_waiting_per_key s \<le> 1000 \<and> ss_max_waiting_per_account s \<le> 1000
      \<and> 1 \<le> ss_concurrency_wait_timeout_seconds s \<and> ss_concurrency_wait_timeout_seconds s \<le> 120)"

definition compile_selection_policy ::
  "snapshot_settings_facts \<Rightarrow> runtime_snapshot_compile_error + account_selection_policy" where
  "compile_selection_policy s =
     (case rotation_strategy_parse (ss_rotation_strategy s) of
        None \<Rightarrow> Inl InvalidData
      | Some strategy \<Rightarrow>
          if ss_max_concurrent_per_account s = 0 then Inl InvalidData
          else Inr (with_queue
            (selection_policy_new strategy (ss_max_concurrent_per_account s)
               (of_millis (ss_request_interval_ms s)))
            \<lparr>qp_max_waiting = ss_max_waiting_per_account s,
             qp_timeout = of_secs (ss_concurrency_wait_timeout_seconds s)\<rparr>))"

definition compile_request_location ::
  "snapshot_settings_facts \<Rightarrow> runtime_snapshot_compile_error + request_location option" where
  "compile_request_location s =
     (if ss_request_location_enabled s
      then (case request_location_normalized (ss_request_location s) of
              Inl _ \<Rightarrow> Inl InvalidData | Inr l \<Rightarrow> Inr (Some l))
      else Inr None)"

definition compile_runtime_snapshot ::
  "(string \<Rightarrow> 'v option) \<Rightarrow> snapshot_facts \<Rightarrow> catalog_answers \<Rightarrow> provider_kind list
   \<Rightarrow> runtime_snapshot_compile_error + 'v runtime_snapshot" where
  "compile_runtime_snapshot semver facts catalogs provider_kinds =
     (let registered = bs_of_list provider_kinds;
          (models, exhaustive) = compile_catalogs catalogs provider_kinds ([], []);
          settings = sn_settings facts
      in case try_fold add_group (sn_account_groups facts) [] of Inl e \<Rightarrow> Inl e
       | Inr groups \<Rightarrow>
      (case compile_directory groups registered (sn_provider_accounts facts) (sn_group_memberships facts) of
         Inl e \<Rightarrow> Inl e
       | Inr directory \<Rightarrow>
      (if \<not> queue_settings_ok settings then Inl InvalidData
       else if \<not> body_limit_ok (ss_responses_max_decompressed_body_bytes settings) then Inl InvalidData
       else case parse_min_version semver (ss_min_codex_desktop_version settings) of Inl e \<Rightarrow> Inl e
       | Inr desktop \<Rightarrow>
      (case parse_min_version semver (ss_min_codex_cli_version settings) of Inl e \<Rightarrow> Inl e
       | Inr cli \<Rightarrow>
      (case compile_selection_policy settings of Inl e \<Rightarrow> Inl e
       | Inr selection \<Rightarrow>
      (case try_fold (compile_policy groups directory (ss_request_profiles settings)) (sn_client_policies facts) []
         of Inl e \<Rightarrow> Inl e
       | Inr policies \<Rightarrow>
      (case compile_request_location settings of Inl e \<Rightarrow> Inl e
       | Inr location \<Rightarrow>
      (case runtime_snapshot_new (sn_config_revision facts) selection provider_kinds models policies of
         Inl _ \<Rightarrow> Inl InvalidData
       | Inr s \<Rightarrow>
           Inr (s\<lparr>rt_pricing := ss_pricing settings, rt_request_location := location,
                  rt_responses_max_decompressed_body_bytes := ss_responses_max_decompressed_body_bytes settings,
                  rt_client_queue_policy :=
                    \<lparr>qp_max_waiting = ss_max_waiting_per_key settings,
                     qp_timeout = of_secs (ss_concurrency_wait_timeout_seconds settings)\<rparr>,
                  rt_model_mappings := ss_model_mappings settings,
                  rt_account_directory := directory,
                  rt_exhaustive_provider_catalogs := exhaustive,
                  rt_min_codex_client_versions := \<lparr>min_desktop = desktop, min_cli = cli\<rparr>\<rparr>)))))))))"

text \<open>
  What one attempt of the compiler reads: the generations before, the facts of the store
  (\<open>None\<close> when it is unavailable), the catalogs, and the generations after.
\<close>

record compile_round =
  cr_generations :: "(provider_kind, provider_catalog_generation) btree"
  cr_facts :: "snapshot_facts option"
  cr_catalogs :: catalog_answers
  cr_observed_generations :: "(provider_kind, provider_catalog_generation) btree"

definition maximum_catalog_stability_attempts :: nat where
  "maximum_catalog_stability_attempts = 4"

fun compile_attempts ::
  "(string \<Rightarrow> 'v option) \<Rightarrow> compile_round list \<Rightarrow> runtime_snapshot_compile_error + 'v runtime_snapshot" where
  "compile_attempts semver [] = Inl CatalogChanged"
| "compile_attempts semver (r # rs) =
     (case cr_facts r of
        None \<Rightarrow> Inl StoreUnavailable
      | Some facts \<Rightarrow>
          if sn_config_revision facts \<noteq> sn_observed_current_revision facts then Inl RevisionChanged
          else case compile_runtime_snapshot semver facts (cr_catalogs r) (map fst (cr_generations r)) of
            Inl e \<Rightarrow> Inl e
          | Inr s \<Rightarrow>
              if cr_generations r = cr_observed_generations r
              then Inr (s\<lparr>rt_provider_catalog_generations := cr_observed_generations r\<rparr>)
              else compile_attempts semver rs)"

definition snapshot_compile ::
  "(string \<Rightarrow> 'v option) \<Rightarrow> (nat \<Rightarrow> compile_round) \<Rightarrow> runtime_snapshot_compile_error + 'v runtime_snapshot" where
  "snapshot_compile semver rounds =
     compile_attempts semver (map rounds [0..<maximum_catalog_stability_attempts])"

section \<open>Model mappings and the public catalog\<close>

fun mapped_model_loop :: "(string, string) btree \<Rightarrow> string \<Rightarrow> nat \<Rightarrow> string \<Rightarrow> string list \<Rightarrow> string" where
  "mapped_model_loop mappings original 0 current seen = original"
| "mapped_model_loop mappings original (Suc n) current seen =
     (case map_of mappings current of
        None \<Rightarrow> current
      | Some target \<Rightarrow>
          if current \<in> set seen \<or> target \<in> set (bs_insert current seen) then original
          else mapped_model_loop mappings original n target (bs_insert current seen))"

definition mapped_model :: "'v runtime_snapshot \<Rightarrow> string \<Rightarrow> string" where
  "mapped_model s requested = mapped_model_loop (rt_model_mappings s) requested 20 requested []"

definition ok_list :: "('e + 'a) list \<Rightarrow> 'a list" where
  "ok_list xs = List.map_filter (case_sum (\<lambda>_. None) Some) xs"

definition public_models_for_provider :: "'v runtime_snapshot \<Rightarrow> provider_kind \<Rightarrow> public_model_id list" where
  "public_models_for_provider s provider =
     (let discovered = (case map_of (rt_provider_models s) provider of
            None \<Rightarrow> [] | Some ms \<Rightarrow> ok_list (map (\<lambda>p. public_model_id_new (upstream_model_str (fst p))) ms));
          mapped = ok_list (map (\<lambda>p. public_model_id_new (fst p)) (rt_model_mappings s))
      in bs_of_list (discovered @ mapped))"

definition insert_profile ::
  "'e + public_model_id \<Rightarrow> model_presentation \<Rightarrow> (public_model_id, model_presentation) btree
   \<Rightarrow> (public_model_id, model_presentation) btree" where
  "insert_profile model presentation m =
     (case model of Inl _ \<Rightarrow> m | Inr i \<Rightarrow> bt_insert i presentation m)"

definition public_model_profiles_for_provider :: "'v runtime_snapshot \<Rightarrow> provider_kind \<Rightarrow> public_model_profile list" where
  "public_model_profiles_for_provider s provider =
     (case map_of (rt_provider_model_presentations s) provider of
        None \<Rightarrow> []
      | Some presentations \<Rightarrow>
          (let own = fold (\<lambda>p. insert_profile (public_model_id_new (upstream_model_str (fst p))) (snd p))
                       presentations [];
               profiles = fold (\<lambda>p m.
                   case List.find (\<lambda>q. upstream_model_str (fst q) = mapped_model s (fst p)) presentations of
                     None \<Rightarrow> m
                   | Some q \<Rightarrow> insert_profile (public_model_id_new (fst p)) (snd q) m)
                 (rt_model_mappings s) own
           in map (\<lambda>(i, p). \<lparr>pmp_model = i, pmp_presentation = p\<rparr>) profiles))"

definition public_models :: "'v runtime_snapshot \<Rightarrow> public_model_id list" where
  "public_models s = bs_of_list (concat (map (public_models_for_provider s) (rt_providers s)))"

definition public_models_for_scope :: "'v runtime_snapshot \<Rightarrow> frozen_account_scope \<Rightarrow> public_model_id list" where
  "public_models_for_scope s scope =
     bs_of_list (concat (map (\<lambda>provider.
       filter (\<lambda>m. scope_allows_provider_model scope provider (mapped_model s (public_model_str m)))
         (public_models_for_provider s provider)) (frozen_provider_kinds scope)))"

definition public_model_profiles_for_scope ::
  "'v runtime_snapshot \<Rightarrow> frozen_account_scope \<Rightarrow> public_model_profile list" where
  "public_model_profiles_for_scope s scope =
     (let add_profile = (\<lambda>provider profile m.
            if scope_allows_provider_model scope provider (mapped_model s (public_model_str (pmp_model profile)))
               \<and> \<not> bt_has m (pmp_model profile)
            then bt_insert (pmp_model profile) (pmp_presentation profile) m else m);
          profiles = fold (\<lambda>provider. fold (add_profile provider) (public_model_profiles_for_provider s provider))
            (frozen_provider_kinds scope) []
      in map (\<lambda>(i, p). \<lparr>pmp_model = i, pmp_presentation = p\<rparr>) profiles)"

definition contains_public_model_for_provider ::
  "'v runtime_snapshot \<Rightarrow> public_model_id \<Rightarrow> provider_kind \<Rightarrow> bool" where
  "contains_public_model_for_provider s model provider =
     (if provider \<notin> set (rt_providers s) then False
      else if provider \<notin> set (rt_exhaustive_provider_catalogs s) then True
      else opt_any (list_ex (\<lambda>p. upstream_model_str (fst p) = mapped_model s (public_model_str model)))
             (map_of (rt_provider_models s) provider))"

definition contains_public_model_for_scope ::
  "'v runtime_snapshot \<Rightarrow> public_model_id \<Rightarrow> frozen_account_scope \<Rightarrow> bool" where
  "contains_public_model_for_scope s model scope =
     list_ex (\<lambda>provider. contains_public_model_for_provider s model provider
        \<and> scope_allows_provider_model scope provider (mapped_model s (public_model_str model)))
       (frozen_provider_kinds scope)"

section \<open>Planning a request\<close>

definition upstream_model_for :: "'v runtime_snapshot \<Rightarrow> public_model_id \<Rightarrow> identifier_error + upstream_model_id" where
  "upstream_model_for s model =
     (if bt_has (rt_model_mappings s) (public_model_str model)
      then upstream_model_id_new (mapped_model s (public_model_str model))
      else upstream_model_from_client_wire (mapped_model s (public_model_str model)))"

definition plan_candidate ::
  "provider_kind \<Rightarrow> upstream_model_id option \<Rightarrow> feature list \<Rightarrow> frozen_account_scope \<Rightarrow> provider_candidate" where
  "plan_candidate provider model emulated scope =
     \<lparr>pc_provider = provider, pc_upstream_model = model, pc_emulated_features = emulated,
      pc_account_scope = scope\<rparr>"

definition consider_provider ::
  "'v runtime_snapshot \<Rightarrow> public_model_id \<Rightarrow> capability_requirements \<Rightarrow> frozen_account_scope
   \<Rightarrow> routing_context \<Rightarrow> provider_kind \<Rightarrow> provider_candidate list
   \<Rightarrow> routing_error + provider_candidate list" where
  "consider_provider s model req scope ctx provider candidates =
     (if provider \<notin> set (rt_providers s) then Inr candidates
      else if opt_any (\<lambda>expected. expected \<noteq> provider) (rc_required_provider ctx)
              \<or> provider \<in> set (rc_blocked_providers ctx) then Inr candidates
      else case upstream_model_for s model of
        Inl _ \<Rightarrow> Inl InvalidIdentifier
      | Inr um \<Rightarrow>
          (case Option.bind (map_of (rt_provider_models s) provider) (\<lambda>ms. map_of ms um) of
             Some c \<Rightarrow>
               (case match_requirements c req of
                  None \<Rightarrow> Inr candidates
                | Some emulated \<Rightarrow> Inr (candidates @ [plan_candidate provider (Some um) emulated scope]))
           | None \<Rightarrow>
               if provider \<in> set (rt_exhaustive_provider_catalogs s) then Inr candidates
               else Inr (candidates @ [plan_candidate provider (Some um) [] scope])))"

definition freeze_plan ::
  "'v runtime_snapshot \<Rightarrow> operation \<Rightarrow> frozen_account_scope \<Rightarrow> provider_candidate list \<Rightarrow> routing_plan" where
  "freeze_plan s op scope candidates =
     \<lparr>rp_pricing = rt_pricing s, rp_request_location = rt_request_location s,
      rp_config_revision = rt_revision s,
      rp_account_selection_policy = rt_account_selection_policy s,
      rp_operation = operation_kind_of op, rp_max_attempts = max_request_attempts,
      rp_account_scope = scope, rp_candidates = candidates\<rparr>"

definition plan_providers :: "frozen_account_scope \<Rightarrow> routing_context \<Rightarrow> provider_kind list" where
  "plan_providers scope ctx =
     (case rc_required_provider ctx of None \<Rightarrow> frozen_provider_kinds scope | Some p \<Rightarrow> [p])"

definition plan_request ::
  "'v runtime_snapshot \<Rightarrow> public_model_id \<Rightarrow> operation \<Rightarrow> frozen_account_scope \<Rightarrow> routing_context
   \<Rightarrow> routing_error + routing_plan" where
  "plan_request s model op scope ctx =
     (if rc_required_provider ctx = None \<and> frozen_provider_kinds scope = [] then Inl EmptyAccountScope
      else
        let providers = plan_providers scope ctx
        in case try_fold (consider_provider s model (operation_requirements op) scope ctx) providers [] of
             Inl e \<Rightarrow> Inl e
           | Inr candidates \<Rightarrow>
               if candidates = [] then
                 (let scoped = filter (\<lambda>p. p \<in> set (rt_providers s)) providers
                  in if scoped \<noteq> [] \<and> list_all (\<lambda>p. p \<in> set (rt_exhaustive_provider_catalogs s)
                           \<and> \<not> contains_public_model_for_provider s model p) scoped
                     then Inl (ModelNotFound (public_model_str model) (mapped_model s (public_model_str model)))
                     else Inl (NoCapableProvider (public_model_str model)))
               else Inr (freeze_plan s op scope candidates))"

definition plan_provider_endpoint ::
  "'v runtime_snapshot \<Rightarrow> provider_kind \<Rightarrow> operation \<Rightarrow> frozen_account_scope \<Rightarrow> routing_context
   \<Rightarrow> routing_error + routing_plan" where
  "plan_provider_endpoint s provider op scope ctx =
     (if frozen_provider_kinds scope \<noteq> []
         \<and> provider \<in> set (frozen_provider_kinds scope)
         \<and> provider \<in> set (rt_providers s)
         \<and> (case rc_required_provider ctx of None \<Rightarrow> True | Some required \<Rightarrow> required = provider)
         \<and> provider \<notin> set (rc_blocked_providers ctx)
      then Inr (freeze_plan s op scope [plan_candidate provider None [] scope])
      else Inl (NoCapableProviderEndpoint (pk_str provider)))"

section \<open>Properties: model mappings\<close>

text \<open>Following the mappings for at most \<open>n\<close> lookups, without any record of visited names.\<close>

primrec chain_end :: "(string, string) btree \<Rightarrow> nat \<Rightarrow> string \<Rightarrow> string option" where
  "chain_end mappings 0 x = None"
| "chain_end mappings (Suc n) x =
     (case map_of mappings x of None \<Rightarrow> Some x | Some y \<Rightarrow> chain_end mappings n y)"

primrec follow :: "(string, string) btree \<Rightarrow> nat \<Rightarrow> string \<Rightarrow> string option" where
  "follow mappings 0 x = Some x"
| "follow mappings (Suc k) x = Option.bind (map_of mappings x) (follow mappings k)"

lemma follow_snoc: "follow m (Suc k) x = Option.bind (follow m k x) (map_of m)"
proof (induction k arbitrary: x)
  case 0
  then show ?case by (cases "map_of m x") simp_all
next
  case (Suc k)
  show ?case
  proof (cases "map_of m x")
    case None
    then show ?thesis by simp
  next
    case (Some z)
    with Suc.IH [of z] show ?thesis by simp
  qed
qed

lemma chain_end_follow:
  "follow m k x = Some y \<Longrightarrow> chain_end m n x = (if n \<le> k then None else chain_end m (n - k) y)"
proof (induction k arbitrary: x n)
  case 0
  then show ?case by (cases n) auto
next
  case (Suc k)
  from Suc.prems obtain z where z: "map_of m x = Some z" "follow m k z = Some y"
    by (auto simp: bind_eq_Some_conv)
  show ?case
    by (cases n) (auto simp: z(1) Suc.IH [OF z(2)])
qed

lemma chain_end_cycle:
  assumes "follow m k x = Some x" and "0 < k"
  shows "chain_end m n x = None"
proof (induction n rule: less_induct)
  case (less n)
  show ?case
  proof (cases "n \<le> k")
    case True
    then show ?thesis using chain_end_follow [OF assms(1), of n] by simp
  next
    case False
    then have "n - k < n" using assms(2) by simp
    with less.IH [of "n - k"] chain_end_follow [OF assms(1), of n] False show ?thesis by simp
  qed
qed

lemma mapped_model_loop_chain:
  assumes "\<forall>x \<in> set seen. \<exists>k. 0 < k \<and> follow m k x = Some current"
  shows "mapped_model_loop m original n current seen =
           (case chain_end m n current of None \<Rightarrow> original | Some e \<Rightarrow> e)"
  using assms
proof (induction n arbitrary: current seen)
  case 0
  then show ?case by simp
next
  case (Suc n)
  show ?case
  proof (cases "map_of m current")
    case None
    then show ?thesis by simp
  next
    case (Some target)
    have step: "\<exists>k. 0 < k \<and> follow m k x = Some target" if "x \<in> insert current (set seen)" for x
    proof (cases "x = current")
      case True
      with Some show ?thesis by (auto intro!: exI [of _ 1])
    next
      case False
      with that Suc.prems obtain k where "0 < k" "follow m k x = Some current" by auto
      then show ?thesis using Some follow_snoc [of m k x] by (intro exI [of _ "Suc k"]) simp
    qed
    show ?thesis
    proof (cases "current \<in> set seen \<or> target \<in> set (bs_insert current seen)")
      case True
      then have "chain_end m (Suc n) current = None"
      proof
        assume "current \<in> set seen"
        with Suc.prems obtain k where "0 < k" "follow m k current = Some current" by auto
        then show ?thesis using chain_end_cycle by blast
      next
        assume "target \<in> set (bs_insert current seen)"
        with step obtain k where "0 < k" "follow m k target = Some target" by auto
        then show ?thesis using Some chain_end_cycle by simp
      qed
      with True Some show ?thesis by simp
    next
      case False
      then show ?thesis using Some Suc.IH [of "bs_insert current seen" target] step by auto
    qed
  qed
qed

text \<open>
  The mapping of a model name follows at most 19 configured mappings to a name that is not
  mapped further, and falls back to the requested name when there is none within that bound; the
  record of visited names only cuts short the runs that a cycle makes hopeless.
\<close>

theorem mapped_model_follows_chain:
  "mapped_model s requested =
     (case chain_end (rt_model_mappings s) 20 requested of None \<Rightarrow> requested | Some target \<Rightarrow> target)"
  unfolding mapped_model_def by (rule mapped_model_loop_chain) simp

section \<open>Properties: compilation\<close>

text \<open>Every loop of the compiler that must not meet a key twice.\<close>

interpretation group_index: unique_index add_group sg_id id map_of
  by unfold_locales (auto simp: add_group_def bt_has_def split: if_splits)

definition plain_account :: "snapshot_provider_account_facts \<Rightarrow> runtime_account" where
  "plain_account a =
     runtime_account_with_model_access (runtime_account_new (ProviderKind (spa_provider_kind a)) [])
       (spa_model_access a)"

lemma provider_kind_new_str: "provider_kind_new v = Inr k \<Longrightarrow> k = ProviderKind v"
  by (auto simp: provider_kind_new_def checked_id_def split: sum.splits)

interpretation account_index: unique_index
  "add_account registered" spa_account_id plain_account "\<lambda>s. map_of (snd s)"
  by unfold_locales
    (auto simp: add_account_def bt_has_def plain_account_def dest: provider_kind_new_str
      split: if_splits sum.splits)

definition set_lookup :: "'k list \<Rightarrow> 'k \<Rightarrow> unit option" where
  "set_lookup xs k = (if k \<in> set xs then Some () else None)"

interpretation membership_index: unique_index
  "add_membership groups accounts" "\<lambda>m. (sm_group_id m, sm_account_id m)" "\<lambda>_. ()" "\<lambda>s. set_lookup (fst s)"
  by unfold_locales
    (auto simp: add_membership_def set_lookup_def fun_eq_iff split: if_splits option.splits)

interpretation bound_index: unique_index "bind_group groups" id "\<lambda>_. ()" "\<lambda>s. set_lookup (bd_seen s)"
  by unfold_locales (auto simp: bind_group_def set_lookup_def fun_eq_iff split: if_splits option.splits)

interpretation provider_index: unique_index add_provider id "\<lambda>_. ()" set_lookup
  by unfold_locales (auto simp: add_provider_def set_lookup_def fun_eq_iff split: if_splits)

interpretation model_index: unique_index
  "add_provider_model providers" "\<lambda>m. (pm_provider m, pm_upstream_model m)" pm_capabilities
  "\<lambda>s k. Option.bind (map_of (mm_models s) (fst k)) (\<lambda>ms. map_of ms (snd k))"
  by unfold_locales
    (auto simp: add_provider_model_def bt_has_def Let_def fun_eq_iff unwrap_or_def
      split: if_splits option.splits)

interpretation policy_index: unique_index add_policy cp_key_id id map_of
  by unfold_locales (auto simp: add_policy_def bt_has_def split: if_splits)

text \<open>The groups of an account, as the memberships say.\<close>

definition groups_of_account :: "snapshot_account_group_member_facts list \<Rightarrow> provider_account_id \<Rightarrow> account_group_id list" where
  "groups_of_account ms aid = bs_of_list (map sm_group_id (filter (\<lambda>m. sm_account_id m = aid) ms))"

lemma try_fold_Cons_Inr:
  "try_fold f (x # xs) s = Inr t \<longleftrightarrow> (\<exists>u. f x s = Inr u \<and> try_fold f xs u = Inr t)"
  by (auto split: sum.splits)

definition account_maps_ok :: "provider_kind list \<Rightarrow> account_maps \<Rightarrow> bool" where
  "account_maps_ok registered s \<longleftrightarrow>
     bt_ok (fst s) \<and> bt_ok (snd s)
     \<and> (\<forall>k. map_of (fst s) k = map_option (\<lambda>_. []) (map_of (snd s) k))
     \<and> (\<forall>k a. map_of (snd s) k = Some a \<longrightarrow> ra_provider_kind a \<in> set registered)"

lemma add_account_ok:
  "account_maps_ok registered s \<Longrightarrow> add_account registered a s = Inr t \<Longrightarrow> account_maps_ok registered t"
  by (auto simp: account_maps_ok_def add_account_def runtime_account_with_model_access_def
      runtime_account_new_def split: if_splits sum.splits)

lemma accounts_run:
  assumes "try_fold (add_account registered) as ([], []) = Inr t"
  shows "account_maps_ok registered t"
    and "map_of (snd t) k = Some a \<longleftrightarrow> (\<exists>f \<in> set as. spa_account_id f = k \<and> a = plain_account f)"
proof -
  show "account_maps_ok registered t"
    by (rule try_fold_invariant [where P = "account_maps_ok registered", OF _ _ assms])
      (auto intro: add_account_ok, simp add: account_maps_ok_def)
  show "map_of (snd t) k = Some a \<longleftrightarrow> (\<exists>f \<in> set as. spa_account_id f = k \<and> a = plain_account f)" (is "?L = ?R")
  proof
    assume ?R
    then show ?L using account_index.run_lookup_item [OF assms] by auto
  next
    assume L: ?L
    then have "k \<in> dom (map_of (snd t))" by auto
    then obtain f where "f \<in> set as" "spa_account_id f = k"
      unfolding account_index.run_dom [OF assms] by auto
    with L account_index.run_lookup_item [OF assms, of f] show ?R by auto
  qed
qed

lemma memberships_run:
  "try_fold (add_membership groups accounts) ms s = Inr t \<Longrightarrow>
     map_of (snd t) aid =
       map_option (fold bs_insert (map sm_group_id (filter (\<lambda>m. sm_account_id m = aid) ms))) (map_of (snd s) aid)"
proof (induction ms arbitrary: s)
  case Nil
  then show ?case by (simp add: option.map_ident)
next
  case (Cons m ms)
  then obtain u where u: "add_membership groups accounts m s = Inr u"
    "try_fold (add_membership groups accounts) ms u = Inr t"
    unfolding try_fold_Cons_Inr by auto
  show ?case
    using u(1) unfolding Cons.IH [OF u(2)]
    by (auto simp: add_membership_def option.map_comp comp_def split: if_splits option.splits)
qed

lemma memberships_keep_ok:
  "try_fold (add_membership groups accounts) ms s = Inr t \<Longrightarrow> bt_ok (snd s) \<Longrightarrow> bt_ok (snd t)"
  by (rule try_fold_invariant [where P = "\<lambda>s. bt_ok (snd s)"])
    (auto simp: add_membership_def split: if_splits option.splits)

lemma assign_groups_Inr:
  "assign_groups p accounts = Inr t \<longleftrightarrow>
     (\<exists>a. map_of accounts (fst p) = Some a
        \<and> t = bt_insert (fst p) (a\<lparr>ra_group_ids := snd p\<rparr>) accounts)"
proof (cases "map_of accounts (fst p)")
  case None
  then show ?thesis by (simp add: assign_groups_def)
next
  case (Some a)
  then show ?thesis
    by (cases a) (auto simp: assign_groups_def runtime_account_with_model_access_def runtime_account_new_def)
qed

lemma assign_run:
  "try_fold assign_groups ags accounts = Inr t \<Longrightarrow> distinct (map fst ags) \<Longrightarrow>
     map_of t k =
       (case map_of ags k of None \<Rightarrow> map_of accounts k
        | Some gs \<Rightarrow> map_option (\<lambda>a. a\<lparr>ra_group_ids := gs\<rparr>) (map_of accounts k))"
proof (induction ags arbitrary: accounts)
  case Nil
  then show ?case by simp
next
  case (Cons p ags)
  from Cons.prems(1) obtain u where u: "assign_groups p accounts = Inr u" "try_fold assign_groups ags u = Inr t"
    unfolding try_fold_Cons_Inr by auto
  obtain i gs where p: "p = (i, gs)" by (cases p)
  from Cons.prems(2) have d: "distinct (map fst ags)" and new: "map_of ags i = None"
    by (simp_all add: p map_of_eq_None_iff)
  from u(1) obtain a where a: "map_of accounts i = Some a"
    and uu: "u = bt_insert i (a\<lparr>ra_group_ids := gs\<rparr>) accounts"
    by (auto simp: assign_groups_Inr p)
  show ?case
    unfolding Cons.IH [OF u(2) d] by (auto simp: p new a uu split: option.splits)
qed

lemma assign_keep_ok: "try_fold assign_groups ags s = Inr t \<Longrightarrow> bt_ok s \<Longrightarrow> bt_ok t"
  by (rule try_fold_invariant [where P = bt_ok]) (auto simp: assign_groups_Inr)

lemma compile_directory_accounts:
  assumes "compile_directory groups registered as ms = Inr d"
  shows "directory_account d aid = Some a \<longleftrightarrow>
           (\<exists>f \<in> set as. spa_account_id f = aid
              \<and> a = (plain_account f)\<lparr>ra_group_ids := groups_of_account ms aid\<rparr>)"
    and "bt_ok (dir_accounts d)" and "d = directory_new (dir_accounts d)"
    and "directory_account d aid = Some a \<Longrightarrow> ra_provider_kind a \<in> set registered"
proof -
  from assms obtain ag am seen ag' am' where
    1: "try_fold (add_account registered) as ([], []) = Inr (ag, am)" and
    2: "try_fold (add_membership groups am) ms ([], ag) = Inr (seen, ag')" and
    3: "try_fold assign_groups ag' am = Inr am'" and
    4: "d = directory_new am'"
    by (auto simp: compile_directory_def split: sum.splits)
  note ok = accounts_run(1) [OF 1, unfolded account_maps_ok_def, simplified]
  have ag: "map_of ag k = map_option (\<lambda>_. []) (map_of am k)" for k using ok by blast
  have ag': "map_of ag' k = map_option (\<lambda>_. groups_of_account ms k) (map_of am k)" for k
    using memberships_run [OF 2, of k]
    by (simp add: groups_of_account_def bs_of_list_def ag option.map_comp comp_def)
  have "bt_ok ag'" using memberships_keep_ok [OF 2] ok by simp
  then have dist: "distinct (map fst ag')" by (rule bt_ok_distinct)
  have am': "map_of am' k = map_option (\<lambda>a. a\<lparr>ra_group_ids := groups_of_account ms k\<rparr>) (map_of am k)" for k
    unfolding assign_run [OF 3 dist] by (cases "map_of am k") (simp_all add: ag')
  show acc: "directory_account d aid = Some a \<longleftrightarrow>
      (\<exists>f \<in> set as. spa_account_id f = aid
         \<and> a = (plain_account f)\<lparr>ra_group_ids := groups_of_account ms aid\<rparr>)"
    using accounts_run(2) [OF 1, of aid] by (auto simp: directory_account_def 4 am')
  show "bt_ok (dir_accounts d)" using assign_keep_ok [OF 3] ok by (simp add: 4)
  show "d = directory_new (dir_accounts d)" by (simp add: 4)
  show "ra_provider_kind a \<in> set registered" if "directory_account d aid = Some a"
    using that ok by (auto simp: directory_account_def 4 am')
qed

lemma bind_group_Inr:
  "bind_group groups g s = Inr u \<longleftrightarrow>
     g \<notin> set (bd_seen s) \<and> (\<exists>x. map_of groups g = Some x
       \<and> u = \<lparr>bd_seen = bs_insert g (bd_seen s),
              bd_bound = bd_bound s @ [\<lparr>rg_id = sg_id x, rg_name = sg_name x\<rparr>],
              bd_enabled = (if sg_enabled x then bs_insert g (bd_enabled s) else bd_enabled s),
              bd_disable_fast = (bd_disable_fast s \<or> sg_disable_fast x)\<rparr>)"
  by (cases "map_of groups g") (auto simp: bind_group_def)

lemma bind_enabled:
  "try_fold (bind_group groups) gids s = Inr t \<Longrightarrow>
     set (bd_enabled t) = set (bd_enabled s) \<union> {g \<in> set gids. opt_any sg_enabled (map_of groups g)}"
proof (induction gids arbitrary: s)
  case (Cons g gids)
  then obtain u where u: "bind_group groups g s = Inr u" "try_fold (bind_group groups) gids u = Inr t"
    unfolding try_fold_Cons_Inr by auto
  obtain x where x: "map_of groups g = Some x"
    and e: "u = \<lparr>bd_seen = bs_insert g (bd_seen s),
              bd_bound = bd_bound s @ [\<lparr>rg_id = sg_id x, rg_name = sg_name x\<rparr>],
              bd_enabled = (if sg_enabled x then bs_insert g (bd_enabled s) else bd_enabled s),
              bd_disable_fast = (bd_disable_fast s \<or> sg_disable_fast x)\<rparr>"
    using u(1) unfolding bind_group_Inr by blast
  show ?case unfolding Cons.IH [OF u(2)] by (auto simp: e x)
qed simp

lemma bind_disable_fast:
  "try_fold (bind_group groups) gids s = Inr t \<Longrightarrow>
     bd_disable_fast t \<longleftrightarrow> bd_disable_fast s \<or> (\<exists>g \<in> set gids. opt_any sg_disable_fast (map_of groups g))"
proof (induction gids arbitrary: s)
  case (Cons g gids)
  then obtain u where u: "bind_group groups g s = Inr u" "try_fold (bind_group groups) gids u = Inr t"
    unfolding try_fold_Cons_Inr by auto
  obtain x where x: "map_of groups g = Some x"
    and e: "u = \<lparr>bd_seen = bs_insert g (bd_seen s),
              bd_bound = bd_bound s @ [\<lparr>rg_id = sg_id x, rg_name = sg_name x\<rparr>],
              bd_enabled = (if sg_enabled x then bs_insert g (bd_enabled s) else bd_enabled s),
              bd_disable_fast = (bd_disable_fast s \<or> sg_disable_fast x)\<rparr>"
    using u(1) unfolding bind_group_Inr by blast
  show ?case unfolding Cons.IH [OF u(2)] by (auto simp: e x)
qed simp

lemma compile_scope_facts:
  assumes "compile_scope groups d gids = Inr (scope, fast_off)"
  shows "fs_directory scope = d"
    and "scope_admits scope a \<longleftrightarrow>
           gids = [] \<or> (\<exists>g \<in> set gids. opt_any sg_enabled (map_of groups g) \<and> g \<in> set (ra_group_ids a))"
    and "bt_ok (dir_accounts d) \<Longrightarrow> d = directory_new (dir_accounts d) \<Longrightarrow> scope_compiled scope"
    and "fast_off \<longleftrightarrow> (\<exists>g \<in> set gids. opt_any sg_disable_fast (map_of groups g))"
proof -
  have *: "fs_directory scope = d
      \<and> (scope_admits scope a \<longleftrightarrow>
           gids = [] \<or> (\<exists>g \<in> set gids. opt_any sg_enabled (map_of groups g) \<and> g \<in> set (ra_group_ids a)))
      \<and> (bt_ok (dir_accounts d) \<longrightarrow> d = directory_new (dir_accounts d) \<longrightarrow> scope_compiled scope)
      \<and> (fast_off \<longleftrightarrow> (\<exists>g \<in> set gids. opt_any sg_disable_fast (map_of groups g)))"
  proof (cases "gids = []")
    case True
    with assms show ?thesis
      by (auto simp: compile_scope_def frozen_scope_new_def scope_admits_def scope_compiled_def)
  next
    case False
    with assms obtain t where t: "try_fold (bind_group groups) gids
          \<lparr>bd_seen = [], bd_bound = [], bd_enabled = [], bd_disable_fast = False\<rparr> = Inr t"
      and sc: "scope = frozen_scope_new d (Restricted (sort_key rg_id (bd_bound t)) (bd_enabled t)
                 (providers_for_groups d (bd_enabled t)))"
      and off: "fast_off = bd_disable_fast t"
      by (auto simp: compile_scope_def Let_def client_scope_restricted_def split: sum.splits if_splits)
    show ?thesis using bind_enabled [OF t] bind_disable_fast [OF t] False
      by (auto simp: sc off frozen_scope_new_def scope_admits_def scope_compiled_def)
  qed
  show "fs_directory scope = d" using * by simp
  show "scope_admits scope a \<longleftrightarrow>
           gids = [] \<or> (\<exists>g \<in> set gids. opt_any sg_enabled (map_of groups g) \<and> g \<in> set (ra_group_ids a))"
    using * by simp
  show "scope_compiled scope" if "bt_ok (dir_accounts d)" "d = directory_new (dir_accounts d)"
    using * that by blast
  show "fast_off \<longleftrightarrow> (\<exists>g \<in> set gids. opt_any sg_disable_fast (map_of groups g))" using * by simp
qed

lemma policies_run:
  "try_fold (compile_policy groups d profiles) ps acc = Inr out \<Longrightarrow>
     set acc \<subseteq> set out
     \<and> (\<forall>p \<in> set ps. \<exists>c \<in> set out. compile_policy groups d profiles p [] = Inr [c])
     \<and> (\<forall>c \<in> set out. c \<in> set acc \<or> (\<exists>p \<in> set ps. compile_policy groups d profiles p [] = Inr [c]))"
proof (induction ps arbitrary: acc)
  case Nil
  then show ?case by simp
next
  case (Cons p ps)
  then obtain u where u: "compile_policy groups d profiles p acc = Inr u"
    "try_fold (compile_policy groups d profiles) ps u = Inr out"
    unfolding try_fold_Cons_Inr by auto
  from u(1) obtain c where "u = acc @ [c]" "compile_policy groups d profiles p [] = Inr [c]"
    by (auto simp: compile_policy_def split: sum.splits prod.splits)
  with Cons.IH [OF u(2)] show ?case by fastforce
qed

text \<open>
  What the persistent facts say: a key without groups may use every account, a key with groups
  those of its enabled groups; it is barred from the fast tier by any of its groups.
\<close>

definition key_may_use :: "snapshot_facts \<Rightarrow> snapshot_client_policy_facts \<Rightarrow> provider_account_id \<Rightarrow> bool" where
  "key_may_use facts p aid =
     (aid \<in> spa_account_id ` set (sn_provider_accounts facts)
      \<and> (scp_group_ids p = []
         \<or> list_ex (\<lambda>m. sm_account_id m = aid \<and> sm_group_id m \<in> set (scp_group_ids p)
              \<and> list_ex (\<lambda>g. sg_id g = sm_group_id m \<and> sg_enabled g) (sn_account_groups facts))
            (sn_group_memberships facts)))"

definition key_fast_disabled :: "snapshot_facts \<Rightarrow> snapshot_client_policy_facts \<Rightarrow> bool" where
  "key_fast_disabled facts p =
     list_ex (\<lambda>g. sg_id g \<in> set (scp_group_ids p) \<and> sg_disable_fast g) (sn_account_groups facts)"

lemma groups_run_any:
  assumes "try_fold add_group gs [] = Inr groups"
  shows "opt_any P (map_of groups gid) \<longleftrightarrow> (\<exists>g \<in> set gs. sg_id g = gid \<and> P g)"
proof
  assume "opt_any P (map_of groups gid)"
  then obtain x where x: "map_of groups gid = Some x" "P x" by (auto simp: opt_any_iff)
  then have "gid \<in> dom (map_of groups)" by auto
  then obtain g where "g \<in> set gs" "sg_id g = gid" unfolding group_index.run_dom [OF assms] by auto
  with x group_index.run_lookup_item [OF assms, of g] show "\<exists>g \<in> set gs. sg_id g = gid \<and> P g" by auto
next
  assume "\<exists>g \<in> set gs. sg_id g = gid \<and> P g"
  then show "opt_any P (map_of groups gid)" using group_index.run_lookup_item [OF assms] by auto
qed

text \<open>The stages of a compilation that succeeds.\<close>

lemma compile_stages:
  assumes "compile_runtime_snapshot semver facts catalogs kinds = Inr s"
  obtains groups directory policies policy_map selection where
    "try_fold add_group (sn_account_groups facts) [] = Inr groups"
    "compile_directory groups (bs_of_list kinds) (sn_provider_accounts facts) (sn_group_memberships facts)
       = Inr directory"
    "try_fold (compile_policy groups directory (ss_request_profiles (sn_settings facts)))
       (sn_client_policies facts) [] = Inr policies"
    "try_fold add_policy policies [] = Inr policy_map"
    "try_fold add_provider kinds [] = Inr (rt_providers s)"
    "compile_selection_policy (sn_settings facts) = Inr selection"
    "rt_account_directory s = directory" "rt_account_selection_policy s = selection"
    "rt_client_policies s = filter (\<lambda>p. cp_enabled (snd p)) policy_map"
    "rt_revision s = sn_config_revision facts" "queue_settings_ok (sn_settings facts)"
    "rt_model_mappings s = ss_model_mappings (sn_settings facts)"
proof -
  obtain models exhaustive where m: "compile_catalogs catalogs kinds ([], []) = (models, exhaustive)"
    by (cases "compile_catalogs catalogs kinds ([], [])")
  from assms obtain groups where g: "try_fold add_group (sn_account_groups facts) [] = Inr groups"
    unfolding compile_runtime_snapshot_def Let_def m by (auto split: sum.splits)
  from assms obtain directory where d: "compile_directory groups (bs_of_list kinds) (sn_provider_accounts facts)
       (sn_group_memberships facts) = Inr directory"
    unfolding compile_runtime_snapshot_def Let_def m by (auto simp: g split: sum.splits)
  from assms have q: "queue_settings_ok (sn_settings facts)"
    unfolding compile_runtime_snapshot_def Let_def m by (simp add: g d split: if_splits)
  from assms obtain desktop cli where v: "parse_min_version semver (ss_min_codex_desktop_version (sn_settings facts)) = Inr desktop"
      "parse_min_version semver (ss_min_codex_cli_version (sn_settings facts)) = Inr cli"
    unfolding compile_runtime_snapshot_def Let_def m by (simp add: g d q split: if_splits sum.splits)
  from assms obtain selection where sel: "compile_selection_policy (sn_settings facts) = Inr selection"
    unfolding compile_runtime_snapshot_def Let_def m by (simp add: g d q v split: if_splits sum.splits)
  from assms obtain policies where p: "try_fold (compile_policy groups directory
      (ss_request_profiles (sn_settings facts))) (sn_client_policies facts) [] = Inr policies"
    unfolding compile_runtime_snapshot_def Let_def m by (simp add: g d q v sel split: if_splits sum.splits)
  from assms obtain s0 where s0: "runtime_snapshot_new (sn_config_revision facts) selection kinds models policies
      = (Inr s0 :: routing_error + 'a runtime_snapshot)"
    and eq: "rt_providers s = rt_providers s0" "rt_account_directory s = directory"
      "rt_account_selection_policy s = rt_account_selection_policy s0"
      "rt_client_policies s = rt_client_policies s0" "rt_revision s = rt_revision s0"
      "rt_model_mappings s = ss_model_mappings (sn_settings facts)"
    unfolding compile_runtime_snapshot_def Let_def m
    by (auto simp: g d q v sel p split: if_splits sum.splits)
  from s0 obtain policy_map where "try_fold add_provider kinds [] = Inr (rt_providers s0)"
      "try_fold add_policy policies [] = Inr policy_map"
      "rt_client_policies s0 = filter (\<lambda>p. cp_enabled (snd p)) policy_map"
      "rt_account_selection_policy s0 = selection" "rt_revision s0 = sn_config_revision facts"
    by (auto simp: runtime_snapshot_new_def split: sum.splits)
  with that g d p q sel eq show thesis by metis
qed

lemma compile_policy_single:
  assumes "compile_policy groups d profiles p [] = Inr [c]"
  obtains scope off where "compile_scope groups d (scp_group_ids p) = Inr (scope, off)"
    "cp_key_id c = scp_key_id p" "cp_plaintext_key c = scp_plaintext_key p" "cp_enabled c"
    "cp_limits c = scp_limits p"
    "cp_account_scope c =
       with_request_profiles (with_disable_fast scope off) (bt_extend profiles (scp_request_profiles p))"
  using assms by (auto simp: compile_policy_def client_policy_new_def split: sum.splits prod.splits)

lemma scope_decorations [simp]:
  "fs_directory (with_request_profiles (with_disable_fast s b) m) = fs_directory s"
  "scope_admits (with_request_profiles (with_disable_fast s b) m) = scope_admits s"
  "scope_compiled (with_request_profiles (with_disable_fast s b) m) = scope_compiled s"
  "fs_disable_fast (with_request_profiles (with_disable_fast s b) m) = b"
  by (auto simp: with_request_profiles_def with_disable_fast_def scope_admits_def scope_compiled_def
      fun_eq_iff split: client_routing_scope.splits)

text \<open>The scope compiled for the groups of a key admits what the facts say.\<close>

lemma compiled_scope_access:
  assumes g: "try_fold add_group (sn_account_groups facts) [] = Inr groups"
    and d: "compile_directory groups (bs_of_list kinds) (sn_provider_accounts facts) (sn_group_memberships facts)
       = Inr directory"
    and sc: "compile_scope groups directory (scp_group_ids p) = Inr (scope, off)"
  shows "scope_allows (with_request_profiles (with_disable_fast scope off) profiles) aid \<longleftrightarrow> key_may_use facts p aid"
    and "fs_disable_fast (with_request_profiles (with_disable_fast scope off) profiles) = key_fast_disabled facts p"
proof -
  let ?gs = "groups_of_account (sn_group_memberships facts) aid"
  let ?s = "with_request_profiles (with_disable_fast scope off) profiles"
  have admits: "scope_admits scope ((plain_account f)\<lparr>ra_group_ids := ?gs\<rparr>) \<longleftrightarrow>
      scp_group_ids p = [] \<or> (\<exists>g \<in> set (scp_group_ids p).
        (\<exists>x \<in> set (sn_account_groups facts). sg_id x = g \<and> sg_enabled x) \<and> g \<in> set ?gs)" for f
    unfolding compile_scope_facts(2) [OF sc] groups_run_any [OF g] by simp
  have "scope_allows ?s aid \<longleftrightarrow>
      (\<exists>f \<in> set (sn_provider_accounts facts). spa_account_id f = aid
         \<and> scope_admits scope ((plain_account f)\<lparr>ra_group_ids := ?gs\<rparr>))"
    unfolding scope_allows_admits scope_decorations compile_scope_facts(1) [OF sc]
      compile_directory_accounts(1) [OF d] by blast
  then have "scope_allows ?s aid \<longleftrightarrow>
      aid \<in> spa_account_id ` set (sn_provider_accounts facts)
      \<and> (scp_group_ids p = [] \<or> (\<exists>g \<in> set (scp_group_ids p).
           (\<exists>x \<in> set (sn_account_groups facts). sg_id x = g \<and> sg_enabled x) \<and> g \<in> set ?gs))"
    unfolding admits by auto
  then show "scope_allows ?s aid \<longleftrightarrow> key_may_use facts p aid"
    unfolding key_may_use_def list_ex_iff by (auto simp: groups_of_account_def)
  show "fs_disable_fast ?s = key_fast_disabled facts p"
    unfolding scope_decorations compile_scope_facts(4) [OF sc] groups_run_any [OF g]
      key_fast_disabled_def list_ex_iff by auto
qed

text \<open>Every compiled policy stems from the facts of one key, and its scope is well compiled.\<close>

lemma compiled_policy_origin:
  assumes "compile_runtime_snapshot semver facts catalogs kinds = Inr s"
    and "(key, c) \<in> set (rt_client_policies s)"
  shows "\<exists>p \<in> set (sn_client_policies facts).
           cp_key_id c = scp_key_id p \<and> cp_plaintext_key c = scp_plaintext_key p
           \<and> (\<forall>aid. scope_allows (cp_account_scope c) aid \<longleftrightarrow> key_may_use facts p aid)"
    and "scope_compiled (cp_account_scope c)"
    and "fs_directory (cp_account_scope c) = rt_account_directory s"
proof -
  from assms(1) obtain groups directory policies policy_map where
    g: "try_fold add_group (sn_account_groups facts) [] = Inr groups" and
    d: "compile_directory groups (bs_of_list kinds) (sn_provider_accounts facts) (sn_group_memberships facts)
       = Inr directory" and
    p: "try_fold (compile_policy groups directory (ss_request_profiles (sn_settings facts)))
       (sn_client_policies facts) [] = Inr policies" and
    m: "try_fold add_policy policies [] = Inr policy_map" and
    s: "rt_account_directory s = directory" "rt_client_policies s = filter (\<lambda>p. cp_enabled (snd p)) policy_map"
    by (rule compile_stages) blast
  have "set policy_map \<subseteq> (\<lambda>c. (cp_key_id c, c)) ` set policies"
    by (rule try_fold_invariant [where P = "\<lambda>m. set m \<subseteq> (\<lambda>c. (cp_key_id c, c)) ` set policies", OF _ _ m])
      (auto simp: add_policy_def dest: set_bt_insert_sub [THEN subsetD] split: if_splits)
  with assms(2) s(2) have "c \<in> set policies" by auto
  then obtain q where q: "q \<in> set (sn_client_policies facts)"
    "compile_policy groups directory (ss_request_profiles (sn_settings facts)) q [] = Inr [c]"
    using policies_run [OF p] by auto
  from q(2) obtain scope off where sc: "compile_scope groups directory (scp_group_ids q) = Inr (scope, off)"
    and c: "cp_key_id c = scp_key_id q" "cp_plaintext_key c = scp_plaintext_key q"
      "cp_account_scope c = with_request_profiles (with_disable_fast scope off)
       (bt_extend (ss_request_profiles (sn_settings facts)) (scp_request_profiles q))"
    by (rule compile_policy_single) blast
  show "\<exists>p \<in> set (sn_client_policies facts).
           cp_key_id c = scp_key_id p \<and> cp_plaintext_key c = scp_plaintext_key p
           \<and> (\<forall>aid. scope_allows (cp_account_scope c) aid \<longleftrightarrow> key_may_use facts p aid)"
    using q(1) c compiled_scope_access(1) [OF g d sc] by auto
  show "scope_compiled (cp_account_scope c)"
    using compile_scope_facts(3) [OF sc] compile_directory_accounts(2,3) [OF d] by (simp add: c)
  show "fs_directory (cp_account_scope c) = rt_account_directory s"
    using compile_scope_facts(1) [OF sc] by (simp add: c s)
qed

text \<open>
  C14. Compilation preserves authorisation: in a snapshot that compiles, every client key of the
  facts has its policy, with its own secret and limits, and the policy's scope allows an account
  exactly when the persistent groups and memberships say so; the fast tier is off exactly when one
  of the key's groups, enabled or not, turns it off.
\<close>

theorem compiled_key_access:
  assumes "compile_runtime_snapshot semver facts catalogs kinds = Inr s"
    and "p \<in> set (sn_client_policies facts)"
  shows "\<exists>c. map_of (rt_client_policies s) (scp_key_id p) = Some c
           \<and> cp_plaintext_key c = scp_plaintext_key p \<and> cp_limits c = scp_limits p
           \<and> (\<forall>aid. scope_allows (cp_account_scope c) aid \<longleftrightarrow> key_may_use facts p aid)
           \<and> fs_disable_fast (cp_account_scope c) = key_fast_disabled facts p"
proof -
  from assms(1) obtain groups directory policies policy_map where
    g: "try_fold add_group (sn_account_groups facts) [] = Inr groups" and
    d: "compile_directory groups (bs_of_list kinds) (sn_provider_accounts facts) (sn_group_memberships facts)
       = Inr directory" and
    p: "try_fold (compile_policy groups directory (ss_request_profiles (sn_settings facts)))
       (sn_client_policies facts) [] = Inr policies" and
    m: "try_fold add_policy policies [] = Inr policy_map" and
    s: "rt_client_policies s = filter (\<lambda>p. cp_enabled (snd p)) policy_map"
    by (rule compile_stages) blast
  from policies_run [OF p] assms(2) obtain c where c: "c \<in> set policies"
    "compile_policy groups directory (ss_request_profiles (sn_settings facts)) p [] = Inr [c]" by blast
  from c(2) obtain scope off where sc: "compile_scope groups directory (scp_group_ids p) = Inr (scope, off)"
    and c': "cp_key_id c = scp_key_id p" "cp_plaintext_key c = scp_plaintext_key p" "cp_enabled c"
      "cp_limits c = scp_limits p" "cp_account_scope c =
       with_request_profiles (with_disable_fast scope off) (bt_extend (ss_request_profiles (sn_settings facts))
         (scp_request_profiles p))"
    by (rule compile_policy_single)
  have "map_of policy_map (scp_key_id p) = Some c"
    using policy_index.run_lookup_item [OF m c(1)] c' by simp
  then have "map_of (rt_client_policies s) (scp_key_id p) = Some c"
    unfolding s using map_of_filter_in [of policy_map _ c "\<lambda>_ c. cp_enabled c"] c'(3)
    by (simp add: case_prod_unfold)
  moreover have "scope_allows (cp_account_scope c) aid \<longleftrightarrow> key_may_use facts p aid" for aid
    unfolding c' by (rule compiled_scope_access(1) [OF g d sc])
  moreover have "fs_disable_fast (cp_account_scope c) = key_fast_disabled facts p"
    unfolding c' by (rule compiled_scope_access(2) [OF g d sc])
  ultimately show ?thesis using c' by blast
qed

text \<open>
  The providers a compiled key is routed to are registered with the snapshot, and are exactly
  those of the accounts its scope allows.
\<close>

theorem compiled_key_providers:
  assumes "compile_runtime_snapshot semver facts catalogs kinds = Inr s"
    and "(key, c) \<in> set (rt_client_policies s)"
  shows "set (frozen_provider_kinds (cp_account_scope c)) \<subseteq> set (rt_providers s)
     \<and> (k \<in> set (frozen_provider_kinds (cp_account_scope c)) \<longleftrightarrow>
          (\<exists>aid a. directory_account (rt_account_directory s) aid = Some a
             \<and> scope_allows (cp_account_scope c) aid \<and> ra_provider_kind a = k))"
proof -
  note sc = compiled_policy_origin(2,3) [OF assms]
  have exact: "k \<in> set (frozen_provider_kinds (cp_account_scope c)) \<longleftrightarrow>
           (\<exists>aid a. directory_account (rt_account_directory s) aid = Some a
              \<and> scope_allows (cp_account_scope c) aid \<and> ra_provider_kind a = k)" for k
    using compiled_scope_kinds [OF sc(1)] sc(2) by simp
  from assms(1) obtain groups directory where
    d: "compile_directory groups (bs_of_list kinds) (sn_provider_accounts facts) (sn_group_memberships facts)
       = Inr directory" and
    ps: "try_fold add_provider kinds [] = Inr (rt_providers s)" and
    s: "rt_account_directory s = directory"
    by (rule compile_stages) blast
  have "set kinds = dom (set_lookup (rt_providers s))"
    unfolding provider_index.run_dom [OF ps] by (auto simp: set_lookup_def)
  then have "set kinds = set (rt_providers s)" by (auto simp: set_lookup_def split: if_splits)
  with exact compile_directory_accounts(4) [OF d]
  have "set (frozen_provider_kinds (cp_account_scope c)) \<subseteq> set (rt_providers s)"
    by (auto simp: s)
  with exact show ?thesis by blast
qed

definition published_by :: "(string \<Rightarrow> 'v option) \<Rightarrow> compile_round \<Rightarrow> 'v runtime_snapshot \<Rightarrow> bool" where
  "published_by semver r s =
     (case cr_facts r of
        None \<Rightarrow> False
      | Some facts \<Rightarrow>
          sn_config_revision facts = sn_observed_current_revision facts
          \<and> rt_revision s = sn_config_revision facts
          \<and> cr_generations r = cr_observed_generations r
          \<and> rt_provider_catalog_generations s = cr_generations r)"

lemma compile_attempts_Inr:
  "compile_attempts semver rs = Inr s \<Longrightarrow>
     \<exists>i < length rs. published_by semver (rs ! i) s
       \<and> (\<forall>j < i. cr_generations (rs ! j) \<noteq> cr_observed_generations (rs ! j))"
proof (induction rs)
  case Nil
  then show ?case by simp
next
  case (Cons r rs)
  from Cons.prems obtain facts t where f: "cr_facts r = Some facts"
    "sn_config_revision facts = sn_observed_current_revision facts"
    and t: "compile_runtime_snapshot semver facts (cr_catalogs r) (map fst (cr_generations r)) = Inr t"
    by (auto split: option.splits if_splits sum.splits)
  show ?case
  proof (cases "cr_generations r = cr_observed_generations r")
    case True
    from t have "rt_revision t = sn_config_revision facts" by (rule compile_stages)
    with Cons.prems f t True show ?thesis
      by (intro exI [of _ 0]) (auto simp: published_by_def)
  next
    case False
    with Cons.prems f t have "compile_attempts semver rs = Inr s" by simp
    from Cons.IH [OF this] obtain i where "i < length rs" "published_by semver (rs ! i) s"
      "\<forall>j < i. cr_generations (rs ! j) \<noteq> cr_observed_generations (rs ! j)" by blast
    with False show ?thesis by (intro exI [of _ "Suc i"]) (auto simp: less_Suc_eq_0_disj)
  qed
qed

text \<open>
  A snapshot is published only from one consistent reading: one of the first four attempts read
  facts whose revision was current, compiled them, and saw the same catalog generations before and
  after, which the snapshot records; every earlier attempt was discarded because a catalog changed.
\<close>

theorem snapshot_compile_stable:
  assumes "snapshot_compile semver rounds = Inr s"
  shows "\<exists>i < maximum_catalog_stability_attempts. published_by semver (rounds i) s
           \<and> (\<forall>j < i. cr_generations (rounds j) \<noteq> cr_observed_generations (rounds j))"
proof -
  from assms compile_attempts_Inr [of semver "map rounds [0..<maximum_catalog_stability_attempts]" s]
  obtain i where i: "i < maximum_catalog_stability_attempts"
    and "published_by semver (map rounds [0..<maximum_catalog_stability_attempts] ! i) s"
    and "\<forall>j < i. cr_generations (map rounds [0..<maximum_catalog_stability_attempts] ! j)
           \<noteq> cr_observed_generations (map rounds [0..<maximum_catalog_stability_attempts] ! j)"
    by (auto simp: snapshot_compile_def)
  then show ?thesis by (intro exI [of _ i]) (auto dest: less_trans)
qed

lemma compile_scope_distinct:
  "compile_scope groups d gids = Inr r \<Longrightarrow> distinct gids"
  by (auto simp: compile_scope_def split: if_splits sum.splits dest: bound_index.run_distinct)

lemma policies_run_keys:
  "try_fold (compile_policy groups d profiles) ps acc = Inr out \<Longrightarrow>
     map cp_key_id out = map cp_key_id acc @ map scp_key_id ps"
proof (induction ps arbitrary: acc)
  case Nil
  then show ?case by simp
next
  case (Cons p ps)
  then obtain u where u: "compile_policy groups d profiles p acc = Inr u"
    "try_fold (compile_policy groups d profiles) ps u = Inr out"
    unfolding try_fold_Cons_Inr by auto
  from u(1) have "map cp_key_id u = map cp_key_id acc @ [scp_key_id p]"
    by (auto simp: compile_policy_def client_policy_new_def split: sum.splits prod.splits)
  with Cons.IH [OF u(2)] show ?case by simp
qed

text \<open>
  A compilation succeeds only on facts free of duplicates: groups, accounts, memberships,
  providers and client keys are pairwise different, no key lists a group twice, and every
  membership names a group and an account of the facts.
\<close>

theorem compile_rejects_duplicates:
  assumes "compile_runtime_snapshot semver facts catalogs kinds = Inr s"
  shows "distinct (map sg_id (sn_account_groups facts))
     \<and> distinct (map spa_account_id (sn_provider_accounts facts))
     \<and> distinct (map (\<lambda>m. (sm_group_id m, sm_account_id m)) (sn_group_memberships facts))
     \<and> distinct kinds
     \<and> distinct (map scp_key_id (sn_client_policies facts))
     \<and> list_all (distinct \<circ> scp_group_ids) (sn_client_policies facts)
     \<and> list_all (\<lambda>m. sm_group_id m \<in> set (map sg_id (sn_account_groups facts))
          \<and> sm_account_id m \<in> set (map spa_account_id (sn_provider_accounts facts)))
         (sn_group_memberships facts)"
proof -
  from assms obtain groups directory policies policy_map where
    g: "try_fold add_group (sn_account_groups facts) [] = Inr groups" and
    d: "compile_directory groups (bs_of_list kinds) (sn_provider_accounts facts) (sn_group_memberships facts)
       = Inr directory" and
    p: "try_fold (compile_policy groups directory (ss_request_profiles (sn_settings facts)))
       (sn_client_policies facts) [] = Inr policies" and
    m: "try_fold add_policy policies [] = Inr policy_map" and
    k: "try_fold add_provider kinds [] = Inr (rt_providers s)"
    by (rule compile_stages) blast
  from d obtain ag am mm where
    as: "try_fold (add_account (bs_of_list kinds)) (sn_provider_accounts facts) ([], []) = Inr (ag, am)" and
    ms: "try_fold (add_membership groups am) (sn_group_memberships facts) ([], ag) = Inr mm"
    by (auto simp: compile_directory_def split: sum.splits)
  have members: "bt_has groups (sm_group_id x) \<and> bt_has am (sm_account_id x)"
    if "x \<in> set (sn_group_memberships facts)" for x
    by (rule try_fold_step [OF ms that]) (auto simp: add_membership_def split: if_splits)
  have "dom (map_of groups) = sg_id ` set (sn_account_groups facts)"
    "dom (map_of am) = spa_account_id ` set (sn_provider_accounts facts)"
    using group_index.run_dom [OF g] account_index.run_dom [OF as] by auto
  with members have "list_all (\<lambda>m. sm_group_id m \<in> set (map sg_id (sn_account_groups facts))
          \<and> sm_account_id m \<in> set (map spa_account_id (sn_provider_accounts facts)))
         (sn_group_memberships facts)"
    by (force simp: list_all_iff bt_has_def)
  moreover have "distinct (scp_group_ids q)" if "q \<in> set (sn_client_policies facts)" for q
    using policies_run [OF p] that by (auto elim!: compile_policy_single dest!: bspec compile_scope_distinct)
  then have "list_all (distinct \<circ> scp_group_ids) (sn_client_policies facts)" by (simp add: list_all_iff)
  moreover have "distinct (map scp_key_id (sn_client_policies facts))"
    using policy_index.run_distinct [OF m] policies_run_keys [OF p] by simp
  ultimately show ?thesis
    using group_index.run_distinct [OF g] account_index.run_distinct [OF as]
      membership_index.run_distinct [OF ms] provider_index.run_distinct [OF k]
    by simp
qed

section \<open>Properties: planning\<close>

definition excluded_by :: "routing_context \<Rightarrow> provider_kind \<Rightarrow> bool" where
  "excluded_by ctx k =
     (opt_any (\<lambda>expected. expected \<noteq> k) (rc_required_provider ctx) \<or> k \<in> set (rc_blocked_providers ctx))"

text \<open>The emulated features of a model on a provider, \<open>None\<close> when the provider cannot serve it;
  a model missing from a catalog that is not exhaustive is left to the upstream.\<close>

definition provider_support ::
  "'v runtime_snapshot \<Rightarrow> capability_requirements \<Rightarrow> upstream_model_id \<Rightarrow> provider_kind \<Rightarrow> feature list option" where
  "provider_support s req um k =
     (case Option.bind (map_of (rt_provider_models s) k) (\<lambda>ms. map_of ms um) of
        Some c \<Rightarrow> match_requirements c req
      | None \<Rightarrow> if k \<in> set (rt_exhaustive_provider_catalogs s) then None else Some [])"

definition candidate_of ::
  "'v runtime_snapshot \<Rightarrow> public_model_id \<Rightarrow> capability_requirements \<Rightarrow> frozen_account_scope \<Rightarrow> routing_context
   \<Rightarrow> provider_kind \<Rightarrow> provider_candidate option" where
  "candidate_of s model req scope ctx k =
     (if k \<notin> set (rt_providers s) \<or> excluded_by ctx k then None
      else case upstream_model_for s model of
        Inl _ \<Rightarrow> None
      | Inr um \<Rightarrow> map_option (\<lambda>em. plan_candidate k (Some um) em scope) (provider_support s req um k))"

lemma consider_provider_candidate:
  "consider_provider s model req scope ctx k cs =
     (if k \<in> set (rt_providers s) \<and> \<not> excluded_by ctx k \<and> isl (upstream_model_for s model)
      then Inl InvalidIdentifier
      else Inr (cs @ (case candidate_of s model req scope ctx k of None \<Rightarrow> [] | Some c \<Rightarrow> [c])))"
  by (auto simp: consider_provider_def candidate_of_def excluded_by_def provider_support_def
      split: option.splits sum.splits)

lemma consider_run:
  "try_fold (consider_provider s model req scope ctx) ks cs =
     (if (\<exists>k \<in> set ks. k \<in> set (rt_providers s) \<and> \<not> excluded_by ctx k) \<and> isl (upstream_model_for s model)
      then Inl InvalidIdentifier
      else Inr (cs @ List.map_filter (candidate_of s model req scope ctx) ks))"
  by (induction ks arbitrary: cs)
    (auto simp: consider_provider_candidate List.map_filter_simps split: option.splits)

lemma candidate_of_provider: "candidate_of s model req scope ctx k = Some c \<Longrightarrow> pc_provider c = k"
  by (auto simp: candidate_of_def plan_candidate_def split: if_splits sum.splits)

lemma map_filter_keys:
  assumes "\<And>k c. f k = Some c \<Longrightarrow> key c = k"
  shows "map key (List.map_filter f ks) = filter (\<lambda>k. f k \<noteq> None) ks"
  using assms by (induction ks) (auto simp: List.map_filter_simps split: option.splits)

text \<open>
  C15. A plan tries exactly the providers that can serve the request: those of the frozen account
  scope (or the one required) that are registered, not excluded by the context and whose catalog
  supports the resolved upstream model, each once and in order, with the emulated features its
  catalog reports; the plan freezes the configuration of the snapshot and at least one candidate.
\<close>

theorem plan_request_exact:
  assumes "plan_request s model op scope ctx = Inr p"
  shows "rp_candidates p \<noteq> []
     \<and> (\<exists>um. upstream_model_for s model = Inr um
          \<and> map pc_provider (rp_candidates p) =
              filter (\<lambda>k. k \<in> set (rt_providers s) \<and> \<not> excluded_by ctx k
                \<and> provider_support s (operation_requirements op) um k \<noteq> None) (plan_providers scope ctx)
          \<and> list_all (\<lambda>c. pc_upstream_model c = Some um \<and> pc_account_scope c = scope
                \<and> provider_support s (operation_requirements op) um (pc_provider c) = Some (pc_emulated_features c))
              (rp_candidates p))
     \<and> rp_config_revision p = rt_revision s \<and> rp_account_scope p = scope
     \<and> rp_operation p = operation_kind_of op \<and> rp_max_attempts p = max_request_attempts"
proof -
  let ?f = "candidate_of s model (operation_requirements op) scope ctx"
  let ?cs = "List.map_filter ?f (plan_providers scope ctx)"
  from assms have p: "p = freeze_plan s op scope ?cs" and ne: "?cs \<noteq> []"
    by (auto simp: plan_request_def Let_def consider_run split: if_splits)
  from ne obtain k where "?f k \<noteq> None"
    by (auto simp: List.map_filter_def filter_empty_conv)
  then obtain um where um: "upstream_model_for s model = Inr um"
    by (auto simp: candidate_of_def split: if_splits sum.splits)
  have f: "?f k = (if k \<in> set (rt_providers s) \<and> \<not> excluded_by ctx k
      then map_option (\<lambda>em. plan_candidate k (Some um) em scope) (provider_support s (operation_requirements op) um k)
      else None)" for k
    by (simp add: candidate_of_def um)
  have "map pc_provider ?cs = filter (\<lambda>k. ?f k \<noteq> None) (plan_providers scope ctx)"
    by (rule map_filter_keys) (rule candidate_of_provider)
  also have "\<dots> = filter (\<lambda>k. k \<in> set (rt_providers s) \<and> \<not> excluded_by ctx k
      \<and> provider_support s (operation_requirements op) um k \<noteq> None) (plan_providers scope ctx)"
    by (rule filter_cong) (auto simp: f)
  finally have keys: "map pc_provider ?cs = \<dots>" .
  have "list_all (\<lambda>c. pc_upstream_model c = Some um \<and> pc_account_scope c = scope
      \<and> provider_support s (operation_requirements op) um (pc_provider c) = Some (pc_emulated_features c)) ?cs"
    by (auto simp: list_all_iff List.map_filter_def f plan_candidate_def split: if_splits)
  with keys show ?thesis using um ne by (simp add: p freeze_plan_def)
qed

text \<open>
  A model is reported as not found only on the evidence of complete catalogs: every registered
  provider considered has an exhaustive catalog without the resolved model, so no plan exists
  whichever providers the circuit breakers block.
\<close>

theorem model_not_found_ignores_circuits:
  assumes "plan_request s model op scope ctx = Inl (ModelNotFound m target)"
  shows "m = public_model_str model \<and> target = mapped_model s m
     \<and> list_all (\<lambda>k. k \<in> set (rt_providers s) \<longrightarrow> \<not> contains_public_model_for_provider s model k)
         (plan_providers scope ctx)
     \<and> isl (plan_request s model op scope (ctx\<lparr>rc_blocked_providers := blocked\<rparr>))"
proof -
  let ?scoped = "filter (\<lambda>k. k \<in> set (rt_providers s)) (plan_providers scope ctx)"
  from assms have m: "m = public_model_str model" "target = mapped_model s m"
    and ex: "list_all (\<lambda>k. k \<in> set (rt_exhaustive_provider_catalogs s)
        \<and> \<not> contains_public_model_for_provider s model k) ?scoped"
    by (auto simp: plan_request_def Let_def consider_run split: if_splits)
  let ?ctx = "ctx\<lparr>rc_blocked_providers := blocked\<rparr>"
  have "candidate_of s model (operation_requirements op) scope ?ctx k = None"
    if k: "k \<in> set (plan_providers scope ctx)" for k
  proof (cases "k \<in> set (rt_providers s)")
    case True
    with ex k have e: "k \<in> set (rt_exhaustive_provider_catalogs s)"
      "\<not> contains_public_model_for_provider s model k" by (auto simp: list_all_iff)
    have "Option.bind (map_of (rt_provider_models s) k) (\<lambda>ms. map_of ms um) = None"
      if "upstream_model_for s model = Inr um" for um
    proof -
      have "upstream_model_str um = mapped_model s (public_model_str model)"
        using that by (auto simp: upstream_model_for_def upstream_model_id_new_def checked_id_def
            upstream_model_from_client_wire_def split: if_splits sum.splits)
      with e True show ?thesis
      proof (cases "map_of (rt_provider_models s) k")
        case (Some ms)
        with e True \<open>upstream_model_str um = _\<close> show ?thesis
          by (auto simp: contains_public_model_for_provider_def list_ex_iff map_of_eq_None_iff)
      qed simp
    qed
    then show ?thesis
      using e by (auto simp: candidate_of_def provider_support_def split: sum.splits)
  qed (simp add: candidate_of_def)
  then have "List.map_filter (candidate_of s model (operation_requirements op) scope ?ctx) (plan_providers scope ctx) = []"
    by (simp add: List.map_filter_def filter_empty_conv)
  moreover have "plan_providers scope ?ctx = plan_providers scope ctx" by (simp add: plan_providers_def)
  ultimately have "isl (plan_request s model op scope ?ctx)"
    by (auto simp: plan_request_def Let_def consider_run)
  with m ex show ?thesis by (auto simp: list_all_iff)
qed

section \<open>A sample configuration\<close>

definition group_a :: account_group_id where
  "group_a = AccountGroupId ''grp_0123456789abcdef0123456789abcdef''"

definition sample_facts :: snapshot_facts where
  "sample_facts =
     \<lparr>sn_config_revision = ConfigRevision 7, sn_observed_current_revision = ConfigRevision 7,
      sn_settings = settings_facts_new 2 50 ''smart'' [(''fast'', ''grok-4'')] None None,
      sn_client_policies =
        [client_policy_facts_new (ClientApiKeyId ''key_1'') (PlaintextClientApiKey ''sk-1'') [group_a]
           rate_limits_unlimited],
      sn_account_groups = [account_group_facts_new group_a ''team'' True],
      sn_provider_accounts =
        [provider_account_facts_new (ProviderAccountId ''acct_1'') ''xai'',
         provider_account_facts_new (ProviderAccountId ''acct_2'') ''openai''],
      sn_group_memberships = [\<lparr>sm_group_id = group_a, sm_account_id = ProviderAccountId ''acct_1''\<rparr>]\<rparr>"

definition sample_catalogs :: catalog_answers where
  "sample_catalogs =
     \<lparr>ca_query = (\<lambda>k. if k = ProviderKind ''xai''
        then Some [provider_model_capabilities_new (UpstreamModelId ''grok-4'') (model_capabilities_new [Search] None)]
        else None),
      ca_exhaustive = (\<lambda>_. True)\<rparr>"

definition sample_kinds :: "provider_kind list" where
  "sample_kinds = [ProviderKind ''openai'', ProviderKind ''xai'']"

definition sample_snapshot :: "nat runtime_snapshot" where
  "sample_snapshot =
     (case compile_runtime_snapshot (\<lambda>_. None) sample_facts sample_catalogs sample_kinds of Inr s \<Rightarrow> s)"

text \<open>The compilation of the sample, stage by stage.\<close>

lemma sample_strings [simp]:
  "str_trim ''team'' = ''team''" "length (utf8_chars ''team'') = 4" "has_control ''team'' = False"
  "provider_kind_new ''xai'' = Inr (ProviderKind ''xai'')"
  "provider_kind_new ''openai'' = Inr (ProviderKind ''openai'')"
  "rotation_strategy_parse ''smart'' = Some Smart"
  by code_simp+

lemma sample_groups:
  "try_fold add_group (sn_account_groups sample_facts) [] = Inr [(group_a, account_group_facts_new group_a ''team'' True)]"
  by (simp add: sample_facts_def add_group_def account_group_facts_new_def bt_has_def)

definition sample_directory :: runtime_account_directory where
  "sample_directory = directory_new
     [(ProviderAccountId ''acct_1'', runtime_account_new (ProviderKind ''xai'') [group_a]),
      (ProviderAccountId ''acct_2'', runtime_account_new (ProviderKind ''openai'') [])]"

lemma sample_directory_compiles:
  "compile_directory [(group_a, account_group_facts_new group_a ''team'' True)] (bs_of_list sample_kinds)
     (sn_provider_accounts sample_facts) (sn_group_memberships sample_facts) =
   Inr sample_directory"
  by (simp add: sample_directory_def compile_directory_def sample_facts_def sample_kinds_def bs_of_list_def add_account_def
      provider_account_facts_new_def add_membership_def assign_groups_def bt_has_def
      less_provider_kind_def less_provider_account_id_def
      runtime_account_new_def runtime_account_with_model_access_def)

lemma sample_compilation:
  "\<exists>(s :: nat runtime_snapshot) c.
     compile_runtime_snapshot (\<lambda>_. None) sample_facts sample_catalogs sample_kinds = Inr s
     \<and> rt_client_policies s = [(ClientApiKeyId ''key_1'', c)]
     \<and> rt_providers s = sample_kinds
     \<and> rt_exhaustive_provider_catalogs s = [ProviderKind ''xai'']
     \<and> rt_model_mappings s = [(''fast'', ''grok-4'')]
     \<and> rt_provider_models s =
         [(ProviderKind ''xai'', [(UpstreamModelId ''grok-4'', model_capabilities_new [Search] None)])]"
  unfolding compile_runtime_snapshot_def sample_groups Let_def sum.case sample_directory_compiles
  by (simp add: sample_facts_def settings_facts_new_def queue_settings_ok_def body_limit_ok_def
      parse_min_version_def compile_selection_policy_def compile_request_location_def compile_policy_def
      client_policy_facts_new_def compile_scope_def bind_group_def account_group_facts_new_def
      client_scope_restricted_def sample_kinds_def sample_catalogs_def runtime_snapshot_new_def add_provider_def
      less_provider_kind_def provider_model_capabilities_new_def compile_model_def provider_model_new_def
      add_provider_model_def bt_has_def add_policy_def Let_def client_policy_new_def)

lemma sample_snapshot_facts:
  "compile_runtime_snapshot (\<lambda>_. None) sample_facts sample_catalogs sample_kinds = Inr sample_snapshot"
  "\<exists>c. rt_client_policies sample_snapshot = [(ClientApiKeyId ''key_1'', c)]"
  "rt_providers sample_snapshot = sample_kinds"
  "rt_exhaustive_provider_catalogs sample_snapshot = [ProviderKind ''xai'']"
  "rt_model_mappings sample_snapshot = [(''fast'', ''grok-4'')]"
  "rt_provider_models sample_snapshot =
     [(ProviderKind ''xai'', [(UpstreamModelId ''grok-4'', model_capabilities_new [Search] None)])]"
  using sample_compilation by (auto simp: sample_snapshot_def)

lemmas sample_compiles = sample_snapshot_facts(1)

text \<open>The one compiled policy of the sample, for a request from its key.\<close>

definition sample_round :: compile_round where
  "sample_round =
     \<lparr>cr_generations = map (\<lambda>k. (k, ProviderCatalogGeneration 1)) sample_kinds,
      cr_facts = Some sample_facts, cr_catalogs = sample_catalogs,
      cr_observed_generations = map (\<lambda>k. (k, ProviderCatalogGeneration 1)) sample_kinds\<rparr>"

lemma sample_attempts:
  "snapshot_compile (\<lambda>_. None) (\<lambda>_. sample_round) =
     Inr (sample_snapshot\<lparr>rt_provider_catalog_generations := cr_observed_generations sample_round\<rparr>)"
proof -
  have "[0..<maximum_catalog_stability_attempts] = 0 # [1..<4]"
    by (simp add: maximum_catalog_stability_attempts_def upt_conv_Cons)
  moreover have "map fst (map (\<lambda>k. (k, ProviderCatalogGeneration 1)) sample_kinds) = sample_kinds"
    by (simp add: comp_def)
  moreover have "sn_config_revision sample_facts = sn_observed_current_revision sample_facts"
    by (simp add: sample_facts_def)
  ultimately show ?thesis
    by (simp add: snapshot_compile_def sample_round_def sample_compiles)
qed

lemma sample_facts_key: "sn_client_policies sample_facts = [client_policy_facts_new (ClientApiKeyId ''key_1'')
    (PlaintextClientApiKey ''sk-1'') [group_a] rate_limits_unlimited]"
  by (simp add: sample_facts_def)

definition sample_key :: snapshot_client_policy_facts where
  "sample_key = client_policy_facts_new (ClientApiKeyId ''key_1'') (PlaintextClientApiKey ''sk-1'')
     [group_a] rate_limits_unlimited"

theorem compiled_key_access_witness:
  "\<exists>c. map_of (rt_client_policies sample_snapshot) (ClientApiKeyId ''key_1'') = Some c
     \<and> scope_allows (cp_account_scope c) (ProviderAccountId ''acct_1'')
     \<and> \<not> scope_allows (cp_account_scope c) (ProviderAccountId ''acct_2'')"
proof -
  have "sample_key \<in> set (sn_client_policies sample_facts)"
    by (simp add: sample_facts_key sample_key_def)
  from compiled_key_access [OF sample_compiles this] obtain c where
    "map_of (rt_client_policies sample_snapshot) (scp_key_id sample_key) = Some c"
    and "\<forall>aid. scope_allows (cp_account_scope c) aid \<longleftrightarrow> key_may_use sample_facts sample_key aid"
    by blast
  then show ?thesis
    by (intro exI [of _ c])
      (simp add: key_may_use_def sample_facts_def sample_key_def client_policy_facts_new_def
        account_group_facts_new_def provider_account_facts_new_def)
qed

theorem compiled_key_providers_witness:
  "\<exists>c. rt_client_policies sample_snapshot = [(ClientApiKeyId ''key_1'', c)]
     \<and> set (frozen_provider_kinds (cp_account_scope c)) \<subseteq> set sample_kinds"
proof -
  obtain c where c: "rt_client_policies sample_snapshot = [(ClientApiKeyId ''key_1'', c)]"
    using sample_snapshot_facts(2) by blast
  then have "(ClientApiKeyId ''key_1'', c) \<in> set (rt_client_policies sample_snapshot)" by simp
  from compiled_key_providers [OF sample_compiles this] c show ?thesis
    by (auto simp: sample_snapshot_facts(3))
qed

theorem snapshot_compile_stable_witness:
  "\<exists>i < maximum_catalog_stability_attempts. published_by (\<lambda>_. None :: nat option) sample_round
      (sample_snapshot\<lparr>rt_provider_catalog_generations := cr_observed_generations sample_round\<rparr>)"
  using snapshot_compile_stable [OF sample_attempts] by blast

definition sample_search :: operation where
  "sample_search = OpSearch \<lparr>ss_payload = \<lparr>rjp_protocol = ''openai'', rjp_body = ''{}'', rjp_context = []\<rparr>\<rparr>"

definition sample_full_scope :: frozen_account_scope where
  "sample_full_scope = frozen_scope_new sample_directory AllAccounts"

definition no_circuits :: routing_context where
  "no_circuits = \<lparr>rc_required_provider = None, rc_blocked_providers = []\<rparr>"

lemma sample_mapped:
  "mapped_model sample_snapshot ''fast'' = ''grok-4''" "mapped_model sample_snapshot ''grok-9'' = ''grok-9''"
  by (simp_all add: mapped_model_def sample_snapshot_facts numeral_eq_Suc)

lemma sample_kinds_of_scope: "frozen_provider_kinds sample_full_scope = sample_kinds"
  by (simp add: sample_full_scope_def frozen_scope_new_def frozen_provider_kinds_def sample_directory_def
      directory_new_def sample_kinds_def runtime_account_new_def less_provider_kind_def)

lemma sample_model_ids:
  "upstream_model_id_new ''grok-4'' = Inr (UpstreamModelId ''grok-4'')"
  "upstream_model_from_client_wire ''grok-9'' = Inr (UpstreamModelId ''grok-9'')"
  by code_simp+

lemma sample_plan:
  "\<exists>p. plan_request sample_snapshot (PublicModelId ''fast'') sample_search sample_full_scope no_circuits = Inr p"
  by (simp add: plan_request_def no_circuits_def plan_providers_def sample_kinds_of_scope sample_kinds_def
      consider_provider_def sample_snapshot_facts upstream_model_for_def sample_mapped sample_model_ids bt_has_def
      sample_search_def match_requirements_def requirements_new_def model_capabilities_new_def)

theorem plan_request_exact_witness:
  "\<exists>p. plan_request sample_snapshot (PublicModelId ''fast'') sample_search sample_full_scope no_circuits = Inr p
     \<and> rp_candidates p \<noteq> [] \<and> rp_max_attempts p = max_request_attempts"
proof -
  obtain p where "plan_request sample_snapshot (PublicModelId ''fast'') sample_search sample_full_scope no_circuits = Inr p"
    using sample_plan by blast
  from plan_request_exact [OF this] this show ?thesis by blast
qed

lemma sample_not_found:
  "plan_request sample_snapshot (PublicModelId ''grok-9'') sample_search sample_full_scope
     (no_circuits\<lparr>rc_required_provider := Some (ProviderKind ''xai'')\<rparr>) =
   Inl (ModelNotFound ''grok-9'' ''grok-9'')"
  by (simp add: plan_request_def no_circuits_def plan_providers_def sample_kinds_def
      consider_provider_def sample_snapshot_facts upstream_model_for_def sample_mapped sample_model_ids bt_has_def
      contains_public_model_for_provider_def)

theorem model_not_found_ignores_circuits_witness:
  "isl (plan_request sample_snapshot (PublicModelId ''grok-9'') sample_search sample_full_scope
     \<lparr>rc_required_provider = Some (ProviderKind ''xai''), rc_blocked_providers = [ProviderKind ''xai'']\<rparr>)"
  using model_not_found_ignores_circuits [OF sample_not_found, of "[ProviderKind ''xai'']"]
  by (simp add: no_circuits_def)

theorem compile_rejects_duplicates_witness: "distinct (map spa_account_id (sn_provider_accounts sample_facts))"
  using compile_rejects_duplicates [OF sample_compiles] by blast

end
