(* ===== verification/ProviderStream.thy ===== *)
theory ProviderStream
  imports EngineModel Snapshot
begin

text \<open>
  \<open>engine/provider.rs\<close>: the facts of one provider call, the stream wrapper every provider answers
  through (order validation, fused termination, account feedback) and the provider registry with
  its catalog port; and \<open>engine/admission.rs\<close>: the recovery of client admissions at start-up.
  The polled inner stream, the monotonic clock and the registered providers are inputs.
\<close>

section \<open>Call facts\<close>

record provider_selection_observation =
  pso_account_selection_wait_ms :: nat
  pso_capacity :: "account_capacity_snapshot option"

record provider_call_metadata =
  pcm_provider :: provider_kind
  pcm_upstream_model :: "upstream_model_id option"
  pcm_provider_account_id :: provider_account_id
  pcm_upstream_request_id :: "opaque_upstream_value option"
  pcm_transport :: upstream_transport
  pcm_selection_observation :: "provider_selection_observation option"

definition call_metadata_new ::
  "provider_kind \<Rightarrow> upstream_model_id \<Rightarrow> provider_account_id \<Rightarrow> upstream_transport \<Rightarrow> provider_call_metadata" where
  "call_metadata_new p m a t =
     \<lparr>pcm_provider = p, pcm_upstream_model = Some m, pcm_provider_account_id = a,
      pcm_upstream_request_id = None, pcm_transport = t, pcm_selection_observation = None\<rparr>"

definition call_metadata_for_provider_endpoint ::
  "provider_kind \<Rightarrow> provider_account_id \<Rightarrow> upstream_transport \<Rightarrow> provider_call_metadata" where
  "call_metadata_for_provider_endpoint p a t =
     \<lparr>pcm_provider = p, pcm_upstream_model = None, pcm_provider_account_id = a,
      pcm_upstream_request_id = None, pcm_transport = t, pcm_selection_observation = None\<rparr>"

definition metadata_with_upstream_request_id ::
  "provider_call_metadata \<Rightarrow> opaque_upstream_value \<Rightarrow> provider_call_metadata" where
  "metadata_with_upstream_request_id m rid = m\<lparr>pcm_upstream_request_id := Some rid\<rparr>"

definition metadata_with_selection_observation ::
  "provider_call_metadata \<Rightarrow> provider_selection_observation \<Rightarrow> provider_call_metadata" where
  "metadata_with_selection_observation m ob = m\<lparr>pcm_selection_observation := Some ob\<rparr>"

definition metadata_confirms :: "provider_call_metadata \<Rightarrow> provider_candidate \<Rightarrow> bool" where
  "metadata_confirms m c = (pc_provider c = pcm_provider m \<and> pc_upstream_model c = pcm_upstream_model m)"

section \<open>Account feedback of a stream\<close>

record stream_feedback =
  sfb_failure_filter :: "provider_error \<Rightarrow> bool"
  sfb_started_at :: "instant option"
  sfb_first_output_ms :: "nat option"
  sfb_reported :: bool

definition stream_feedback_new :: "(provider_error \<Rightarrow> bool) \<Rightarrow> stream_feedback" where
  "stream_feedback_new failure_filter =
     \<lparr>sfb_failure_filter = failure_filter, sfb_started_at = None, sfb_first_output_ms = None,
      sfb_reported = False\<rparr>"

definition feedback_start :: "instant \<Rightarrow> stream_feedback \<Rightarrow> stream_feedback" where
  "feedback_start now f = f\<lparr>sfb_started_at := get_or_insert now (sfb_started_at f)\<rparr>"

fun is_output :: "gateway_event \<Rightarrow> bool" where
  "is_output (EvTextDelta _) = True"
| "is_output (EvReasoningDelta _) = True"
| "is_output (EvToolCallDelta _) = True"
| "is_output _ = False"

definition feedback_observe :: "instant \<Rightarrow> provider_event \<Rightarrow> stream_feedback \<Rightarrow> stream_feedback" where
  "feedback_observe now event f =
     (if sfb_first_output_ms f \<noteq> None \<or> \<not> list_ex is_output (pe_canonical event) then f
      else case sfb_started_at f of
        None \<Rightarrow> f
      | Some started_at \<Rightarrow> f\<lparr>sfb_first_output_ms := Some (min u64_max (as_millis (now - started_at)))\<rparr>)"

text \<open>The reports return the feedback they hand to the shared statistics, if any.\<close>

definition report_success :: "stream_feedback \<Rightarrow> stream_feedback \<times> account_attempt_feedback option" where
  "report_success f =
     (if sfb_reported f then (f, None)
      else (f\<lparr>sfb_reported := True\<rparr>, Some (FbSucceeded (sfb_first_output_ms f))))"

definition scorable_failure :: "stream_feedback \<Rightarrow> provider_error \<Rightarrow> bool" where
  "scorable_failure f error =
     (\<not> (err_send_state error \<noteq> Sent
         \<or> err_kind error \<in> {PkCancelled, PkProcessTerminated}
         \<or> (case err_pre_delivery_retry error of
              Some (SameAccountTransportRetry _ _) \<Rightarrow> True
            | Some SameAccountTransportFallback \<Rightarrow> True
            | _ \<Rightarrow> False)
         \<or> err_retry_same_account error
         \<or> \<not> sfb_failure_filter f error))"

definition report_failure ::
  "provider_error \<Rightarrow> stream_feedback \<Rightarrow> stream_feedback \<times> account_attempt_feedback option" where
  "report_failure error f =
     (if sfb_reported f \<or> \<not> scorable_failure f error then (f, None)
      else
        (f\<lparr>sfb_reported := True\<rparr>,
         Some (if err_kind error = PkUpstreamCapacityUnavailable
               then FbCapacityRejected (sfb_first_output_ms f)
               else FbFailed (sfb_first_output_ms f))))"

section \<open>The stream wrapper\<close>

record provider_stream =
  ps_metadata :: provider_call_metadata
  ps_feedback :: "stream_feedback option"
  ps_validator :: event_sequence_validator
  ps_strict_canonical_seen :: bool
  ps_terminated :: bool

definition provider_stream_new :: "provider_call_metadata \<Rightarrow> provider_stream" where
  "provider_stream_new metadata =
     \<lparr>ps_metadata = metadata, ps_feedback = None, ps_validator = validator_new,
      ps_strict_canonical_seen = False, ps_terminated = False\<rparr>"

definition with_filtered_account_feedback :: "provider_stream \<Rightarrow> (provider_error \<Rightarrow> bool) \<Rightarrow> provider_stream" where
  "with_filtered_account_feedback s failure_filter =
     s\<lparr>ps_feedback := Some (stream_feedback_new failure_filter)\<rparr>"

definition with_account_feedback :: "provider_stream \<Rightarrow> provider_stream" where
  "with_account_feedback s = with_filtered_account_feedback s (\<lambda>_. True)"

datatype inner_poll = InnerPending | InnerItem "provider_error + provider_event" | InnerEnd

datatype poll_result = PollPending | PollReady "(provider_error + provider_event) option"

fun observe_facts :: "gateway_event list \<Rightarrow> event_sequence_validator \<Rightarrow> bool \<times> event_sequence_validator" where
  "observe_facts [] v = (True, v)"
| "observe_facts (e # es) v =
     (case validator_observe v e of
        (Inl _, v') \<Rightarrow> (False, v')
      | (Inr _, v') \<Rightarrow> observe_facts es v')"

definition protocol_error :: provider_error where
  "protocol_error = provider_error_new PkProtocol Sent"

definition feed ::
  "(stream_feedback \<Rightarrow> stream_feedback \<times> account_attempt_feedback option) \<Rightarrow> provider_stream
   \<Rightarrow> provider_stream \<times> account_attempt_feedback option" where
  "feed report s =
     (case ps_feedback s of
        None \<Rightarrow> (s, None)
      | Some f \<Rightarrow> (case report f of (f', r) \<Rightarrow> (s\<lparr>ps_feedback := Some f'\<rparr>, r)))"

text \<open>
  \<open>now\<close> is the clock when the poll starts, \<open>later\<close> when the inner stream has answered.
\<close>

definition stream_poll ::
  "instant \<Rightarrow> instant \<Rightarrow> inner_poll \<Rightarrow> provider_stream
   \<Rightarrow> provider_stream \<times> poll_result \<times> account_attempt_feedback option" where
  "stream_poll now later answer s =
     (if ps_terminated s then (s, PollReady None, None)
      else
        let s = s\<lparr>ps_feedback := map_option (feedback_start now) (ps_feedback s)\<rparr>
        in case answer of
          InnerPending \<Rightarrow> (s, PollPending, None)
        | InnerItem (Inr event) \<Rightarrow>
            (let strict = pe_wire event = None \<and> pe_canonical event \<noteq> [];
                 (ok, v) = (if strict then observe_facts (pe_canonical event) (ps_validator s)
                            else (True, ps_validator s));
                 s = s\<lparr>ps_strict_canonical_seen := ps_strict_canonical_seen s \<or> strict, ps_validator := v\<rparr>
             in if \<not> ok then
                  (case feed (report_failure protocol_error) (s\<lparr>ps_terminated := True\<rparr>) of
                     (s', r) \<Rightarrow> (s', PollReady (Some (Inl protocol_error)), r))
                else
                  (s\<lparr>ps_feedback := map_option (feedback_observe later event) (ps_feedback s)\<rparr>,
                   PollReady (Some (Inr event)), None))
        | InnerItem (Inl error) \<Rightarrow>
            (case feed (report_failure error) (s\<lparr>ps_terminated := True\<rparr>) of
               (s', r) \<Rightarrow> (s', PollReady (Some (Inl error)), r))
        | InnerEnd \<Rightarrow>
            (let s = s\<lparr>ps_terminated := True\<rparr>
             in if ps_strict_canonical_seen s \<and> validator_finish (ps_validator s) \<noteq> Inr ()
                then (case feed (report_failure protocol_error) s of
                        (s', r) \<Rightarrow> (s', PollReady (Some (Inl protocol_error)), r))
                else (case feed report_success s of (s', r) \<Rightarrow> (s', PollReady None, r))))"

type_synonym poll_input = "instant \<times> instant \<times> inner_poll"
type_synonym poll_output = "poll_result \<times> account_attempt_feedback option"

fun run_polls :: "poll_input list \<Rightarrow> provider_stream \<Rightarrow> poll_output list" where
  "run_polls [] s = []"
| "run_polls ((now, later, a) # ins) s =
     (case stream_poll now later a s of (s', out, r) \<Rightarrow> (out, r) # run_polls ins s')"

section \<open>The registry\<close>

text \<open>What the registry asks of a provider outside of a request.\<close>

record provider_facade =
  pf_name :: string
  pf_catalog_generation :: provider_catalog_generation
  pf_catalog_exhaustive :: bool
  pf_query_model_capabilities :: "provider_model_capabilities list option"

datatype registry_error = InvalidName | DuplicateProvider string

type_synonym provider_registry = "(provider_kind, provider_facade) btree"

definition registry_register :: "provider_facade \<Rightarrow> provider_registry \<Rightarrow> registry_error + provider_registry" where
  "registry_register p reg =
     (case provider_kind_new (pf_name p) of
        Inl _ \<Rightarrow> Inl InvalidName
      | Inr kind \<Rightarrow>
          if bt_has reg kind then Inl (DuplicateProvider (pk_str kind)) else Inr (bt_insert kind p reg))"

definition registry_new :: "provider_facade list \<Rightarrow> registry_error + provider_registry" where
  "registry_new ps = try_fold registry_register ps []"

definition registry_catalog_generations ::
  "provider_registry \<Rightarrow> (provider_kind, provider_catalog_generation) btree" where
  "registry_catalog_generations reg = map (\<lambda>(kind, p). (kind, pf_catalog_generation p)) reg"

definition registry_exhaustive :: "provider_registry \<Rightarrow> provider_kind \<Rightarrow> bool" where
  "registry_exhaustive reg kind =
     (case map_of reg kind of None \<Rightarrow> True | Some p \<Rightarrow> pf_catalog_exhaustive p)"

definition registry_query_model_capabilities ::
  "provider_registry \<Rightarrow> provider_kind \<Rightarrow> provider_model_capabilities list option" where
  "registry_query_model_capabilities reg kind =
     Option.bind (map_of reg kind) pf_query_model_capabilities"

definition registry_catalogs :: "provider_registry \<Rightarrow> catalog_answers" where
  "registry_catalogs reg =
     \<lparr>ca_query = registry_query_model_capabilities reg, ca_exhaustive = registry_exhaustive reg\<rparr>"

section \<open>Admission recovery\<close>

record client_admission_recovery =
  car_client_api_key_id :: client_api_key_id
  car_recent_requests :: "(model_request_id \<times> systime) list"
  car_running_requests :: "(model_request_id \<times> systime) list"

record admission_restore_result =
  arr_recent :: nat
  arr_running :: nat

record admission_recovery_report =
  rep_expired_model_requests :: nat
  rep_restored_clients :: nat
  rep_restored_recent_requests :: nat
  rep_restored_running_requests :: nat

fun restore_all ::
  "(client_admission_recovery \<Rightarrow> admission_restore_result option) \<Rightarrow> client_admission_recovery list
   \<Rightarrow> nat \<times> nat \<Rightarrow> (nat \<times> nat) option" where
  "restore_all restore [] totals = Some totals"
| "restore_all restore (r # rs) totals =
     (case restore r of
        None \<Rightarrow> None
      | Some res \<Rightarrow>
          restore_all restore rs
            (saturating_add u64_max (fst totals) (arr_recent res),
             saturating_add u64_max (snd totals) (arr_running res)))"

text \<open>\<open>None\<close> is the one error of the admission port; the stores answer through the arguments.\<close>

definition restore_client_admission_startup ::
  "(systime \<Rightarrow> nat option) \<Rightarrow> (systime \<Rightarrow> client_admission_recovery list option)
   \<Rightarrow> (client_admission_recovery \<Rightarrow> admission_restore_result option) \<Rightarrow> systime
   \<Rightarrow> admission_recovery_report option" where
  "restore_client_admission_startup recover_expired load_recovery restore now =
     do {
       expired \<leftarrow> recover_expired now;
       since \<leftarrow> time_checked_sub now (of_secs 61);
       recoveries \<leftarrow> load_recovery since;
       (recent, running) \<leftarrow> restore_all restore recoveries (0, 0);
       Some \<lparr>rep_expired_model_requests = expired,
             rep_restored_clients = min u64_max (length recoveries),
             rep_restored_recent_requests = recent, rep_restored_running_requests = running\<rparr>
     }"


section \<open>What a stream delivers\<close>

text \<open>The strict facts of an output, the outputs that end a stream, and the feedback reported.\<close>

fun output_facts :: "poll_result \<Rightarrow> gateway_event list" where
  "output_facts (PollReady (Some (Inr event))) = (if pe_wire event = None then pe_canonical event else [])"
| "output_facts _ = []"

fun is_final :: "poll_result \<Rightarrow> bool" where
  "is_final (PollReady None) = True"
| "is_final (PollReady (Some (Inl _))) = True"
| "is_final _ = False"

definition strict_facts :: "poll_output list \<Rightarrow> gateway_event list" where
  "strict_facts outs = concat (map (output_facts \<circ> fst) outs)"

definition reports :: "poll_output list \<Rightarrow> account_attempt_feedback list" where
  "reports outs = concat (map (\<lambda>(_, r). case r of None \<Rightarrow> [] | Some f \<Rightarrow> [f]) outs)"

lemma strict_facts_simps [simp]:
  "strict_facts [] = []" "strict_facts (o' # outs) = output_facts (fst o') @ strict_facts outs"
  by (simp_all add: strict_facts_def)

lemma reports_simps [simp]:
  "reports [] = []" "reports ((out, None) # outs) = reports outs"
  "reports ((out, Some f) # outs) = f # reports outs"
  by (simp_all add: reports_def)

lemma observe_facts_fold: "observe_facts es v = (True, w) \<longleftrightarrow> try_fold validate_event es v = Inr w"
  by (induction es arbitrary: v) (auto simp: validate_event_def split: prod.splits sum.splits)

lemma feed_frame:
  "feed report s = (s', r) \<Longrightarrow>
     ps_validator s' = ps_validator s \<and> ps_strict_canonical_seen s' = ps_strict_canonical_seen s
     \<and> ps_terminated s' = ps_terminated s"
  by (auto simp: feed_def split: option.splits prod.splits)

lemma poll_frame:
  assumes "stream_poll now later a s = (s', out, r)" and "\<not> ps_terminated s"
  shows poll_terminated: "ps_terminated s' \<longleftrightarrow> is_final out"
    and poll_facts: "is_final out \<or> try_fold validate_event (output_facts out) (ps_validator s) = Inr (ps_validator s')"
    and poll_seen: "is_final out \<or> (ps_strict_canonical_seen s' \<longleftrightarrow> ps_strict_canonical_seen s \<or> output_facts out \<noteq> [])"
    and poll_end: "out = PollReady None \<Longrightarrow> ps_strict_canonical_seen s \<Longrightarrow> validator_finish (ps_validator s) = Inr ()"
  using assms
  by (auto simp: stream_poll_def Let_def observe_facts_fold dest!: feed_frame
      split: inner_poll.splits sum.splits prod.splits if_splits)

lemma run_terminated:
  "ps_terminated s \<Longrightarrow> run_polls ins s = replicate (length ins) (PollReady None, None)"
  by (induction ins) (auto simp: stream_poll_def)

lemma idle_outputs [simp]:
  "strict_facts (replicate n (PollReady None, None)) = []"
  "reports (replicate n (PollReady None, None)) = []"
  by (induction n) simp_all

definition ending :: "poll_output list \<Rightarrow> poll_output option" where
  "ending outs = List.find (is_final \<circ> fst) outs"

definition clean_end :: "poll_output list \<Rightarrow> bool" where
  "clean_end outs = (map_option fst (ending outs) = Some (PollReady None))"

lemma run_facts:
  "\<not> ps_terminated s \<Longrightarrow>
     \<exists>v. try_fold validate_event (strict_facts (run_polls ins s)) (ps_validator s) = Inr v
       \<and> (clean_end (run_polls ins s) \<and> (ps_strict_canonical_seen s \<or> strict_facts (run_polls ins s) \<noteq> [])
            \<longrightarrow> validator_finish v = Inr ())"
proof (induction ins arbitrary: s)
  case Nil
  then show ?case by (simp add: clean_end_def ending_def)
next
  case (Cons i ins)
  obtain now later a where i: "i = (now, later, a)" by (cases i) auto
  obtain s' out r where p: "stream_poll now later a s = (s', out, r)" by (metis prod_cases3)
  note poll = poll_frame [OF p Cons.prems]
  show ?case
  proof (cases "is_final out")
    case True
    then have "output_facts out = []" by (cases out rule: is_final.cases) auto
    moreover have "ps_terminated s'" using True poll(1) by simp
    ultimately show ?thesis
      using poll(4) True by (auto simp: i p run_terminated clean_end_def ending_def)
  next
    case False
    with poll have t: "\<not> ps_terminated s'"
      and f: "try_fold validate_event (output_facts out) (ps_validator s) = Inr (ps_validator s')"
      and seen: "ps_strict_canonical_seen s' \<longleftrightarrow> ps_strict_canonical_seen s \<or> output_facts out \<noteq> []"
      by auto
    from Cons.IH [OF t] f seen False show ?thesis
      by (auto simp: i p try_fold_append clean_end_def ending_def)
  qed
qed

lemma run_fused:
  "\<not> ps_terminated s \<Longrightarrow>
     list_all (\<lambda>out. out = (PollReady None, None)) (tl (dropWhile (\<lambda>out. \<not> is_final (fst out)) (run_polls ins s)))"
proof (induction ins arbitrary: s)
  case Nil
  then show ?case by simp
next
  case (Cons i ins)
  obtain now later a where i: "i = (now, later, a)" by (cases i) auto
  obtain s' out r where p: "stream_poll now later a s = (s', out, r)" by (metis prod_cases3)
  from poll_terminated [OF p Cons.prems] Cons.IH [of s'] show ?case
    by (cases "is_final out") (auto simp: i p run_terminated list_all_iff)
qed

text \<open>
  C26. What a provider stream hands to its consumer: the wire-free canonical facts are at every
  moment accepted by the event validator, and when the stream ends without an error they are either
  absent or one complete canonical stream; after the first end or error there is only the end.
\<close>

theorem stream_delivers_canonical:
  fixes ins m
  defines "outs \<equiv> run_polls ins (provider_stream_new m)"
  shows "(case validate_stream (strict_facts outs) of Inl _ \<Rightarrow> False | Inr _ \<Rightarrow> True)
     \<and> (if clean_end outs then strict_facts outs = [] \<or> canonical_stream (strict_facts outs) else True)
     \<and> list_all (\<lambda>out. out = (PollReady None, None)) (tl (dropWhile (\<lambda>out. \<not> is_final (fst out)) outs))"
proof -
  have t: "\<not> ps_terminated (provider_stream_new m)" by (simp add: provider_stream_new_def)
  from run_facts [OF t, of ins, folded outs_def]
  obtain v where v: "validate_stream (strict_facts outs) = Inr v"
      "clean_end outs \<and> strict_facts outs \<noteq> [] \<longrightarrow> validator_finish v = Inr ()"
    by (auto simp: provider_stream_new_def validate_stream_def)
  moreover have "list_all (\<lambda>out. out = (PollReady None, None)) (tl (dropWhile (\<lambda>out. \<not> is_final (fst out)) outs))"
    unfolding outs_def by (rule run_fused) (rule t)
  ultimately show ?thesis
    using validated_canonical [of "strict_facts outs"] by auto
qed

section \<open>Account feedback\<close>

fun is_success :: "account_attempt_feedback \<Rightarrow> bool" where
  "is_success (FbSucceeded _) = True"
| "is_success _ = False"

text \<open>The feedback an output may carry when the failures that count are those of \<open>failure_filter\<close>.\<close>

fun justified :: "(provider_error \<Rightarrow> bool) \<Rightarrow> poll_output \<Rightarrow> bool" where
  "justified failure_filter (_, None) = True"
| "justified failure_filter (PollReady None, Some f) = is_success f"
| "justified failure_filter (PollReady (Some (Inl error)), Some f) =
     (\<not> is_success f \<and> scorable_failure (stream_feedback_new failure_filter) error)"
| "justified failure_filter _ = False"

definition watching :: "(provider_error \<Rightarrow> bool) \<Rightarrow> provider_stream \<Rightarrow> bool" where
  "watching failure_filter s =
     (\<not> ps_terminated s
      \<and> (\<exists>f. ps_feedback s = Some f \<and> sfb_failure_filter f = failure_filter \<and> \<not> sfb_reported f))"

lemma scorable_filter [simp]:
  "scorable_failure (stream_feedback_new (sfb_failure_filter f)) error = scorable_failure f error"
  by (simp add: scorable_failure_def stream_feedback_new_def)

lemma scorable_frame [simp]:
  "scorable_failure (feedback_start now f) = scorable_failure f"
  "scorable_failure (feedback_observe now event f) = scorable_failure f"
  by (rule ext, simp add: scorable_failure_def feedback_start_def feedback_observe_def split: option.split)+

lemma feedback_frame [simp]:
  "sfb_failure_filter (feedback_start now f) = sfb_failure_filter f"
  "sfb_reported (feedback_start now f) = sfb_reported f"
  "sfb_failure_filter (feedback_observe now event f) = sfb_failure_filter f"
  "sfb_reported (feedback_observe now event f) = sfb_reported f"
  by (simp_all add: feedback_start_def feedback_observe_def split: option.split)

lemma poll_watching:
  assumes "stream_poll now later a s = (s', out, r)" and "watching failure_filter s"
  shows poll_justified: "justified failure_filter (out, r)"
    and poll_unfinished: "is_final out \<or> watching failure_filter s' \<and> r = None"
    and poll_success: "out = PollReady None \<Longrightarrow> \<exists>ms. r = Some (FbSucceeded ms)"
proof -
  obtain f where f: "ps_feedback s = Some f" "failure_filter = sfb_failure_filter f" "\<not> sfb_reported f"
    and t: "\<not> ps_terminated s"
    using assms(2) by (auto simp: watching_def)
  note unfold = stream_poll_def Let_def feed_def report_success_def report_failure_def watching_def f t
  show "justified failure_filter (out, r)"
    using assms(1)
    by (auto simp: unfold split: inner_poll.splits sum.splits prod.splits if_splits)
  show "is_final out \<or> watching failure_filter s' \<and> r = None"
    using assms(1)
    by (auto simp: unfold split: inner_poll.splits sum.splits prod.splits if_splits)
  show "\<exists>ms. r = Some (FbSucceeded ms)" if "out = PollReady None"
    using assms(1) that
    by (auto simp: unfold split: inner_poll.splits sum.splits prod.splits if_splits)
qed

lemma run_feedback:
  "watching failure_filter s \<Longrightarrow>
     length (reports (run_polls ins s)) \<le> 1 \<and> list_all (justified failure_filter) (run_polls ins s)
     \<and> (clean_end (run_polls ins s) \<longleftrightarrow> list_ex is_success (reports (run_polls ins s)))"
proof (induction ins arbitrary: s)
  case Nil
  then show ?case by (simp add: clean_end_def ending_def)
next
  case (Cons i ins)
  obtain now later a where i: "i = (now, later, a)" by (cases i) auto
  obtain s' out r where p: "stream_poll now later a s = (s', out, r)" by (metis prod_cases3)
  note w = poll_watching [OF p Cons.prems]
  show ?case
  proof (cases "is_final out")
    case True
    moreover from this Cons.prems poll_terminated [OF p] have t: "ps_terminated s'"
      by (simp add: watching_def)
    moreover have "clean_end ((out, r) # rest) \<longleftrightarrow> out = PollReady None" for rest
      using True by (simp add: clean_end_def ending_def)
    moreover have "out = PollReady None \<longleftrightarrow> list_ex is_success (reports [(out, r)])"
      using w(1) w(3) True by (cases out rule: is_final.cases; cases r) auto
    ultimately show ?thesis
      using w(1) by (cases r) (auto simp: i p run_terminated list_all_iff)
  next
    case False
    with w(2) have "watching failure_filter s'" "r = None" by simp_all
    with Cons.IH [of s'] False show ?thesis by (auto simp: i p clean_end_def ending_def)
  qed
qed

text \<open>
  The account feedback of a stream: whatever the inner stream answers, at most one report is
  made; success is reported exactly when the stream ended cleanly, and a failure only together with
  a delivered error that was certainly sent, that is no cancellation, transport recovery or
  same-account retry, and that the provider's filter accepts.
\<close>

theorem stream_feedback_once:
  fixes ins m failure_filter
  defines "outs \<equiv> run_polls ins (with_filtered_account_feedback (provider_stream_new m) failure_filter)"
  shows "length (reports outs) \<le> 1 \<and> list_all (justified failure_filter) outs
     \<and> (clean_end outs \<longleftrightarrow> list_ex is_success (reports outs))"
  unfolding outs_def
  by (rule run_feedback)
     (simp add: watching_def with_filtered_account_feedback_def provider_stream_new_def stream_feedback_new_def)


section \<open>The registry as an index\<close>

abbreviation facade_kind :: "provider_facade \<Rightarrow> provider_kind" where
  "facade_kind p \<equiv> ProviderKind (pf_name p)"

definition valid_name :: "provider_facade \<Rightarrow> bool" where
  "valid_name p = (case provider_kind_new (pf_name p) of Inl _ \<Rightarrow> False | Inr _ \<Rightarrow> True)"

lemma register_cases:
  "registry_register p reg =
     (if \<not> valid_name p then Inl InvalidName
      else if bt_has reg (facade_kind p) then Inl (DuplicateProvider (pf_name p))
      else Inr (bt_insert (facade_kind p) p reg))"
  by (auto simp: registry_register_def valid_name_def provider_kind_new_def checked_id_def split: sum.splits)

interpretation registry_index: unique_index registry_register facade_kind id map_of
  by unfold_locales (auto simp: register_cases bt_has_def map_of_eq_None_iff split: if_splits)

lemma registry_sorted: "registry_new ps = Inr reg \<Longrightarrow> bt_ok reg"
  unfolding registry_new_def
  by (erule try_fold_invariant [where P = bt_ok, rotated 2]) (auto simp: register_cases split: if_splits)

lemma registry_valid: "try_fold registry_register ps reg = Inr reg' \<Longrightarrow> list_all valid_name ps"
  by (induction ps arbitrary: reg) (auto simp: register_cases split: sum.splits if_splits)

lemma registry_fails:
  "try_fold registry_register ps reg = Inl e \<Longrightarrow>
     \<not> (list_all valid_name ps \<and> distinct (map pf_name ps)
        \<and> list_all (\<lambda>p. \<not> bt_has reg (facade_kind p)) ps)"
proof (induction ps arbitrary: reg)
  case Nil
  then show ?case by simp
next
  case (Cons p ps)
  show ?case
  proof (cases "valid_name p \<and> \<not> bt_has reg (facade_kind p)")
    case True
    then have "registry_register p reg = Inr (bt_insert (facade_kind p) p reg)" by (simp add: register_cases)
    with Cons.prems have "try_fold registry_register ps (bt_insert (facade_kind p) p reg) = Inl e" by simp
    from Cons.IH [OF this] show ?thesis
      by (simp add: list_all_iff bt_has_def image_iff) metis
  qed auto
qed

text \<open>
  The registry is built exactly when every provider has a valid name and no name occurs twice;
  it then answers for each of them under its own name and for no other, in the order of the names,
  and its catalog generations are those of the registered providers.
\<close>

theorem registry_exact:
  "case registry_new ps of
     Inl _ \<Rightarrow> (list_all valid_name ps \<and> distinct (map pf_name ps)) = False
   | Inr reg \<Rightarrow>
       list_all valid_name ps \<and> distinct (map pf_name ps)
       \<and> map fst reg = bs_of_list (map facade_kind ps)
       \<and> list_all (\<lambda>p. map_of reg (facade_kind p) = Some p) ps
       \<and> list_all (\<lambda>p. map_of (registry_catalog_generations reg) (facade_kind p)
                          = Some (pf_catalog_generation p)) ps
       \<and> map fst (registry_catalog_generations reg) = map fst reg"
proof (cases "registry_new ps")
  case (Inl e)
  with registry_fails [of ps "[]" e] show ?thesis by (auto simp: registry_new_def bt_has_def list_all_iff)
next
  case (Inr reg)
  then have run: "try_fold registry_register ps [] = Inr reg" by (simp add: registry_new_def)
  have look: "map_of reg (facade_kind p) = Some p" if "p \<in> set ps" for p
    using registry_index.run_lookup_item [OF run that] by simp
  have "distinct (map pf_name ps)"
    using registry_index.run_distinct [OF run] by (simp add: distinct_map inj_on_def)
  moreover have "map fst reg = bs_of_list (map facade_kind ps)"
    using registry_index.run_dom [OF run] registry_sorted [OF Inr]
    by (intro bs_ok_unique) (auto simp: bt_ok_def dom_map_of_conv_image_fst)
  moreover have "map_of (registry_catalog_generations reg) k = map_option pf_catalog_generation (map_of reg k)" for k
    by (induction reg) (auto simp: registry_catalog_generations_def)
  ultimately show ?thesis
    using Inr look registry_valid [OF run]
    by (auto simp: list_all_iff registry_catalog_generations_def comp_def case_prod_unfold)
qed

section \<open>The totals of a restart\<close>

lemma min_saturated: "min m (min m a + b) = min m (a + b)" for m :: nat
  by (simp add: min_def)

lemma restore_all_totals:
  "restore_all restore rs (a, b) = Some totals \<Longrightarrow> a \<le> u64_max \<Longrightarrow> b \<le> u64_max \<Longrightarrow>
     \<exists>rss. map restore rs = map Some rss
       \<and> totals = (min u64_max (a + sum_list (map arr_recent rss)),
                   min u64_max (b + sum_list (map arr_running rss)))"
proof (induction rs arbitrary: a b)
  case Nil
  then show ?case by simp
next
  case (Cons r rs)
  from Cons.prems(1) obtain res where res: "restore r = Some res"
    and rest: "restore_all restore rs
      (saturating_add u64_max a (arr_recent res), saturating_add u64_max b (arr_running res)) = Some totals"
    by (auto split: option.splits)
  from Cons.IH [OF rest saturating_add_bound saturating_add_bound] obtain rss
    where "map restore rs = map Some rss"
      "totals = (min u64_max (saturating_add u64_max a (arr_recent res) + sum_list (map arr_recent rss)),
                 min u64_max (saturating_add u64_max b (arr_running res) + sum_list (map arr_running rss)))"
    by blast
  then show ?case using res by (intro exI [of _ "res # rss"]) (simp add: saturating_add_def min_saturated add.assoc)
qed

end
