(* ===== verification/Coordinator.thy ===== *)
theory Coordinator
  imports ProviderStream
begin

text \<open>
  \<open>engine/coordinator.rs\<close>: one request from admission to its final write. The session is a record;
  the struct's fields that never change after \<open>start\<close> are grouped in its \<open>frame\<close>. Everything the
  session awaits is an input: the store answers a write with success or failure, the clocks are
  indexed readings, and one iteration of the loop of \<open>pull\<close> reads a \<open>round\<close>: what ended the retry
  delay, how the provider answered the call and what the polled stream returned. The writes sent to
  the execution store are kept in order, with their success, in the session's log. The diagnostic
  trace is left out; an awaited operation runs to its end, except that \<open>pull\<close> may run out of
  rounds, which is a call that is still waiting.
\<close>

section \<open>Accounts, attempts and finalization\<close>

datatype account_selection = Scheduled "provider_account_id option" | Diagnostic provider_account_id

fun required_account :: "account_selection \<Rightarrow> provider_account_id option" where
  "required_account (Scheduled account) = account"
| "required_account (Diagnostic account) = Some account"

fun is_diagnostic :: "account_selection \<Rightarrow> bool" where
  "is_diagnostic (Diagnostic _) = True"
| "is_diagnostic (Scheduled _) = False"

record current_attempt =
  cur_metadata :: provider_call_metadata
  cur_trigger :: attempt_trigger
  cur_transport :: attempt_transport
  cur_index :: nat
  cur_started_at :: systime
  cur_send_observed :: bool
  cur_response_observation :: "provider_response_observation option"

abbreviation cur_account :: "current_attempt \<Rightarrow> provider_account_id" where
  "cur_account cur \<equiv> pcm_provider_account_id (cur_metadata cur)"

definition current_upstream_request_id :: "current_attempt \<Rightarrow> string option" where
  "current_upstream_request_id cur =
     map_option opaque_str
       (opt_or (Option.bind (cur_response_observation cur) pro_request_id)
               (pcm_upstream_request_id (cur_metadata cur)))"

record failure_finalization =
  ff_outcome :: execution_outcome
  ff_send_state :: upstream_send_state
  ff_error :: gateway_error
  ff_upstream_status_code :: "nat option"
  ff_upstream_request_id :: "string option"
  ff_provider_error_code :: "string option"
  ff_raw_upstream_error :: "string option"
  ff_retry_after_ms :: "nat option"
  ff_observation :: model_request_failure_observation

text \<open>A failure without upstream details, as most call sites build it.\<close>

definition plain_failure :: "execution_outcome \<Rightarrow> upstream_send_state \<Rightarrow> gateway_error \<Rightarrow> failure_finalization" where
  "plain_failure outcome send_state error =
     \<lparr>ff_outcome = outcome, ff_send_state = send_state, ff_error = error,
      ff_upstream_status_code = None, ff_upstream_request_id = None, ff_provider_error_code = None,
      ff_raw_upstream_error = None, ff_retry_after_ms = None,
      ff_observation = model_failure_observation_default\<rparr>"

record pending_attempt_retry =
  pr_account :: provider_account_id
  pr_transport :: attempt_transport
  pr_delay :: duration
  pr_transport_recovery :: bool

record pending_terminal_failure =
  tf_error :: provider_error
  tf_send_state :: upstream_send_state

text \<open>The pending write holds the request row still to be created, whether one exists, and the facts.\<close>

datatype request_finalization =
    FinPending "new_model_request option" bool model_request_finalization
  | FinComplete

section \<open>The session and its environment\<close>

datatype store_write =
    WCreate new_model_request
  | WCreateWithAttempt new_model_request attempt_record
  | WRecordAttempt attempt_record
  | WMarkSendState upstream_send_state
  | WMarkDownstreamCommitted systime "nat option"
  | WClientStatus nat
  | WIntermediate intermediate_failure
  | WFinalize model_request_finalization

record session_frame =
  sf_request_id :: model_request_id
  sf_client_api_key_ref :: client_api_key_id
  sf_wait_budget :: wait_budget
  sf_deadline :: systime
  sf_plan :: routing_plan
  sf_account_selection :: account_selection
  sf_continuation :: "continuation_binding option"
  sf_image_generation_requested :: bool

record session =
  se_frame :: session_frame
  se_observation :: response_observation
  se_budget_prior_attempts_usd :: decimal
  se_budget_attempt_already_counted :: bool
  se_pending_request :: "new_model_request option"
  se_request_persisted :: bool
  se_operation :: operation
  se_continuation_attempt :: continuation_attempt
  se_account_state_owner :: "provider_account_state_owner option"
  se_cancelled :: bool
  se_attempts :: nat
  se_routing_attempts :: nat
  se_candidate_index :: nat
  se_excluded_accounts :: "provider_account_id list"
  se_credential_recovery_attempted :: "provider_account_id list"
  se_recovery_account :: "provider_account_id option"
  se_pending_retry :: "pending_attempt_retry option"
  se_transient_retry_counts :: "(provider_account_id, nat) btree"
  se_request_profiles :: "(provider_kind, opaque_provider_data) btree"
  se_current :: "current_attempt option"
  se_send_state_watermark :: upstream_send_state
  se_downstream_committed_at :: "systime option"
  se_client_status_code :: "nat option"
  se_delivery_pending :: bool
  se_upstream_complete :: bool
  se_finalization :: "request_finalization option"
  se_finalized_at :: "systime option"
  se_last_retryable_failure :: "provider_error option"
  se_last_retryable_failure_events :: "provider_event list"
  se_provider_attempt_outcomes :: "provider_attempt_outcome list"
  se_pending_terminal_failure :: "pending_terminal_failure option"
  se_log :: "(store_write \<times> bool) list"

abbreviation se_plan :: "session \<Rightarrow> routing_plan" where "se_plan s \<equiv> sf_plan (se_frame s)"
abbreviation se_selection :: "session \<Rightarrow> account_selection" where "se_selection s \<equiv> sf_account_selection (se_frame s)"
abbreviation se_max_attempts :: "session \<Rightarrow> nat" where "se_max_attempts s \<equiv> rp_max_attempts (se_plan s)"
abbreviation se_pin :: "session \<Rightarrow> native_continuation_pin option" where
  "se_pin s \<equiv> Option.bind (sf_continuation (se_frame s)) pinned"

text \<open>The answers of the store and the readings of the two clocks during one step.\<close>

record env =
  en_store :: "store_write \<Rightarrow> bool"
  en_wall :: "nat \<Rightarrow> systime"
  en_mono :: "nat \<Rightarrow> instant"

text \<open>A wait: the wall clock when it starts, and whether the token or the timer wins the race.\<close>

record wait_env =
  wt_now :: systime
  wt_cancelled :: bool
  wt_timer :: bool

record round = env +
  rd_delay :: wait_env
  rd_call :: wait_env
  rd_execute :: "operation \<Rightarrow> provider_candidate \<Rightarrow> attempt_context \<Rightarrow> provider_error + provider_call_metadata"
  rd_poll :: wait_env
  rd_item :: "(provider_error + provider_event) option"

record engine =
  eg_registered :: "provider_kind \<Rightarrow> bool"
  eg_resolve_request_profile :: "provider_kind \<Rightarrow> opaque_provider_data \<Rightarrow> provider_error + opaque_provider_data"

datatype pull_outcome =
    PoEvent provider_event
  | PoAttemptDiscarded
  | PoTerminalFailure "provider_event list" provider_error upstream_send_state
  | PoEnd

section \<open>Waiting\<close>

datatype 'a boundary = Answered 'a | BoundaryCancelled | BoundaryDeadline

text \<open>
  The three races prefer the cancellation, then the timer. Polling the stream needs the deadline to
  lie ahead; the other two only that it has not passed.
\<close>

definition race :: "bool \<Rightarrow> bool \<Rightarrow> wait_env \<Rightarrow> 'a \<Rightarrow> 'a boundary" where
  "race late cancelled w answer =
     (if late then BoundaryDeadline
      else if cancelled \<or> wt_cancelled w then BoundaryCancelled
      else if wt_timer w then BoundaryDeadline
      else Answered answer)"

definition poll_stream_item :: "bool \<Rightarrow> systime \<Rightarrow> wait_env \<Rightarrow> 'a \<Rightarrow> 'a boundary" where
  "poll_stream_item cancelled deadline w item = race (deadline \<le> wt_now w) cancelled w item"

definition poll_retry_delay :: "bool \<Rightarrow> systime \<Rightarrow> wait_env \<Rightarrow> unit boundary" where
  "poll_retry_delay cancelled deadline w = race (deadline < wt_now w) cancelled w ()"

definition poll_provider :: "bool \<Rightarrow> systime \<Rightarrow> wait_env \<Rightarrow> 'a \<Rightarrow> 'a boundary" where
  "poll_provider cancelled deadline w result = race (deadline < wt_now w) cancelled w result"

section \<open>Small helpers\<close>

definition store_write :: "'a env_scheme \<Rightarrow> store_write \<Rightarrow> session \<Rightarrow> session" where
  "store_write r w s = s\<lparr>se_log := se_log s @ [(w, en_store r w)]\<rparr>"

fun escalate_send_state :: "upstream_send_state \<Rightarrow> upstream_send_state \<Rightarrow> upstream_send_state" where
  "escalate_send_state Sent _ = Sent"
| "escalate_send_state _ Sent = Sent"
| "escalate_send_state Ambiguous _ = Ambiguous"
| "escalate_send_state _ Ambiguous = Ambiguous"
| "escalate_send_state NotSent NotSent = NotSent"

definition duration_ms :: "duration \<Rightarrow> nat" where
  "duration_ms d = min u64_max (as_millis d)"

definition provider_engine_error :: "provider_error \<Rightarrow> engine_error" where
  "provider_engine_error e = (if err_kind e = PkCancelled then EngCancelled else EngProvider e)"

definition provider_proved_replay_safe :: "provider_error \<Rightarrow> bool" where
  "provider_proved_replay_safe e =
     (err_send_state e = NotSent \<or> err_send_state e \<noteq> Ambiguous \<and> err_replay_safe e)"

definition initial_continuation_attempt ::
  "operation \<Rightarrow> routing_plan \<Rightarrow> continuation_binding option \<Rightarrow> continuation_attempt" where
  "initial_continuation_attempt op plan continuation =
     (case continuation of
        None \<Rightarrow> CaNone
      | Some (External _) \<Rightarrow>
          (case rp_candidates plan of
             c # _ \<Rightarrow> if operation_session_state op (pk_str (pc_provider c)) \<noteq> None then CaReplayAny else CaNative
           | [] \<Rightarrow> CaNative)
      | Some (Pinned _) \<Rightarrow> CaNative)"

definition is_finalized :: "session \<Rightarrow> bool" where
  "is_finalized s = (se_finalization s = Some FinComplete)"

definition send_observed :: "session \<Rightarrow> bool" where
  "send_observed s = opt_any cur_send_observed (se_current s)"

definition current_send_state :: "session \<Rightarrow> upstream_send_state" where
  "current_send_state s =
     escalate_send_state (se_send_state_watermark s) (if send_observed s then Sent else NotSent)"

definition raise_send_watermark :: "upstream_send_state \<Rightarrow> session \<Rightarrow> session" where
  "raise_send_watermark observed s =
     s\<lparr>se_send_state_watermark := escalate_send_state (se_send_state_watermark s) observed\<rparr>"

definition record_provider_failure :: "provider_kind \<Rightarrow> provider_error_kind \<Rightarrow> session \<Rightarrow> session" where
  "record_provider_failure provider kind s =
     s\<lparr>se_provider_attempt_outcomes := se_provider_attempt_outcomes s @ [AttemptFailed provider kind]\<rparr>"

definition record_current_provider_success :: "session \<Rightarrow> session" where
  "record_current_provider_success s =
     (case se_current s of
        None \<Rightarrow> s
      | Some cur \<Rightarrow>
          s\<lparr>se_provider_attempt_outcomes :=
              se_provider_attempt_outcomes s @ [AttemptSucceeded (pcm_provider (cur_metadata cur))]\<rparr>)"

section \<open>The final write\<close>

definition current_observation :: "session \<Rightarrow> provider_response_observation option" where
  "current_observation s = Option.bind (se_current s) cur_response_observation"

definition image_generation_succeeded :: "session \<Rightarrow> bool option" where
  "image_generation_succeeded s =
     (if sf_image_generation_requested (se_frame s)
      then Some (case se_operation s of
             OpGenerateImage _ \<Rightarrow> se_upstream_complete s
           | _ \<Rightarrow> 0 < unwrap_or 0 (image_output_tokens (ro_usage (se_observation s))))
      else None)"

text \<open>The facts both final writes take from the session.\<close>

definition observed_finalization ::
  "execution_outcome \<Rightarrow> upstream_send_state \<Rightarrow> systime \<Rightarrow> session \<Rightarrow> model_request_finalization" where
  "observed_finalization outcome send_state completed_at s =
     (let ob = current_observation s in
      \<lparr>fin_request_id = sf_request_id (se_frame s), fin_outcome = outcome, fin_send_state = send_state,
       fin_attempt_count = se_attempts s, fin_downstream_committed_at = se_downstream_committed_at s,
       fin_client_status_code = se_client_status_code s,
       fin_client_response_id = ro_client_response_id (se_observation s),
       fin_upstream_status_code = Option.bind ob pro_status_code,
       fin_upstream_request_id = Option.bind (se_current s) current_upstream_request_id,
       fin_upstream_response_id = ro_upstream_response_id (se_observation s),
       fin_upstream_transport = map_option (transport_str \<circ> pro_transport) ob,
       fin_http_version = map_option http_version_as_str (Option.bind ob pro_http_version),
       fin_websocket_pool = map_option websocket_pool_as_str (Option.bind ob pro_websocket_pool),
       fin_service_tier = Option.bind ob pro_service_tier,
       fin_upstream_response_model = Option.bind ob pro_upstream_response_model,
       fin_provider_metadata_json = map_option metadata_json (Option.bind ob pro_provider_metadata),
       fin_error = None, fin_provider_error_code = None, fin_raw_upstream_error = None,
       fin_failure_observation = model_failure_observation_default, fin_retry_after_ms = None,
       fin_usage = ro_usage (se_observation s),
       fin_image_generation_succeeded = image_generation_succeeded s,
       fin_cost = ro_cost (se_observation s), fin_timings = ro_timings (se_observation s),
       fin_completed_at = completed_at\<rparr>)"

definition resume_finalization :: "'a env_scheme \<Rightarrow> session \<Rightarrow> session" where
  "resume_finalization r s =
     (case se_finalization s of
        Some (FinPending request persisted f) \<Rightarrow>
          (let (s, persisted) =
                 (case request of
                    Some q \<Rightarrow> (store_write r (WCreate q) s, en_store r (WCreate q))
                  | None \<Rightarrow> (s, persisted));
               s = (if persisted then store_write r (WFinalize f) s else s)
           in s\<lparr>se_request_persisted := persisted, se_finalization := Some FinComplete\<rparr>)
      | _ \<Rightarrow> s)"

definition persist_finalization :: "'a env_scheme \<Rightarrow> model_request_finalization \<Rightarrow> session \<Rightarrow> session" where
  "persist_finalization r f s =
     (let create = \<not> se_request_persisted s \<and> fin_attempt_count f = 0 \<and> fin_send_state f = NotSent;
          request = (if create then se_pending_request s else None)
      in resume_finalization r
           (s\<lparr>se_finalized_at := Some (fin_completed_at f),
              se_pending_request := (if create then None else se_pending_request s),
              se_finalization := Some (FinPending request (se_request_persisted s) f)\<rparr>))"

definition finish_success :: "'a env_scheme \<Rightarrow> session \<Rightarrow> session" where
  "finish_success r s =
     (if is_finalized s then s
      else
        let s = s\<lparr>se_observation := observation_finish (en_mono r 0) (se_observation s)\<rparr>
        in persist_finalization r (observed_finalization Succeeded Sent (en_wall r 0) s) s)"

definition finish_failure :: "'a env_scheme \<Rightarrow> failure_finalization \<Rightarrow> session \<Rightarrow> session" where
  "finish_failure r f s =
     (if is_finalized s then s
      else
        let s = s\<lparr>se_observation := observation_finish (en_mono r 0) (se_observation s)\<rparr>;
            base = observed_finalization (ff_outcome f) (ff_send_state f) (en_wall r 0) s
        in persist_finalization r
             (base\<lparr>fin_upstream_status_code := opt_or (ff_upstream_status_code f) (fin_upstream_status_code base),
                   fin_upstream_request_id := opt_or (ff_upstream_request_id f) (fin_upstream_request_id base),
                   fin_error := Some (ff_error f), fin_provider_error_code := ff_provider_error_code f,
                   fin_raw_upstream_error := ff_raw_upstream_error f,
                   fin_failure_observation := ff_observation f,
                   fin_retry_after_ms := ff_retry_after_ms f\<rparr>) s)"

definition finish_provider_error_with_send_state ::
  "'a env_scheme \<Rightarrow> provider_error \<Rightarrow> upstream_send_state \<Rightarrow> session \<Rightarrow> session" where
  "finish_provider_error_with_send_state r error send_state s =
     (let s = raise_send_watermark send_state s;
          outcome = (if err_kind error = PkCancelled then Cancelled
                     else if se_downstream_committed_at s \<noteq> None then Incomplete else Failed)
      in finish_failure r
           \<lparr>ff_outcome = outcome, ff_send_state = se_send_state_watermark s,
            ff_error = gateway_from_provider error,
            ff_upstream_status_code = err_upstream_status error,
            ff_upstream_request_id = map_option opaque_str (err_upstream_request_id error),
            ff_provider_error_code = map_option opaque_str (err_upstream_code error),
            ff_raw_upstream_error = map_option raw_error_str (err_raw_upstream_error error),
            ff_retry_after_ms = map_option duration_ms (err_retry_after error),
            ff_observation =
              \<lparr>mfo_continuation_unavailable_reason = err_continuation_unavailable_reason error,
               mfo_upstream_connection = err_connection_observation error\<rparr>\<rparr> s)"

definition finish_provider_error :: "'a env_scheme \<Rightarrow> provider_error \<Rightarrow> session \<Rightarrow> session" where
  "finish_provider_error r error s =
     finish_provider_error_with_send_state r error
       (escalate_send_state (current_send_state s) (err_send_state error)) s"

fun interruption_outcome :: "engine_error \<Rightarrow> session \<Rightarrow> execution_outcome \<times> gateway_error" where
  "interruption_outcome EngCancelled s = (Cancelled, gateway_error_new GkCancelled ''request was cancelled'')"
| "interruption_outcome EngDeadline s =
     (if se_downstream_committed_at s \<noteq> None then Incomplete else Failed,
      gateway_error_new GkTimeout ''request deadline elapsed'')"
| "interruption_outcome _ s = (Failed, gateway_error_new GkInternal ''request execution failed'')"

definition finish_interruption :: "'a env_scheme \<Rightarrow> engine_error \<Rightarrow> session \<Rightarrow> session" where
  "finish_interruption r error s =
     (let (outcome, gateway_error) = interruption_outcome error s;
          observed = (if se_attempts s = 0 then NotSent
                      else if se_downstream_committed_at s \<noteq> None \<or> send_observed s then Sent
                      else Ambiguous);
          s = raise_send_watermark observed s;
          s = (if 0 < se_attempts s \<and> se_request_persisted s
               then store_write r (WMarkSendState (se_send_state_watermark s)) s else s)
      in finish_failure r (plain_failure outcome (se_send_state_watermark s) gateway_error) s)"


section \<open>Observing a response\<close>

definition mark_send_observed :: "'a env_scheme \<Rightarrow> session \<Rightarrow> session" where
  "mark_send_observed r s =
     (case se_current s of
        None \<Rightarrow> s
      | Some cur \<Rightarrow>
          if cur_send_observed cur then s
          else
            let s = (if se_request_persisted s then store_write r (WMarkSendState Sent) s else s)
            in s\<lparr>se_current := Some (cur\<lparr>cur_send_observed := True\<rparr>), se_send_state_watermark := Sent\<rparr>)"

definition observe_session_update :: "provider_session_state \<Rightarrow> session \<Rightarrow> session" where
  "observe_session_update state s =
     (case se_current s of
        None \<Rightarrow> s
      | Some cur \<Rightarrow>
          if pss_provider state \<noteq> pk_str (pcm_provider (cur_metadata cur)) then s
          else s\<lparr>se_operation := operation_set_session_state (se_operation s) state\<rparr>)"

definition observe_response :: "provider_response_observation \<Rightarrow> session \<Rightarrow> session" where
  "observe_response ob s =
     (case se_current s of
        None \<Rightarrow> s
      | Some cur \<Rightarrow>
          if opt_any (\<lambda>existing. pro_transport existing \<noteq> pro_transport ob) (cur_response_observation cur) then s
          else s\<lparr>se_observation := observation_observe_response ob (se_observation s),
                 se_current := Some (cur\<lparr>cur_response_observation := Some ob\<rparr>)\<rparr>)"

text \<open>The event facts read the monotonic clock one after the other, from the given reading on.\<close>

fun observe_facts_at :: "'a env_scheme \<Rightarrow> nat \<Rightarrow> gateway_event list \<Rightarrow> response_observation \<Rightarrow> response_observation" where
  "observe_facts_at r i [] ob = ob"
| "observe_facts_at r i (ev # evs) ob =
     observe_facts_at r (Suc i) evs (observation_observe_event (en_mono r i) ev ob)"

fun observe_events :: "'a env_scheme \<Rightarrow> nat \<Rightarrow> gateway_event list \<Rightarrow> session \<Rightarrow> session" where
  "observe_events r i [] s = s"
| "observe_events r i (ev # evs) s =
     observe_events r (Suc i) evs
       (mark_send_observed r
         (s\<lparr>se_observation := observation_observe_event (en_mono r i) ev (se_observation s)\<rparr>))"

text \<open>What a delivered stream item does to the session, and the event the client gets, if any.\<close>

definition observe_item :: "'a env_scheme \<Rightarrow> provider_event \<Rightarrow> session \<Rightarrow> session \<times> pull_outcome option" where
  "observe_item r event s =
     (let s = (case pe_session_update event of Some st \<Rightarrow> observe_session_update st s | None \<Rightarrow> s);
          (ob, event) = take_observation event;
          s = (case ob of Some ob \<Rightarrow> observe_response ob s | None \<Rightarrow> s);
          s = s\<lparr>se_observation := fold observation_observe_identity (pe_canonical event) (se_observation s)\<rparr>;
          s = observe_events r 1 (pe_canonical event) s;
          s = (if pe_wire event \<noteq> None \<and> \<not> has_canonical_facts event then mark_send_observed r s else s)
      in (s, if has_client_event event then Some (PoEvent event) else None))"

fun observe_terminal_facts :: "'a env_scheme \<Rightarrow> nat \<Rightarrow> gateway_event list \<Rightarrow> response_observation \<Rightarrow> response_observation" where
  "observe_terminal_facts r i [] ob = ob"
| "observe_terminal_facts r i (ev # evs) ob =
     observe_terminal_facts r (Suc i) evs
       (observation_observe_event (en_mono r i) ev (observation_observe_identity ev ob))"

fun observe_atomic_terminal_events ::
  "'a env_scheme \<Rightarrow> nat \<Rightarrow> provider_event list \<Rightarrow> session \<Rightarrow> session \<times> provider_event list" where
  "observe_atomic_terminal_events r i [] s = (s, [])"
| "observe_atomic_terminal_events r i (event # events) s =
     (let (ob, event) = take_observation event;
          s = (case ob of Some ob \<Rightarrow> observe_response ob s | None \<Rightarrow> s);
          s = s\<lparr>se_observation := observe_terminal_facts r i (pe_canonical event) (se_observation s)\<rparr>;
          (s, events) = observe_atomic_terminal_events r (i + length (pe_canonical event)) events s
      in (s, event # events))"

section \<open>The charge of a request\<close>

definition budget_attempt_usd :: "session \<Rightarrow> decimal" where
  "budget_attempt_usd s =
     (if se_budget_attempt_already_counted s then decimal_zero
      else unwrap_or decimal_zero
             (map_option amount
               (opt_filter (\<lambda>m. currency_str (currency m) = ''USD'') (ce_total (ro_cost (se_observation s))))))"

definition add_capped :: "decimal \<Rightarrow> decimal \<Rightarrow> decimal" where
  "add_capped a b = unwrap_or decimal_max (decimal_checked_add a b)"

definition budget_charge :: "systime \<Rightarrow> session \<Rightarrow> client_budget_charge" where
  "budget_charge now s =
     \<lparr>bc_key_id = sf_client_api_key_ref (se_frame s), bc_request_id = sf_request_id (se_frame s),
      bc_amount_usd = add_capped (se_budget_prior_attempts_usd s) (budget_attempt_usd s),
      bc_completed_at = unwrap_or now (se_finalized_at s)\<rparr>"

definition reset_uncommitted_observations :: "session \<Rightarrow> session" where
  "reset_uncommitted_observations s =
     s\<lparr>se_budget_prior_attempts_usd := add_capped (se_budget_prior_attempts_usd s) (budget_attempt_usd s),
       se_budget_attempt_already_counted := False,
       se_observation := observation_reset_for_attempt (se_observation s),
       se_upstream_complete := False\<rparr>"

section \<open>A failed stream\<close>

definition uncommitted :: "session \<Rightarrow> bool" where
  "uncommitted s = (se_downstream_committed_at s = None \<and> \<not> se_delivery_pending s)"

definition session_state_for :: "session \<Rightarrow> provider_kind \<Rightarrow> provider_session_state option" where
  "session_state_for s provider = operation_session_state (se_operation s) (pk_str provider)"

definition exclude_account :: "provider_account_id \<Rightarrow> session \<Rightarrow> session" where
  "exclude_account a s = s\<lparr>se_excluded_accounts := bs_insert a (se_excluded_accounts s)\<rparr>"

definition prepare_continuation_retry ::
  "current_attempt \<Rightarrow> provider_error \<Rightarrow> upstream_send_state \<Rightarrow> bool \<Rightarrow> session \<Rightarrow> session \<times> bool" where
  "prepare_continuation_retry cur error send_state replay_safe s =
     (if required_account (se_selection s) \<noteq> None
        \<or> se_continuation_attempt s = CaNone
        \<or> se_downstream_committed_at s \<noteq> None
        \<or> se_delivery_pending s
        \<or> send_state = Ambiguous
        \<or> \<not> replay_safe
        \<or> se_max_attempts s \<le> se_routing_attempts s
        \<or> session_state_for s (pcm_provider (cur_metadata cur)) = None
      then (s, False)
      else case se_continuation_attempt s of
        CaNative \<Rightarrow>
          (case err_continuation_recovery_disposition error of
             Some RetryExactConnection \<Rightarrow> (s\<lparr>se_recovery_account := Some (cur_account cur)\<rparr>, True)
           | Some ProviderReplayAllowed \<Rightarrow> (s\<lparr>se_continuation_attempt := CaReplayOwner\<rparr>, True)
           | _ \<Rightarrow> (s, False))
      | CaReplayOwner \<Rightarrow>
          if err_continuation_recovery_disposition error \<in> {Some RetryExactConnection, Some ClientReplayRequired}
          then (s, False)
          else (exclude_account (cur_account cur) (s\<lparr>se_continuation_attempt := CaReplayAny\<rparr>), True)
      | CaReplayAny \<Rightarrow>
          if err_continuation_recovery_disposition error \<in> {Some RetryExactConnection, Some ClientReplayRequired}
          then (s, False)
          else (exclude_account (cur_account cur) s, True)
      | CaNone \<Rightarrow> (s, False))"

definition transport_recovery_of ::
  "provider_error \<Rightarrow> upstream_send_state \<Rightarrow> session \<Rightarrow> (attempt_transport \<times> duration) option" where
  "transport_recovery_of error send_state s =
     (if uncommitted s \<and> send_state \<noteq> Ambiguous then
        (case err_pre_delivery_retry error of
           Some (SameAccountTransportRetry index delay) \<Rightarrow> Some (TransportRetry index, delay)
         | Some SameAccountTransportFallback \<Rightarrow> Some (TransportFallback, 0)
         | _ \<Rightarrow> None)
      else None)"

text \<open>The gates that ordinary and rotating retries share: any account may serve the next attempt.\<close>

definition rotation_gate :: "upstream_send_state \<Rightarrow> session \<Rightarrow> bool" where
  "rotation_gate send_state s =
     (required_account (se_selection s) = None
      \<and> se_continuation_attempt s = CaNone
      \<and> uncommitted s
      \<and> send_state \<noteq> Ambiguous
      \<and> se_routing_attempts s < se_max_attempts s)"

text \<open>
  A transient rejection: the account's retries so far bound how often it is tried again and double
  the delay, \<open>1_u32.checked_shl\<close> giving way to \<open>u32::MAX\<close> from 32 retries on.
\<close>

definition transient_delay :: "nat \<Rightarrow> duration \<Rightarrow> duration \<Rightarrow> duration" where
  "transient_delay retries initial_delay max_delay =
     min (duration_saturating_mul initial_delay (if retries < 32 then 2 ^ retries else u32_max)) max_delay"

definition transient_retry_of ::
  "bool \<Rightarrow> provider_account_id \<Rightarrow> provider_error \<Rightarrow> session \<Rightarrow> session \<times> duration option" where
  "transient_retry_of ordinary account error s =
     (case err_pre_delivery_retry error of
        Some (SameAccountTransientRetry max_retries initial_delay max_delay) \<Rightarrow>
          if ordinary then
            let retries = unwrap_or 0 (map_of (se_transient_retry_counts s) account) in
            if retries < max_retries
            then (s\<lparr>se_transient_retry_counts :=
                      bt_insert account (saturating_add u32_max retries 1) (se_transient_retry_counts s)\<rparr>,
                  Some (transient_delay retries initial_delay max_delay))
            else (s\<lparr>se_transient_retry_counts := bt_insert account retries (se_transient_retry_counts s)\<rparr>, None)
          else (s, None)
      | _ \<Rightarrow> (s, None))"

definition intermediate_failure_of ::
  "'a env_scheme \<Rightarrow> current_attempt \<Rightarrow> provider_error \<Rightarrow> session \<Rightarrow> intermediate_failure" where
  "intermediate_failure_of r cur error s =
     \<lparr>if_request_id = sf_request_id (se_frame s), if_attempt_index = cur_index cur,
      if_trigger = cur_trigger cur, if_provider_kind = pcm_provider (cur_metadata cur),
      if_account_id = Some (cur_account cur), if_upstream_model_id = pcm_upstream_model (cur_metadata cur),
      if_upstream_status_code =
        opt_or (err_upstream_status error) (Option.bind (cur_response_observation cur) pro_status_code),
      if_upstream_request_id =
        opt_or (map_option opaque_str (err_upstream_request_id error)) (current_upstream_request_id cur),
      if_error = provider_error_clone error,
      if_latency = unwrap_or 0 (duration_since (en_wall r 3) (cur_started_at cur))\<rparr>"

text \<open>The pinning or exclusion that the chosen kind of retry leaves behind.\<close>

definition arrange_retry ::
  "current_attempt \<Rightarrow> bool \<Rightarrow> duration option \<Rightarrow> (attempt_transport \<times> duration) option \<Rightarrow> bool
   \<Rightarrow> session \<Rightarrow> session" where
  "arrange_retry cur same_account transient transport continuation s =
     (if same_account then
        s\<lparr>se_credential_recovery_attempted := bs_insert (cur_account cur) (se_credential_recovery_attempted s),
          se_recovery_account := Some (cur_account cur)\<rparr>
      else case transient of
        Some delay \<Rightarrow>
          s\<lparr>se_pending_retry := Some
              \<lparr>pr_account = cur_account cur, pr_transport = cur_transport cur, pr_delay = delay,
               pr_transport_recovery = False\<rparr>\<rparr>
      | None \<Rightarrow>
          (case transport of
             Some (tr, delay) \<Rightarrow>
               s\<lparr>se_pending_retry := Some
                   \<lparr>pr_account = cur_account cur, pr_transport = tr, pr_delay = delay,
                    pr_transport_recovery = True\<rparr>\<rparr>
           | None \<Rightarrow> if continuation then s else exclude_account (cur_account cur) s))"

definition discard_attempt ::
  "'a env_scheme \<Rightarrow> current_attempt \<Rightarrow> provider_error \<Rightarrow> provider_event list \<Rightarrow> session \<Rightarrow> session" where
  "discard_attempt r cur error events s =
     (let s = s\<lparr>se_last_retryable_failure_events := events, se_last_retryable_failure := Some error\<rparr>;
          s = (if se_request_persisted s
               then store_write r (WIntermediate (intermediate_failure_of r cur error s)) s else s)
      in reset_uncommitted_observations s)"

text \<open>The decision for a failed attempt: which of the retries apply, and the session they are decided in.\<close>

record retry_decision =
  rt_continuation :: bool
  rt_rotation :: bool
  rt_transport :: "(attempt_transport \<times> duration) option"
  rt_ordinary :: bool
  rt_transient :: "duration option"
  rt_same_account :: bool

definition retryable :: "retry_decision \<Rightarrow> bool" where
  "retryable d = (rt_continuation d \<or> rt_same_account d \<or> rt_ordinary d \<or> rt_rotation d \<or> rt_transport d \<noteq> None)"

definition decide_retry ::
  "current_attempt \<Rightarrow> provider_error \<Rightarrow> upstream_send_state \<Rightarrow> session \<Rightarrow> session \<times> retry_decision" where
  "decide_retry cur error attempt_send_state s =
     (let safe = provider_proved_replay_safe error;
          (s, continuation) = prepare_continuation_retry cur error attempt_send_state safe s;
          rotation = rotation_gate attempt_send_state s \<and> err_pre_delivery_retry error = Some AccountRotation;
          transport = transport_recovery_of error attempt_send_state s;
          ordinary = rotation_gate attempt_send_state s \<and> safe;
          (s, transient) = transient_retry_of ordinary (cur_account cur) error s;
          same_account = err_retry_same_account error \<and> safe \<and> uncommitted s
            \<and> attempt_send_state \<noteq> Ambiguous \<and> se_routing_attempts s < se_max_attempts s
            \<and> cur_account cur \<notin> set (se_credential_recovery_attempted s)
      in (s, \<lparr>rt_continuation = continuation, rt_rotation = rotation, rt_transport = transport,
              rt_ordinary = ordinary, rt_transient = transient, rt_same_account = same_account\<rparr>))"

definition handle_stream_error ::
  "'a env_scheme \<Rightarrow> provider_error \<Rightarrow> session \<Rightarrow> session \<times> (engine_error + pull_outcome)" where
  "handle_stream_error r error s =
     (let (events, error) = take_atomic_client_events error in
      case se_current s of
        None \<Rightarrow> (s, Inl EngNoActiveAttempt)
      | Some cur \<Rightarrow>
          let s = record_provider_failure (pcm_provider (cur_metadata cur)) (err_kind error) (s\<lparr>se_current := None\<rparr>);
              attempt_send_state = (if cur_send_observed cur then Sent else err_send_state error);
              s = raise_send_watermark attempt_send_state s;
              send_state = se_send_state_watermark s;
              s = (if se_request_persisted s then store_write r (WMarkSendState send_state) s else s);
              (s, d) = decide_retry cur error attempt_send_state s
          in if retryable d then
               let facts = concat (map pe_canonical events);
                   s = s\<lparr>se_observation := observe_facts_at r 1 facts (se_observation s)\<rparr>;
                   s = arrange_retry cur (rt_same_account d) (rt_transient d) (rt_transport d) (rt_continuation d) s
               in (discard_attempt r cur error events s, Inr PoAttemptDiscarded)
             else
               let s = s\<lparr>se_current := Some cur\<rparr> in
               if events \<noteq> [] then
                 let (s, events) = observe_atomic_terminal_events r 1 events s
                 in (s, Inr (PoTerminalFailure events error send_state))
               else (finish_provider_error_with_send_state r error send_state s,
                     Inl (provider_engine_error error)))"


section \<open>Preparing an attempt\<close>

type_synonym prepared = "session \<times> (engine_error + pull_outcome option)"

definition interrupted :: "'a env_scheme \<Rightarrow> engine_error \<Rightarrow> session \<Rightarrow> session \<times> (engine_error + 'b)" where
  "interrupted r error s = (finish_interruption r error s, Inl error)"

text \<open>A refusal of the gateway itself: a failed request with an internal error.\<close>

definition reject_internal ::
  "'a env_scheme \<Rightarrow> string \<Rightarrow> engine_error \<Rightarrow> session \<Rightarrow> session \<times> (engine_error + 'b)" where
  "reject_internal r message error s =
     (finish_failure r
        (plain_failure Failed (current_send_state s) (gateway_error_new GkInternal message)) s, Inl error)"

definition advance_provider_candidate :: "session \<Rightarrow> session option" where
  "advance_provider_candidate s =
     (if length (rp_candidates (se_plan s)) \<le> se_candidate_index s + 1 then None
      else Some (s\<lparr>se_candidate_index := se_candidate_index s + 1\<rparr>))"

definition prepare_unavailable_native_continuation_replay :: "provider_error \<Rightarrow> session \<Rightarrow> session option" where
  "prepare_unavailable_native_continuation_replay error s =
     (if required_account (se_selection s) \<noteq> None
        \<or> se_continuation_attempt s \<noteq> CaNative
        \<or> err_kind error \<notin> {PkNoEligibleAccount, PkAccountCapacityUnavailable, PkQuotaExhausted}
      then None
      else case se_pin s of
        None \<Rightarrow> None
      | Some pin \<Rightarrow>
          if session_state_for s (ncp_provider pin) = None then None
          else Some (exclude_account (ncp_account pin) (s\<lparr>se_continuation_attempt := CaReplayAny\<rparr>)))"

definition local_unavailability :: "provider_error \<Rightarrow> bool" where
  "local_unavailability error =
     (err_kind error \<in> {PkAccountCapacityUnavailable, PkNoEligibleAccount, PkQuotaExhausted,
        PkProviderInfrastructureUnavailable, PkConcurrencyQueueFull, PkConcurrencyQueueTimeout}
      \<and> err_send_state error = NotSent)"

definition no_account_left :: "provider_error \<Rightarrow> bool" where
  "no_account_left error =
     (err_kind error \<in> {PkAccountCapacityUnavailable, PkNoEligibleAccount, PkQuotaExhausted,
        PkConcurrencyQueueFull, PkConcurrencyQueueTimeout})"

text \<open>The provider refused the call: it answered with an error instead of a stream.\<close>

definition call_refused :: "'a env_scheme \<Rightarrow> provider_candidate \<Rightarrow> provider_error \<Rightarrow> session \<Rightarrow> prepared" where
  "call_refused r c error s =
     (case prepare_unavailable_native_continuation_replay error s of
        Some s \<Rightarrow> (s, Inr (Some PoAttemptDiscarded))
      | None \<Rightarrow>
          (case (if local_unavailability error \<and> se_continuation_attempt s \<in> {CaNone, CaReplayAny}
                 then advance_provider_candidate s else None) of
             Some s \<Rightarrow> (s, Inr (Some PoAttemptDiscarded))
           | None \<Rightarrow>
               (case (if no_account_left error then se_last_retryable_failure s else None) of
                  Some last_failure \<Rightarrow>
                    (let s = s\<lparr>se_last_retryable_failure := None\<rparr>;
                         send_state = current_send_state s;
                         events = se_last_retryable_failure_events s;
                         s = s\<lparr>se_last_retryable_failure_events := []\<rparr>
                     in if events \<noteq> [] then
                          let (s, events) = observe_atomic_terminal_events r 1 events s
                          in (s\<lparr>se_budget_attempt_already_counted := True\<rparr>,
                              Inr (Some (PoTerminalFailure events last_failure send_state)))
                        else (finish_provider_error r last_failure s, Inl (provider_engine_error last_failure)))
                | None \<Rightarrow>
                    (let s = (if local_unavailability error then s
                              else record_provider_failure (pc_provider c) (err_kind error) s)
                     in (finish_provider_error r error s, Inl (provider_engine_error error))))))"

definition attempt_record_of ::
  "nat \<Rightarrow> attempt_trigger \<Rightarrow> provider_call_metadata \<Rightarrow> session \<Rightarrow> attempt_record" where
  "attempt_record_of index trigger m s =
     (let selection = pcm_selection_observation m; capacity = Option.bind selection pso_capacity in
      \<lparr>ar_request_id = sf_request_id (se_frame s), ar_attempt_count = index, ar_trigger = trigger,
       ar_provider_kind = pcm_provider m, ar_provider_account_id = Some (pcm_provider_account_id m),
       ar_provider_account_ref = Some (pcm_provider_account_id m),
       ar_upstream_model_id = pcm_upstream_model m,
       ar_upstream_transport = transport_str (pcm_transport m), ar_http_version = None,
       ar_account_selection_wait_ms = map_option pso_account_selection_wait_ms selection,
       ar_capacity_used_slots = map_option used_slots capacity,
       ar_capacity_total_slots = map_option total_slots capacity\<rparr>)"

text \<open>The write of the new attempt: with the request row the first time, alone afterwards.\<close>

definition write_attempt :: "'a env_scheme \<Rightarrow> attempt_record \<Rightarrow> session \<Rightarrow> prepared" where
  "write_attempt r rec s =
     (if se_request_persisted s then (store_write r (WRecordAttempt rec) s, Inr None)
      else case se_pending_request s of
        None \<Rightarrow> (s, Inl EngInvalidDeliveryState)
      | Some request \<Rightarrow>
          (let w = WCreateWithAttempt request rec; s = store_write r w s
           in (if en_store r w then s\<lparr>se_pending_request := None, se_request_persisted := True\<rparr> else s,
               Inr None)))"

definition adopt_stream ::
  "'a env_scheme \<Rightarrow> bool \<Rightarrow> attempt_transport \<Rightarrow> nat \<Rightarrow> provider_call_metadata \<Rightarrow> session \<Rightarrow> prepared" where
  "adopt_stream r transport_recovery transport next m s =
     (let s = (if se_account_state_owner s = None
               then s\<lparr>se_account_state_owner := Some \<lparr>so_provider = pcm_provider m,
                        so_account = pcm_provider_account_id m\<rparr>\<rparr> else s);
          trigger = (if se_attempts s = 0 then InitialAttempt else AccountRetry);
          rec = attempt_record_of next trigger m s;
          s = s\<lparr>se_attempts := next,
                se_routing_attempts := (if transport_recovery then se_routing_attempts s
                                        else saturating_add u32_max (se_routing_attempts s) 1),
                se_current := Some
                  \<lparr>cur_metadata = m, cur_trigger = trigger, cur_transport = transport, cur_index = next,
                   cur_started_at = en_wall r 2, cur_send_observed = False,
                   cur_response_observation = None\<rparr>\<rparr>
      in write_attempt r rec s)"

text \<open>The provider answered with a stream: it must be the call that was asked for.\<close>

definition accept_stream ::
  "'a env_scheme \<Rightarrow> bool \<Rightarrow> provider_account_id option \<Rightarrow> attempt_transport \<Rightarrow> nat
   \<Rightarrow> provider_candidate \<Rightarrow> provider_call_metadata \<Rightarrow> session \<Rightarrow> prepared" where
  "accept_stream r transport_recovery pinned_account transport next c m s =
     (let account = pcm_provider_account_id m in
      if \<not> metadata_confirms m c then
        reject_internal r ''provider metadata did not match the frozen candidate'' EngProviderMetadataMismatch
          (record_provider_failure (pc_provider c) PkProtocol s)
      else if \<not> is_diagnostic (se_selection s) \<and> \<not> scope_allows (pc_account_scope c) account then
        reject_internal r ''provider selected an account outside the frozen client scope''
          EngAccountOutsideClientScope s
      else if opt_any (\<lambda>required. account \<noteq> required) pinned_account then
        reject_internal r ''provider did not use the required account'' EngRequiredAccountMismatch s
      else if se_continuation_attempt s = CaNative
           \<and> opt_any (\<lambda>pin. \<not> pin_matches pin (pcm_provider m) account) (se_pin s) then
        reject_internal r ''native continuation binding did not match selected account''
          EngContinuationPinMismatch s
      else adopt_stream r transport_recovery transport next m s)"

definition take_pinned_account ::
  "pending_attempt_retry option \<Rightarrow> session \<Rightarrow> session \<times> provider_account_id option \<times> attempt_transport" where
  "take_pinned_account retry s =
     (case retry of
        Some recovery \<Rightarrow> (s, Some (pr_account recovery), pr_transport recovery)
      | None \<Rightarrow>
          (case se_selection s of
             Diagnostic account \<Rightarrow> (s, Some account, TransportDefault)
           | Scheduled account \<Rightarrow>
               (s\<lparr>se_recovery_account := None\<rparr>, opt_or (se_recovery_account s) account, TransportDefault)))"

definition account_context_of :: "provider_account_id option \<Rightarrow> session \<Rightarrow> account_attempt_context" where
  "account_context_of pinned_account s =
     with_credential_recovery_attempted
       (case se_selection s of
          Diagnostic account \<Rightarrow>
            account_context_diagnostic (se_excluded_accounts s) account (se_account_state_owner s)
        | Scheduled _ \<Rightarrow>
            context_with_account_scope
              (account_context_new (se_excluded_accounts s) pinned_account (se_account_state_owner s))
              (rp_account_scope (se_plan s)))
       (opt_any (\<lambda>a. a \<in> set (se_credential_recovery_attempted s)) pinned_account)"

text \<open>A provider's request profile is resolved once per request.\<close>

definition resolve_profile :: "engine \<Rightarrow> provider_kind \<Rightarrow> session \<Rightarrow> provider_error + session" where
  "resolve_profile eg provider s =
     (if bt_has (se_request_profiles s) provider then Inr s
      else case request_profile (rp_account_scope (se_plan s)) provider of
        None \<Rightarrow> Inr s
      | Some configuration \<Rightarrow>
          (case eg_resolve_request_profile eg provider configuration of
             Inl error \<Rightarrow> Inl error
           | Inr profile \<Rightarrow>
               Inr (s\<lparr>se_request_profiles := bt_insert provider profile (se_request_profiles s)\<rparr>)))"

definition attempt_context_of ::
  "nat \<Rightarrow> provider_candidate \<Rightarrow> account_attempt_context \<Rightarrow> attempt_transport \<Rightarrow> session \<Rightarrow> attempt_context" where
  "attempt_context_of next c account transport s =
     (attempt_context_new
        \<lparr>rac_pricing = rp_pricing (se_plan s),
         rac_request_profile = map_of (se_request_profiles s) (pc_provider c),
         rac_disable_fast = rp_disable_fast (se_plan s),
         rac_request_location = rp_request_location (se_plan s),
         rac_request_id = sf_request_id (se_frame s),
         rac_client_api_key_ref = sf_client_api_key_ref (se_frame s),
         rac_timing_started_at = ro_timing_started_at (se_observation s),
         rac_concurrency_wait_budget = sf_wait_budget (se_frame s)\<rparr>
        next (sf_deadline (se_frame s)) (rp_account_selection_policy (se_plan s)) account
        (sf_continuation (se_frame s)))
       \<lparr>ac_continuation_attempt := se_continuation_attempt s, ac_transport := transport\<rparr>"

definition call_provider ::
  "engine \<Rightarrow> round \<Rightarrow> pending_attempt_retry option \<Rightarrow> provider_candidate \<Rightarrow> nat \<Rightarrow> session \<Rightarrow> prepared" where
  "call_provider eg r retry c next s =
     (let (s, pinned_account, transport) = take_pinned_account retry s;
          account = account_context_of pinned_account s
      in if \<not> eg_registered eg (pc_provider c)
         then (s, Inl (EngProviderNotRegistered (pk_str (pc_provider c))))
         else case resolve_profile eg (pc_provider c) s of
           Inl error \<Rightarrow> (finish_provider_error r error s, Inl (provider_engine_error error))
         | Inr s \<Rightarrow>
             (case poll_provider (se_cancelled s) (sf_deadline (se_frame s)) (rd_call r)
                     (rd_execute r (se_operation s) c (attempt_context_of next c account transport s)) of
                BoundaryCancelled \<Rightarrow> interrupted r EngCancelled s
              | BoundaryDeadline \<Rightarrow> interrupted r EngDeadline s
              | Answered (Inl error) \<Rightarrow> call_refused r c error s
              | Answered (Inr m) \<Rightarrow>
                  accept_stream r (opt_any pr_transport_recovery retry) pinned_account transport next c m s))"

definition nth_opt :: "'a list \<Rightarrow> nat \<Rightarrow> 'a option" where
  "nth_opt xs i = (if i < length xs then Some (xs ! i) else None)"

definition prepare_attempt :: "engine \<Rightarrow> round \<Rightarrow> session \<Rightarrow> prepared" where
  "prepare_attempt eg r s =
     (let retry = se_pending_retry s;
          s = s\<lparr>se_pending_retry := None\<rparr>
      in if \<not> opt_any pr_transport_recovery retry \<and> se_max_attempts s \<le> se_routing_attempts s
         then (s, Inl EngEmptyRoutingPlan)
         else case (if opt_any (\<lambda>p. pr_delay p \<noteq> 0) retry
                    then poll_retry_delay (se_cancelled s) (sf_deadline (se_frame s)) (rd_delay r)
                    else Answered ()) of
           BoundaryCancelled \<Rightarrow> interrupted r EngCancelled s
         | BoundaryDeadline \<Rightarrow> interrupted r EngDeadline s
         | Answered _ \<Rightarrow>
             (case nth_opt (rp_candidates (se_plan s)) (se_candidate_index s) of
                None \<Rightarrow>
                  (finish_failure r
                     (plain_failure Failed (current_send_state s)
                        (gateway_error_new GkNoAvailableProvider ''no upstream Provider is available'')) s,
                   Inl EngEmptyRoutingPlan)
              | Some c \<Rightarrow>
                  (case checked_add u32_max (se_attempts s) 1 of
                     None \<Rightarrow> (s, Inl EngEmptyRoutingPlan)
                   | Some next \<Rightarrow> call_provider eg r retry c next s)))"

section \<open>Pulling\<close>

text \<open>\<open>Inr None\<close> continues the loop.\<close>

definition poll_current :: "round \<Rightarrow> session \<Rightarrow> prepared" where
  "poll_current r s =
     (if se_current s = None then (s, Inl EngNoActiveAttempt)
      else case poll_stream_item (se_cancelled s) (sf_deadline (se_frame s)) (rd_poll r) (rd_item r) of
        BoundaryCancelled \<Rightarrow> interrupted r EngCancelled s
      | BoundaryDeadline \<Rightarrow> interrupted r EngDeadline s
      | Answered None \<Rightarrow>
          ((record_current_provider_success s)\<lparr>se_upstream_complete := True\<rparr>, Inr (Some PoEnd))
      | Answered (Some (Inr event)) \<Rightarrow> (case observe_item r event s of (s, out) \<Rightarrow> (s, Inr out))
      | Answered (Some (Inl error)) \<Rightarrow>
          (case handle_stream_error r error s of
             (s, Inl e) \<Rightarrow> (s, Inl e) | (s, Inr out) \<Rightarrow> (s, Inr (Some out))))"

definition pull_step :: "engine \<Rightarrow> round \<Rightarrow> session \<Rightarrow> prepared" where
  "pull_step eg r s =
     (if se_current s \<noteq> None then poll_current r s
      else case prepare_attempt eg r s of
        (s, Inr None) \<Rightarrow> poll_current r s
      | (s, Inr (Some out)) \<Rightarrow> (s, Inr (Some out))
      | (s, Inl error) \<Rightarrow> (if is_finalized s then s else finish_interruption r error s, Inl error))"

text \<open>The rounds left over, and no answer when they run out first.\<close>

fun pull :: "engine \<Rightarrow> round list \<Rightarrow> session \<Rightarrow> session \<times> round list \<times> (engine_error + pull_outcome) option" where
  "pull eg [] s = (s, [], None)"
| "pull eg (r # rs) s =
     (case pull_step eg r s of
        (s, Inl error) \<Rightarrow> (s, rs, Some (Inl error))
      | (s, Inr (Some out)) \<Rightarrow> (s, rs, Some (Inr out))
      | (s, Inr None) \<Rightarrow> pull eg rs s)"

lemma pull_consumes: "pull eg rs s = (s', rs', Some res) \<Longrightarrow> length rs' < length rs"
  by (induction eg rs s rule: pull.induct) (fastforce split: prod.splits sum.splits option.splits)+

section \<open>The calls of the API\<close>

type_synonym next_result = "(engine_error + coordinated_event option) option"

definition deliver :: "provider_event \<Rightarrow> session \<Rightarrow> session \<times> next_result" where
  "deliver event s =
     (if se_downstream_committed_at s \<noteq> None
      then (s, Some (Inr (Some (coordinated_single event AlreadyCommitted))))
      else (s\<lparr>se_delivery_pending := True\<rparr>,
            Some (Inr (Some (coordinated_single event CommitBeforeDelivery)))))"

definition deliver_failure ::
  "provider_event list \<Rightarrow> provider_error \<Rightarrow> upstream_send_state \<Rightarrow> session \<Rightarrow> session \<times> next_result" where
  "deliver_failure events error send_state s =
     (let committed = se_downstream_committed_at s \<noteq> None;
          requirement = (if committed then AlreadyCommitted else CommitBeforeDelivery);
          s = s\<lparr>se_delivery_pending := (if committed then se_delivery_pending s else True),
                se_pending_terminal_failure := Some \<lparr>tf_error = error, tf_send_state = send_state\<rparr>\<rparr>
      in (s, Some (case coordinated_try_batch events requirement of
                     Inl e \<Rightarrow> Inl e | Inr c \<Rightarrow> Inr (Some c))))"

function next_loop :: "engine \<Rightarrow> 'a env_scheme \<Rightarrow> round list \<Rightarrow> session \<Rightarrow> session \<times> next_result" where
  "next_loop eg r rs s =
     (case pull eg rs s of
        (s, _, None) \<Rightarrow> (s, None)
      | (s, _, Some (Inl error)) \<Rightarrow> (s, Some (Inl error))
      | (s, _, Some (Inr (PoEvent event))) \<Rightarrow> deliver event s
      | (s, rs, Some (Inr PoAttemptDiscarded)) \<Rightarrow> next_loop eg r rs s
      | (s, _, Some (Inr (PoTerminalFailure events error send_state))) \<Rightarrow>
          deliver_failure events error send_state s
      | (s, _, Some (Inr PoEnd)) \<Rightarrow>
          (if se_downstream_committed_at s \<noteq> None then finish_success r s else s, Some (Inr None)))"
  by pat_completeness auto
termination
  by (relation "measure (\<lambda>(_, _, rs, _). length rs)") (auto dest!: sym [of _ "pull _ _ _"] pull_consumes)

text \<open>\<open>r\<close> holds the answers for the parts of a call outside of \<open>pull\<close>.\<close>

definition next_event :: "engine \<Rightarrow> 'a env_scheme \<Rightarrow> round list \<Rightarrow> session \<Rightarrow> session \<times> next_result" where
  "next_event eg r rs s =
     (let s = resume_finalization r s in
      if se_delivery_pending s then (s, Some (Inl EngDownstreamCommitRequired))
      else case se_pending_terminal_failure s of
        Some pending \<Rightarrow>
          (finish_provider_error_with_send_state r (tf_error pending) (tf_send_state pending)
             (s\<lparr>se_pending_terminal_failure := None\<rparr>),
           Some (Inl (provider_engine_error (tf_error pending))))
      | None \<Rightarrow> if is_finalized s then (s, Some (Inr None)) else next_loop eg r rs s)"

type_synonym collect_result = "(engine_error + provider_event list) option"

function collect_loop ::
  "engine \<Rightarrow> 'a env_scheme \<Rightarrow> round list \<Rightarrow> provider_event list \<Rightarrow> session \<Rightarrow> session \<times> collect_result" where
  "collect_loop eg r rs events s =
     (case pull eg rs s of
        (s, _, None) \<Rightarrow> (s, None)
      | (s, _, Some (Inl error)) \<Rightarrow> (s, Some (Inl error))
      | (s, rs, Some (Inr (PoEvent event))) \<Rightarrow> collect_loop eg r rs (events @ [event]) s
      | (s, rs, Some (Inr PoAttemptDiscarded)) \<Rightarrow> collect_loop eg r rs [] s
      | (s, _, Some (Inr (PoTerminalFailure _ error send_state))) \<Rightarrow>
          (finish_provider_error_with_send_state r error send_state s,
           Some (Inl (provider_engine_error error)))
      | (s, _, Some (Inr PoEnd)) \<Rightarrow>
          if events = [] then (s, Some (Inl EngInvalidDeliveryState))
          else (s\<lparr>se_delivery_pending := True\<rparr>, Some (Inr events)))"
  by pat_completeness auto
termination
  by (relation "measure (\<lambda>(_, _, rs, _). length rs)") (auto dest!: sym [of _ "pull _ _ _"] pull_consumes)

definition collect_uncommitted :: "engine \<Rightarrow> 'a env_scheme \<Rightarrow> round list \<Rightarrow> session \<Rightarrow> session \<times> collect_result" where
  "collect_uncommitted eg r rs s =
     (let s = resume_finalization r s in
      if se_downstream_committed_at s \<noteq> None \<or> se_delivery_pending s
      then (s, Some (Inl EngInvalidDeliveryState))
      else if is_finalized s then (s, Some (Inr []))
      else collect_loop eg r rs [] s)"

definition commit_downstream :: "'a env_scheme \<Rightarrow> nat option \<Rightarrow> session \<Rightarrow> session \<times> (engine_error + unit)" where
  "commit_downstream r status s =
     (if \<not> se_delivery_pending s \<or> se_downstream_committed_at s \<noteq> None \<or> is_finalized s
      then (s, Inl EngInvalidDeliveryState)
      else
        let committed_at = en_wall r 1;
            s = (if se_request_persisted s
                 then store_write r (WMarkDownstreamCommitted committed_at status) s else s);
            s = s\<lparr>se_downstream_committed_at := Some committed_at, se_client_status_code := status,
                  se_delivery_pending := False\<rparr>
        in (if se_upstream_complete s then finish_success r s else s, Inr ()))"

definition record_client_status :: "'a env_scheme \<Rightarrow> nat \<Rightarrow> session \<Rightarrow> session \<times> (engine_error + unit)" where
  "record_client_status r status s =
     (if se_client_status_code s \<noteq> None then (s, Inl EngInvalidDeliveryState)
      else
        let s = (if se_request_persisted s then store_write r (WClientStatus status) s else s)
        in (s\<lparr>se_client_status_code := Some status\<rparr>, Inr ()))"

definition cancel :: "session \<Rightarrow> session" where
  "cancel s = s\<lparr>se_cancelled := True\<rparr>"

definition cancel_and_finalize :: "'a env_scheme \<Rightarrow> session \<Rightarrow> session" where
  "cancel_and_finalize r s =
     (let s = resume_finalization r (cancel s) in
      if is_finalized s then s
      else
        let s = s\<lparr>se_delivery_pending := False\<rparr> in
        case se_pending_terminal_failure s of
          Some pending \<Rightarrow>
            finish_provider_error_with_send_state r (tf_error pending) (tf_send_state pending)
              (s\<lparr>se_pending_terminal_failure := None\<rparr>)
        | None \<Rightarrow> finish_interruption r EngCancelled s)"

definition native_continuation_pin_of :: "provider_session_state \<Rightarrow> session \<Rightarrow> native_continuation_pin option" where
  "native_continuation_pin_of state s =
     (case se_current s of
        None \<Rightarrow> None
      | Some cur \<Rightarrow>
          if pss_provider state \<noteq> pk_str (pcm_provider (cur_metadata cur)) then None
          else case ro_upstream_response_id (se_observation s) of
            None \<Rightarrow> None
          | Some rid \<Rightarrow> Some
              (pin_with_session_state
                 (pin_with_scope
                    (native_pin_new (PreviousResponseId rid) (PreviousResponseId rid)
                       (sf_client_api_key_ref (se_frame s)) (pcm_provider (cur_metadata cur)) (cur_account cur))
                    Persisted)
                 state))"

section \<open>Admission\<close>

definition response_headers :: "session \<Rightarrow> provider_response_header list" where
  "response_headers s = unwrap_or [] (map_option pro_client_headers (current_observation s))"

definition response_status_code :: "session \<Rightarrow> nat option" where
  "response_status_code s = Option.bind (current_observation s) pro_status_code"

definition new_session ::
  "new_model_request \<Rightarrow> operation \<Rightarrow> routing_plan \<Rightarrow> account_selection \<Rightarrow> continuation_binding option
   \<Rightarrow> bool \<Rightarrow> instant \<Rightarrow> nat \<Rightarrow> session" where
  "new_session request op plan selection continuation cancelled started_at candidate_index =
     \<lparr>se_frame = \<lparr>sf_request_id = nmr_id request, sf_client_api_key_ref = nmr_client_api_key_ref request,
        sf_wait_budget = None, sf_deadline = nmr_deadline_at request, sf_plan = plan,
        sf_account_selection = selection, sf_continuation = continuation,
        sf_image_generation_requested = operation_image_requested op\<rparr>,
      se_observation = observation_new started_at, se_budget_prior_attempts_usd = decimal_zero,
      se_budget_attempt_already_counted = False, se_pending_request = Some request,
      se_request_persisted = False, se_operation = op,
      se_continuation_attempt = initial_continuation_attempt op plan continuation,
      se_account_state_owner = map_option state_owner_from_continuation (Option.bind continuation pinned),
      se_cancelled = cancelled, se_attempts = 0, se_routing_attempts = 0,
      se_candidate_index = candidate_index, se_excluded_accounts = [],
      se_credential_recovery_attempted = [], se_recovery_account = None, se_pending_retry = None,
      se_transient_retry_counts = [], se_request_profiles = [], se_current = None,
      se_send_state_watermark = NotSent, se_downstream_committed_at = None,
      se_client_status_code = None, se_delivery_pending = False, se_upstream_complete = False,
      se_finalization = None, se_finalized_at = None, se_last_retryable_failure = None,
      se_last_retryable_failure_events = [], se_provider_attempt_outcomes = [],
      se_pending_terminal_failure = None, se_log = []\<rparr>"

fun position :: "('a \<Rightarrow> bool) \<Rightarrow> 'a list \<Rightarrow> nat option" where
  "position P [] = None"
| "position P (x # xs) = (if P x then Some 0 else map_option Suc (position P xs))"

text \<open>
  A start that fails after the session exists has finalized it; the session is kept here to show
  what it wrote, the caller only gets the error.
\<close>

datatype start_result = StartRejected engine_error | StartFailed session engine_error | Started session

definition start_with_account_selection ::
  "'a env_scheme \<Rightarrow> bool \<Rightarrow> new_model_request \<Rightarrow> operation \<Rightarrow> routing_plan \<Rightarrow> account_selection
   \<Rightarrow> continuation_binding option \<Rightarrow> start_result" where
  "start_with_account_selection r cancelled request op plan selection continuation =
     (case (case Option.bind continuation pinned of
              None \<Rightarrow> Some 0
            | Some pin \<Rightarrow> position (\<lambda>c. pc_provider c = ncp_provider pin) (rp_candidates plan)) of
        None \<Rightarrow> StartRejected EngContinuationPinMismatch
      | Some candidate_index \<Rightarrow>
          let s = new_session request op plan selection continuation cancelled (en_mono r 1) candidate_index in
          if se_cancelled s then StartFailed (finish_interruption r EngCancelled s) EngCancelled
          else if nmr_deadline_at request \<le> en_wall r 1
            then StartFailed (finish_interruption r EngDeadline s) EngDeadline
          else Started s)"

definition start_session where
  "start_session r cancelled request op plan required continuation =
     start_with_account_selection r cancelled request op plan (Scheduled required) continuation"

definition start_diagnostic where
  "start_diagnostic r cancelled request op plan account continuation =
     start_with_account_selection r cancelled request op plan (Diagnostic account) continuation"

definition with_concurrency_wait_budget :: "wait_budget \<Rightarrow> session \<Rightarrow> session" where
  "with_concurrency_wait_budget b s = s\<lparr>se_frame := (se_frame s)\<lparr>sf_wait_budget := b\<rparr>\<rparr>"

end
