(* ===== verification/Execution.thy ===== *)
theory Execution
  imports Coordinator "HOL-Library.Word"
begin

text \<open>
  \<open>engine/execution.rs\<close> and \<open>engine/probe.rs\<close>: authentication against the frozen snapshot, the start of
  a request (routing, continuation, admission, budget, coordinator), the session handed to the API
  with its settlement, and the connection test of an account. The ports answer through records; the
  calls made to them are kept in order as effects. A future the caller drops while it waits is a
  result of its own, so that every cleanup the code does in \<open>Drop\<close> is part of the model. Log output
  is left out.
\<close>

section \<open>Requests and clients\<close>

datatype client_transport = HttpJson | HttpSse | WebSocket | InternalProbe

fun client_transport_as_str :: "client_transport \<Rightarrow> string" where
  "client_transport_as_str HttpJson = ''http_json''"
| "client_transport_as_str HttpSse = ''http_sse''"
| "client_transport_as_str WebSocket = ''websocket''"
| "client_transport_as_str InternalProbe = ''internal''"

record execution_request_metadata =
  em_protocol :: string
  em_endpoint :: string
  em_transport :: client_transport
  em_stream :: bool
  em_client_ip :: "string option"
  em_user_agent :: "string option"
  em_previous_response_id :: "previous_response_id option"

record 'v authenticated_client =
  acl_snapshot :: "'v runtime_snapshot"
  acl_policy :: "frozen_account_scope client_policy"

datatype client_authentication_error = InvalidKey | SnapshotUnavailable

datatype execution_target = TargetModel public_model_id | TargetProviderEndpoint provider_kind

fun into_public_model :: "execution_target \<Rightarrow> public_model_id option" where
  "into_public_model (TargetModel model) = Some model"
| "into_public_model (TargetProviderEndpoint _) = None"

record 'v pending_start =
  pst_client :: "'v authenticated_client"
  pst_target :: execution_target
  pst_operation :: operation
  pst_metadata :: execution_request_metadata

section \<open>Calls of the ports\<close>

datatype client_admission_rejection = RateLimitedRejection | ConcurrencyLimitedRejection

record client_admission_request =
  adm_model_request_id :: model_request_id
  adm_client_api_key_id :: client_api_key_id
  adm_lease_ttl :: duration
  adm_allow_concurrency_acquire :: bool
  adm_limits :: rate_limits

datatype circuit_decision = CircuitAllow | CircuitBlockedUntil systime

record provider_circuit_policy =
  pcp_failure_threshold :: nat
  pcp_open_duration :: duration

definition provider_circuit_policy_default :: provider_circuit_policy where
  "provider_circuit_policy_default = \<lparr>pcp_failure_threshold = 3, pcp_open_duration = of_secs 30\<rparr>"

text \<open>An admission is kept with the reply that was observed, which may be none.\<close>

datatype admit_reply = AdmitDropped | AdmitTimeout | AdmitError | AdmitGranted | AdmitRejected client_admission_rejection

datatype exec_effect =
    EfKeyUsed client_api_key_id
  | EfAdmit client_admission_request admit_reply
  | EfAbandon client_api_key_id model_request_id
  | EfRelease client_api_key_id model_request_id
  | EfBudgetAdmit client_api_key_id
  | EfSettle client_budget_charge
  | EfCircuitSuccess provider_kind
  | EfCircuitFailure provider_kind
  | EfRecordPin native_continuation_pin

record provider_request_observation =
  pro_requested_model :: "public_model_id option"
  pro_reasoning_effort :: "string option"
  pro_reasoning_preset :: "string option"
  pro_request_kind :: "string option"
  pro_subagent_kind :: "string option"
  pro_compact :: bool
  pro_continuation :: continuation_request_observation

definition provider_request_observation_default :: provider_request_observation where
  "provider_request_observation_default =
     \<lparr>pro_requested_model = None, pro_reasoning_effort = None, pro_reasoning_preset = None,
      pro_request_kind = None, pro_subagent_kind = None, pro_compact = False,
      pro_continuation = \<lparr>cro_affinity_hash = None, cro_previous_response_id_hash = None, cro_requested = False\<rparr>\<rparr>"

text \<open>
  One pass of the admission loop: the clocks, what other requests did to the wait queue before it,
  and the answers it waits for. \<open>None\<close> and \<open>AdmitDropped\<close> are a caller that gives up there.
\<close>

record admission_round =
  ad_now :: systime
  ad_mono :: instant
  ad_others :: "client_api_key_id queue_state \<Rightarrow> client_api_key_id queue_state"
  ad_reply :: admit_reply
  ad_budget :: "(gateway_error + unit) option"
  ad_wait_now :: instant
  ad_wait_sys_now :: systime
  ad_retry :: "(queue_rejection + unit) option"

text \<open>The points of a start after the admission at which its caller may give up.\<close>

datatype start_wait = AtRoute | AtResolve | AtBudget | AtBudgetRelease | AtSettle | AtRelease

record 'v service_env =
  sv_snapshot :: "'v runtime_snapshot option"
  sv_started_at :: systime
  sv_uuid :: string
  sv_circuit :: "provider_kind \<Rightarrow> (unit + circuit_decision) option"
  sv_resolve :: "client_api_key_id \<Rightarrow> previous_response_id
    \<Rightarrow> (native_continuation_store_error_kind + native_continuation_pin option) option"
  sv_queue :: "client_api_key_id queue_state"
  sv_admission :: "admission_round list"
  sv_admission_elapsed :: duration
  sv_has_budget :: bool
  sv_budget :: "gateway_error + unit"
  sv_observation :: "provider_kind \<Rightarrow> operation \<Rightarrow> client_api_key_id \<Rightarrow> provider_request_observation option"
  sv_core :: env
  sv_settle_now :: systime
  sv_gives_up :: "start_wait option"

section \<open>Authentication\<close>

text \<open>Equal lengths, then the bitwise differences of all bytes collected without an early exit.\<close>

definition constant_time_equal :: "string \<Rightarrow> string \<Rightarrow> bool" where
  "constant_time_equal left right =
     (if length left \<noteq> length right then False
      else fold (\<lambda>(l, r) difference. Bit_Operations.or difference (Bit_Operations.xor (of_char l) (of_char r)))
             (zip left right) (0 :: 8 word) = 0)"

definition authenticate_without_usage ::
  "'v service_env \<Rightarrow> string \<Rightarrow> client_authentication_error + 'v authenticated_client" where
  "authenticate_without_usage env plaintext =
     (case sv_snapshot env of
        None \<Rightarrow> Inl SnapshotUnavailable
      | Some snapshot \<Rightarrow>
          (case List.find (\<lambda>policy. \<not> isl (client_policy_authorize policy))
                  (filter (\<lambda>policy. constant_time_equal plaintext (expose_for_auth (cp_plaintext_key policy)))
                    (map snd (rt_client_policies snapshot))) of
             None \<Rightarrow> Inl InvalidKey
           | Some policy \<Rightarrow> Inr \<lparr>acl_snapshot = snapshot, acl_policy = policy\<rparr>))"

definition authenticate ::
  "'v service_env \<Rightarrow> string \<Rightarrow> exec_effect list \<times> (client_authentication_error + 'v authenticated_client)" where
  "authenticate env plaintext =
     (case authenticate_without_usage env plaintext of
        Inl e \<Rightarrow> ([], Inl e)
      | Inr client \<Rightarrow> ([EfKeyUsed (cp_key_id (acl_policy client))], Inr client))"

definition verify_client_key ::
  "'v service_env \<Rightarrow> string \<Rightarrow> client_authentication_error + client_api_key_id" where
  "verify_client_key env plaintext =
     (case authenticate_without_usage env plaintext of
        Inl e \<Rightarrow> Inl e | Inr client \<Rightarrow> Inr (cp_key_id (acl_policy client)))"

definition client_public_models :: "'v authenticated_client \<Rightarrow> public_model_id list" where
  "client_public_models client =
     public_models_for_scope (acl_snapshot client) (cp_account_scope (acl_policy client))"

definition client_contains_public_model :: "'v authenticated_client \<Rightarrow> public_model_id \<Rightarrow> bool" where
  "client_contains_public_model client model =
     contains_public_model_for_scope (acl_snapshot client) model (cp_account_scope (acl_policy client))"

section \<open>Errors shown to the client\<close>

fun map_routing_error :: "routing_error \<Rightarrow> gateway_error" where
  "map_routing_error (ModelNotFound model resolved) =
     gateway_error_new GkModelNotFound
       (if model = resolved
        then ''the requested model was not found in the provider catalogs available to this API key; check the model name''
        else ''the requested model maps to an upstream model that was not found in the provider catalogs available to this API key; check the configured model mapping'')"
| "map_routing_error (NoCapableProvider _) =
     gateway_error_new GkNoAvailableProvider ''no provider can execute this request''"
| "map_routing_error (NoCapableProviderEndpoint _) =
     gateway_error_new GkNoAvailableProvider ''no provider can execute this request''"
| "map_routing_error EmptyAccountScope =
     gateway_error_new GkNoAvailableProvider ''no provider can execute this request''"
| "map_routing_error _ = gateway_error_new GkInternal ''runtime routing configuration is invalid''"

fun gateway_error_from_engine :: "engine_error \<Rightarrow> gateway_error" where
  "gateway_error_from_engine EngCancelled = gateway_error_new GkCancelled ''request was cancelled''"
| "gateway_error_from_engine EngDeadline = gateway_error_new GkTimeout ''request deadline elapsed''"
| "gateway_error_from_engine (EngProvider provider) = gateway_from_provider provider"
| "gateway_error_from_engine EngEmptyRoutingPlan =
     gateway_error_new GkNoAvailableProvider ''no provider is available''"
| "gateway_error_from_engine (EngProviderNotRegistered _) =
     gateway_error_new GkNoAvailableProvider ''no provider is available''"
| "gateway_error_from_engine _ = gateway_error_new GkInternal ''request execution failed''"

definition model_request_deadline :: duration where
  "model_request_deadline = of_secs (10 * 60)"

definition new_request_id :: "string \<Rightarrow> gateway_error + model_request_id" where
  "new_request_id uuid =
     (case model_request_id_new (''req_'' @ uuid) of
        Inl _ \<Rightarrow> Inl (gateway_error_new GkInternal ''failed to allocate request ID'')
      | Inr i \<Rightarrow> Inr i)"

section \<open>Routing context and continuation\<close>

text \<open>What a step of a start may come to: it fails, its caller gave up, or it goes on.\<close>

datatype 'a outcome = Refused gateway_error | GivenUp | Proceeds 'a

definition blocked_by :: "(unit + circuit_decision) option \<Rightarrow> bool" where
  "blocked_by decision =
     (case decision of Some (Inr (CircuitBlockedUntil _)) \<Rightarrow> True | _ \<Rightarrow> False)"

text \<open>An error or a timeout of the circuit store leaves the provider open.\<close>

definition route_context :: "'v service_env \<Rightarrow> provider_kind list \<Rightarrow> routing_context" where
  "route_context env kinds =
     \<lparr>rc_required_provider = None,
      rc_blocked_providers = bs_of_list (filter (\<lambda>k. blocked_by (sv_circuit env k)) kinds)\<rparr>"

definition attach_continuation_session_state :: "operation \<Rightarrow> native_continuation_pin \<Rightarrow> operation" where
  "attach_continuation_session_state op pin =
     (case ncp_session_state pin of
        None \<Rightarrow> op
      | Some state \<Rightarrow>
          if pss_provider state \<noteq> pk_str (ncp_provider pin)
             \<or> operation_session_state op (pss_provider state) \<noteq> None
          then op else operation_set_session_state op state)"

definition denied :: "string \<Rightarrow> 'a outcome" where
  "denied message = Refused (gateway_error_new GkPolicyDenied message)"

definition bind_continuation ::
  "frozen_account_scope client_policy \<Rightarrow> routing_plan \<Rightarrow> operation \<Rightarrow> previous_response_id
   \<Rightarrow> native_continuation_pin option \<Rightarrow> (operation \<times> continuation_binding) outcome" where
  "bind_continuation policy plan op previous pin =
     (case pin of
        None \<Rightarrow> Proceeds (op, External previous)
      | Some pin \<Rightarrow>
          if \<not> pin_matches_client pin (cp_key_id policy) then
            denied ''continuation does not belong to this client API key''
          else if \<not> scope_allows (cp_account_scope policy) (ncp_account pin) then
            denied ''continuation account is outside the client account scope''
          else if \<not> list_ex (\<lambda>c. pc_provider c = ncp_provider pin) (rp_candidates plan) then
            Refused (gateway_error_new GkNoAvailableProvider ''continuation provider is not available'')
          else Proceeds (attach_continuation_session_state op pin, Pinned pin))"

text \<open>The affinity store is asked for 100 ms; unreachable it degrades to an external continuation.\<close>

definition resolve_continuation ::
  "'v service_env \<Rightarrow> frozen_account_scope client_policy \<Rightarrow> routing_plan \<Rightarrow> operation
   \<Rightarrow> previous_response_id \<Rightarrow> (operation \<times> continuation_binding) outcome" where
  "resolve_continuation env policy plan op previous =
     (if sv_gives_up env = Some AtResolve then GivenUp
      else case sv_resolve env (cp_key_id policy) previous of
        None \<Rightarrow> bind_continuation policy plan op previous None
      | Some (Inr pin) \<Rightarrow> bind_continuation policy plan op previous pin
      | Some (Inl NcUnavailable) \<Rightarrow> bind_continuation policy plan op previous None
      | Some (Inl NcOwnershipMismatch) \<Rightarrow> denied ''continuation does not belong to this client API key''
      | Some (Inl NcInvalidData) \<Rightarrow>
          Refused (gateway_error_new GkInternal ''continuation state is invalid''))"

section \<open>Admission of a client key\<close>

record admission_lease =
  al_client_api_key_id :: client_api_key_id
  al_model_request_id :: model_request_id

text \<open>The drop of an armed lease, and its release, of which the caller may drop the wait.\<close>

definition lease_abandon :: "admission_lease \<Rightarrow> exec_effect list" where
  "lease_abandon l = [EfAbandon (al_client_api_key_id l) (al_model_request_id l)]"

definition lease_release :: "admission_lease \<Rightarrow> exec_effect list" where
  "lease_release l = [EfRelease (al_client_api_key_id l) (al_model_request_id l)]"

definition release_unless_given_up :: "bool \<Rightarrow> admission_lease \<Rightarrow> exec_effect list" where
  "release_unless_given_up given_up l = (if given_up then lease_abandon l else lease_release l)"

definition drop_place :: "'k capacity_wait \<Rightarrow> 'k queue_state \<Rightarrow> 'k queue_state" where
  "drop_place w q = (case cw_ticket w of None \<Rightarrow> q | Some t \<Rightarrow> drop_ticket t q)"

record admission_result =
  ar_effects :: "exec_effect list"
  ar_wait_budget :: wait_budget
  ar_queue :: "client_api_key_id queue_state"
  ar_outcome :: "unit outcome"

text \<open>
  The loop of \<open>acquire_client_admission\<close>, a round for each pass. The lease is armed from just before
  the admission is asked for until a rejection, so every other exit in between abandons it; leaving
  the loop gives the place in the wait queue back. Without a further round the caller gave up in the
  queue.
\<close>

fun acquire_client_admission ::
  "bool \<Rightarrow> frozen_account_scope client_policy \<Rightarrow> admission_lease \<Rightarrow> systime \<Rightarrow> admission_round list
   \<Rightarrow> exec_effect list \<Rightarrow> wait_budget \<Rightarrow> client_api_key_id queue_state
   \<Rightarrow> client_api_key_id capacity_wait \<Rightarrow> admission_result" where
  "acquire_client_admission has_budget policy lease deadline [] effects budget q w =
     \<lparr>ar_effects = effects, ar_wait_budget = budget, ar_queue = drop_place w q, ar_outcome = GivenUp\<rparr>"
| "acquire_client_admission has_budget policy lease deadline (rd # rds) effects budget q w =
     (let q = ad_others rd q;
          key = cp_key_id policy;
          remaining = unwrap_or 0 (duration_since deadline (ad_now rd));
          leave = (\<lambda>effects outcome.
            \<lparr>ar_effects = effects, ar_wait_budget = budget, ar_queue = drop_place w q, ar_outcome = outcome\<rparr>);
          timeout = Refused (gateway_error_new GkTimeout ''request deadline elapsed'')
      in if remaining = 0 then leave effects timeout
         else
           let asked = effects @ [EfAdmit
                 \<lparr>adm_model_request_id = al_model_request_id lease, adm_client_api_key_id = key,
                  adm_lease_ttl = remaining,
                  adm_allow_concurrency_acquire =
                    (rate_max_concurrency (cp_limits policy) = 0 \<or> can_try q w key),
                  adm_limits = cp_limits policy\<rparr> (ad_reply rd)]
           in case ad_reply rd of
                AdmitDropped \<Rightarrow> leave (asked @ lease_abandon lease) GivenUp
              | AdmitTimeout \<Rightarrow> leave (asked @ lease_abandon lease) timeout
              | AdmitError \<Rightarrow>
                  leave (asked @ lease_abandon lease)
                    (Refused (gateway_error_new GkNoAvailableProvider
                       ''request admission is temporarily unavailable''))
              | AdmitGranted \<Rightarrow> leave asked (Proceeds ())
              | AdmitRejected reason \<Rightarrow>
                  if reason = RateLimitedRejection \<or> qp_max_waiting (cw_policy w) = 0 then
                    leave asked
                      (Refused (gateway_error_new GkRateLimited ''request exceeds client API key limits''))
                  else
                    let first = wait_elapsed w (ad_mono rd) = 0 \<and> has_budget;
                        asked = (if first \<and> ad_budget rd \<noteq> None then asked @ [EfBudgetAdmit key] else asked)
                    in case (if first then ad_budget rd else Some (Inr ())) of
                         None \<Rightarrow> leave asked GivenUp
                       | Some (Inl e) \<Rightarrow> leave asked (Refused e)
                       | Some (Inr _) \<Rightarrow>
                           (case wait_begin [key] (ad_wait_now rd) (ad_wait_sys_now rd) budget q w of
                              (Inl e, budget, q, w) \<Rightarrow>
                                \<lparr>ar_effects = asked, ar_wait_budget = budget, ar_queue = drop_place w q,
                                 ar_outcome = Refused (queue_rejection_gateway_error e)\<rparr>
                            | (Inr t, budget, q, w) \<Rightarrow>
                                (case ad_retry rd of
                                   None \<Rightarrow>
                                     \<lparr>ar_effects = asked, ar_wait_budget = budget, ar_queue = drop_place w q,
                                      ar_outcome = GivenUp\<rparr>
                                 | Some (Inl e) \<Rightarrow>
                                     \<lparr>ar_effects = asked, ar_wait_budget = budget, ar_queue = drop_place w q,
                                      ar_outcome = Refused (queue_rejection_gateway_error e)\<rparr>
                                 | Some (Inr _) \<Rightarrow>
                                     acquire_client_admission has_budget policy lease deadline rds asked
                                       budget q w)))"

section \<open>The session handed to the API\<close>

text \<open>
  The cleanup is the future of \<open>settle_if_finalized\<close>: the calls it has still to make. It survives the
  caller that drops the wait for it.
\<close>

datatype cleanup_step = SettleStep client_budget_charge | ReleaseStep admission_lease

record managed =
  mg_core :: session
  mg_admission :: "admission_lease option"
  mg_cleanup :: "cleanup_step list option"
  mg_observed :: nat
  mg_continuation_recorded :: bool
  mg_budget :: bool
  mg_effects :: "exec_effect list"

definition managed_new :: "session \<Rightarrow> admission_lease \<Rightarrow> bool \<Rightarrow> managed" where
  "managed_new core lease budget =
     \<lparr>mg_core = core, mg_admission = Some lease, mg_cleanup = None, mg_observed = 0,
      mg_continuation_recorded = False, mg_budget = budget, mg_effects = []\<rparr>"

fun cleanup_effect :: "cleanup_step \<Rightarrow> exec_effect" where
  "cleanup_effect (SettleStep charge) = EfSettle charge"
| "cleanup_effect (ReleaseStep l) = EfRelease (al_client_api_key_id l) (al_model_request_id l)"

text \<open>
  The awaited port calls of one API call share an allowance: how many of them complete before the
  caller drops the future. A part that is not completed answers \<open>None\<close> for the allowance left.
\<close>

definition settle_if_finalized :: "systime \<Rightarrow> nat \<Rightarrow> managed \<Rightarrow> managed \<times> nat option" where
  "settle_if_finalized now n m =
     (let m = (if is_finalized (mg_core m) then
                 (case mg_admission m of
                    None \<Rightarrow> m
                  | Some lease \<Rightarrow>
                      m\<lparr>mg_admission := None, mg_budget := False,
                        mg_cleanup := Some ((if mg_budget m then [SettleStep (budget_charge now (mg_core m))] else [])
                          @ [ReleaseStep lease])\<rparr>)
               else m)
      in case mg_cleanup m of
           None \<Rightarrow> (m, Some n)
         | Some steps \<Rightarrow>
             (let m = m\<lparr>mg_effects := mg_effects m @ map cleanup_effect (take n steps)\<rparr>
              in if length steps \<le> n then (m\<lparr>mg_cleanup := None\<rparr>, Some (n - length steps))
                 else (m\<lparr>mg_cleanup := Some (drop n steps)\<rparr>, None)))"

definition provider_failure_affects_circuit :: "provider_error_kind \<Rightarrow> bool" where
  "provider_failure_affects_circuit kind = (kind \<in> {PkTimeout, PkTransport, PkProtocol, PkUnavailable})"

definition circuit_feedback :: "provider_attempt_outcome \<Rightarrow> exec_effect list" where
  "circuit_feedback outcome =
     (case pao_error_kind outcome of
        None \<Rightarrow> [EfCircuitSuccess (pao_provider_kind outcome)]
      | Some kind \<Rightarrow>
          if provider_failure_affects_circuit kind then [EfCircuitFailure (pao_provider_kind outcome)] else [])"

definition publish_provider_attempt_outcomes :: "provider_attempt_outcome list \<Rightarrow> exec_effect list" where
  "publish_provider_attempt_outcomes outcomes = concat (map circuit_feedback outcomes)"

definition observe_provider_outcomes :: "nat \<Rightarrow> managed \<Rightarrow> managed \<times> nat option" where
  "observe_provider_outcomes n m =
     (let outcomes = se_provider_attempt_outcomes (mg_core m);
          calls = publish_provider_attempt_outcomes (drop (mg_observed m) outcomes);
          m = m\<lparr>mg_observed := length outcomes, mg_effects := mg_effects m @ take n calls\<rparr>
      in (m, if length calls \<le> n then Some (n - length calls) else None))"

definition record_continuation :: "nat \<Rightarrow> provider_session_state option \<Rightarrow> managed \<Rightarrow> managed \<times> nat option" where
  "record_continuation n state m =
     (if mg_continuation_recorded m then (m, Some n)
      else case Option.bind state (\<lambda>st. native_continuation_pin_of st (mg_core m)) of
        None \<Rightarrow> (m, Some n)
      | Some pin \<Rightarrow>
          (let m = m\<lparr>mg_continuation_recorded := True\<rparr>
           in if n = 0 then (m, None)
              else (m\<lparr>mg_effects := mg_effects m @ [EfRecordPin pin]\<rparr>, Some (n - 1))))"

text \<open>What every call does after the coordinator answered.\<close>

definition call_tail :: "systime \<Rightarrow> nat option \<Rightarrow> managed \<Rightarrow> managed \<times> bool" where
  "call_tail now n m =
     (case n of
        None \<Rightarrow> (m, False)
      | Some n \<Rightarrow>
          (case observe_provider_outcomes n m of
             (m, None) \<Rightarrow> (m, False)
           | (m, Some n) \<Rightarrow>
               (case settle_if_finalized now n m of (m, left) \<Rightarrow> (m, left \<noteq> None))))"

definition managed_next_event ::
  "engine \<Rightarrow> 'a env_scheme \<Rightarrow> round list \<Rightarrow> systime \<Rightarrow> nat \<Rightarrow> managed \<Rightarrow> managed \<times> next_result" where
  "managed_next_event eg r rs now n m =
     (case next_event eg r rs (mg_core m) of
        (core, None) \<Rightarrow> (m\<lparr>mg_core := core\<rparr>, None)
      | (core, Some result) \<Rightarrow>
          (let m = m\<lparr>mg_core := core\<rparr>;
               (m, n) = (case result of
                    Inr (Some event) \<Rightarrow> record_continuation n (coordinated_session_update event) m
                  | _ \<Rightarrow> (m, Some n));
               (m, answered) = call_tail now n m
           in (m, if answered then Some result else None)))"

definition managed_collect_uncommitted ::
  "engine \<Rightarrow> 'a env_scheme \<Rightarrow> round list \<Rightarrow> systime \<Rightarrow> nat \<Rightarrow> managed \<Rightarrow> managed \<times> collect_result" where
  "managed_collect_uncommitted eg r rs now n m =
     (case collect_uncommitted eg r rs (mg_core m) of
        (core, None) \<Rightarrow> (m\<lparr>mg_core := core\<rparr>, None)
      | (core, Some result) \<Rightarrow>
          (let m = m\<lparr>mg_core := core\<rparr>;
               (m, n) = (case result of
                    Inr events \<Rightarrow>
                      record_continuation n
                        (Option.bind (List.find (\<lambda>e. pe_session_update e \<noteq> None) events) pe_session_update) m
                  | Inl _ \<Rightarrow> (m, Some n));
               (m, answered) = call_tail now n m
           in (m, if answered then Some result else None)))"

definition managed_commit_downstream ::
  "'a env_scheme \<Rightarrow> nat option \<Rightarrow> systime \<Rightarrow> nat \<Rightarrow> managed \<Rightarrow> managed \<times> (engine_error + unit) option" where
  "managed_commit_downstream r status now n m =
     (let (core, result) = commit_downstream r status (mg_core m);
          (m, answered) = call_tail now (Some n) (m\<lparr>mg_core := core\<rparr>)
      in (m, if answered then Some result else None))"

definition managed_record_client_status ::
  "'a env_scheme \<Rightarrow> nat \<Rightarrow> systime \<Rightarrow> nat \<Rightarrow> managed \<Rightarrow> managed \<times> (engine_error + unit) option" where
  "managed_record_client_status r status now n m =
     (let (core, result) = record_client_status r status (mg_core m);
          (m, answered) = call_tail now (Some n) (m\<lparr>mg_core := core\<rparr>)
      in (m, if answered then Some result else None))"

definition managed_is_finalized :: "managed \<Rightarrow> bool" where
  "managed_is_finalized m = (is_finalized (mg_core m) \<and> mg_admission m = None \<and> mg_cleanup m = None)"

definition managed_cancel :: "managed \<Rightarrow> managed" where
  "managed_cancel m = m\<lparr>mg_core := cancel (mg_core m)\<rparr>"

text \<open>
  The drop of the session cancels its core and abandons a lease it still holds, also the one inside
  an unfinished cleanup. A detached session is driven to its end before it is dropped.
\<close>

definition held_leases :: "managed \<Rightarrow> admission_lease list" where
  "held_leases m =
     (case mg_admission m of Some l \<Rightarrow> [l] | None \<Rightarrow> [])
     @ concat (map (\<lambda>st. case st of ReleaseStep l \<Rightarrow> [l] | _ \<Rightarrow> []) (unwrap_or [] (mg_cleanup m)))"

definition managed_drop :: "managed \<Rightarrow> managed" where
  "managed_drop m =
     m\<lparr>mg_core := cancel (mg_core m), mg_admission := None, mg_cleanup := None,
       mg_effects := mg_effects m @ concat (map lease_abandon (held_leases m))\<rparr>"

definition detach_finalize :: "'a env_scheme \<Rightarrow> systime \<Rightarrow> nat \<Rightarrow> managed \<Rightarrow> managed" where
  "detach_finalize r now n m =
     managed_drop (fst (call_tail now (Some n) (m\<lparr>mg_core := cancel_and_finalize r (mg_core m)\<rparr>)))"

section \<open>Starting a request\<close>

record started_execution =
  sx_request_id :: model_request_id
  sx_created_at :: systime
  sx_stream :: bool
  sx_session :: managed

definition request_record ::
  "'v authenticated_client \<Rightarrow> execution_target \<Rightarrow> operation \<Rightarrow> execution_request_metadata
   \<Rightarrow> model_request_id \<Rightarrow> systime \<Rightarrow> systime \<Rightarrow> routing_plan \<Rightarrow> provider_request_observation \<Rightarrow> nat
   \<Rightarrow> new_model_request" where
  "request_record client target op md request_id started_at deadline_at plan ob admission_ms =
     (let key = cp_key_id (acl_policy client) in
      \<lparr>nmr_id = request_id, nmr_client_api_key_id = Some key, nmr_client_api_key_ref = key,
       nmr_config_revision = rp_config_revision plan,
       nmr_routing = frozen_routing_snapshot (cp_account_scope (acl_policy client)),
       nmr_protocol = em_protocol md, nmr_operation = operation_kind_of op, nmr_endpoint = em_endpoint md,
       nmr_client_transport = client_transport_as_str (em_transport md),
       nmr_requested_model = opt_or (into_public_model target) (pro_requested_model ob),
       nmr_client_ip = em_client_ip md, nmr_user_agent = em_user_agent md,
       nmr_reasoning_effort = pro_reasoning_effort ob, nmr_reasoning_preset = pro_reasoning_preset ob,
       nmr_request_kind = pro_request_kind ob, nmr_subagent_kind = pro_subagent_kind ob,
       nmr_compact = pro_compact ob, nmr_continuation = pro_continuation ob,
       nmr_image_generation_requested = operation_image_requested op,
       nmr_admission_decision_ms = Some admission_ms,
       nmr_started_at = started_at, nmr_deadline_at = deadline_at\<rparr>)"

text \<open>The observation of the first candidate's provider, or nothing observed.\<close>

definition request_observation_of ::
  "'v service_env \<Rightarrow> routing_plan \<Rightarrow> operation \<Rightarrow> client_api_key_id \<Rightarrow> provider_request_observation" where
  "request_observation_of env plan op key =
     (case rp_candidates plan of
        [] \<Rightarrow> provider_request_observation_default
      | c # _ \<Rightarrow> unwrap_or provider_request_observation_default (sv_observation env (pc_provider c) op key))"

definition start_without_continuation ::
  "'v service_env \<Rightarrow> 'v authenticated_client \<Rightarrow> execution_target \<Rightarrow> operation
   \<Rightarrow> execution_request_metadata \<Rightarrow> model_request_id \<Rightarrow> systime \<Rightarrow> routing_plan
   \<Rightarrow> continuation_binding option \<Rightarrow> exec_effect list \<times> started_execution outcome" where
  "start_without_continuation env client target op md request_id deadline_at plan continuation =
     (let policy = acl_policy client;
          key = cp_key_id policy;
          lease = \<lparr>al_client_api_key_id = key, al_model_request_id = request_id\<rparr>;
          adm = acquire_client_admission (sv_has_budget env) policy lease deadline_at (sv_admission env) [] None
                  (sv_queue env) (capacity_wait_new (rt_client_queue_policy (acl_snapshot client)) deadline_at);
          effects = ar_effects adm
      in case ar_outcome adm of
           Refused e \<Rightarrow> (effects, Refused e)
         | GivenUp \<Rightarrow> (effects, GivenUp)
         | Proceeds _ \<Rightarrow>
             if sv_has_budget env \<and> sv_gives_up env = Some AtBudget then (effects @ lease_abandon lease, GivenUp)
             else
               let effects = effects @ (if sv_has_budget env then [EfBudgetAdmit key] else []) in
               case (if sv_has_budget env then sv_budget env else Inr ()) of
                 Inl e \<Rightarrow>
                   if sv_gives_up env = Some AtBudgetRelease then (effects @ lease_abandon lease, GivenUp)
                   else (effects @ lease_release lease, Refused e)
               | Inr _ \<Rightarrow>
                   let request = request_record client target op md request_id (sv_started_at env) deadline_at plan
                         (request_observation_of env plan op key) (duration_ms (sv_admission_elapsed env));
                       failed = (\<lambda>e.
                         if sv_has_budget env \<and> sv_gives_up env = Some AtSettle
                         then (effects @ lease_abandon lease, GivenUp)
                         else
                           let effects = effects @ (if sv_has_budget env
                                 then [EfSettle \<lparr>bc_key_id = key, bc_request_id = request_id,
                                         bc_amount_usd = decimal_zero, bc_completed_at = sv_settle_now env\<rparr>]
                                 else [])
                           in if sv_gives_up env = Some AtRelease then (effects @ lease_abandon lease, GivenUp)
                              else (effects @ lease_release lease, Refused (gateway_error_from_engine e)))
                   in case start_session (sv_core env) False request op plan None continuation of
                        StartRejected e \<Rightarrow> failed e
                      | StartFailed _ e \<Rightarrow> failed e
                      | Started core \<Rightarrow>
                          (effects,
                           Proceeds
                             \<lparr>sx_request_id = request_id, sx_created_at = sv_started_at env, sx_stream = em_stream md,
                              sx_session = managed_new (with_concurrency_wait_budget (ar_wait_budget adm) core)
                                lease (sv_has_budget env)\<rparr>))"

definition planned_for ::
  "'v service_env \<Rightarrow> 'v authenticated_client \<Rightarrow> execution_target \<Rightarrow> operation \<Rightarrow> routing_error + routing_plan" where
  "planned_for env client target op =
     (let scope = cp_account_scope (acl_policy client);
          ctx = route_context env (frozen_provider_kinds scope)
      in case target of
           TargetProviderEndpoint provider \<Rightarrow> plan_provider_endpoint (acl_snapshot client) provider op scope ctx
         | TargetModel model \<Rightarrow> plan_request (acl_snapshot client) model op scope ctx)"

definition continuation_for ::
  "'v service_env \<Rightarrow> frozen_account_scope client_policy \<Rightarrow> routing_plan \<Rightarrow> operation
   \<Rightarrow> previous_response_id option \<Rightarrow> (operation \<times> continuation_binding option) outcome" where
  "continuation_for env policy plan op previous =
     (case previous of
        None \<Rightarrow> Proceeds (op, None)
      | Some previous \<Rightarrow>
          (case resolve_continuation env policy plan op previous of
             Refused e \<Rightarrow> Refused e
           | GivenUp \<Rightarrow> GivenUp
           | Proceeds (op, c) \<Rightarrow> Proceeds (op, Some c)))"

text \<open>
  Every start authenticates again, so that a long-lived connection works with the current policy.
  Effects before the admission are the use of the key.
\<close>

definition start_inner_with_target ::
  "'v service_env \<Rightarrow> 'v pending_start \<Rightarrow> exec_effect list \<times> started_execution outcome" where
  "start_inner_with_target env request =
     (case authenticate env (expose_for_auth (cp_plaintext_key (acl_policy (pst_client request)))) of
        (used, Inl InvalidKey) \<Rightarrow>
          (used, Refused (gateway_error_new GkUnauthorized ''client API key is invalid''))
      | (used, Inl SnapshotUnavailable) \<Rightarrow>
          (used, Refused (gateway_error_new GkInternal ''runtime snapshot is unavailable''))
      | (used, Inr client) \<Rightarrow>
          (case time_checked_add (sv_started_at env) model_request_deadline of
             None \<Rightarrow> (used, Refused (gateway_error_new GkInternal ''system clock is invalid''))
           | Some deadline_at \<Rightarrow>
               (case new_request_id (sv_uuid env) of
                  Inl e \<Rightarrow> (used, Refused e)
                | Inr request_id \<Rightarrow>
                    if sv_gives_up env = Some AtRoute then (used, GivenUp)
                    else
                      (case planned_for env client (pst_target request) (pst_operation request) of
                         Inl e \<Rightarrow> (used, Refused (map_routing_error e))
                       | Inr plan \<Rightarrow>
                           (case continuation_for env (acl_policy client) plan (pst_operation request)
                                   (em_previous_response_id (pst_metadata request)) of
                              Refused e \<Rightarrow> (used, Refused e)
                            | GivenUp \<Rightarrow> (used, GivenUp)
                            | Proceeds (op, continuation) \<Rightarrow>
                                (case start_without_continuation env client (pst_target request) op
                                        (pst_metadata request) request_id deadline_at plan continuation of
                                   (effects, result) \<Rightarrow> (used @ effects, result)))))))"

definition start_execution ::
  "'v service_env \<Rightarrow> 'v authenticated_client \<Rightarrow> public_model_id \<Rightarrow> operation \<Rightarrow> execution_request_metadata
   \<Rightarrow> exec_effect list \<times> started_execution outcome" where
  "start_execution env client model op md =
     start_inner_with_target env
       \<lparr>pst_client = client, pst_target = TargetModel model, pst_operation = op, pst_metadata = md\<rparr>"

definition start_provider_endpoint ::
  "'v service_env \<Rightarrow> 'v authenticated_client \<Rightarrow> provider_kind \<Rightarrow> operation \<Rightarrow> execution_request_metadata
   \<Rightarrow> exec_effect list \<times> started_execution outcome" where
  "start_provider_endpoint env client provider op md =
     start_inner_with_target env
       \<lparr>pst_client = client, pst_target = TargetProviderEndpoint provider, pst_operation = op, pst_metadata = md\<rparr>"


section \<open>The model catalog of a client\<close>

text \<open>
  The state is the set of models already listed and the list. A provider without a native catalog
  lists its adapted profiles; a native catalog keeps its order and then gets the mapped names.
\<close>

type_synonym catalog_state = "public_model_id list \<times> public_model_descriptor list"

definition list_model :: "public_model_id \<Rightarrow> public_model_descriptor \<Rightarrow> catalog_state \<Rightarrow> catalog_state" where
  "list_model model descriptor st =
     (if model \<in> set (fst st) then st else (bs_insert model (fst st), snd st @ [descriptor]))"

definition list_profile ::
  "'v authenticated_client \<Rightarrow> provider_kind \<Rightarrow> public_model_profile \<Rightarrow> catalog_state \<Rightarrow> catalog_state" where
  "list_profile client kind profile st =
     (if scope_allows_provider_model (cp_account_scope (acl_policy client)) kind
           (mapped_model (acl_snapshot client) (public_model_str (pmp_model profile)))
      then list_model (pmp_model profile) (PublicAdapted profile) st else st)"

text \<open>The last entry of a model wins in the index of a catalog.\<close>

definition catalog_index :: "provider_model_descriptor list \<Rightarrow> string \<Rightarrow> provider_model_descriptor option" where
  "catalog_index models = map_of (rev (map (\<lambda>m. (upstream_model_str (pmd_model m), m)) models))"

definition list_entry ::
  "'v authenticated_client \<Rightarrow> provider_kind \<Rightarrow> (string \<Rightarrow> provider_model_descriptor option)
   \<Rightarrow> provider_model_descriptor \<Rightarrow> catalog_state \<Rightarrow> unit + catalog_state" where
  "list_entry client kind by_id entry st =
     (let name = upstream_model_str (pmd_model entry);
          target = mapped_model (acl_snapshot client) name
      in if \<not> scope_allows_provider_model (cp_account_scope (acl_policy client)) kind target then Inr st
         else case by_id target of
           None \<Rightarrow> Inr st
         | Some source \<Rightarrow>
             (case public_model_id_new name of
                Inl _ \<Rightarrow> Inl ()
              | Inr model \<Rightarrow>
                  if \<not> contains_public_model_for_provider (acl_snapshot client) model kind then Inr st
                  else Inr (list_model model (for_public_model (pmd_content source) model) st)))"

definition list_mapping ::
  "'v authenticated_client \<Rightarrow> provider_kind \<Rightarrow> (string \<Rightarrow> provider_model_descriptor option)
   \<Rightarrow> public_model_id \<Rightarrow> catalog_state \<Rightarrow> catalog_state" where
  "list_mapping client kind by_id model st =
     (let target = mapped_model (acl_snapshot client) (public_model_str model)
      in if \<not> scope_allows_provider_model (cp_account_scope (acl_policy client)) kind target
           \<or> target = public_model_str model \<or> model \<in> set (fst st)
           \<or> \<not> contains_public_model_for_provider (acl_snapshot client) model kind
         then st
         else case by_id target of
           None \<Rightarrow> st
         | Some source \<Rightarrow> list_model model (for_public_model (pmd_content source) model) st)"

definition list_provider ::
  "'v authenticated_client \<Rightarrow> (provider_kind \<Rightarrow> (unit + provider_model_descriptor list option) option)
   \<Rightarrow> provider_kind \<Rightarrow> catalog_state \<Rightarrow> unit + catalog_state" where
  "list_provider client catalog kind st =
     (case catalog kind of
        None \<Rightarrow> Inl ()
      | Some (Inl _) \<Rightarrow> Inl ()
      | Some (Inr None) \<Rightarrow>
          Inr (fold (list_profile client kind) (public_model_profiles_for_provider (acl_snapshot client) kind) st)
      | Some (Inr (Some models)) \<Rightarrow>
          (let by_id = catalog_index models in
           case try_fold (list_entry client kind by_id) models st of
             Inl e \<Rightarrow> Inl e
           | Inr st \<Rightarrow>
               Inr (fold (list_mapping client kind by_id) (public_models_for_provider (acl_snapshot client) kind) st)))"

text \<open>\<open>catalog\<close> is what each registered provider answers to \<open>query_client_model_catalog\<close>.\<close>

definition client_model_catalog ::
  "'v authenticated_client \<Rightarrow> (provider_kind \<Rightarrow> (unit + provider_model_descriptor list option) option)
   \<Rightarrow> unit + public_model_descriptor list" where
  "client_model_catalog client catalog =
     (case try_fold (list_provider client catalog)
             (frozen_provider_kinds (cp_account_scope (acl_policy client))) ([], []) of
        Inl e \<Rightarrow> Inl e | Inr st \<Rightarrow> Inr (snd st))"

section \<open>The connection test of an account\<close>

record account_probe_request =
  apr_account_id :: provider_account_id
  apr_provider_kind :: provider_kind
  apr_upstream_model :: upstream_model_id
  apr_operation :: operation

datatype account_probe_error_source = ProbeGateway | ProbeProvider | ProbeUpstream

fun probe_error_source_as_str :: "account_probe_error_source \<Rightarrow> string" where
  "probe_error_source_as_str ProbeGateway = ''gateway''"
| "probe_error_source_as_str ProbeProvider = ''provider''"
| "probe_error_source_as_str ProbeUpstream = ''upstream''"

record account_probe_error =
  ape_gateway :: gateway_error
  ape_source :: account_probe_error_source
  ape_send_state :: "upstream_send_state option"
  ape_upstream_response :: "client_visible_upstream_response option"

definition account_probe_error_from :: "gateway_error \<Rightarrow> account_probe_error" where
  "account_probe_error_from g =
     \<lparr>ape_gateway = g, ape_source = ProbeGateway, ape_send_state = None, ape_upstream_response = None\<rparr>"

record probe_failure =
  pf_provider_kind :: provider_kind
  pf_account_id :: provider_account_id
  pf_upstream_model_id :: upstream_model_id
  pf_error :: provider_error
  pf_latency :: duration

datatype probe_effect = PrCircuit exec_effect | PrFailure probe_failure

definition has_upstream_facts :: "provider_error \<Rightarrow> bool" where
  "has_upstream_facts e =
     (err_send_state e \<noteq> NotSent \<or> err_upstream_status e \<noteq> None \<or> err_upstream_code e \<noteq> None
      \<or> err_client_visible_upstream_error e \<noteq> None \<or> err_client_visible_upstream_response e \<noteq> None)"

definition observe_probe_failure ::
  "account_probe_request \<Rightarrow> duration \<Rightarrow> engine_error \<Rightarrow> probe_effect list \<times> account_probe_error" where
  "observe_probe_failure request latency error =
     (case error of
        EngProvider e \<Rightarrow>
          ([PrFailure \<lparr>pf_provider_kind = apr_provider_kind request, pf_account_id = apr_account_id request,
              pf_upstream_model_id = apr_upstream_model request, pf_error = provider_error_clone e,
              pf_latency = latency\<rparr>],
           \<lparr>ape_gateway = gateway_error_from_engine error,
            ape_source = (if has_upstream_facts e then ProbeUpstream else ProbeProvider),
            ape_send_state = Some (err_send_state e),
            ape_upstream_response = err_client_visible_upstream_response e\<rparr>)
      | _ \<Rightarrow>
          ([], \<lparr>ape_gateway = gateway_error_from_engine error, ape_source = ProbeGateway,
                ape_send_state = None, ape_upstream_response = None\<rparr>))"

text \<open>\<open>TransientExecutionStore\<close> accepts every write and keeps nothing.\<close>

definition transient :: "'a env_scheme \<Rightarrow> 'a env_scheme" where
  "transient r = r\<lparr>en_store := (\<lambda>_. True)\<rparr>"

definition probe_request_record ::
  "account_probe_request \<Rightarrow> model_request_id \<Rightarrow> public_model_id \<Rightarrow> systime \<Rightarrow> systime \<Rightarrow> routing_plan
   \<Rightarrow> new_model_request" where
  "probe_request_record request request_id model started_at deadline_at plan =
     \<lparr>nmr_id = request_id, nmr_client_api_key_id = None,
      nmr_client_api_key_ref = ClientApiKeyId ''admin_connection_test'',
      nmr_config_revision = rp_config_revision plan, nmr_routing = routing_snapshot_all,
      nmr_protocol = ''admin_connection_test'', nmr_operation = operation_kind_of (apr_operation request),
      nmr_endpoint = ''/api/admin/accounts/connection-test'',
      nmr_client_transport = client_transport_as_str InternalProbe, nmr_requested_model = Some model,
      nmr_client_ip = None, nmr_user_agent = None, nmr_reasoning_effort = None, nmr_reasoning_preset = None,
      nmr_request_kind = Some ''account_connection_test'', nmr_subagent_kind = None, nmr_compact = False,
      nmr_continuation = \<lparr>cro_affinity_hash = None, cro_previous_response_id_hash = None, cro_requested = False\<rparr>,
      nmr_image_generation_requested = False, nmr_admission_decision_ms = None,
      nmr_started_at = started_at, nmr_deadline_at = deadline_at\<rparr>"

record 'v probe_env =
  pv_snapshot :: "'v runtime_snapshot option"
  pv_started_at :: systime
  pv_uuid :: string
  pv_latency :: duration
  pv_start :: env
  pv_rounds :: "round list"
  pv_collect :: env
  pv_commit :: env

definition probe_texts :: "provider_event list \<Rightarrow> string list" where
  "probe_texts events =
     List.map_filter (\<lambda>fact. case fact of EvTextDelta delta \<Rightarrow> Some (td_text delta) | _ \<Rightarrow> None)
       (concat (map pe_canonical events))"

text \<open>\<open>None\<close> is a probe that still waits for its provider when the rounds run out.\<close>

definition run_probe ::
  "engine \<Rightarrow> 'v probe_env \<Rightarrow> account_probe_request \<Rightarrow> session
   \<Rightarrow> probe_effect list \<times> (account_probe_error + string list) option" where
  "run_probe eg env request s =
     (let (s, collected) = collect_uncommitted eg (transient (pv_collect env)) (map transient (pv_rounds env)) s
      in case collected of
           None \<Rightarrow> ([], None)
         | Some result \<Rightarrow>
             (let circuits = map PrCircuit (publish_provider_attempt_outcomes (se_provider_attempt_outcomes s))
              in case result of
                   Inl e \<Rightarrow>
                     (let (failure, error) = observe_probe_failure request (pv_latency env) e
                      in (circuits @ failure, Some (Inl error)))
                 | Inr events \<Rightarrow>
                     (case snd (commit_downstream (transient (pv_commit env)) (Some 200) s) of
                        Inl e \<Rightarrow>
                          (let (failure, error) = observe_probe_failure request (pv_latency env) e
                           in (circuits @ failure, Some (Inl error)))
                      | Inr _ \<Rightarrow> (circuits, Some (Inr (probe_texts events))))))"

definition probe_account ::
  "engine \<Rightarrow> 'v probe_env \<Rightarrow> account_probe_request
   \<Rightarrow> probe_effect list \<times> (account_probe_error + string list) option" where
  "probe_account eg env request =
     (let fail = (\<lambda>kind message. ([], Some (Inl (account_probe_error_from (gateway_error_new kind message))))) in
      case pv_snapshot env of
        None \<Rightarrow> fail GkInternal ''runtime snapshot is unavailable''
      | Some snapshot \<Rightarrow>
          (case public_model_id_new (upstream_model_str (apr_upstream_model request)) of
             Inl _ \<Rightarrow> fail GkUnsupported ''requested model is invalid''
           | Inr model \<Rightarrow>
               (case plan_request snapshot model (apr_operation request)
                       (frozen_scope_new (rt_account_directory snapshot) AllAccounts)
                       \<lparr>rc_required_provider = Some (apr_provider_kind request), rc_blocked_providers = []\<rparr> of
                  Inl e \<Rightarrow> ([], Some (Inl (account_probe_error_from (map_routing_error e))))
                | Inr plan \<Rightarrow>
                    (case time_checked_add (pv_started_at env) model_request_deadline of
                       None \<Rightarrow> fail GkInternal ''system clock is invalid''
                     | Some deadline_at \<Rightarrow>
                         (case new_request_id (pv_uuid env) of
                            Inl e \<Rightarrow> ([], Some (Inl (account_probe_error_from e)))
                          | Inr request_id \<Rightarrow>
                              (case start_diagnostic (transient (pv_start env)) False
                                      (probe_request_record request request_id model (pv_started_at env) deadline_at plan)
                                      (apr_operation request) plan (apr_account_id request) None of
                                 Started s \<Rightarrow> run_probe eg env request s
                               | StartRejected e \<Rightarrow>
                                   (case observe_probe_failure request (pv_latency env) e of
                                      (failure, error) \<Rightarrow> (failure, Some (Inl error)))
                               | StartFailed _ e \<Rightarrow>
                                   (case observe_probe_failure request (pv_latency env) e of
                                      (failure, error) \<Rightarrow> (failure, Some (Inl error)))))))))"

end
