(* ===== verification/CoordinatorProps.thy ===== *)
theory CoordinatorProps
  imports Coordinator "HOL-Library.Sublist"
begin

text \<open>
  The rules a request keeps from its first call to its final write: what the execution store is told
  and in which order, which accounts the attempts use, when a failed attempt may be replayed, and
  the barrier between collecting a response and delivering it.
\<close>

section \<open>What an operation leaves alone\<close>

text \<open>The attempts a log records, in order.\<close>

fun attempt_of :: "store_write \<Rightarrow> attempt_record list" where
  "attempt_of (WCreateWithAttempt _ rec) = [rec]"
| "attempt_of (WRecordAttempt rec) = [rec]"
| "attempt_of _ = []"

definition logged_attempts :: "(store_write \<times> bool) list \<Rightarrow> attempt_record list" where
  "logged_attempts ws = concat (map (attempt_of \<circ> fst) ws)"

lemma logged_attempts_simps [simp]:
  "logged_attempts [] = []" "logged_attempts (p # ws) = attempt_of (fst p) @ logged_attempts ws"
  "logged_attempts (ws @ vs) = logged_attempts ws @ logged_attempts vs"
  by (simp_all add: logged_attempts_def)

text \<open>The fields that neither an observation nor a final write touches, as one value.\<close>

definition vitals where
  "vitals s =
     (se_frame s, se_continuation_attempt s, se_attempts s, se_routing_attempts s,
      se_candidate_index s, se_excluded_accounts s, se_recovery_account s, se_pending_retry s,
      map_option cur_metadata (se_current s), se_downstream_committed_at s, se_delivery_pending s,
      se_provider_attempt_outcomes s, se_pending_terminal_failure s, logged_attempts (se_log s))"

lemma vitals_fields:
  assumes "vitals s = vitals t"
  shows "se_frame s = se_frame t" "se_continuation_attempt s = se_continuation_attempt t"
    "se_attempts s = se_attempts t" "se_routing_attempts s = se_routing_attempts t"
    "se_candidate_index s = se_candidate_index t" "se_excluded_accounts s = se_excluded_accounts t"
    "se_recovery_account s = se_recovery_account t" "se_pending_retry s = se_pending_retry t"
    "se_current s = None \<longleftrightarrow> se_current t = None"
    "se_downstream_committed_at s = se_downstream_committed_at t"
    "se_delivery_pending s = se_delivery_pending t"
    "se_provider_attempt_outcomes s = se_provider_attempt_outcomes t"
    "se_pending_terminal_failure s = se_pending_terminal_failure t"
  using assms by (auto simp: vitals_def)

lemma vitals_store_write [simp]: "attempt_of w = [] \<Longrightarrow> vitals (store_write r w s) = vitals s"
  by (simp add: vitals_def store_write_def)

lemma vitals_raise [simp]: "vitals (raise_send_watermark x s) = vitals s"
  by (simp add: vitals_def raise_send_watermark_def)

lemma vitals_updates [simp]:
  "vitals (s\<lparr>se_observation := ob\<rparr>) = vitals s" "vitals (s\<lparr>se_operation := op\<rparr>) = vitals s"
  "vitals (s\<lparr>se_finalized_at := t\<rparr>) = vitals s" "vitals (s\<lparr>se_pending_request := q\<rparr>) = vitals s"
  "vitals (s\<lparr>se_finalization := f\<rparr>) = vitals s" "vitals (s\<lparr>se_request_persisted := b\<rparr>) = vitals s"
  "vitals (s\<lparr>se_send_state_watermark := w\<rparr>) = vitals s"
  "vitals (s\<lparr>se_upstream_complete := b\<rparr>) = vitals s"
  "vitals (s\<lparr>se_client_status_code := c\<rparr>) = vitals s"
  "vitals (s\<lparr>se_cancelled := b\<rparr>) = vitals s"
  "vitals (s\<lparr>se_request_profiles := ps\<rparr>) = vitals s"
  "vitals (s\<lparr>se_account_state_owner := ow\<rparr>) = vitals s"
  "vitals (s\<lparr>se_budget_attempt_already_counted := b\<rparr>) = vitals s"
  "vitals (s\<lparr>se_budget_prior_attempts_usd := d\<rparr>) = vitals s"
  "vitals (s\<lparr>se_last_retryable_failure := e\<rparr>) = vitals s"
  "vitals (s\<lparr>se_last_retryable_failure_events := es\<rparr>) = vitals s"
  by (simp_all add: vitals_def)

lemma vitals_finish [simp]:
  "vitals (resume_finalization r s) = vitals s"
  "vitals (persist_finalization r f s) = vitals s"
  "vitals (finish_success r s) = vitals s"
  "vitals (finish_failure r ff s) = vitals s"
  "vitals (finish_provider_error_with_send_state r error st s) = vitals s"
  "vitals (finish_provider_error r error s) = vitals s"
  "vitals (finish_interruption r e s) = vitals s"
proof -
  show c: "vitals (resume_finalization r s) = vitals s" for s
    by (simp add: resume_finalization_def Let_def split: option.split request_finalization.split)
  show d: "vitals (persist_finalization r f s) = vitals s" for f s
    by (simp add: persist_finalization_def Let_def c)
  show "vitals (finish_success r s) = vitals s"
    by (simp add: finish_success_def Let_def d)
  show e: "vitals (finish_failure r ff s) = vitals s" for ff s
    by (simp add: finish_failure_def Let_def d)
  show f: "vitals (finish_provider_error_with_send_state r error st s) = vitals s" for st s
    by (simp add: finish_provider_error_with_send_state_def Let_def e)
  show "vitals (finish_provider_error r error s) = vitals s"
    by (simp add: finish_provider_error_def f)
  show "vitals (finish_interruption r e s) = vitals s"
    by (simp add: finish_interruption_def Let_def e split: prod.split)
qed

lemma vitals_current:
  "se_current s = Some cur \<Longrightarrow> cur_metadata cur' = cur_metadata cur \<Longrightarrow>
     vitals (s\<lparr>se_current := Some cur'\<rparr>) = vitals s"
  by (simp add: vitals_def)

lemma vitals_mark [simp]: "vitals (mark_send_observed r s) = vitals s"
  by (simp add: mark_send_observed_def Let_def split: option.split)
     (auto simp: vitals_def store_write_def)

lemma vitals_observe_response [simp]: "vitals (observe_response ob s) = vitals s"
  by (auto simp: observe_response_def vitals_current split: option.split)

lemma vitals_session_update [simp]: "vitals (observe_session_update st s) = vitals s"
  by (simp add: observe_session_update_def split: option.split)

lemma vitals_observe_events [simp]: "vitals (observe_events r i evs s) = vitals s"
  by (induction r i evs s rule: observe_events.induct) simp_all

lemma vitals_observe_item: "observe_item r event s = (s', out) \<Longrightarrow> vitals s' = vitals s"
  by (auto simp: observe_item_def Let_def split: prod.splits option.splits if_splits)

lemma vitals_observe_atomic:
  "observe_atomic_terminal_events r i events s = (s', events') \<Longrightarrow> vitals s' = vitals s"
  by (induction r i events s arbitrary: s' events' rule: observe_atomic_terminal_events.induct)
     (auto simp: Let_def split: prod.splits option.splits)

section \<open>The store log\<close>

fun send_rank :: "upstream_send_state \<Rightarrow> nat" where
  "send_rank NotSent = 0"
| "send_rank Ambiguous = 1"
| "send_rank Sent = 2"

lemma send_rank_escalate [simp]: "send_rank (escalate_send_state a b) = max (send_rank a) (send_rank b)"
  by (cases a; cases b) simp_all

lemma send_rank_top [simp]: "send_rank a \<le> 2"
  by (cases a) simp_all

text \<open>The send states a log reports to the store, in order, and its final writes.\<close>

fun reported_state :: "store_write \<Rightarrow> upstream_send_state list" where
  "reported_state (WMarkSendState st) = [st]"
| "reported_state (WFinalize f) = [fin_send_state f]"
| "reported_state _ = []"

definition reported_ranks :: "(store_write \<times> bool) list \<Rightarrow> nat list" where
  "reported_ranks ws = concat (map (map send_rank \<circ> reported_state \<circ> fst) ws)"

fun final_write :: "store_write \<Rightarrow> model_request_finalization list" where
  "final_write (WFinalize f) = [f]"
| "final_write _ = []"

definition final_writes :: "(store_write \<times> bool) list \<Rightarrow> model_request_finalization list" where
  "final_writes ws = concat (map (final_write \<circ> fst) ws)"

lemma log_simps [simp]:
  "reported_ranks [] = []" "final_writes [] = []"
  "reported_ranks (ws @ vs) = reported_ranks ws @ reported_ranks vs"
  "final_writes (ws @ vs) = final_writes ws @ final_writes vs"
  "reported_ranks (p # ws) = map send_rank (reported_state (fst p)) @ reported_ranks ws"
  "final_writes (p # ws) = final_write (fst p) @ final_writes ws"
  by (simp_all add: reported_ranks_def final_writes_def)

text \<open>
  The row of the request is created before anything else is written, and successfully only once.
\<close>

fun creates :: "store_write \<Rightarrow> bool" where
  "creates (WCreate _) = True"
| "creates (WCreateWithAttempt _ _) = True"
| "creates _ = False"

definition created :: "(store_write \<times> bool) list \<Rightarrow> bool" where
  "created ws = list_ex (\<lambda>(w, ok). creates w \<and> ok) ws"

fun rows_ok :: "bool \<Rightarrow> (store_write \<times> bool) list \<Rightarrow> bool" where
  "rows_ok row [] = True"
| "rows_ok row ((w, ok) # ws) = (row \<noteq> creates w \<and> rows_ok (row \<or> creates w \<and> ok) ws)"

lemma created_simps [simp]:
  "created [] = False" "created (p # ws) \<longleftrightarrow> creates (fst p) \<and> snd p \<or> created ws"
  "created (ws @ vs) \<longleftrightarrow> created ws \<or> created vs"
  by (auto simp: created_def split: prod.split)

lemma rows_ok_append [simp]:
  "rows_ok row (ws @ vs) \<longleftrightarrow> rows_ok row ws \<and> rows_ok (row \<or> created ws) vs"
  by (induction ws arbitrary: row) (auto simp: ac_simps)

text \<open>What the final write of a request may say.\<close>

definition final_ok :: "model_request_finalization \<Rightarrow> bool" where
  "final_ok f =
     (case fin_outcome f of
        Succeeded \<Rightarrow> fin_downstream_committed_at f \<noteq> None \<and> fin_error f = None \<and> fin_send_state f = Sent
      | Incomplete \<Rightarrow> fin_downstream_committed_at f \<noteq> None \<and> fin_error f \<noteq> None
      | Failed \<Rightarrow> fin_downstream_committed_at f = None \<and> fin_error f \<noteq> None
      | Cancelled \<Rightarrow> fin_error f \<noteq> None
      | Running \<Rightarrow> False)"

text \<open>
  While the request runs, the reported states never fall and stay below the watermark and nothing
  final is written; afterwards at most one final write was made.
\<close>

definition log_ok :: "session \<Rightarrow> bool" where
  "log_ok s =
     (sorted (reported_ranks (se_log s)) \<and> rows_ok False (se_log s)
      \<and> (se_request_persisted s \<longleftrightarrow> created (se_log s)))"

definition log_running :: "session \<Rightarrow> bool" where
  "log_running s =
     (se_finalization s = None \<and> log_ok s
      \<and> (\<forall>x \<in> set (reported_ranks (se_log s)). x \<le> send_rank (se_send_state_watermark s))
      \<and> final_writes (se_log s) = [] \<and> (se_request_persisted s \<or> se_pending_request s \<noteq> None))"

definition log_closed :: "session \<Rightarrow> bool" where
  "log_closed s =
     (se_finalization s = Some FinComplete \<and> se_finalized_at s \<noteq> None \<and> log_ok s
      \<and> length (final_writes (se_log s)) \<le> 1 \<and> list_all final_ok (final_writes (se_log s)))"

lemma log_running_unfinalized [simp]: "log_running s \<Longrightarrow> \<not> is_finalized s"
  by (simp add: log_running_def is_finalized_def)

lemma log_closed_finalized [simp]: "log_closed s \<Longrightarrow> is_finalized s"
  by (simp add: log_closed_def is_finalized_def)

text \<open>Only these fields matter to the log.\<close>

lemma log_running_cong:
  assumes "se_finalization t = se_finalization s" "se_log t = se_log s"
    and "se_request_persisted t = se_request_persisted s" "se_pending_request t = se_pending_request s"
    and "send_rank (se_send_state_watermark s) \<le> send_rank (se_send_state_watermark t)"
  shows "log_running s \<Longrightarrow> log_running t"
  using assms by (auto simp: log_running_def log_ok_def intro: order_trans)

lemma log_running_raise [intro]: "log_running s \<Longrightarrow> log_running (raise_send_watermark st s)"
  by (erule log_running_cong [rotated 5]) (simp_all add: raise_send_watermark_def)

text \<open>A report to an existing row.\<close>

lemma log_running_write:
  assumes "log_running s" and "se_request_persisted s"
    and "reported_state w = [] \<or> map send_rank (reported_state w) = [send_rank (se_send_state_watermark s)]"
    and "final_write w = []" "\<not> creates w"
  shows "log_running (store_write r w s)"
  using assms by (auto simp: log_running_def log_ok_def store_write_def sorted_append)

lemma log_persist:
  assumes "log_running s" and "send_rank (se_send_state_watermark s) \<le> send_rank (fin_send_state f)"
    and "final_ok f"
  shows "log_closed (persist_finalization r f s)"
proof -
  have "x \<le> send_rank (fin_send_state f)" if "x \<in> set (reported_ranks (se_log s))" for x
    using assms that by (fastforce simp: log_running_def intro: order_trans)
  then show ?thesis
    using assms(1,3)
    by (auto simp: persist_finalization_def resume_finalization_def store_write_def log_running_def
        log_closed_def log_ok_def Let_def sorted_append split: option.split)
qed

lemma observed_fields [simp]:
  "fin_send_state (observed_finalization out st t s) = st"
  "fin_outcome (observed_finalization out st t s) = out"
  "fin_attempt_count (observed_finalization out st t s) = se_attempts s"
  "fin_downstream_committed_at (observed_finalization out st t s) = se_downstream_committed_at s"
  by (simp_all add: observed_finalization_def Let_def)

lemma store_write_fields [simp]:
  "se_send_state_watermark (store_write r w s) = se_send_state_watermark s"
  "se_finalization (store_write r w s) = se_finalization s"
  "se_request_persisted (store_write r w s) = se_request_persisted s"
  "se_downstream_committed_at (store_write r w s) = se_downstream_committed_at s"
  by (simp_all add: store_write_def)

lemma log_finish_success:
  "log_running s \<Longrightarrow> se_downstream_committed_at s \<noteq> None \<Longrightarrow> log_closed (finish_success r s)"
  unfolding finish_success_def Let_def
  by (auto simp: final_ok_def intro!: log_persist elim!: log_running_cong [rotated 5])
     (simp add: observed_finalization_def Let_def)

lemma log_finish_failure:
  "log_running s \<Longrightarrow> send_rank (se_send_state_watermark s) \<le> send_rank (ff_send_state f) \<Longrightarrow>
     (ff_outcome f = Cancelled
      \<or> ff_outcome f = (if se_downstream_committed_at s \<noteq> None then Incomplete else Failed)) \<Longrightarrow>
     log_closed (finish_failure r f s)"
  unfolding finish_failure_def Let_def
  by (auto simp: final_ok_def intro!: log_persist elim!: log_running_cong [rotated 5] split: if_splits)

lemma raise_committed [simp]:
  "se_downstream_committed_at (raise_send_watermark st s) = se_downstream_committed_at s"
  "se_request_persisted (raise_send_watermark st s) = se_request_persisted s"
  by (simp_all add: raise_send_watermark_def)

lemma log_finish_provider_error_with_send_state:
  "log_running s \<Longrightarrow> log_closed (finish_provider_error_with_send_state r error st s)"
  unfolding finish_provider_error_with_send_state_def Let_def by (auto intro!: log_finish_failure)

lemma log_finish_provider_error: "log_running s \<Longrightarrow> log_closed (finish_provider_error r error s)"
  unfolding finish_provider_error_def by (rule log_finish_provider_error_with_send_state)

lemma interruption_outcome_ok:
  "se_downstream_committed_at s = None \<or> error = EngCancelled \<or> error = EngDeadline \<Longrightarrow>
     fst (interruption_outcome error s) = Cancelled
     \<or> fst (interruption_outcome error s) = (if se_downstream_committed_at s \<noteq> None then Incomplete else Failed)"
  by (cases error) auto

lemma log_finish_interruption:
  assumes "log_running s"
    and "se_downstream_committed_at s = None \<or> error = EngCancelled \<or> error = EngDeadline"
  shows "log_closed (finish_interruption r error s)"
  using assms(1) interruption_outcome_ok [OF assms(2)]
  unfolding finish_interruption_def Let_def
  by (auto simp: plain_failure_def intro!: log_finish_failure log_running_write split: prod.split if_splits)

lemma current_send_state_rank:
  "send_rank (se_send_state_watermark s) \<le> send_rank (current_send_state s)"
  by (simp add: current_send_state_def)

lemma log_reject_internal:
  "log_running s \<Longrightarrow> se_downstream_committed_at s = None \<Longrightarrow>
     log_closed (fst (reject_internal r message error s))"
  unfolding reject_internal_def
  by (simp add: log_finish_failure plain_failure_def current_send_state_rank)

lemmas log_finish =
  log_finish_success log_finish_failure log_finish_provider_error_with_send_state
  log_finish_provider_error log_finish_interruption log_reject_internal

section \<open>Operations while the request runs\<close>

text \<open>The log only grows and the watermark only rises.\<close>

definition grows :: "session \<Rightarrow> session \<Rightarrow> bool" where
  "grows s t =
     (prefix (se_log s) (se_log t)
      \<and> send_rank (se_send_state_watermark s) \<le> send_rank (se_send_state_watermark t))"

lemma grows_refl [simp]: "grows s s"
  by (simp add: grows_def)

lemma grows_trans [trans]: "grows s t \<Longrightarrow> grows t u \<Longrightarrow> grows s u"
  by (auto simp: grows_def intro: prefix_order.trans)

lemma grows_fields:
  "se_log t = se_log s \<Longrightarrow> se_send_state_watermark t = se_send_state_watermark s \<Longrightarrow> grows s t"
  by (simp add: grows_def)

lemma grows_write [simp]: "grows s (store_write r w s)"
  by (simp add: grows_def store_write_def)

lemma grows_raise [simp]: "grows s (raise_send_watermark st s)"
  by (simp add: grows_def raise_send_watermark_def)

lemma grows_updates [simp]:
  "grows s (t\<lparr>se_observation := ob\<rparr>) = grows s t" "grows s (t\<lparr>se_operation := op\<rparr>) = grows s t"
  "grows (s\<lparr>se_observation := ob\<rparr>) t = grows s t" "grows (s\<lparr>se_current := c\<rparr>) t = grows s t"
  "grows s (t\<lparr>se_current := c\<rparr>) = grows s t" "grows s (t\<lparr>se_pending_retry := p\<rparr>) = grows s t"
  "grows s (t\<lparr>se_pending_terminal_failure := tf\<rparr>) = grows s t"
  "grows s (t\<lparr>se_delivery_pending := b\<rparr>) = grows s t"
  by (simp_all add: grows_def)

lemma grows_resume [simp]: "grows s (resume_finalization r s)"
  by (auto simp: grows_def resume_finalization_def store_write_def Let_def
      split: option.split request_finalization.split)

lemma grows_persist [simp]: "grows s (persist_finalization r f s)"
  unfolding persist_finalization_def Let_def
  by (rule grows_trans [OF _ grows_resume]) (simp add: grows_def)

lemma grows_finish [simp]:
  "grows s (finish_success r s)" "grows s (finish_failure r ff s)"
  "grows s (finish_provider_error_with_send_state r error st s)"
  "grows s (finish_provider_error r error s)" "grows s (finish_interruption r e s)"
proof -
  show "grows s (finish_success r s)"
    unfolding finish_success_def Let_def by (auto intro: grows_trans [OF _ grows_persist])
  show f: "grows s (finish_failure r ff s)" for ff s
    unfolding finish_failure_def Let_def by (auto intro: grows_trans [OF _ grows_persist])
  show p: "grows s (finish_provider_error_with_send_state r error st s)" for st s
    unfolding finish_provider_error_with_send_state_def Let_def
    by (rule grows_trans [OF grows_raise f])
  show "grows s (finish_provider_error r error s)"
    unfolding finish_provider_error_def by (rule p)
  show "grows s (finish_interruption r e s)"
    unfolding finish_interruption_def Let_def
    by (auto intro: grows_trans [OF _ f] grows_trans [OF grows_raise grows_write] split: prod.split)
qed

lemma grows_mark [simp]: "grows s (mark_send_observed r s)"
  by (auto simp: mark_send_observed_def Let_def grows_def store_write_def split: option.split)

lemma log_running_mark [simp]: "log_running s \<Longrightarrow> log_running (mark_send_observed r s)"
  by (auto simp: mark_send_observed_def Let_def log_running_def log_ok_def store_write_def sorted_append
      split: option.split intro: order_trans [OF _ send_rank_top])

lemma log_running_updates [simp]:
  "log_running (s\<lparr>se_observation := ob\<rparr>) = log_running s" "log_running (s\<lparr>se_operation := op\<rparr>) = log_running s"
  "log_running (s\<lparr>se_current := c\<rparr>) = log_running s" "log_running (s\<lparr>se_pending_retry := p\<rparr>) = log_running s"
  "log_running (s\<lparr>se_recovery_account := a\<rparr>) = log_running s"
  "log_running (s\<lparr>se_account_state_owner := ow\<rparr>) = log_running s"
  "log_running (s\<lparr>se_request_profiles := ps\<rparr>) = log_running s"
  "log_running (s\<lparr>se_last_retryable_failure := e\<rparr>) = log_running s"
  "log_running (s\<lparr>se_last_retryable_failure_events := es\<rparr>) = log_running s"
  "log_running (s\<lparr>se_budget_attempt_already_counted := b\<rparr>) = log_running s"
  "log_running (s\<lparr>se_pending_terminal_failure := tf\<rparr>) = log_running s"
  "log_running (s\<lparr>se_delivery_pending := d\<rparr>) = log_running s"
  "log_running (s\<lparr>se_upstream_complete := d\<rparr>) = log_running s"
  "log_running (s\<lparr>se_cancelled := d\<rparr>) = log_running s"
  "log_running (s\<lparr>se_provider_attempt_outcomes := os\<rparr>) = log_running s"
  "log_running (s\<lparr>se_attempts := n\<rparr>) = log_running s"
  "log_running (s\<lparr>se_routing_attempts := n\<rparr>) = log_running s"
  "log_running (s\<lparr>se_candidate_index := n\<rparr>) = log_running s"
  by (simp_all add: log_running_def log_ok_def)

text \<open>The two facts of an observing operation.\<close>

definition observes :: "session \<Rightarrow> session \<Rightarrow> bool" where
  "observes s t = (vitals t = vitals s \<and> grows s t \<and> (log_running s \<longrightarrow> log_running t))"

lemma observes_refl [simp]: "observes s s"
  by (simp add: observes_def)

lemma observes_trans [trans]: "observes s t \<Longrightarrow> observes t u \<Longrightarrow> observes s u"
  by (auto simp: observes_def intro: grows_trans)

lemma observes_mark [simp]: "observes s (mark_send_observed r s)"
  by (simp add: observes_def)

lemma observes_observation [simp]: "observes s (s\<lparr>se_observation := ob\<rparr>)"
  by (simp add: observes_def grows_fields)

lemma observes_response [simp]: "observes s (observe_response ob s)"
  by (auto simp: observes_def) (auto simp: observe_response_def split: option.split)

lemma observes_session_update [simp]: "observes s (observe_session_update st s)"
  by (auto simp: observes_def) (auto simp: observe_session_update_def split: option.split)

lemma observes_events [simp]: "observes s (observe_events r i evs s)"
proof (induction r i evs s rule: observe_events.induct)
  case (2 r i ev evs s)
  have "observes s (s\<lparr>se_observation := observation_observe_event (en_mono r i) ev (se_observation s)\<rparr>)" by simp
  also have "observes \<dots> (mark_send_observed r \<dots>)" by simp
  also note 2
  finally show ?case by simp
qed simp

lemma observes_item:
  assumes "observe_item r event s = (s', out)"
  shows "observes s s'"
proof -
  define s1 where "s1 = (case pe_session_update event of Some st \<Rightarrow> observe_session_update st s | None \<Rightarrow> s)"
  define s2 where "s2 = (case pe_observation event of Some ob \<Rightarrow> observe_response ob s1 | None \<Rightarrow> s1)"
  define s3 where "s3 = s2\<lparr>se_observation := fold observation_observe_identity (pe_canonical event) (se_observation s2)\<rparr>"
  define s4 where "s4 = observe_events r 1 (pe_canonical event) s3"
  have "observes s s1" by (simp add: s1_def split: option.split)
  also have "observes s1 s2" by (simp add: s2_def split: option.split)
  also have "observes s2 s3" by (simp add: s3_def)
  also have "observes s3 s4" by (simp add: s4_def)
  finally have "observes s s4" .
  moreover have "s' = (if pe_wire event \<noteq> None \<and> pe_canonical event = [] then mark_send_observed r s4 else s4)"
    using assms unfolding observe_item_def s4_def s3_def s2_def s1_def Let_def take_observation_def
    by (auto simp: has_canonical_facts_def split: if_splits)
  ultimately show ?thesis by (auto intro: observes_trans)
qed

lemma observe_item_out: "observe_item r event s = (s', out) \<Longrightarrow> out = None \<or> (\<exists>e. out = Some (PoEvent e))"
  by (auto simp: observe_item_def Let_def split: prod.splits if_splits)

lemma observes_atomic:
  "observe_atomic_terminal_events r i events s = (s', events') \<Longrightarrow>
     observes s s' \<and> length events' = length events"
proof (induction events arbitrary: i s s' events')
  case (Cons event events)
  define s1 where "s1 = (case pe_observation event of Some ob \<Rightarrow> observe_response ob s | None \<Rightarrow> s)"
  define s2 where "s2 = s1\<lparr>se_observation := observe_terminal_facts r i (pe_canonical event) (se_observation s1)\<rparr>"
  obtain t es where t: "observe_atomic_terminal_events r (i + length (pe_canonical event)) events s2 = (t, es)"
    by fastforce
  have "observes s s1" by (simp add: s1_def split: option.split)
  also have "observes s1 s2" by (simp add: s2_def)
  finally have "observes s s2" .
  moreover have "s' = t" "length events' = Suc (length es)"
    using Cons.prems t unfolding s2_def s1_def by (auto simp: Let_def take_observation_def)
  ultimately show ?case using Cons.IH [OF t] by (auto intro: observes_trans)
qed simp

section \<open>Attempts and their accounts\<close>

text \<open>The accounts a request may use: of a planned provider, inside the client's scope, as pinned.\<close>

definition authorised :: "session_frame \<Rightarrow> provider_kind \<Rightarrow> provider_account_id \<Rightarrow> bool" where
  "authorised fr provider account =
     list_ex (\<lambda>c. pc_provider c = provider
         \<and> (case sf_account_selection fr of
              Diagnostic required \<Rightarrow> account = required
            | Scheduled required \<Rightarrow>
                scope_allows (pc_account_scope c) account \<and> required \<in> {None, Some account}))
       (rp_candidates (sf_plan fr))"

definition record_authorised :: "session_frame \<Rightarrow> attempt_record \<Rightarrow> bool" where
  "record_authorised fr rec = opt_any (authorised fr (ar_provider_kind rec)) (ar_provider_account_id rec)"

text \<open>A request bound to one account keeps its retries on it.\<close>

definition pins_ok :: "session \<Rightarrow> bool" where
  "pins_ok s =
     (case required_account (se_selection s) of
        None \<Rightarrow> True
      | Some a \<Rightarrow> se_recovery_account s \<in> {None, Some a} \<and> map_option pr_account (se_pending_retry s) \<in> {None, Some a})"

definition attempts_ok :: "session \<Rightarrow> bool" where
  "attempts_ok s =
     (map ar_attempt_count (logged_attempts (se_log s)) = [1..<Suc (se_attempts s)]
      \<and> list_all (record_authorised (se_frame s)) (logged_attempts (se_log s))
      \<and> (case se_current s of
           None \<Rightarrow> True
         | Some cur \<Rightarrow> authorised (se_frame s) (pcm_provider (cur_metadata cur)) (cur_account cur))
      \<and> se_attempts s \<le> u32_max
      \<and> se_routing_attempts s \<le> se_attempts s \<and> se_routing_attempts s \<le> se_max_attempts s
      \<and> pins_ok s)"

lemma attempts_ok_vitals: "vitals t = vitals s \<Longrightarrow> attempts_ok t \<longleftrightarrow> attempts_ok s"
  by (auto simp: vitals_def attempts_ok_def pins_ok_def split: option.splits)

lemma authorised_required:
  "authorised fr provider account \<Longrightarrow> required_account (sf_account_selection fr) \<in> {None, Some account}"
  by (cases "sf_account_selection fr") (auto simp: authorised_def list_ex_iff)

section \<open>How a session moves\<close>

definition progress :: "session \<Rightarrow> session \<Rightarrow> bool" where
  "progress s t =
     (se_frame t = se_frame s \<and> se_downstream_committed_at t = se_downstream_committed_at s
      \<and> se_delivery_pending t = se_delivery_pending s
      \<and> se_pending_terminal_failure t = se_pending_terminal_failure s
      \<and> se_attempts s \<le> se_attempts t \<and> se_routing_attempts s \<le> se_routing_attempts t
      \<and> se_candidate_index s \<le> se_candidate_index t
      \<and> set (se_excluded_accounts s) \<subseteq> set (se_excluded_accounts t)
      \<and> prefix (se_provider_attempt_outcomes s) (se_provider_attempt_outcomes t)
      \<and> grows s t
      \<and> (se_downstream_committed_at s \<noteq> None \<longrightarrow>
           se_attempts t = se_attempts s \<and> se_excluded_accounts t = se_excluded_accounts s
           \<and> se_candidate_index t = se_candidate_index s
           \<and> map_option cur_metadata (se_current t) = map_option cur_metadata (se_current s)))"

lemma progress_refl [simp]: "progress s s"
  by (simp add: progress_def)

lemma progress_trans [trans]: "progress s t \<Longrightarrow> progress t u \<Longrightarrow> progress s u"
  by (auto simp: progress_def intro: grows_trans prefix_order.trans order_trans)

lemma progress_vitals: "vitals t = vitals s \<Longrightarrow> grows s t \<Longrightarrow> progress s t"
  by (auto simp: progress_def vitals_def)

lemma progress_observes: "observes s t \<Longrightarrow> progress s t"
  by (simp add: observes_def progress_vitals)

lemma progress_finish [simp]:
  "progress s (finish_success r s)" "progress s (finish_failure r ff s)"
  "progress s (finish_provider_error_with_send_state r error st s)"
  "progress s (finish_provider_error r error s)" "progress s (finish_interruption r e s)"
  by (rule progress_vitals; simp)+

lemma attempts_ok_finish [simp]:
  "attempts_ok (finish_success r s) = attempts_ok s" "attempts_ok (finish_failure r ff s) = attempts_ok s"
  "attempts_ok (finish_provider_error_with_send_state r error st s) = attempts_ok s"
  "attempts_ok (finish_provider_error r error s) = attempts_ok s"
  "attempts_ok (finish_interruption r e s) = attempts_ok s"
  by (rule attempts_ok_vitals; simp)+

section \<open>A failed stream\<close>

definition continuation_blocked where
  "continuation_blocked cur st safe s =
     (required_account (se_selection s) \<noteq> None
        \<or> se_continuation_attempt s = CaNone
        \<or> se_downstream_committed_at s \<noteq> None
        \<or> se_delivery_pending s
        \<or> st = Ambiguous
        \<or> \<not> safe
        \<or> se_max_attempts s \<le> se_routing_attempts s
        \<or> session_state_for s (pcm_provider (cur_metadata cur)) = None)"

lemma continuation_retry_values:
  "prepare_continuation_retry cur error st safe s = (s, False)
   \<or> \<not> continuation_blocked cur st safe s
      \<and> (prepare_continuation_retry cur error st safe s = (s\<lparr>se_recovery_account := Some (cur_account cur)\<rparr>, True)
        \<or> prepare_continuation_retry cur error st safe s = (s\<lparr>se_continuation_attempt := CaReplayOwner\<rparr>, True)
        \<or> prepare_continuation_retry cur error st safe s
            = (exclude_account (cur_account cur) (s\<lparr>se_continuation_attempt := CaReplayAny\<rparr>), True)
        \<or> prepare_continuation_retry cur error st safe s = (exclude_account (cur_account cur) s, True))"
proof (cases "continuation_blocked cur st safe s")
  case True
  then show ?thesis
    unfolding continuation_blocked_def prepare_continuation_retry_def by (simp only: if_True simp_thms)
next
  case False
  note eq = prepare_continuation_retry_def [of cur error st safe s, folded continuation_blocked_def, unfolded if_not_P [OF False]]
  show ?thesis
  proof (cases "se_continuation_attempt s")
    case CaNone
    then show ?thesis by (simp add: eq)
  next
    case CaNative
    show ?thesis
    proof (cases "err_continuation_recovery_disposition error")
      case (Some d)
      then show ?thesis using CaNative False by (cases d) (simp_all only: eq option.case continuation_attempt.case continuation_recovery_disposition.case simp_thms)
    qed (use CaNative in \<open>simp add: eq\<close>)
  next
    case CaReplayOwner
    then show ?thesis using False by (simp only: eq continuation_attempt.case split: if_split) blast
  next
    case CaReplayAny
    then show ?thesis using False by (simp only: eq continuation_attempt.case split: if_split) blast
  qed
qed

lemma continuation_retry_cases:
  assumes "prepare_continuation_retry cur error st safe s = (t, b)"
  shows "b \<or> t = s"
    and "b \<Longrightarrow> uncommitted s \<and> st \<noteq> Ambiguous \<and> safe \<and> se_routing_attempts s < se_max_attempts s
       \<and> required_account (se_selection s) = None"
    and "t = s\<lparr>se_recovery_account := se_recovery_account t, se_continuation_attempt := se_continuation_attempt t,
            se_excluded_accounts := se_excluded_accounts t\<rparr>"
    and "set (se_excluded_accounts s) \<subseteq> set (se_excluded_accounts t)"
proof -
  consider "t = s" "\<not> b"
    | "\<not> continuation_blocked cur st safe s" "t = s\<lparr>se_recovery_account := Some (cur_account cur)\<rparr>" b
    | "\<not> continuation_blocked cur st safe s" "t = s\<lparr>se_continuation_attempt := CaReplayOwner\<rparr>" b
    | "\<not> continuation_blocked cur st safe s"
        "t = exclude_account (cur_account cur) (s\<lparr>se_continuation_attempt := CaReplayAny\<rparr>)" b
    | "\<not> continuation_blocked cur st safe s" "t = exclude_account (cur_account cur) s" b
    using continuation_retry_values [of cur error st safe s] unfolding assms prod.inject by argo
  note cases = this
  show "b \<or> t = s" using cases by cases simp_all
  show "uncommitted s \<and> st \<noteq> Ambiguous \<and> safe \<and> se_routing_attempts s < se_max_attempts s
       \<and> required_account (se_selection s) = None" if b
  proof -
    have "\<not> continuation_blocked cur st safe s" using cases that by cases simp_all
    then show ?thesis by (simp add: continuation_blocked_def uncommitted_def not_le)
  qed
  show "t = s\<lparr>se_recovery_account := se_recovery_account t, se_continuation_attempt := se_continuation_attempt t,
            se_excluded_accounts := se_excluded_accounts t\<rparr>"
    using cases by cases (simp_all add: exclude_account_def)
  show "set (se_excluded_accounts s) \<subseteq> set (se_excluded_accounts t)"
    using cases by cases (simp_all add: exclude_account_def subset_insertI)
qed

lemma transient_retry_cases:
  assumes "transient_retry_of ordinary a error s = (t, d)"
  shows "ordinary \<or> t = s \<and> d = None" and "t = s\<lparr>se_transient_retry_counts := se_transient_retry_counts t\<rparr>"
proof -
  show "ordinary \<or> t = s \<and> d = None" using assms
    by (auto simp: transient_retry_of_def split: option.splits pre_delivery_retry.splits if_splits)
  have "t = s \<or> (\<exists>m. t = s\<lparr>se_transient_retry_counts := m\<rparr>)" using assms
    by (auto simp: transient_retry_of_def Let_def split: option.splits pre_delivery_retry.splits if_splits)
  then show "t = s\<lparr>se_transient_retry_counts := se_transient_retry_counts t\<rparr>"
    by (elim disjE exE) simp_all
qed

text \<open>What every retry has in common.\<close>

definition may_retry :: "provider_error \<Rightarrow> upstream_send_state \<Rightarrow> session \<Rightarrow> retry_decision \<Rightarrow> bool" where
  "may_retry error st s d =
     (uncommitted s \<and> st \<noteq> Ambiguous
      \<and> (se_routing_attempts s < se_max_attempts s \<or> rt_transport d \<noteq> None)
      \<and> (provider_proved_replay_safe error \<or> err_pre_delivery_retry error = Some AccountRotation
         \<or> rt_transport d \<noteq> None))"

lemma decide_retry_cases:
  assumes "decide_retry cur error st s = (t, d)"
  shows "retryable d \<Longrightarrow> may_retry error st s d"
    and "\<not> retryable d \<Longrightarrow> t = s"
    and "t = s\<lparr>se_recovery_account := se_recovery_account t, se_continuation_attempt := se_continuation_attempt t,
            se_excluded_accounts := se_excluded_accounts t, se_transient_retry_counts := se_transient_retry_counts t\<rparr>"
    and "set (se_excluded_accounts s) \<subseteq> set (se_excluded_accounts t)"
    and "rt_continuation d \<Longrightarrow> required_account (se_selection s) = None"
    and "\<not> rt_continuation d \<Longrightarrow> t = s\<lparr>se_transient_retry_counts := se_transient_retry_counts t\<rparr>"
proof -
  define safe where "safe = provider_proved_replay_safe error"
  obtain u cont where u: "prepare_continuation_retry cur error st safe s = (u, cont)" by fastforce
  obtain v trans where v: "transient_retry_of (rotation_gate st u \<and> safe) (cur_account cur) error u = (v, trans)"
    by fastforce
  define same where "same \<longleftrightarrow> err_retry_same_account error \<and> safe \<and> uncommitted v \<and> st \<noteq> Ambiguous
      \<and> se_routing_attempts v < se_max_attempts v \<and> cur_account cur \<notin> set (se_credential_recovery_attempted v)"
  have eq: "(v, \<lparr>rt_continuation = cont,
      rt_rotation = rotation_gate st u \<and> err_pre_delivery_retry error = Some AccountRotation,
      rt_transport = transport_recovery_of error st u, rt_ordinary = rotation_gate st u \<and> safe,
      rt_transient = trans, rt_same_account = same\<rparr>) = (t, d)"
    using assms unfolding decide_retry_def Let_def safe_def [symmetric] u prod.case v same_def .
  have td: "t = v" using eq by simp
  have d: "rt_continuation d = cont"
    "rt_rotation d \<longleftrightarrow> rotation_gate st u \<and> err_pre_delivery_retry error = Some AccountRotation"
    "rt_transport d = transport_recovery_of error st u"
    "rt_ordinary d \<longleftrightarrow> rotation_gate st u \<and> safe" "rt_same_account d \<longleftrightarrow> same"
    unfolding prod.inject [THEN iffD1, OF eq, THEN conjunct2, symmetric] by simp_all
  note uc = continuation_retry_cases [OF u]
  note vt = transient_retry_cases [OF v]
  have frame: "uncommitted u = uncommitted s" "se_routing_attempts u = se_routing_attempts s" "se_frame u = se_frame s"
    "uncommitted v = uncommitted s" "se_routing_attempts v = se_routing_attempts s" "se_frame v = se_frame s"
    using arg_cong [OF uc(3), of uncommitted] arg_cong [OF uc(3), of se_routing_attempts]
      arg_cong [OF uc(3), of se_frame] arg_cong [OF vt(2), of uncommitted]
      arg_cong [OF vt(2), of se_routing_attempts] arg_cong [OF vt(2), of se_frame]
    by (simp_all add: uncommitted_def)
  have transport: "transport_recovery_of error st u \<noteq> None \<Longrightarrow> uncommitted s \<and> st \<noteq> Ambiguous"
    by (simp add: transport_recovery_of_def frame split: if_splits)
  show "may_retry error st s d" if "retryable d"
  proof -
    have "rotation_gate st u \<Longrightarrow> uncommitted s \<and> st \<noteq> Ambiguous \<and> se_routing_attempts s < se_max_attempts s"
      unfolding rotation_gate_def frame by blast
    moreover have "same \<Longrightarrow> safe \<and> uncommitted s \<and> st \<noteq> Ambiguous \<and> se_routing_attempts s < se_max_attempts s"
      unfolding same_def frame by blast
    ultimately show ?thesis
      using that uc(2) transport unfolding retryable_def may_retry_def safe_def d by blast
  qed
  show "t = s" if "\<not> retryable d"
  proof -
    from that d have "\<not> cont" "\<not> (rotation_gate st u \<and> safe)" by (auto simp: retryable_def)
    with uc(1) vt(1) td show ?thesis by auto
  qed
  have shape: "t = s\<lparr>se_recovery_account := se_recovery_account u, se_continuation_attempt := se_continuation_attempt u,
            se_excluded_accounts := se_excluded_accounts u, se_transient_retry_counts := se_transient_retry_counts v\<rparr>"
    by (subst td, subst vt(2), subst uc(3)) simp
  then have "se_recovery_account t = se_recovery_account u" "se_continuation_attempt t = se_continuation_attempt u"
    "se_excluded_accounts t = se_excluded_accounts u" "se_transient_retry_counts t = se_transient_retry_counts v"
    by simp_all
  with shape uc(4) show "t = s\<lparr>se_recovery_account := se_recovery_account t, se_continuation_attempt := se_continuation_attempt t,
            se_excluded_accounts := se_excluded_accounts t, se_transient_retry_counts := se_transient_retry_counts t\<rparr>"
    and "set (se_excluded_accounts s) \<subseteq> set (se_excluded_accounts t)"
    by simp_all
  show "required_account (se_selection s) = None" if "rt_continuation d"
    using that uc(2) d(1) by simp
  show "t = s\<lparr>se_transient_retry_counts := se_transient_retry_counts t\<rparr>" if "\<not> rt_continuation d"
    using that uc(1) d(1) vt(2) td by simp
qed

lemma arrange_retry_cases:
  "arrange_retry cur same transient transport continuation s =
     (if same then
        s\<lparr>se_credential_recovery_attempted := bs_insert (cur_account cur) (se_credential_recovery_attempted s),
          se_recovery_account := Some (cur_account cur)\<rparr>
      else if transient \<noteq> None \<or> transport \<noteq> None then
        s\<lparr>se_pending_retry := se_pending_retry (arrange_retry cur same transient transport continuation s)\<rparr>
      else if continuation then s else exclude_account (cur_account cur) s)"
  and arrange_retry_pending:
  "map_option pr_account (se_pending_retry (arrange_retry cur same transient transport continuation s))
     \<in> {map_option pr_account (se_pending_retry s), Some (cur_account cur)}"
  by (auto simp: arrange_retry_def exclude_account_def split: option.split)

lemma arrange_retry_props:
  fixes cur s same transient transport continuation
  defines "t \<equiv> arrange_retry cur same transient transport continuation s"
  shows "se_frame t = se_frame s" "se_downstream_committed_at t = se_downstream_committed_at s"
    "se_delivery_pending t = se_delivery_pending s"
    "se_pending_terminal_failure t = se_pending_terminal_failure s" "se_attempts t = se_attempts s"
    "se_routing_attempts t = se_routing_attempts s" "se_candidate_index t = se_candidate_index s"
    "set (se_excluded_accounts s) \<subseteq> set (se_excluded_accounts t)"
    "se_provider_attempt_outcomes t = se_provider_attempt_outcomes s" "se_log t = se_log s"
    "se_send_state_watermark t = se_send_state_watermark s" "se_current t = se_current s"
    "se_recovery_account t \<in> {se_recovery_account s, Some (cur_account cur)}"
    "map_option pr_account (se_pending_retry t) \<in> {map_option pr_account (se_pending_retry s), Some (cur_account cur)}"
    "log_running s \<Longrightarrow> log_running t"
  unfolding t_def
  by (auto simp: arrange_retry_def exclude_account_def log_running_def log_ok_def split: option.split)

lemma discard_observes: "observes s (discard_attempt r cur error events s)"
proof -
  define s1 where "s1 = s\<lparr>se_last_retryable_failure_events := events, se_last_retryable_failure := Some error\<rparr>"
  define s2 where "s2 = (if se_request_persisted s1
               then store_write r (WIntermediate (intermediate_failure_of r cur error s1)) s1 else s1)"
  have "observes s s1" by (simp add: observes_def s1_def grows_fields)
  also have "observes s1 s2"
    by (simp add: observes_def s2_def log_running_write)
  also have "observes s2 (reset_uncommitted_observations s2)"
    by (auto simp: observes_def reset_uncommitted_observations_def grows_fields log_running_def log_ok_def)
  also have "reset_uncommitted_observations s2 = discard_attempt r cur error events s"
    by (simp add: discard_attempt_def Let_def s1_def s2_def)
  finally show ?thesis .
qed

text \<open>The session once a failed stream has been taken out and its send state recorded.\<close>

definition note_failure ::
  "'a env_scheme \<Rightarrow> current_attempt \<Rightarrow> provider_error \<Rightarrow> session \<Rightarrow> session" where
  "note_failure r cur error s =
     (let s = record_provider_failure (pcm_provider (cur_metadata cur)) (err_kind error) (s\<lparr>se_current := None\<rparr>);
          s = raise_send_watermark (if cur_send_observed cur then Sent else err_send_state error) s
      in if se_request_persisted s then store_write r (WMarkSendState (se_send_state_watermark s)) s else s)"

lemma note_failure_props:
  fixes r cur error s
  defines "t \<equiv> note_failure r cur error s"
  shows "se_frame t = se_frame s" "se_downstream_committed_at t = se_downstream_committed_at s"
    "se_delivery_pending t = se_delivery_pending s"
    "se_pending_terminal_failure t = se_pending_terminal_failure s" "se_attempts t = se_attempts s"
    "se_routing_attempts t = se_routing_attempts s" "se_candidate_index t = se_candidate_index s"
    "se_excluded_accounts t = se_excluded_accounts s" "se_current t = None"
    "se_recovery_account t = se_recovery_account s" "se_pending_retry t = se_pending_retry s"
    "se_continuation_attempt t = se_continuation_attempt s"
    "se_provider_attempt_outcomes t =
       se_provider_attempt_outcomes s @ [AttemptFailed (pcm_provider (cur_metadata cur)) (err_kind error)]"
    "logged_attempts (se_log t) = logged_attempts (se_log s)"
    "grows s t" "log_running s \<Longrightarrow> log_running t"
proof -
  show "log_running t" if "log_running s"
    unfolding t_def note_failure_def Let_def
    using that by (auto simp: record_provider_failure_def intro!: log_running_write log_running_raise)
  show "grows s t"
    by (auto simp: t_def note_failure_def Let_def grows_def record_provider_failure_def
        raise_send_watermark_def store_write_def)
qed (simp_all add: t_def note_failure_def Let_def record_provider_failure_def raise_send_watermark_def store_write_def)

lemma handle_stream_error_unfold:
  assumes "se_current s = Some cur" and "decide_retry cur error' st (note_failure r cur error' s) = (u, d)"
    and "take_atomic_client_events error = (events, error')"
    and "st = (if cur_send_observed cur then Sent else err_send_state error')"
  shows "handle_stream_error r error s =
    (if retryable d then
       (discard_attempt r cur error' events
          (arrange_retry cur (rt_same_account d) (rt_transient d) (rt_transport d) (rt_continuation d)
             (u\<lparr>se_observation := observe_facts_at r 1 (concat (map pe_canonical events)) (se_observation u)\<rparr>)),
        Inr PoAttemptDiscarded)
     else let u = u\<lparr>se_current := Some cur\<rparr> in
       if events \<noteq> [] then
         (case observe_atomic_terminal_events r 1 events u of (t, events) \<Rightarrow>
            (t, Inr (PoTerminalFailure events error' (se_send_state_watermark (note_failure r cur error' s)))))
       else (finish_provider_error_with_send_state r error'
               (se_send_state_watermark (note_failure r cur error' s)) u,
             Inl (provider_engine_error error')))"
proof -
  have w: "se_send_state_watermark (note_failure r cur error' s) =
      se_send_state_watermark (raise_send_watermark st
        (record_provider_failure (pcm_provider (cur_metadata cur)) (err_kind error') (s\<lparr>se_current := None\<rparr>)))"
    by (simp add: note_failure_def Let_def assms(4))
  show ?thesis
    using assms(2) unfolding w unfolding handle_stream_error_def assms(3) prod.case assms(1) option.case Let_def
    by (simp add: note_failure_def Let_def assms(4) cong: if_cong split: prod.split)
qed

lemma pins_ok_cong:
  "se_frame t = se_frame s \<Longrightarrow> se_recovery_account t = se_recovery_account s \<Longrightarrow>
     se_pending_retry t = se_pending_retry s \<Longrightarrow> pins_ok t = pins_ok s"
  by (simp add: pins_ok_def split: option.split)

text \<open>What a failed stream leads to.\<close>

definition failed_stream_post :: "session \<Rightarrow> session \<times> (engine_error + pull_outcome) \<Rightarrow> bool" where
  "failed_stream_post s res =
     (progress s (fst res) \<and> attempts_ok (fst res)
      \<and> (case snd res of
           Inl _ \<Rightarrow> log_closed (fst res)
         | Inr PoAttemptDiscarded \<Rightarrow> log_running (fst res) \<and> se_current (fst res) = None \<and> uncommitted s
         | Inr (PoTerminalFailure events _ _) \<Rightarrow>
             log_running (fst res) \<and> events \<noteq> [] \<and> se_current (fst res) \<noteq> None
         | _ \<Rightarrow> False))"

lemma after_observing:
  assumes "observes w t" "progress s w" "attempts_ok w"
  shows "progress s t" "attempts_ok t" "se_current t = None \<longleftrightarrow> se_current w = None"
    "log_running w \<Longrightarrow> log_running t"
proof -
  have v: "vitals t = vitals w" using assms(1) by (simp add: observes_def)
  show "progress s t" by (rule progress_trans [OF assms(2) progress_observes [OF assms(1)]])
  show "attempts_ok t" using assms(3) attempts_ok_vitals [OF v] by simp
  show "se_current t = None \<longleftrightarrow> se_current w = None" by (rule vitals_fields(9) [OF v])
  show "log_running t" if "log_running w" using assms(1) that by (simp add: observes_def)
qed

lemma handle_stream_error_post:
  assumes run: "log_running s" and ok: "attempts_ok s" and cur: "se_current s = Some cur"
  shows "failed_stream_post s (handle_stream_error r error s)"
proof -
  obtain events error' where ev: "take_atomic_client_events error = (events, error')" by fastforce
  define st where "st = (if cur_send_observed cur then Sent else err_send_state error')"
  define n where "n = note_failure r cur error' s"
  obtain u d where u: "decide_retry cur error' st n = (u, d)" by fastforce
  note dc = decide_retry_cases [OF u]
  note np = note_failure_props [where r = r and cur = cur and error = error' and s = s, folded n_def]
  note eq = handle_stream_error_unfold [OF cur u [unfolded n_def] ev st_def, folded n_def]
  have auth: "authorised (se_frame s) (pcm_provider (cur_metadata cur)) (cur_account cur)"
    using ok cur by (simp add: attempts_ok_def)
  have req: "required_account (se_selection s) \<in> {None, Some (cur_account cur)}"
    by (rule authorised_required [OF auth])
  show ?thesis
  proof (cases "retryable d")
    case True
    define v where "v = u\<lparr>se_observation := observe_facts_at r 1 (concat (map pe_canonical events)) (se_observation u)\<rparr>"
    define w where "w = arrange_retry cur (rt_same_account d) (rt_transient d) (rt_transport d) (rt_continuation d) v"
    have res: "handle_stream_error r error s = (discard_attempt r cur error' events w, Inr PoAttemptDiscarded)"
      using eq True by (simp add: v_def w_def)
    have unc: "uncommitted s"
      using dc(1) [OF True] by (simp add: may_retry_def uncommitted_def np(2,3))
    have vf: "se_frame v = se_frame s" "se_downstream_committed_at v = se_downstream_committed_at s"
      "se_delivery_pending v = se_delivery_pending s" "se_pending_terminal_failure v = se_pending_terminal_failure s"
      "se_attempts v = se_attempts s" "se_routing_attempts v = se_routing_attempts s"
      "se_candidate_index v = se_candidate_index s" "se_current v = None" "se_log v = se_log n"
      "se_send_state_watermark v = se_send_state_watermark n" "se_pending_retry v = se_pending_retry s"
      "se_provider_attempt_outcomes v = se_provider_attempt_outcomes n"
      and vr: "log_running v = log_running n"
      unfolding v_def by (subst dc(3), simp add: np(1-11) log_running_def log_ok_def)+
    have vx: "set (se_excluded_accounts s) \<subseteq> set (se_excluded_accounts v)"
      using dc(4) by (simp add: v_def np(8))
    have vrec: "required_account (se_selection s) = None \<or> se_recovery_account v = se_recovery_account s"
    proof (cases "rt_continuation d")
      case True
      then show ?thesis using dc(5) np(1) by simp
    next
      case False
      have "se_recovery_account u = se_recovery_account s" by (subst dc(6) [OF False]) (simp add: np(10))
      then show ?thesis by (simp add: v_def)
    qed
    note ap = arrange_retry_props [where cur = cur and s = v and same = "rt_same_account d" and transient = "rt_transient d"
        and transport = "rt_transport d" and continuation = "rt_continuation d", folded w_def]
    have "progress s w"
      unfolding progress_def ap(1-7,9) vf np(13)
      using unc vx ap(8) np(15) by (auto simp: uncommitted_def grows_def ap(10,11) vf)
    moreover have "attempts_ok w"
    proof -
      have "pins_ok w"
      proof (cases "required_account (se_selection s)")
        case (Some a)
        with req have "a = cur_account cur" by simp
        with ok Some vrec have "se_recovery_account v \<in> {None, Some a}"
          "map_option pr_account (se_pending_retry v) \<in> {None, Some a}"
          by (simp_all add: attempts_ok_def pins_ok_def vf)
        then show ?thesis
          using ap(13,14) \<open>a = cur_account cur\<close> Some unfolding pins_ok_def ap(1) vf by auto
      qed (simp add: pins_ok_def ap(1) vf)
      then show ?thesis using ok unfolding attempts_ok_def ap(1,5,6,10,12) vf np(14) by simp
    qed
    moreover have "log_running w" using run np(16) vr ap(15) by blast
    moreover have "se_current w = None" using ap(12) vf by simp
    ultimately show ?thesis
      unfolding failed_stream_post_def res
      using unc after_observing [OF discard_observes [of w r cur error' events]] by simp
  next
    case False
    define v where "v = n\<lparr>se_current := Some cur\<rparr>"
    have un: "u = n" using dc(2) [OF False] .
    have pv: "progress s v"
      using np(15) cur by (simp add: progress_def v_def np(1-8,13))
    have "pins_ok v = pins_ok s" by (rule pins_ok_cong) (simp_all add: v_def np(1,10,11))
    then have av: "attempts_ok v"
      using ok auth by (simp add: attempts_ok_def v_def np(1-11,14) del: upt_Suc)
    have rv: "log_running v" using run np(16) by (simp add: v_def)
    have cv: "se_current v \<noteq> None" by (simp add: v_def)
    show ?thesis
    proof (cases "events = []")
      case True
      then have "handle_stream_error r error s =
          (finish_provider_error_with_send_state r error' (se_send_state_watermark n) v, Inl (provider_engine_error error'))"
        using eq False by (simp add: un v_def Let_def)
      then show ?thesis
        using progress_trans [OF pv progress_finish(3)] av rv by (simp add: failed_stream_post_def log_finish)
    next
      case False
      obtain t es where t: "observe_atomic_terminal_events r 1 events v = (t, es)" by fastforce
      have "handle_stream_error r error s = (t, Inr (PoTerminalFailure es error' (se_send_state_watermark n)))"
        using eq \<open>\<not> retryable d\<close> False t by (simp add: un v_def Let_def)
      moreover have "observes v t" "es \<noteq> []" using observes_atomic [OF t] False by auto
      ultimately show ?thesis
        using after_observing [OF \<open>observes v t\<close> pv av] rv cv by (simp add: failed_stream_post_def)
    qed
  qed
qed

section \<open>Preparing an attempt\<close>

lemma pins_ok_updates [simp]:
  "pins_ok (s\<lparr>se_provider_attempt_outcomes := os\<rparr>) = pins_ok s"
  "pins_ok (s\<lparr>se_candidate_index := i\<rparr>) = pins_ok s"
  "pins_ok (s\<lparr>se_excluded_accounts := ex\<rparr>) = pins_ok s"
  "pins_ok (s\<lparr>se_continuation_attempt := ca\<rparr>) = pins_ok s"
  "pins_ok (s\<lparr>se_current := c\<rparr>) = pins_ok s"
  "pins_ok (s\<lparr>se_attempts := n\<rparr>) = pins_ok s"
  "pins_ok (s\<lparr>se_routing_attempts := n\<rparr>) = pins_ok s"
  "pins_ok (s\<lparr>se_account_state_owner := ow\<rparr>) = pins_ok s"
  "pins_ok (s\<lparr>se_log := ws\<rparr>) = pins_ok s"
  "pins_ok (s\<lparr>se_pending_request := q\<rparr>) = pins_ok s"
  "pins_ok (s\<lparr>se_request_persisted := b\<rparr>) = pins_ok s"
  by (rule pins_ok_cong; simp)+

definition prepared_post :: "session \<Rightarrow> prepared \<Rightarrow> bool" where
  "prepared_post s res =
     (progress s (fst res) \<and> attempts_ok (fst res)
      \<and> (case snd res of
           Inl _ \<Rightarrow> log_running (fst res) \<or> log_closed (fst res)
         | Inr None \<Rightarrow> log_running (fst res) \<and> se_current (fst res) \<noteq> None
         | Inr (Some PoAttemptDiscarded) \<Rightarrow> log_running (fst res) \<and> se_current (fst res) = None
         | Inr (Some (PoTerminalFailure events _ _)) \<Rightarrow> log_running (fst res) \<and> events \<noteq> []
         | _ \<Rightarrow> False))"

lemma prepared_post_trans: "progress s t \<Longrightarrow> prepared_post t res \<Longrightarrow> prepared_post s res"
  by (auto simp: prepared_post_def intro: progress_trans)

text \<open>A session between two attempts, before anything was delivered.\<close>

definition between_attempts :: "session \<Rightarrow> bool" where
  "between_attempts s =
     (log_running s \<and> attempts_ok s \<and> se_downstream_committed_at s = None \<and> se_current s = None)"

lemma interrupted_post:
  "between_attempts s \<Longrightarrow> prepared_post s (interrupted r e s)"
  by (simp add: prepared_post_def interrupted_def between_attempts_def log_finish_interruption)

lemma reject_internal_post:
  "between_attempts s \<Longrightarrow> prepared_post s (reject_internal r message e s)"
  using log_reject_internal [of s r message e]
  by (simp add: prepared_post_def between_attempts_def) (simp add: reject_internal_def)

lemma between_attempts_failure_note:
  "between_attempts s \<Longrightarrow> between_attempts (record_provider_failure p k s) \<and> progress s (record_provider_failure p k s)"
  by (auto simp: between_attempts_def record_provider_failure_def progress_def grows_def attempts_ok_def
      simp del: upt_Suc)

lemma finish_error_post:
  "between_attempts s \<Longrightarrow> prepared_post s (finish_provider_error r error s, Inl e)"
  by (simp add: prepared_post_def between_attempts_def log_finish)

lemma advance_post:
  "between_attempts s \<Longrightarrow> advance_provider_candidate s = Some t \<Longrightarrow>
     prepared_post s (t, Inr (Some PoAttemptDiscarded))"
  by (auto simp: advance_provider_candidate_def prepared_post_def between_attempts_def progress_def grows_def
      attempts_ok_def simp del: upt_Suc split: if_splits)

lemma unavailable_post:
  assumes "between_attempts s" and "prepare_unavailable_native_continuation_replay error s = Some t"
  shows "prepared_post s (t, Inr (Some PoAttemptDiscarded))"
proof -
  have "\<exists>pin :: native_continuation_pin. exclude_account (ncp_account pin) (s\<lparr>se_continuation_attempt := CaReplayAny\<rparr>) = t"
    using assms(2) unfolding prepare_unavailable_native_continuation_replay_def
    by (simp split: if_split_asm option.split_asm) blast
  then obtain pin :: native_continuation_pin where t: "exclude_account (ncp_account pin) (s\<lparr>se_continuation_attempt := CaReplayAny\<rparr>) = t" ..
  show ?thesis
    using assms(1) unfolding t [symmetric]
    by (auto simp: exclude_account_def prepared_post_def between_attempts_def progress_def grows_def
        attempts_ok_def log_running_def log_ok_def simp del: upt_Suc)
qed

lemma call_refused_post:
  assumes "between_attempts s"
  shows "prepared_post s (call_refused r c error s)"
proof (cases "prepare_unavailable_native_continuation_replay error s")
  case (Some t)
  then show ?thesis using unavailable_post [OF assms Some] by (simp add: call_refused_def)
next
  case None
  define adv where "adv = (if local_unavailability error \<and> se_continuation_attempt s \<in> {CaNone, CaReplayAny}
                 then advance_provider_candidate s else None)"
  show ?thesis
  proof (cases adv)
    case (Some t)
    then have "advance_provider_candidate s = Some t" by (auto simp: adv_def split: if_splits)
    from advance_post [OF assms this] show ?thesis
      unfolding call_refused_def None option.case adv_def [symmetric] Some .
  next
    case a: None
    define last where "last = (if no_account_left error then se_last_retryable_failure s else None)"
    show ?thesis
    proof (cases last)
      case l: None
      have "prepared_post s (finish_provider_error r error
          (if local_unavailability error then s else record_provider_failure (pc_provider c) (err_kind error) s),
          Inl (provider_engine_error error))"
        by (simp add: finish_error_post [OF assms]
          prepared_post_trans [OF conjunct2 finish_error_post [OF conjunct1], OF between_attempts_failure_note between_attempts_failure_note, OF assms assms])
      then show ?thesis
        unfolding call_refused_def None option.case adv_def [symmetric] a last_def [symmetric] l Let_def .
    next
      case (Some failure)
      define s1 where "s1 = s\<lparr>se_last_retryable_failure := None\<rparr>"
      define s2 where "s2 = s1\<lparr>se_last_retryable_failure_events := []\<rparr>"
      define events where "events = se_last_retryable_failure_events s1"
      have v2: "vitals s2 = vitals s" by (simp add: s2_def s1_def)
      have s2: "progress s s2" "between_attempts s2"
        using assms attempts_ok_vitals [OF v2] progress_vitals [OF v2]
        by (simp_all add: s2_def s1_def between_attempts_def grows_def)
      have eq: "call_refused r c error s =
         (if events \<noteq> [] then
            (case observe_atomic_terminal_events r 1 events s2 of (t, es) \<Rightarrow>
              (t\<lparr>se_budget_attempt_already_counted := True\<rparr>,
               Inr (Some (PoTerminalFailure es failure (current_send_state s1)))))
          else (finish_provider_error r failure s2, Inl (provider_engine_error failure)))"
        unfolding call_refused_def None option.case adv_def [symmetric] a last_def [symmetric] Some
          Let_def s2_def s1_def events_def ..
      show ?thesis
      proof (cases "events = []")
        case True
        then show ?thesis using prepared_post_trans [OF s2(1) finish_error_post [OF s2(2)]] by (simp add: eq)
      next
        case False
        obtain t es where t: "observe_atomic_terminal_events r 1 events s2 = (t, es)" by fastforce
        from observes_atomic [OF t] False have o': "observes s2 t" "es \<noteq> []" by auto
        have "attempts_ok s2" "log_running s2" using s2(2) by (simp_all add: between_attempts_def)
        note ao = after_observing [OF o'(1) s2(1) this(1)]
        have "progress s (t\<lparr>se_budget_attempt_already_counted := True\<rparr>)"
          by (rule progress_trans [OF ao(1)]) (rule progress_vitals; simp add: grows_def)
        then show ?thesis
          using ao(2) ao(4) [OF \<open>log_running s2\<close>] o'(2) False t attempts_ok_vitals [OF vitals_updates(13) [where s = t and b = True]]
          by (simp add: eq prepared_post_def)
      qed
    qed
  qed
qed

text \<open>The write of an attempt adds its record and nothing else to the log's attempts.\<close>

lemma write_attempt_cases:
  assumes "log_running s"
  shows "\<exists>t. write_attempt r rec s = (t, Inr None) \<and> log_running t
     \<and> logged_attempts (se_log t) = logged_attempts (se_log s) @ [rec] \<and> grows s t
     \<and> t = s\<lparr>se_log := se_log t, se_pending_request := se_pending_request t, se_request_persisted := se_request_persisted t\<rparr>"
proof (cases "se_request_persisted s")
  case True
  then have "write_attempt r rec s = (store_write r (WRecordAttempt rec) s, Inr None)"
    by (simp add: write_attempt_def)
  moreover have "log_running (store_write r (WRecordAttempt rec) s)"
    by (rule log_running_write [OF assms True]) simp_all
  ultimately show ?thesis
    by (intro exI [of _ "store_write r (WRecordAttempt rec) s"]) (simp add: store_write_def grows_def)
next
  case False
  with assms obtain q where q: "se_pending_request s = Some q" by (auto simp: log_running_def)
  define w where "w = WCreateWithAttempt q rec"
  define t where "t = (if en_store r w then (store_write r w s)\<lparr>se_pending_request := None, se_request_persisted := True\<rparr>
                       else store_write r w s)"
  have "write_attempt r rec s = (t, Inr None)"
    using False q by (simp add: write_attempt_def t_def w_def Let_def)
  moreover have "log_running t"
    using assms False q
    by (auto simp: log_running_def log_ok_def t_def store_write_def w_def)
  ultimately show ?thesis
    by (intro exI [of _ t]) (simp add: t_def store_write_def grows_def w_def)
qed

lemma adopt_stream_post:
  assumes s: "between_attempts s"
    and auth: "authorised (se_frame s) (pcm_provider m) (pcm_provider_account_id m)"
    and guard: "transport_recovery \<or> se_routing_attempts s < se_max_attempts s"
    and next_eq: "next = Suc (se_attempts s)" "next \<le> u32_max"
  shows "prepared_post s (adopt_stream r transport_recovery transport next m s)"
proof -
  define s1 where "s1 = (if se_account_state_owner s = None
     then s\<lparr>se_account_state_owner := Some \<lparr>so_provider = pcm_provider m, so_account = pcm_provider_account_id m\<rparr>\<rparr>
     else s)"
  define trigger where "trigger = (if se_attempts s1 = 0 then InitialAttempt else AccountRetry)"
  define rec where "rec = attempt_record_of next trigger m s1"
  define cur where "cur = \<lparr>cur_metadata = m, cur_trigger = trigger, cur_transport = transport, cur_index = next,
         cur_started_at = en_wall r 2, cur_send_observed = False, cur_response_observation = None\<rparr>"
  define n where "n = (if transport_recovery then se_routing_attempts s1
                              else saturating_add u32_max (se_routing_attempts s1) 1)"
  define s2 where "s2 = s1\<lparr>se_attempts := next, se_routing_attempts := n, se_current := Some cur\<rparr>"
  have eq: "adopt_stream r transport_recovery transport next m s = write_attempt r rec s2"
    unfolding adopt_stream_def Let_def s1_def [symmetric] trigger_def [symmetric] rec_def [symmetric]
      cur_def [symmetric] n_def [symmetric] s2_def [symmetric] ..
  have f1: "se_frame s1 = se_frame s" "se_log s1 = se_log s" "se_attempts s1 = se_attempts s"
    "se_routing_attempts s1 = se_routing_attempts s" "log_running s1 = log_running s" "pins_ok s1 = pins_ok s"
    "progress s s1" "se_downstream_committed_at s1 = None"
    using s by (simp_all add: s1_def progress_def grows_def between_attempts_def)
  have ok: "map ar_attempt_count (logged_attempts (se_log s)) = [1..<Suc (se_attempts s)]"
    "list_all (record_authorised (se_frame s)) (logged_attempts (se_log s))"
    "se_attempts s \<le> u32_max" "se_routing_attempts s \<le> se_attempts s"
    "se_routing_attempts s \<le> se_max_attempts s" "pins_ok s" "log_running s"
    using s by (simp_all add: between_attempts_def attempts_ok_def del: upt_Suc)
  have rec: "ar_attempt_count rec = next" "record_authorised (se_frame s) rec"
    using auth by (simp_all add: rec_def attempt_record_of_def Let_def record_authorised_def)
  have n: "se_routing_attempts s \<le> n" "n \<le> next" "n \<le> se_max_attempts s"
    using ok(3-5) guard by (auto simp: n_def f1 next_eq saturating_add_def)
  have "log_running s2" using ok(7) f1(5) by (simp add: s2_def)
  from write_attempt_cases [OF this, of r rec] obtain t where t: "write_attempt r rec s2 = (t, Inr None)"
    "log_running t" "logged_attempts (se_log t) = logged_attempts (se_log s2) @ [rec]" "grows s2 t"
    "t = s2\<lparr>se_log := se_log t, se_pending_request := se_pending_request t, se_request_persisted := se_request_persisted t\<rparr>"
    by blast
  note proj = arg_cong [OF t(5)]
  have ft: "se_frame t = se_frame s" "se_attempts t = next" "se_routing_attempts t = n" "se_current t = Some cur"
    using proj [of se_frame] proj [of se_attempts] proj [of se_routing_attempts] proj [of se_current]
    by (simp_all add: s2_def f1)
  have "pins_ok t = pins_ok s"
    using proj [of pins_ok] f1(6) by (simp add: s2_def)
  moreover have "progress s1 t"
  proof -
    have "grows s1 t" using t(4) by (simp add: s2_def grows_def)
    moreover have "se_downstream_committed_at t = se_downstream_committed_at s1"
      "se_delivery_pending t = se_delivery_pending s1" "se_pending_terminal_failure t = se_pending_terminal_failure s1"
      "se_candidate_index t = se_candidate_index s1" "se_excluded_accounts t = se_excluded_accounts s1"
      "se_provider_attempt_outcomes t = se_provider_attempt_outcomes s1"
      using proj [of se_downstream_committed_at] proj [of se_delivery_pending]
        proj [of se_pending_terminal_failure] proj [of se_candidate_index] proj [of se_excluded_accounts]
        proj [of se_provider_attempt_outcomes] by (simp_all add: s2_def)
    ultimately show ?thesis
      using n(1) by (simp add: progress_def ft f1 next_eq)
  qed
  moreover have "attempts_ok t" if "pins_ok t"
    using ok rec n that auth next_eq t(3)
    by (simp add: attempts_ok_def ft s2_def f1) (simp add: cur_def)
  ultimately show ?thesis
    using progress_trans [OF f1(7)] t(2) ft(4) ok(6) by (simp add: eq t(1) prepared_post_def)
qed

text \<open>The pinned account of an attempt is the one the request is bound to.\<close>

lemma accept_stream_post:
  assumes s: "between_attempts s"
    and c: "c \<in> set (rp_candidates (se_plan s))"
    and pin: "case required_account (se_selection s) of None \<Rightarrow> True | Some a \<Rightarrow> pinned_account = Some a"
    and guard: "transport_recovery \<or> se_routing_attempts s < se_max_attempts s"
    and next_eq: "next = Suc (se_attempts s)" "next \<le> u32_max"
  shows "prepared_post s (accept_stream r transport_recovery pinned_account transport next c m s)"
proof -
  define account where "account = pcm_provider_account_id m"
  let ?mismatch = "\<not> metadata_confirms m c"
  let ?outside = "\<not> is_diagnostic (se_selection s) \<and> \<not> scope_allows (pc_account_scope c) account"
  let ?other = "opt_any (\<lambda>required. account \<noteq> required) pinned_account"
  let ?unpinned = "se_continuation_attempt s = CaNative
    \<and> opt_any (\<lambda>pin. \<not> pin_matches pin (pcm_provider m) account) (se_pin s)"
  consider "?mismatch" | "\<not> ?mismatch" "?outside" | "\<not> ?mismatch" "\<not> ?outside" "?other"
    | "\<not> ?mismatch" "\<not> ?outside" "\<not> ?other" "?unpinned"
    | "\<not> ?mismatch" "\<not> ?outside" "\<not> ?other" "\<not> ?unpinned" by blast
  then show ?thesis
  proof cases
    case 1
    then have "accept_stream r transport_recovery pinned_account transport next c m s =
        reject_internal r ''provider metadata did not match the frozen candidate'' EngProviderMetadataMismatch
          (record_provider_failure (pc_provider c) PkProtocol s)"
      by (simp add: accept_stream_def)
    then show ?thesis
      using prepared_post_trans [OF _ reject_internal_post] between_attempts_failure_note [OF s] by metis
  next
    case 2
    then show ?thesis
      by (simp add: accept_stream_def Let_def account_def reject_internal_post [OF s])
  next
    case 3
    then show ?thesis
      by (simp add: accept_stream_def Let_def account_def reject_internal_post [OF s])
  next
    case 4
    then show ?thesis
      by (simp add: accept_stream_def Let_def account_def reject_internal_post [OF s])
  next
    case 5
    have "authorised (se_frame s) (pcm_provider m) account"
      using c 5 pin unfolding authorised_def list_ex_iff
      by (intro bexI [of _ c])
         (auto simp: metadata_confirms_def split: account_selection.splits option.splits)
    note post = adopt_stream_post [OF s this [unfolded account_def] guard next_eq]
    show ?thesis
      unfolding accept_stream_def Let_def account_def [symmetric]
        if_not_P [OF 5(1)] if_not_P [OF 5(2)] if_not_P [OF 5(3)] if_not_P [OF 5(4)]
      by (rule post)
  qed
qed

lemma resolve_profile_props:
  "resolve_profile eg p s = Inr t \<Longrightarrow> \<exists>ps. t = s\<lparr>se_request_profiles := ps\<rparr>"
  unfolding resolve_profile_def
  by (auto split: if_splits option.splits sum.splits) (metis session.surjective session.update_convs(19))+

lemma between_attempts_updates [simp]:
  "between_attempts (s\<lparr>se_request_profiles := ps\<rparr>) = between_attempts s"
  by (simp add: between_attempts_def attempts_ok_vitals [OF vitals_updates(11)])

lemma call_provider_post:
  assumes s: "between_attempts s"
    and c: "c \<in> set (rp_candidates (se_plan s))"
    and pin: "case required_account (se_selection s) of None \<Rightarrow> True | Some a \<Rightarrow> map_option pr_account retry \<in> {None, Some a}"
    and guard: "opt_any pr_transport_recovery retry \<or> se_routing_attempts s < se_max_attempts s"
    and next_eq: "next = Suc (se_attempts s)" "next \<le> u32_max"
  shows "prepared_post s (call_provider eg r retry c next s)"
proof -
  obtain s1 pinned_account transport where tk: "take_pinned_account retry s = (s1, pinned_account, transport)"
    by (metis prod_cases3)
  have s1: "s1 = s\<lparr>se_recovery_account := se_recovery_account s1\<rparr>" "se_recovery_account s1 \<in> {se_recovery_account s, None}"
    using tk by (auto simp: take_pinned_account_def split: option.splits account_selection.splits)
  have pins: "pins_ok s" using s by (simp add: between_attempts_def attempts_ok_def)
  have b1: "between_attempts s1" "progress s s1" "se_frame s1 = se_frame s"
    "se_attempts s1 = se_attempts s" "se_routing_attempts s1 = se_routing_attempts s"
  proof -
    obtain x where x: "s1 = s\<lparr>se_recovery_account := x\<rparr>" "x \<in> {se_recovery_account s, None}"
      using s1 by blast
    have "pins_ok s1"
      using pins x(2) by (auto simp: x(1) pins_ok_def split: option.splits)
    then show "between_attempts s1" "progress s s1" "se_frame s1 = se_frame s"
      "se_attempts s1 = se_attempts s" "se_routing_attempts s1 = se_routing_attempts s"
      using s by (simp_all add: x(1) between_attempts_def attempts_ok_def progress_def grows_def del: upt_Suc)
  qed
  have p1: "case required_account (se_selection s1) of None \<Rightarrow> True | Some a \<Rightarrow> pinned_account = Some a"
  proof (cases "required_account (se_selection s)")
    case None
    then show ?thesis by (simp add: b1(3))
  next
    case (Some a)
    have "pinned_account = Some a"
    proof (cases retry)
      case None
      have "se_recovery_account s \<in> {None, Some a}" using pins Some by (simp add: pins_ok_def)
      then show ?thesis
        using tk Some None by (cases "se_selection s") (auto simp: take_pinned_account_def)
    next
      case retry: (Some p)
      then show ?thesis using tk pin Some by (auto simp: take_pinned_account_def)
    qed
    then show ?thesis by (simp add: b1(3) Some)
  qed
  show ?thesis
  proof (cases "eg_registered eg (pc_provider c)")
    case False
    then show ?thesis
      using b1(1,2) by (simp add: call_provider_def tk prepared_post_def between_attempts_def)
  next
    case reg: True
    show ?thesis
    proof (cases "resolve_profile eg (pc_provider c) s1")
      case (Inl error)
      show ?thesis
        unfolding call_provider_def tk prod.case Let_def Inl sum.case
        using reg by (simp add: prepared_post_trans [OF b1(2) finish_error_post [OF b1(1)]])
    next
      case (Inr s2)
      then obtain ps where s2: "s2 = s1\<lparr>se_request_profiles := ps\<rparr>" using resolve_profile_props by blast
      have b2: "between_attempts s2" using b1(1) by (simp add: s2)
      have pr2: "progress s s2"
        by (rule progress_trans [OF b1(2)]) (simp add: s2 progress_def grows_def)
      define answer where "answer = poll_provider (se_cancelled s2) (sf_deadline (se_frame s2)) (rd_call r)
        (rd_execute r (se_operation s2) c (attempt_context_of next c (account_context_of pinned_account s1) transport s2))"
      have eq: "call_provider eg r retry c next s =
         (case answer of
            BoundaryCancelled \<Rightarrow> interrupted r EngCancelled s2
          | BoundaryDeadline \<Rightarrow> interrupted r EngDeadline s2
          | Answered (Inl error) \<Rightarrow> call_refused r c error s2
          | Answered (Inr m) \<Rightarrow>
              accept_stream r (opt_any pr_transport_recovery retry) pinned_account transport next c m s2)"
        unfolding call_provider_def tk prod.case Let_def Inr sum.case answer_def using reg by simp
      have acc: "prepared_post s2 (accept_stream r (opt_any pr_transport_recovery retry) pinned_account transport next c m s2)" for m
        by (rule accept_stream_post [OF b2])
           (use c p1 guard next_eq in \<open>simp_all add: s2 b1(3-5)\<close>)
      have "prepared_post s2 (call_provider eg r retry c next s)"
        unfolding eq
        by (cases answer)
           (simp_all add: interrupted_post [OF b2] call_refused_post [OF b2] acc split: sum.split)
      then show ?thesis by (rule prepared_post_trans [OF pr2])
    qed
  qed
qed

text \<open>A session that the next call of \<open>pull\<close> may work on.\<close>

definition pull_ready :: "session \<Rightarrow> bool" where
  "pull_ready s =
     (log_running s \<and> attempts_ok s \<and> (se_downstream_committed_at s = None \<or> se_current s \<noteq> None))"

lemma prepare_attempt_post:
  assumes "between_attempts s"
  shows "prepared_post s (prepare_attempt eg r s)"
proof -
  define retry where "retry = se_pending_retry s"
  define s1 where "s1 = s\<lparr>se_pending_retry := None\<rparr>"
  have pins: "pins_ok s" using assms by (simp add: between_attempts_def attempts_ok_def)
  then have "pins_ok s1" by (auto simp: s1_def pins_ok_def split: option.splits)
  then have b1: "between_attempts s1"
    using assms by (simp add: s1_def between_attempts_def attempts_ok_def del: upt_Suc)
  have pr1: "progress s s1" by (simp add: s1_def progress_def grows_def)
  have pin: "case required_account (se_selection s1) of None \<Rightarrow> True | Some a \<Rightarrow> map_option pr_account retry \<in> {None, Some a}"
    using pins by (auto simp: s1_def retry_def pins_ok_def split: option.splits)
  have "prepared_post s1 (prepare_attempt eg r s)"
  proof (cases "\<not> opt_any pr_transport_recovery retry \<and> se_max_attempts s1 \<le> se_routing_attempts s1")
    case True
    then have "prepare_attempt eg r s = (s1, Inl EngEmptyRoutingPlan)"
      unfolding prepare_attempt_def Let_def retry_def [symmetric] s1_def [symmetric] by (rule if_P)
    then show ?thesis using b1 by (simp add: prepared_post_def between_attempts_def)
  next
    case go: False
    define delay where "delay = (if opt_any (\<lambda>p. pr_delay p \<noteq> 0) retry
                    then poll_retry_delay (se_cancelled s1) (sf_deadline (se_frame s1)) (rd_delay r) else Answered ())"
    have eq: "prepare_attempt eg r s = (case delay of
           BoundaryCancelled \<Rightarrow> interrupted r EngCancelled s1
         | BoundaryDeadline \<Rightarrow> interrupted r EngDeadline s1
         | Answered _ \<Rightarrow>
             (case nth_opt (rp_candidates (se_plan s1)) (se_candidate_index s1) of
                None \<Rightarrow>
                  (finish_failure r
                     (plain_failure Failed (current_send_state s1)
                        (gateway_error_new GkNoAvailableProvider ''no upstream Provider is available'')) s1,
                   Inl EngEmptyRoutingPlan)
              | Some c \<Rightarrow>
                  (case checked_add u32_max (se_attempts s1) 1 of
                     None \<Rightarrow> (s1, Inl EngEmptyRoutingPlan)
                   | Some next \<Rightarrow> call_provider eg r retry c next s1)))"
      unfolding prepare_attempt_def Let_def retry_def [symmetric] s1_def [symmetric] if_not_P [OF go] delay_def ..
    have guard: "opt_any pr_transport_recovery retry \<or> se_routing_attempts s1 < se_max_attempts s1"
      using go by (simp add: not_le)
    have none: "prepared_post s1 (finish_failure r
         (plain_failure Failed (current_send_state s1) g) s1, Inl EngEmptyRoutingPlan)" for g
      using b1 by (simp add: prepared_post_def between_attempts_def log_finish_failure plain_failure_def
          current_send_state_rank)
    have over: "prepared_post s1 (s1, Inl EngEmptyRoutingPlan)"
      using b1 by (simp add: prepared_post_def between_attempts_def)
    have call: "prepared_post s1 (call_provider eg r retry c next s1)"
      if "nth_opt (rp_candidates (se_plan s1)) (se_candidate_index s1) = Some c"
        "checked_add u32_max (se_attempts s1) (Suc 0) = Some next" for c "next"
      by (rule call_provider_post [OF b1 _ pin guard])
         (use that in \<open>auto simp: nth_opt_def split: if_splits\<close>)
    show ?thesis
    proof (cases delay)
      case (Answered u)
      then have "delay = Answered ()" by simp
      then show ?thesis
        unfolding eq by (simp add: none over call split: option.split del: checked_add_Some)
    qed (simp_all add: eq interrupted_post [OF b1])
  qed
  then show ?thesis by (rule prepared_post_trans [OF pr1])
qed

section \<open>Pulling\<close>

text \<open>
  One iteration of \<open>pull\<close> either lets the request go on, or ends it: every error leaves it finalized.
\<close>

definition pulled_post :: "session \<Rightarrow> prepared \<Rightarrow> bool" where
  "pulled_post s res =
     (progress s (fst res) \<and> attempts_ok (fst res)
      \<and> (case snd res of
           Inl _ \<Rightarrow> log_closed (fst res)
         | Inr out \<Rightarrow>
             log_running (fst res)
             \<and> (case out of
                  Some PoAttemptDiscarded \<Rightarrow> se_downstream_committed_at s = None \<and> se_current (fst res) = None
                | Some (PoTerminalFailure events _ _) \<Rightarrow>
                    events \<noteq> [] \<and> (se_downstream_committed_at s = None \<or> se_current (fst res) \<noteq> None)
                | _ \<Rightarrow> se_current (fst res) \<noteq> None)))"

lemma pulled_post_trans:
  "progress s t \<Longrightarrow> pulled_post t res \<Longrightarrow> pulled_post s res"
proof -
  assume p: "progress s t" and q: "pulled_post t res"
  have c: "se_downstream_committed_at t = se_downstream_committed_at s" using p by (simp add: progress_def)
  show "pulled_post s res"
    using progress_trans [OF p, of "fst res"] q unfolding pulled_post_def c by blast
qed

lemma log_running_success_note [simp]: "log_running (record_current_provider_success s) = log_running s"
  by (simp add: record_current_provider_success_def split: option.split)

lemma success_note_progress:
  "progress s ((record_current_provider_success s)\<lparr>se_upstream_complete := True\<rparr>)"
  "attempts_ok ((record_current_provider_success s)\<lparr>se_upstream_complete := True\<rparr>) = attempts_ok s"
  "log_running ((record_current_provider_success s)\<lparr>se_upstream_complete := True\<rparr>) = log_running s"
  "se_current ((record_current_provider_success s)\<lparr>se_upstream_complete := True\<rparr>) = se_current s"
proof -
  have "attempts_ok (t\<lparr>se_upstream_complete := True\<rparr>) = attempts_ok t" for t :: session
    by (rule attempts_ok_vitals) simp
  moreover have "attempts_ok (record_current_provider_success s) = attempts_ok s"
    by (simp add: record_current_provider_success_def attempts_ok_def del: upt_Suc split: option.split)
  ultimately show "attempts_ok ((record_current_provider_success s)\<lparr>se_upstream_complete := True\<rparr>) = attempts_ok s"
    by simp
qed (auto simp: record_current_provider_success_def progress_def grows_def split: option.split)

lemma poll_current_post:
  assumes run: "log_running s" and ok: "attempts_ok s" and cur: "se_current s \<noteq> None"
  shows "pulled_post s (poll_current r s)"
proof -
  have stop: "pulled_post s (interrupted r e s)" if "e = EngCancelled \<or> e = EngDeadline" for e
    using run ok that by (auto simp: pulled_post_def interrupted_def intro: log_finish_interruption)
  define answer where "answer = poll_stream_item (se_cancelled s) (sf_deadline (se_frame s)) (rd_poll r) (rd_item r)"
  have eq: "poll_current r s = (case answer of
        BoundaryCancelled \<Rightarrow> interrupted r EngCancelled s
      | BoundaryDeadline \<Rightarrow> interrupted r EngDeadline s
      | Answered None \<Rightarrow>
          ((record_current_provider_success s)\<lparr>se_upstream_complete := True\<rparr>, Inr (Some PoEnd))
      | Answered (Some (Inr event)) \<Rightarrow> (case observe_item r event s of (s, out) \<Rightarrow> (s, Inr out))
      | Answered (Some (Inl error)) \<Rightarrow>
          (case handle_stream_error r error s of
             (s, Inl e) \<Rightarrow> (s, Inl e) | (s, Inr out) \<Rightarrow> (s, Inr (Some out))))"
    unfolding poll_current_def if_not_P [OF cur] answer_def ..
  show ?thesis
  proof (cases answer)
    case (Answered item)
    show ?thesis
    proof (cases item)
      case None
      then show ?thesis
        using run ok cur by (simp add: eq Answered pulled_post_def success_note_progress)
    next
      case item: (Some x)
      show ?thesis
      proof (cases x)
        case (Inr event)
        obtain t out where t: "observe_item r event s = (t, out)" by fastforce
        note ob = after_observing [OF observes_item [OF t] progress_refl ok]
        show ?thesis
          using ob ob(4) [OF run] cur observe_item_out [OF t]
          by (auto simp: eq Answered item Inr t pulled_post_def)
      next
        case (Inl error)
        obtain t res where t: "handle_stream_error r error s = (t, res)" by fastforce
        from cur obtain c where "se_current s = Some c" by blast
        from handle_stream_error_post [OF run ok this, of r error] show ?thesis
          unfolding eq Answered item Inl t
          by (auto simp: t failed_stream_post_def pulled_post_def uncommitted_def
              split: sum.splits pull_outcome.splits)
      qed
    qed
  qed (simp_all add: eq stop)
qed

lemma pull_step_post:
  assumes "pull_ready s"
  shows "pulled_post s (pull_step eg r s)"
proof (cases "se_current s = None")
  case False
  then show ?thesis
    using assms by (simp add: pull_step_def pull_ready_def poll_current_post)
next
  case True
  with assms have b: "between_attempts s" by (auto simp: pull_ready_def between_attempts_def)
  then have c: "se_downstream_committed_at s = None" by (simp add: between_attempts_def)
  obtain t res where t: "prepare_attempt eg r s = (t, res)" by fastforce
  have p: "prepared_post s (t, res)" using prepare_attempt_post [OF b, of eg r] by (simp add: t)
  then have pr: "progress s t" "attempts_ok t" by (simp_all add: prepared_post_def)
  then have ct: "se_downstream_committed_at t = None" using c by (simp add: progress_def)
  show ?thesis
  proof (cases res)
    case (Inl e)
    have "log_running t \<or> log_closed t" using p Inl by (simp add: prepared_post_def)
    then show ?thesis
    proof
      assume r: "log_running t"
      then have "pulled_post t (finish_interruption r e t, Inl e)"
        using pr ct by (simp add: pulled_post_def log_finish_interruption)
      from pulled_post_trans [OF pr(1) this] show ?thesis
        using r True by (simp add: pull_step_def t Inl)
    next
      assume "log_closed t"
      then show ?thesis using pr True by (simp add: pull_step_def t Inl pulled_post_def)
    qed
  next
    case (Inr out)
    show ?thesis
    proof (cases out)
      case None
      then have "log_running t" "se_current t \<noteq> None" using p Inr by (simp_all add: prepared_post_def)
      from pulled_post_trans [OF pr(1) poll_current_post [OF this(1) pr(2) this(2)]] show ?thesis
        using True by (simp add: pull_step_def t Inr None)
    next
      case (Some o')
      then show ?thesis
        using p True c Inr by (auto simp: pull_step_def t prepared_post_def pulled_post_def split: pull_outcome.splits)
    qed
  qed
qed

lemma pull_ready_next:
  "pulled_post s (t, Inr out) \<Longrightarrow> pull_ready s \<Longrightarrow> pull_ready t"
  by (auto simp: pulled_post_def pull_ready_def progress_def split: option.splits pull_outcome.splits)

section \<open>The calls of the API\<close>

declare next_loop.simps [simp del] collect_loop.simps [simp del]

lemma attempts_ok_updates [simp]:
  "attempts_ok (s\<lparr>se_pending_terminal_failure := tf\<rparr>) = attempts_ok s"
  "attempts_ok (s\<lparr>se_delivery_pending := b\<rparr>) = attempts_ok s"
  "attempts_ok (s\<lparr>se_downstream_committed_at := t\<rparr>) = attempts_ok s"
  "attempts_ok (s\<lparr>se_client_status_code := c\<rparr>) = attempts_ok s"
  "attempts_ok (s\<lparr>se_cancelled := x\<rparr>) = attempts_ok s"
proof -
  have "pins_ok (s\<lparr>se_pending_terminal_failure := tf\<rparr>) = pins_ok s"
    "pins_ok (s\<lparr>se_delivery_pending := b\<rparr>) = pins_ok s"
    "pins_ok (s\<lparr>se_downstream_committed_at := t\<rparr>) = pins_ok s"
    "pins_ok (s\<lparr>se_client_status_code := c\<rparr>) = pins_ok s"
    "pins_ok (s\<lparr>se_cancelled := x\<rparr>) = pins_ok s"
    by (rule pins_ok_cong; simp)+
  then show
    "attempts_ok (s\<lparr>se_pending_terminal_failure := tf\<rparr>) = attempts_ok s"
    "attempts_ok (s\<lparr>se_delivery_pending := b\<rparr>) = attempts_ok s"
    "attempts_ok (s\<lparr>se_downstream_committed_at := t\<rparr>) = attempts_ok s"
    "attempts_ok (s\<lparr>se_client_status_code := c\<rparr>) = attempts_ok s"
    "attempts_ok (s\<lparr>se_cancelled := x\<rparr>) = attempts_ok s"
    by (cases "se_current s"; simp add: attempts_ok_def del: upt_Suc)+
qed

text \<open>The rules every session keeps between two calls.\<close>

definition session_ok :: "session \<Rightarrow> bool" where
  "session_ok s =
     (attempts_ok s
      \<and> (if is_finalized s then log_closed s \<and> \<not> se_delivery_pending s
         else log_running s
           \<and> (se_delivery_pending s \<longrightarrow> se_downstream_committed_at s = None)
           \<and> (se_downstream_committed_at s \<noteq> None \<or> se_delivery_pending s \<longrightarrow>
                se_current s \<noteq> None \<or> se_pending_terminal_failure s \<noteq> None)
           \<and> (se_pending_terminal_failure s \<noteq> None \<longrightarrow>
                se_delivery_pending s \<or> se_downstream_committed_at s \<noteq> None)))"

text \<open>A session whose next event may be pulled.\<close>

definition collecting :: "session \<Rightarrow> bool" where
  "collecting s = (pull_ready s \<and> \<not> se_delivery_pending s \<and> se_pending_terminal_failure s = None)"

lemma collecting_ok: "collecting s \<Longrightarrow> session_ok s"
  by (auto simp: collecting_def session_ok_def pull_ready_def)

lemma session_ok_collecting:
  "session_ok s \<Longrightarrow> \<not> is_finalized s \<Longrightarrow> \<not> se_delivery_pending s \<Longrightarrow>
     se_pending_terminal_failure s = None \<Longrightarrow> collecting s"
  by (auto simp: collecting_def session_ok_def pull_ready_def)

lemma closed_ok: "log_closed s \<Longrightarrow> attempts_ok s \<Longrightarrow> \<not> se_delivery_pending s \<Longrightarrow> session_ok s"
  by (simp add: session_ok_def)

text \<open>What a whole \<open>pull\<close> achieves.\<close>

definition pull_post :: "session \<Rightarrow> session \<Rightarrow> (engine_error + pull_outcome) option \<Rightarrow> bool" where
  "pull_post s t res =
     (progress s t
      \<and> (case res of
           Some (Inl _) \<Rightarrow> log_closed t \<and> attempts_ok t
         | None \<Rightarrow> collecting t
         | Some (Inr out) \<Rightarrow> collecting t \<and> pulled_post s (t, Inr (Some out))))"

lemma pull_step_collecting:
  "collecting s \<Longrightarrow> pull_step eg r s = (t, Inr out) \<Longrightarrow> collecting t"
  using pull_step_post [of s eg r] pull_ready_next [of s t out]
  by (auto simp: collecting_def pulled_post_def progress_def)

lemma pull_post_pull:
  "collecting s \<Longrightarrow> pull eg rs s = (t, rs', res) \<Longrightarrow> pull_post s t res"
proof (induction rs arbitrary: s)
  case Nil
  then show ?case by (simp add: pull_post_def)
next
  case (Cons r rs)
  obtain u step where u: "pull_step eg r s = (u, step)" by fastforce
  have ready: "pull_ready s" using Cons.prems(1) by (simp add: collecting_def)
  have p: "pulled_post s (u, step)" using pull_step_post [OF ready, of eg r] by (simp add: u)
  have pr: "progress s u" using p by (simp add: pulled_post_def)
  show ?case
  proof (cases step)
    case (Inl e)
    then show ?thesis using Cons.prems(2) u p by (auto simp: pull_post_def pulled_post_def)
  next
    case (Inr out)
    note cu = pull_step_collecting [OF Cons.prems(1) u [unfolded Inr]]
    show ?thesis
    proof (cases out)
      case None
      then have "pull_post u t res" using Cons.IH [OF cu] Cons.prems(2) u Inr by simp
      then show ?thesis
        using progress_trans [OF pr, of t] pulled_post_trans [OF pr, of "(t, x)" for x]
        by (auto simp: pull_post_def split: option.splits sum.splits)
    next
      case (Some o')
      then show ?thesis using Cons.prems(2) u Inr p pr cu by (auto simp: pull_post_def)
    qed
  qed
qed

lemma collecting_resume [simp]: "session_ok s \<Longrightarrow> resume_finalization r s = s"
  by (auto simp: session_ok_def resume_finalization_def is_finalized_def log_running_def log_closed_def
      split: if_splits option.split request_finalization.split)

text \<open>The effect of a call on what the client and the store may see.\<close>

definition call_post :: "session \<Rightarrow> session \<Rightarrow> bool" where
  "call_post s t =
     (session_ok t \<and> se_frame t = se_frame s \<and> grows s t
      \<and> prefix (se_provider_attempt_outcomes s) (se_provider_attempt_outcomes t)
      \<and> se_attempts s \<le> se_attempts t \<and> se_candidate_index s \<le> se_candidate_index t
      \<and> set (se_excluded_accounts s) \<subseteq> set (se_excluded_accounts t)
      \<and> (is_finalized s \<longrightarrow> is_finalized t)
      \<and> (se_downstream_committed_at s \<noteq> None \<longrightarrow>
           se_downstream_committed_at t = se_downstream_committed_at s
           \<and> se_attempts t = se_attempts s \<and> se_excluded_accounts t = se_excluded_accounts s
           \<and> map_option cur_metadata (se_current t) = map_option cur_metadata (se_current s)))"

lemma call_post_progress:
  "progress s t \<Longrightarrow> session_ok t \<Longrightarrow> (is_finalized s \<Longrightarrow> is_finalized t) \<Longrightarrow> call_post s t"
  by (auto simp: call_post_def progress_def)

lemma call_post_refl: "session_ok s \<Longrightarrow> call_post s s"
  by (simp add: call_post_def)

text \<open>Closing a session whose request runs, and touching one that is closed.\<close>

lemma finish_terminal_ok:
  assumes "session_ok s" and "\<not> se_delivery_pending s"
  shows "call_post s (finish_provider_error_with_send_state r error st (s\<lparr>se_pending_terminal_failure := None\<rparr>))"
proof -
  define s1 where "s1 = s\<lparr>se_pending_terminal_failure := None\<rparr>"
  define t where "t = finish_provider_error_with_send_state r error st s1"
  have a1: "attempts_ok s1"
    using assms(1) by (simp add: s1_def session_ok_def)
  have t: "attempts_ok t" "vitals t = vitals s1" "grows s1 t"
    using a1 by (simp_all add: t_def)
  have closed: "log_closed t"
  proof (cases "is_finalized s")
    case True
    then have "log_closed s1" using assms(1) by (simp add: session_ok_def s1_def log_closed_def log_ok_def)
    moreover have "is_finalized (raise_send_watermark st s1)"
      using True by (simp add: s1_def is_finalized_def raise_send_watermark_def)
    ultimately show ?thesis
      by (simp add: t_def finish_provider_error_with_send_state_def Let_def finish_failure_def)
         (simp add: log_closed_def log_ok_def raise_send_watermark_def)
  next
    case False
    then have "log_running s1" using assms(1) by (simp add: session_ok_def s1_def)
    then show ?thesis by (simp add: t_def log_finish)
  qed
  have "session_ok t"
    using closed t(1) vitals_fields(11) [OF t(2)] assms(2) by (simp add: closed_ok s1_def)
  moreover note closed t(3) t(2)
  ultimately show ?thesis
    unfolding s1_def [symmetric] t_def [symmetric]
    by (auto simp: call_post_def vitals_def s1_def grows_def)
qed

lemma deliver_ok:
  assumes "collecting s" and "se_current s \<noteq> None"
  shows "call_post s (fst (deliver event s))"
proof -
  have s: "log_running s" "attempts_ok s" "\<not> se_delivery_pending s" "se_pending_terminal_failure s = None"
    using assms(1) by (simp_all add: collecting_def pull_ready_def)
  show ?thesis
  proof (cases "se_downstream_committed_at s = None")
    case True
    have "session_ok (s\<lparr>se_delivery_pending := True\<rparr>)"
      using s assms(2) True by (auto simp: session_ok_def)
    then show ?thesis
      using True s by (auto simp: deliver_def call_post_def)
  next
    case False
    then show ?thesis
      using call_post_refl [OF collecting_ok [OF assms(1)]] by (simp add: deliver_def)
  qed
qed

lemma deliver_failure_ok:
  assumes "collecting s"
  shows "call_post s (fst (deliver_failure events error st s))"
proof -
  have s: "log_running s" "attempts_ok s" "\<not> se_delivery_pending s" "\<not> is_finalized s"
    using assms by (simp_all add: collecting_def pull_ready_def)
  define t where "t = s\<lparr>se_delivery_pending := (se_downstream_committed_at s = None),
      se_pending_terminal_failure := Some \<lparr>tf_error = error, tf_send_state = st\<rparr>\<rparr>"
  have "fst (deliver_failure events error st s) = t"
    using s(3) by (auto simp: deliver_failure_def Let_def t_def)
  moreover have "session_ok t"
    using s by (auto simp: session_ok_def t_def is_finalized_def)
  ultimately show ?thesis using s(4) by (simp add: call_post_def t_def)
qed

lemma finish_success_ok:
  assumes "collecting s" and "se_downstream_committed_at s \<noteq> None"
  shows "call_post s (finish_success r s)"
proof (rule call_post_progress)
  show "session_ok (finish_success r s)"
    using assms vitals_fields(11) [OF vitals_finish(3), of r s]
    by (simp add: closed_ok log_finish_success collecting_def pull_ready_def)
  show "is_finalized (finish_success r s)" if "is_finalized s"
    using assms that by (simp add: collecting_def pull_ready_def)
qed simp

lemma call_post_trans:
  assumes "call_post s t" and "call_post t u"
  shows "call_post s u"
proof -
  have "grows s u" using assms by (auto simp: call_post_def intro: grows_trans)
  moreover have "prefix (se_provider_attempt_outcomes s) (se_provider_attempt_outcomes u)"
    using assms by (auto simp: call_post_def intro: prefix_order.trans)
  ultimately show ?thesis using assms unfolding call_post_def by auto
qed

lemma pull_post_call: "collecting s \<Longrightarrow> pull_post s t res \<Longrightarrow> call_post s t"
  by (rule call_post_progress)
     (auto simp: pull_post_def collecting_ok collecting_def pull_ready_def progress_def closed_ok
       split: option.splits sum.splits)

lemma next_loop_ok:
  "collecting s \<Longrightarrow> call_post s (fst (next_loop eg r rs s))"
proof (induction "length rs" arbitrary: rs s rule: less_induct)
  case less
  obtain t rs' res where p: "pull eg rs s = (t, rs', res)" by (metis prod_cases3)
  note pp = pull_post_pull [OF less.prems p]
  note ct = pull_post_call [OF less.prems pp]
  show ?case
  proof (cases res)
    case None
    then show ?thesis using ct p by (simp add: next_loop.simps [of eg r rs s])
  next
    case (Some x)
    note len = pull_consumes [OF p [unfolded Some]]
    show ?thesis
    proof (cases x)
      case (Inl e)
      then show ?thesis using ct p Some by (simp add: next_loop.simps [of eg r rs s])
    next
      case (Inr out)
      then have c: "collecting t" "pulled_post s (t, Inr (Some out))" using pp Some by (simp_all add: pull_post_def)
      have "call_post t (fst (next_loop eg r rs s))"
      proof (cases out)
        case (PoEvent event)
        then show ?thesis using p Some Inr c deliver_ok [OF c(1)]
          by (simp add: next_loop.simps [of eg r rs s] pulled_post_def)
      next
        case PoAttemptDiscarded
        then show ?thesis using p Some Inr less.hyps [OF len c(1)]
          by (simp add: next_loop.simps [of eg r rs s])
      next
        case (PoTerminalFailure events error st)
        then show ?thesis using p Some Inr deliver_failure_ok [OF c(1)]
          by (simp add: next_loop.simps [of eg r rs s])
      next
        case PoEnd
        then show ?thesis using p Some Inr call_post_refl [OF collecting_ok [OF c(1)]]
          by (simp add: next_loop.simps [of eg r rs s] finish_success_ok [OF c(1)])
      qed
      then show ?thesis by (rule call_post_trans [OF ct])
    qed
  qed
qed

lemma next_event_ok:
  assumes "session_ok s"
  shows "call_post s (fst (next_event eg r rs s))"
proof -
  have "call_post s s" by (rule call_post_refl [OF assms])
  moreover have "call_post s (fst (next_loop eg r rs s))"
    if "\<not> se_delivery_pending s" "se_pending_terminal_failure s = None" "\<not> is_finalized s"
    using next_loop_ok [OF session_ok_collecting [OF assms that(3) that(1) that(2)]] .
  ultimately show ?thesis
    using finish_terminal_ok [OF assms]
    by (auto simp: next_event_def Let_def assms split: option.split)
qed

lemma collect_loop_ok:
  "collecting s \<Longrightarrow> se_downstream_committed_at s = None \<Longrightarrow> call_post s (fst (collect_loop eg r rs events s))"
proof (induction "length rs" arbitrary: rs s events rule: less_induct)
  case less
  obtain t rs' res where p: "pull eg rs s = (t, rs', res)" by (metis prod_cases3)
  note pp = pull_post_pull [OF less.prems(1) p]
  note ct = pull_post_call [OF less.prems(1) pp]
  show ?case
  proof (cases res)
    case None
    then show ?thesis using ct p by (simp add: collect_loop.simps [of eg r rs])
  next
    case (Some x)
    note len = pull_consumes [OF p [unfolded Some]]
    show ?thesis
    proof (cases x)
      case (Inl e)
      then show ?thesis using ct p Some by (simp add: collect_loop.simps [of eg r rs])
    next
      case (Inr out)
      then have c: "collecting t" "pulled_post s (t, Inr (Some out))" using pp Some by (simp_all add: pull_post_def)
      have ut: "se_downstream_committed_at t = None"
        using c(2) less.prems(2) by (simp add: pulled_post_def progress_def)
      have "call_post t (fst (collect_loop eg r rs events s))"
      proof (cases out)
        case (PoEvent event)
        then show ?thesis using p Some Inr less.hyps [OF len c(1) ut]
          by (simp add: collect_loop.simps [of eg r rs])
      next
        case PoAttemptDiscarded
        then show ?thesis using p Some Inr less.hyps [OF len c(1) ut]
          by (simp add: collect_loop.simps [of eg r rs])
      next
        case (PoTerminalFailure events error st)
        have "t\<lparr>se_pending_terminal_failure := None\<rparr> = t" using c(1) by (simp add: collecting_def)
        then show ?thesis using p Some Inr PoTerminalFailure c(1) finish_terminal_ok [OF collecting_ok [OF c(1)], of r error st]
          by (simp add: collect_loop.simps [of eg r rs] collecting_def)
      next
        case PoEnd
        have "session_ok (t\<lparr>se_delivery_pending := True\<rparr>)"
          using c ut PoEnd by (auto simp: session_ok_def collecting_def pull_ready_def pulled_post_def)
        then have "call_post t (t\<lparr>se_delivery_pending := True\<rparr>)"
          using ut by (auto simp: call_post_def is_finalized_def)
        then show ?thesis using p Some Inr PoEnd call_post_refl [OF collecting_ok [OF c(1)]]
          by (simp add: collect_loop.simps [of eg r rs])
      qed
      then show ?thesis by (rule call_post_trans [OF ct])
    qed
  qed
qed

lemma collect_uncommitted_ok:
  assumes "session_ok s"
  shows "call_post s (fst (collect_uncommitted eg r rs s))"
proof -
  have "call_post s s" by (rule call_post_refl [OF assms])
  moreover have "call_post s (fst (collect_loop eg r rs [] s))"
    if "se_downstream_committed_at s = None" "\<not> se_delivery_pending s" "\<not> is_finalized s"
  proof (rule collect_loop_ok [OF session_ok_collecting [OF assms that(3) that(2)] that(1)])
    show "se_pending_terminal_failure s = None"
      using assms that by (auto simp: session_ok_def)
  qed
  ultimately show ?thesis
    by (auto simp: collect_uncommitted_def Let_def assms)
qed

lemma commit_downstream_ok:
  assumes "session_ok s"
  shows "call_post s (fst (commit_downstream r status s))"
proof (cases "\<not> se_delivery_pending s \<or> se_downstream_committed_at s \<noteq> None \<or> is_finalized s")
  case True
  then show ?thesis using call_post_refl [OF assms] by (simp add: commit_downstream_def)
next
  case False
  then have s: "se_delivery_pending s" "se_downstream_committed_at s = None" "\<not> is_finalized s" "log_running s"
    "attempts_ok s" "se_current s \<noteq> None \<or> se_pending_terminal_failure s \<noteq> None"
    using assms by (auto simp: session_ok_def)
  define s1 where "s1 = (if se_request_persisted s
      then store_write r (WMarkDownstreamCommitted (en_wall r 1) status) s else s)"
  define s2 where "s2 = s1\<lparr>se_downstream_committed_at := Some (en_wall r 1), se_client_status_code := status,
                  se_delivery_pending := False\<rparr>"
  have eq: "fst (commit_downstream r status s) = (if se_upstream_complete s2 then finish_success r s2 else s2)"
    unfolding commit_downstream_def if_not_P [OF False] Let_def s1_def [symmetric]
    by (simp add: s2_def)
  have v1: "vitals s1 = vitals s" and g1: "grows s s1" and r1: "log_running s1"
    using s(4) by (simp_all add: s1_def log_running_write)
  have run: "log_running s2" using r1 by (auto simp: s2_def log_running_def log_ok_def)
  have fields: "se_current s2 = se_current s" "se_pending_terminal_failure s2 = se_pending_terminal_failure s"
    by (simp_all add: s2_def s1_def store_write_def)
  have ok2: "session_ok s2"
    using run s(5,6) fields attempts_ok_vitals [OF v1]
    by (auto simp: session_ok_def s2_def)
  have "call_post s s2"
    using ok2 s g1 vitals_fields [OF v1] v1
    by (auto simp: call_post_def s2_def grows_def)
  moreover have "call_post s2 (finish_success r s2)"
  proof (rule call_post_progress)
    have "log_closed (finish_success r s2)" by (rule log_finish_success [OF run]) (simp add: s2_def)
    then show "session_ok (finish_success r s2)"
      using ok2 vitals_fields(11) [OF vitals_finish(3), of r s2]
      by (simp add: closed_ok session_ok_def s2_def)
    show "is_finalized (finish_success r s2)" if "is_finalized s2"
      using that run by simp
  qed simp
  ultimately show ?thesis by (auto simp: eq intro: call_post_trans)
qed

lemma log_closed_write:
  assumes "log_closed s" and "se_request_persisted s"
    and "reported_state w = []" "final_write w = []" "\<not> creates w"
  shows "log_closed (store_write r w s)"
  using assms by (auto simp: log_closed_def log_ok_def store_write_def)

lemma record_client_status_ok:
  assumes "session_ok s"
  shows "call_post s (fst (record_client_status r status s))"
proof -
  define s1 where "s1 = (if se_request_persisted s then store_write r (WClientStatus status) s else s)"
  have v: "vitals s1 = vitals s" and g: "grows s s1" by (simp_all add: s1_def)
  have f: "is_finalized s1 = is_finalized s" by (simp add: s1_def is_finalized_def)
  have "log_closed s1" if "log_closed s" using that by (simp add: s1_def log_closed_write)
  moreover have "log_running s1" if "log_running s" using that by (simp add: s1_def log_running_write)
  ultimately have "session_ok (s1\<lparr>se_client_status_code := Some status\<rparr>)"
    using assms vitals_fields [OF v] attempts_ok_vitals [OF v] f
    by (auto simp: session_ok_def is_finalized_def log_closed_def log_running_def log_ok_def)
  then have "call_post s (s1\<lparr>se_client_status_code := Some status\<rparr>)"
    using g f vitals_fields [OF v] v
    by (auto simp: call_post_def grows_def is_finalized_def vitals_def)
  then show ?thesis
    using call_post_refl [OF assms] by (simp add: record_client_status_def s1_def)
qed

lemma cancel_ok: "session_ok s \<Longrightarrow> call_post s (cancel s)"
  by (auto simp: call_post_def cancel_def session_ok_def is_finalized_def log_closed_def log_ok_def grows_def)

lemma finish_interruption_ok:
  assumes "log_running s" "attempts_ok s" "\<not> se_delivery_pending s"
  shows "call_post s (finish_interruption r EngCancelled s)"
proof (rule call_post_progress)
  show "session_ok (finish_interruption r EngCancelled s)"
    using assms vitals_fields(11) [OF vitals_finish(7), of r EngCancelled s]
    by (simp add: closed_ok log_finish_interruption)
  show "is_finalized (finish_interruption r EngCancelled s)" if "is_finalized s"
    using that assms(1) by simp
qed simp

lemma cancel_and_finalize_ok:
  assumes "session_ok s"
  shows "call_post s (cancel_and_finalize r s) \<and> is_finalized (cancel_and_finalize r s)"
proof -
  define s1 where "s1 = cancel s"
  have c1: "call_post s s1" by (simp add: s1_def cancel_ok [OF assms])
  then have ok1: "session_ok s1" by (simp add: call_post_def)
  have res: "resume_finalization r s1 = s1" by (rule collecting_resume [OF ok1])
  show ?thesis
  proof (cases "is_finalized s1")
    case True
    then show ?thesis using c1 by (simp add: cancel_and_finalize_def s1_def [symmetric] res Let_def)
  next
    case False
    define s2 where "s2 = s1\<lparr>se_delivery_pending := False\<rparr>"
    have s2: "log_running s2" "attempts_ok s2" "\<not> se_delivery_pending s2"
      using ok1 False by (simp_all add: s2_def session_ok_def)
    have step: "call_post s2 t \<Longrightarrow> call_post s1 t" for t
      by (simp add: call_post_def s2_def grows_def is_finalized_def)
    show ?thesis
    proof (cases "se_pending_terminal_failure s2")
      case None
      then have eq: "cancel_and_finalize r s = finish_interruption r EngCancelled s2"
        using False by (simp add: cancel_and_finalize_def s1_def [symmetric] res Let_def s2_def)
      show ?thesis
        using call_post_trans [OF c1 step [OF finish_interruption_ok [OF s2]]] s2
        by (simp add: eq log_finish_interruption)
    next
      case (Some pending)
      define s3 where "s3 = s2\<lparr>se_pending_terminal_failure := None\<rparr>"
      define t where "t = finish_provider_error_with_send_state r (tf_error pending) (tf_send_state pending) s3"
      have eq: "cancel_and_finalize r s = t"
        using False Some by (simp add: cancel_and_finalize_def s1_def [symmetric] res Let_def s2_def s3_def t_def)
      have s3: "log_running s3" "attempts_ok s3" using s2 by (simp_all add: s3_def)
      have closed: "log_closed t" using s3 by (simp add: t_def log_finish)
      have "progress s3 t" by (simp add: t_def)
      moreover have "session_ok t"
        using closed s3 s2(3) vitals_fields(11) [OF vitals_finish(5), of r "tf_error pending" "tf_send_state pending" s3]
        by (simp add: closed_ok t_def s3_def)
      ultimately have "call_post s3 t" using closed by (simp add: call_post_progress)
      then have "call_post s2 t"
        by (simp add: call_post_def s3_def grows_def is_finalized_def)
      then show ?thesis using call_post_trans [OF c1 step] closed by (simp add: eq)
    qed
  qed
qed

section \<open>Every session the engine starts\<close>

datatype api_call =
    CallNext env "round list"
  | CallCollect env "round list"
  | CallCommit env "nat option"
  | CallStatus env nat
  | CallCancel
  | CallCancelAndFinalize env

fun api_step :: "engine \<Rightarrow> api_call \<Rightarrow> session \<Rightarrow> session" where
  "api_step eg (CallNext r rs) s = fst (next_event eg r rs s)"
| "api_step eg (CallCollect r rs) s = fst (collect_uncommitted eg r rs s)"
| "api_step eg (CallCommit r status) s = fst (commit_downstream r status s)"
| "api_step eg (CallStatus r status) s = fst (record_client_status r status s)"
| "api_step eg CallCancel s = cancel s"
| "api_step eg (CallCancelAndFinalize r) s = cancel_and_finalize r s"

inductive session_reachable :: "engine \<Rightarrow> session \<Rightarrow> bool" for eg where
  start: "start_with_account_selection (r :: env) cancelled request op plan selection continuation = Started s \<Longrightarrow>
    session_reachable eg (with_concurrency_wait_budget b s)"
| step: "session_reachable eg s \<Longrightarrow> session_reachable eg (api_step eg call s)"

lemma api_step_ok: "session_ok s \<Longrightarrow> call_post s (api_step eg call s)"
  by (cases call) (simp_all add: next_event_ok collect_uncommitted_ok commit_downstream_ok
      record_client_status_ok cancel_ok cancel_and_finalize_ok)

lemma new_session_ok:
  "session_ok (with_concurrency_wait_budget b (new_session request op plan selection continuation cancelled t i))"
  by (simp add: with_concurrency_wait_budget_def new_session_def session_ok_def is_finalized_def
      log_running_def log_ok_def attempts_ok_def pins_ok_def split: option.split)

lemma session_reachable_ok: "session_reachable eg s \<Longrightarrow> session_ok s"
proof (induction rule: session_reachable.induct)
  case (start r cancelled request op plan selection continuation s b)
  then obtain i where "s = new_session request op plan selection continuation cancelled (en_mono r 1) i"
    by (auto simp: start_with_account_selection_def Let_def split: option.splits if_splits)
  then show ?case by (simp add: new_session_ok)
next
  case (step s call)
  from api_step_ok [OF step.IH, of eg call] show ?case by (simp add: call_post_def)
qed
end
