(* ===== verification/CoordinatorLaws.thy ===== *)
theory CoordinatorLaws
  imports CoordinatorProps
begin

text \<open>
  What the coordinator of \<open>engine/coordinator.rs\<close> promises its caller and its store: the order of the
  store writes, the numbering and authorisation of the attempts, the barrier between collecting and
  delivering as an abstract protocol that the calls refine, the exact condition of a replay and the
  charge across replays. A sample request closes the theory.
\<close>

section \<open>What the store is told\<close>


text \<open>
  C23. The attempts of every session, as the store sees them: they are numbered from 1 without gaps,
  each uses a planned provider with an account of the frozen scope (and the required or diagnosed
  account when the request names one), and the attempts that count towards routing stay within the
  plan's budget.
\<close>

theorem session_attempts:
  assumes "session_reachable eg s"
  shows "map ar_attempt_count (logged_attempts (se_log s)) = [1..<Suc (se_attempts s)]
     \<and> list_all (record_authorised (se_frame s)) (logged_attempts (se_log s))
     \<and> se_routing_attempts s \<le> se_attempts s \<and> se_routing_attempts s \<le> rp_max_attempts (se_plan s)"
  using session_reachable_ok [OF assms] by (simp add: session_ok_def attempts_ok_def del: upt_Suc)

section \<open>The barrier between collecting and delivering\<close>


text \<open>
  The account of provider calls is append-only and the send watermark never falls, across every
  call of the API.
\<close>

lemma session_history:
  assumes "session_reachable eg s"
  shows "prefix (se_provider_attempt_outcomes s) (se_provider_attempt_outcomes (api_step eg call s))
     \<and> prefix (se_log s) (se_log (api_step eg call s))
     \<and> send_rank (se_send_state_watermark s) \<le> send_rank (se_send_state_watermark (api_step eg call s))
     \<and> (is_finalized s \<longrightarrow> is_finalized (api_step eg call s))"
  using api_step_ok [OF session_reachable_ok [OF assms], of eg call]
  by (simp add: call_post_def grows_def)

text \<open>What \<open>next_event\<close> may answer, and the session it leaves.\<close>

fun next_answer_ok :: "session \<Rightarrow> session \<times> next_result \<Rightarrow> bool" where
  "next_answer_ok s (t, None) = (\<not> is_finalized t \<and> \<not> se_delivery_pending t)"
| "next_answer_ok s (t, Some (Inr None)) =
     (is_finalized t \<or> se_downstream_committed_at t = None \<and> \<not> se_delivery_pending t)"
| "next_answer_ok s (t, Some (Inr (Some c))) =
     (coe_events c \<noteq> [] \<and> \<not> is_finalized t
      \<and> (case coe_commit_requirement c of
           CommitBeforeDelivery \<Rightarrow> se_downstream_committed_at s = None \<and> se_delivery_pending t
         | AlreadyCommitted \<Rightarrow> se_downstream_committed_at s \<noteq> None \<and> \<not> se_delivery_pending t))"
| "next_answer_ok s (t, Some (Inl e)) =
     (if e = EngDownstreamCommitRequired \<and> se_delivery_pending s then t = s else is_finalized t)"

lemma answer_collecting:
  assumes "collecting s" "collecting t" "se_downstream_committed_at t = se_downstream_committed_at s"
  shows "next_answer_ok s (deliver event t)"
    and "events \<noteq> [] \<Longrightarrow> next_answer_ok s (deliver_failure events error st t)"
proof -
  have t: "\<not> is_finalized t" "\<not> se_delivery_pending t"
    using assms(2) by (simp_all add: collecting_def pull_ready_def)
  show "next_answer_ok s (deliver event t)"
    using t assms(3) by (auto simp: deliver_def coordinated_single_def is_finalized_def)
  show "next_answer_ok s (deliver_failure events error st t)" if "events \<noteq> []"
    using t assms(3) that
    by (auto simp: deliver_failure_def coordinated_try_batch_def Let_def is_finalized_def)
qed

lemma next_loop_answer:
  "collecting s \<Longrightarrow> next_answer_ok s (next_loop eg r rs s)
     \<and> se_downstream_committed_at (fst (next_loop eg r rs s)) = se_downstream_committed_at s"
proof (induction "length rs" arbitrary: rs s rule: less_induct)
  case less
  obtain t rs' res where p: "pull eg rs s = (t, rs', res)" by (metis prod_cases3)
  note pp = pull_post_pull [OF less.prems p]
  have keep: "se_downstream_committed_at t = se_downstream_committed_at s"
    using pp by (simp add: pull_post_def progress_def)
  show ?case
  proof (cases res)
    case None
    then have "collecting t" using pp by (simp add: pull_post_def)
    then have "\<not> is_finalized t" "\<not> se_delivery_pending t" by (simp_all add: collecting_def pull_ready_def)
    then show ?thesis using p None keep by (simp add: next_loop.simps [of eg r rs s])
  next
    case (Some x)
    note len = pull_consumes [OF p [unfolded Some]]
    show ?thesis
    proof (cases x)
      case (Inl e)
      then have "is_finalized t" using pp Some by (simp add: pull_post_def)
      moreover have "\<not> se_delivery_pending s" using less.prems by (simp add: collecting_def)
      ultimately show ?thesis using p Some Inl keep by (simp add: next_loop.simps [of eg r rs s])
    next
      case (Inr out)
      then have c: "collecting t" "pulled_post s (t, Inr (Some out))" using pp Some by (simp_all add: pull_post_def)
      note ans = answer_collecting [OF less.prems c(1) keep]
      show ?thesis
      proof (cases out)
        case (PoEvent event)
        then show ?thesis using p Some Inr ans(1) keep
          by (simp add: next_loop.simps [of eg r rs s]) (simp add: deliver_def)
      next
        case PoAttemptDiscarded
        have "next_answer_ok s y" if "next_answer_ok t y" for y
          using that keep less.prems c(1)
          by (cases "(s, y)" rule: next_answer_ok.cases) (auto simp: collecting_def split: if_splits commit_requirement.splits)
        then show ?thesis using p Some Inr PoAttemptDiscarded less.hyps [OF len c(1)] keep
          by (simp add: next_loop.simps [of eg r rs s])
      next
        case (PoTerminalFailure events error st)
        have "events \<noteq> []" using c(2) PoTerminalFailure by (simp add: pulled_post_def)
        then show ?thesis using p Some Inr ans(2) PoTerminalFailure keep
          by (simp add: next_loop.simps [of eg r rs s]) (simp add: deliver_failure_def Let_def)
      next
        case PoEnd
        have "log_closed (finish_success r t)" if "se_downstream_committed_at t \<noteq> None"
          using c(1) that by (simp add: collecting_def pull_ready_def log_finish_success)
        moreover have "se_downstream_committed_at (finish_success r t) = se_downstream_committed_at t"
          by (rule vitals_fields(10) [OF vitals_finish(3)])
        ultimately show ?thesis using p Some Inr PoEnd keep c(1)
          by (auto simp: next_loop.simps [of eg r rs s] collecting_def)
      qed
    qed
  qed
qed

lemma finish_terminal_closed:
  assumes "session_ok s" "\<not> se_delivery_pending s"
  shows "is_finalized (finish_provider_error_with_send_state r error st (s\<lparr>se_pending_terminal_failure := None\<rparr>))"
proof (cases "is_finalized s")
  case True
  then show ?thesis using finish_terminal_ok [OF assms, of r error st] by (simp add: call_post_def)
next
  case False
  then have "log_running (s\<lparr>se_pending_terminal_failure := None\<rparr>)" using assms by (simp add: session_ok_def)
  then show ?thesis by (simp add: log_finish)
qed


section \<open>The delivery protocol, abstractly\<close>

text \<open>
  What the API adapter relies on: a request collects, waits for the commit of what it handed out,
  delivers, and is closed; only these moves exist.
\<close>

datatype phase = Collecting | AwaitingCommit | Delivering | Closed

definition phase_of :: "session \<Rightarrow> phase" where
  "phase_of s =
     (if is_finalized s then Closed
      else if se_delivery_pending s then AwaitingCommit
      else if se_downstream_committed_at s \<noteq> None then Delivering
      else Collecting)"

fun may_stay :: "api_call \<Rightarrow> phase \<Rightarrow> bool" where
  "may_stay (CallCancelAndFinalize _) p = False"
| "may_stay (CallCommit _ _) p = (p \<noteq> AwaitingCommit)"
| "may_stay _ p = True"

inductive phase_step :: "api_call \<Rightarrow> phase \<Rightarrow> phase \<Rightarrow> bool" where
  stay: "may_stay call p \<Longrightarrow> phase_step call p p"
| hand_out: "phase_step (CallNext r rs) Collecting AwaitingCommit"
| hand_out_all: "phase_step (CallCollect r rs) Collecting AwaitingCommit"
| fail: "phase_step (CallNext r rs) Collecting Closed"
| fail_all: "phase_step (CallCollect r rs) Collecting Closed"
| commit: "phase_step (CallCommit r status) AwaitingCommit Delivering"
| commit_complete: "phase_step (CallCommit r status) AwaitingCommit Closed"
| deliver_last: "phase_step (CallNext r rs) Delivering Closed"
| abandon: "phase_step (CallCancelAndFinalize r) p Closed"

lemma phase_stay [simp]:
  "phase_step (CallNext r rs) p p" "phase_step (CallCollect r rs) p p"
  by (rule phase_step.stay; simp)+

lemma next_event_keeps_commit:
  assumes "session_ok s"
  shows "se_downstream_committed_at (fst (next_event eg r rs s)) = se_downstream_committed_at s"
proof -
  have "se_downstream_committed_at (fst (next_loop eg r rs s)) = se_downstream_committed_at s"
    if "\<not> se_delivery_pending s" "se_pending_terminal_failure s = None" "\<not> is_finalized s"
    by (rule conjunct2 [OF next_loop_answer [OF session_ok_collecting [OF assms that(3) that(1) that(2)]]])
  then show ?thesis
    by (auto simp: next_event_def Let_def assms vitals_fields(10) [OF vitals_finish(5)] split: option.split)
qed

lemma collect_loop_keeps:
  "collecting s \<Longrightarrow> se_downstream_committed_at (fst (collect_loop eg r rs events s)) = se_downstream_committed_at s"
proof (induction "length rs" arbitrary: rs s events rule: less_induct)
  case less
  obtain t rs' res where p: "pull eg rs s = (t, rs', res)" by (metis prod_cases3)
  note pp = pull_post_pull [OF less.prems p]
  have keep: "se_downstream_committed_at t = se_downstream_committed_at s"
    using pp by (simp add: pull_post_def progress_def)
  have "se_downstream_committed_at (fst (collect_loop eg r rs' es t)) = se_downstream_committed_at t"
    if "res = Some x" "collecting t" for es x
    using less.hyps [OF pull_consumes [OF p [unfolded that(1)]] that(2)] .
  then show ?case
    using p pp keep
    by (auto simp: collect_loop.simps [of eg r rs] pull_post_def vitals_fields(10) [OF vitals_finish(5)] split: option.split sum.split pull_outcome.split)
qed

lemma collect_keeps_commit:
  assumes "session_ok s"
  shows "se_downstream_committed_at (fst (collect_uncommitted eg r rs s)) = se_downstream_committed_at s"
proof -
  have "se_downstream_committed_at (fst (collect_loop eg r rs [] s)) = se_downstream_committed_at s"
    if "se_downstream_committed_at s = None" "\<not> se_delivery_pending s" "\<not> is_finalized s"
  proof (rule collect_loop_keeps [OF session_ok_collecting [OF assms that(3) that(2)]])
    show "se_pending_terminal_failure s = None" using assms that by (auto simp: session_ok_def)
  qed
  then show ?thesis by (auto simp: collect_uncommitted_def Let_def assms)
qed

lemma session_ok_pending: "session_ok t \<Longrightarrow> se_delivery_pending t \<Longrightarrow> se_downstream_committed_at t = None"
  by (cases "is_finalized t") (simp_all add: session_ok_def)

lemma phase_of_cong:
  "is_finalized t = is_finalized s \<Longrightarrow> se_delivery_pending t = se_delivery_pending s \<Longrightarrow>
     se_downstream_committed_at t = se_downstream_committed_at s \<Longrightarrow> phase_of t = phase_of s"
  by (simp add: phase_of_def)

lemma phase_status: "phase_of (fst (record_client_status r status s)) = phase_of s"
  by (rule phase_of_cong)
     (auto simp: record_client_status_def Let_def is_finalized_def store_write_def)

lemma phase_cancel: "phase_of (cancel s) = phase_of s"
  by (rule phase_of_cong) (auto simp: cancel_def is_finalized_def)

text \<open>Where a collecting call can lead when it keeps the commit.\<close>

lemma phase_collecting:
  assumes ok: "session_ok t" and fin: "is_finalized s \<Longrightarrow> is_finalized t"
    and com: "se_downstream_committed_at t = se_downstream_committed_at s"
    and same: "phase_of s = AwaitingCommit \<Longrightarrow> t = s"
  shows "phase_of t = phase_of s
     \<or> phase_of s = Collecting \<and> phase_of t \<in> {AwaitingCommit, Closed}
     \<or> phase_of s = Delivering \<and> phase_of t = Closed"
proof (cases "phase_of s = AwaitingCommit")
  case True
  then show ?thesis using same by simp
next
  case False
  with session_ok_pending [OF ok] fin com show ?thesis
    by (cases "is_finalized t"; cases "se_delivery_pending t")
       (auto simp: phase_of_def split: if_split_asm)
qed

lemma phase_commit:
  assumes ok: "session_ok s" and ok': "session_ok (fst (commit_downstream r status s))"
  shows "phase_step (CallCommit r status) (phase_of s) (phase_of (fst (commit_downstream r status s)))"
proof (cases "\<not> se_delivery_pending s \<or> se_downstream_committed_at s \<noteq> None \<or> is_finalized s")
  case True
  then have "phase_of s \<noteq> AwaitingCommit" using session_ok_pending [OF ok] by (auto simp: phase_of_def)
  with True show ?thesis by (simp add: commit_downstream_def phase_step.stay)
next
  case False
  define t where "t = fst (commit_downstream r status s)"
  have "se_downstream_committed_at t \<noteq> None"
    unfolding t_def commit_downstream_def if_not_P [OF False]
    by (simp add: Let_def vitals_fields(10) [OF vitals_finish(3)])
  moreover have "se_delivery_pending t \<Longrightarrow> se_downstream_committed_at t = None"
    using session_ok_pending [OF ok'] by (simp add: t_def)
  ultimately have "phase_of t \<in> {Closed, Delivering}" by (auto simp: phase_of_def)
  moreover have "phase_of s = AwaitingCommit" using False by (simp add: phase_of_def)
  ultimately show ?thesis
    unfolding t_def [symmetric] by (auto intro: phase_step.intros)
qed

text \<open>
  C3. Refinement: seen through its phase, every call on a session makes a move of the abstract
  delivery protocol, so no call ever leads back from delivering to collecting, from a closed request
  to an open one, or from a commit that is due to anything but the commit or the end.
\<close>

theorem delivery_protocol_refined:
  assumes "session_reachable eg s"
  shows "phase_step call (phase_of s) (phase_of (api_step eg call s))"
proof -
  have ok: "session_ok s" by (rule session_reachable_ok [OF assms])
  have cp: "call_post s (api_step eg call s)" by (rule api_step_ok [OF ok])
  then have ok': "session_ok (api_step eg call s)" and fin: "is_finalized s \<Longrightarrow> is_finalized (api_step eg call s)"
    by (simp_all add: call_post_def)
  show ?thesis
  proof (cases call)
    case (CallNext r rs)
    have same: "api_step eg call s = s" if "phase_of s = AwaitingCommit"
      using that by (simp add: CallNext phase_of_def next_event_def Let_def ok split: if_split_asm)
    have "se_downstream_committed_at (api_step eg call s) = se_downstream_committed_at s"
      by (simp add: CallNext next_event_keeps_commit [OF ok])
    from phase_collecting [OF ok' fin this same]
    show ?thesis by (auto simp: CallNext intro: phase_step.intros)
  next
    case (CallCollect r rs)
    have same: "api_step eg call s = s" if "phase_of s = AwaitingCommit \<or> phase_of s = Delivering"
      using that by (auto simp: CallCollect phase_of_def collect_uncommitted_def Let_def ok split: if_split_asm)
    have com: "se_downstream_committed_at (api_step eg call s) = se_downstream_committed_at s"
      by (simp add: CallCollect collect_keeps_commit [OF ok])
    show ?thesis
    proof (cases "phase_of s = Delivering")
      case True
      then show ?thesis using same by (simp add: phase_step.stay CallCollect)
    next
      case False
      with phase_collecting [OF ok' fin com] same
      show ?thesis by (auto simp: CallCollect intro: phase_step.intros)
    qed
  next
    case (CallCommit r status)
    then show ?thesis using phase_commit [OF ok] ok' by simp
  next
    case (CallStatus r status)
    then show ?thesis by (simp add: phase_status phase_step.stay)
  next
    case CallCancel
    then show ?thesis by (simp add: phase_cancel phase_step.stay)
  next
    case (CallCancelAndFinalize r)
    have "phase_of (cancel_and_finalize r s) = Closed"
      using cancel_and_finalize_ok [OF ok, of r] by (simp add: phase_of_def)
    then show ?thesis using CallCancelAndFinalize by (simp add: phase_step.abandon)
  qed
qed

section \<open>When a failed attempt is replayed\<close>

text \<open>Any account may serve the replay: the request names none and carries no continuation.\<close>

definition free_to_rotate :: "session \<Rightarrow> bool" where
  "free_to_rotate s = (required_account (se_selection s) = None \<and> se_continuation_attempt s = CaNone)"

text \<open>The gateway holds the provider's session state and the failure allows to continue from it.\<close>

definition continuation_replayable :: "session \<Rightarrow> current_attempt \<Rightarrow> provider_error \<Rightarrow> bool" where
  "continuation_replayable s cur error =
     (required_account (se_selection s) = None
      \<and> session_state_for s (pcm_provider (cur_metadata cur)) \<noteq> None
      \<and> (case se_continuation_attempt s of
           CaNone \<Rightarrow> False
         | CaNative \<Rightarrow>
             err_continuation_recovery_disposition error \<in> {Some RetryExactConnection, Some ProviderReplayAllowed}
         | _ \<Rightarrow>
             err_continuation_recovery_disposition error \<in> {None, Some ProviderReplayAllowed}))"

definition credential_recoverable :: "session \<Rightarrow> current_attempt \<Rightarrow> provider_error \<Rightarrow> bool" where
  "credential_recoverable s cur error =
     (err_retry_same_account error \<and> cur_account cur \<notin> set (se_credential_recovery_attempted s))"

fun transport_intent :: "pre_delivery_retry option \<Rightarrow> bool" where
  "transport_intent (Some (SameAccountTransportRetry _ _)) = True"
| "transport_intent (Some SameAccountTransportFallback) = True"
| "transport_intent _ = False"

definition replay_allowed :: "session \<Rightarrow> current_attempt \<Rightarrow> provider_error \<Rightarrow> bool" where
  "replay_allowed s cur error =
     (uncommitted s \<and> (cur_send_observed cur \<or> err_send_state error \<noteq> Ambiguous)
      \<and> (transport_intent (err_pre_delivery_retry error)
         \<or> se_routing_attempts s < se_max_attempts s
           \<and> (free_to_rotate s \<and> err_pre_delivery_retry error = Some AccountRotation
              \<or> provider_proved_replay_safe error
                \<and> (free_to_rotate s \<or> credential_recoverable s cur error \<or> continuation_replayable s cur error))))"

lemma continuation_retry_iff:
  "snd (prepare_continuation_retry cur error st safe s) \<longleftrightarrow>
     uncommitted s \<and> st \<noteq> Ambiguous \<and> safe \<and> se_routing_attempts s < se_max_attempts s
     \<and> continuation_replayable s cur error"
proof (cases "continuation_blocked cur st safe s")
  case True
  then have "\<not> snd (prepare_continuation_retry cur error st safe s)"
    unfolding continuation_blocked_def prepare_continuation_retry_def by (simp only: if_True snd_conv simp_thms)
  moreover have "\<not> (uncommitted s \<and> st \<noteq> Ambiguous \<and> safe \<and> se_routing_attempts s < se_max_attempts s
     \<and> continuation_replayable s cur error)"
    using True unfolding continuation_blocked_def continuation_replayable_def uncommitted_def by auto
  ultimately show ?thesis by simp
next
  case False
  then have gate: "uncommitted s" "st \<noteq> Ambiguous" "safe" "se_routing_attempts s < se_max_attempts s"
    "required_account (se_selection s) = None" "session_state_for s (pcm_provider (cur_metadata cur)) \<noteq> None"
    by (simp_all add: continuation_blocked_def uncommitted_def not_le)
  note eq = prepare_continuation_retry_def [of cur error st safe s, folded continuation_blocked_def, unfolded if_not_P [OF False]]
  have rhs: "(uncommitted s \<and> st \<noteq> Ambiguous \<and> safe \<and> se_routing_attempts s < se_max_attempts s
      \<and> continuation_replayable s cur error) = continuation_replayable s cur error"
    using gate by blast
  have sel: "required_account (se_selection s) = None" "\<exists>y. session_state_for s (pcm_provider (cur_metadata cur)) = Some y"
    using gate(5,6) by auto
  show ?thesis
  proof (cases "err_continuation_recovery_disposition error")
    case None
    then show ?thesis
      unfolding rhs eq by (cases "se_continuation_attempt s") (simp_all add: continuation_replayable_def sel)
  next
    case (Some d)
    then show ?thesis
      unfolding rhs eq
      by (cases "se_continuation_attempt s"; cases d) (simp_all add: continuation_replayable_def sel)
  qed
qed

lemma transport_recovery_iff:
  "transport_recovery_of error st s \<noteq> None \<longleftrightarrow>
     uncommitted s \<and> st \<noteq> Ambiguous \<and> transport_intent (err_pre_delivery_retry error)"
  by (cases "err_pre_delivery_retry error" rule: transport_intent.cases) (auto simp: transport_recovery_of_def)

lemma decide_retry_iff:
  "retryable (snd (decide_retry cur error st s)) \<longleftrightarrow>
     uncommitted s \<and> st \<noteq> Ambiguous
      \<and> (transport_intent (err_pre_delivery_retry error)
         \<or> se_routing_attempts s < se_max_attempts s
           \<and> (free_to_rotate s \<and> err_pre_delivery_retry error = Some AccountRotation
              \<or> provider_proved_replay_safe error
                \<and> (free_to_rotate s \<or> credential_recoverable s cur error \<or> continuation_replayable s cur error)))"
  (is "?l \<longleftrightarrow> ?r")
proof -
  define safe where "safe = provider_proved_replay_safe error"
  obtain u cont where u: "prepare_continuation_retry cur error st safe s = (u, cont)" by fastforce
  obtain v trans where v: "transient_retry_of (rotation_gate st u \<and> safe) (cur_account cur) error u = (v, trans)"
    by fastforce
  have l: "?l \<longleftrightarrow> cont
      \<or> err_retry_same_account error \<and> safe \<and> uncommitted v \<and> st \<noteq> Ambiguous
        \<and> se_routing_attempts v < se_max_attempts v \<and> cur_account cur \<notin> set (se_credential_recovery_attempted v)
      \<or> rotation_gate st u \<and> safe
      \<or> rotation_gate st u \<and> err_pre_delivery_retry error = Some AccountRotation
      \<or> transport_recovery_of error st u \<noteq> None"
    unfolding decide_retry_def Let_def safe_def [symmetric] u prod.case v snd_conv retryable_def
    by (simp only: retry_decision.select_convs)
  have c: "cont \<longleftrightarrow> uncommitted s \<and> st \<noteq> Ambiguous \<and> safe \<and> se_routing_attempts s < se_max_attempts s
     \<and> continuation_replayable s cur error"
    using continuation_retry_iff [of cur error st safe s] by (simp add: u)
  show ?thesis
  proof (cases cont)
    case True
    then show ?thesis using c l by (simp add: safe_def)
  next
    case False
    then have us: "u = s" using continuation_retry_cases(1) [OF u] by simp
    have vf: "uncommitted v = uncommitted s" "se_routing_attempts v = se_routing_attempts s" "se_frame v = se_frame s"
      "se_credential_recovery_attempted v = se_credential_recovery_attempted s"
      using arg_cong [OF transient_retry_cases(2) [OF v], of uncommitted]
        arg_cong [OF transient_retry_cases(2) [OF v], of se_routing_attempts]
        arg_cong [OF transient_retry_cases(2) [OF v], of se_frame]
        arg_cong [OF transient_retry_cases(2) [OF v], of se_credential_recovery_attempted]
      by (simp_all add: us uncommitted_def)
    have g: "rotation_gate st s \<longleftrightarrow> free_to_rotate s \<and> uncommitted s \<and> st \<noteq> Ambiguous \<and> se_routing_attempts s < se_max_attempts s"
      by (auto simp: rotation_gate_def free_to_rotate_def)
    have nc: "\<not> (uncommitted s \<and> st \<noteq> Ambiguous \<and> safe \<and> se_routing_attempts s < se_max_attempts s
     \<and> continuation_replayable s cur error)" using c False by simp
    show ?thesis
      unfolding l us vf g transport_recovery_iff safe_def [symmetric] credential_recoverable_def
      using False nc by blast
  qed
qed

text \<open>
  C5. A failed attempt is replayed exactly when nothing was committed or handed out, the attempt is
  not in doubt, and either the provider asked for a transport recovery of its own, or the routing
  budget is not used up and the failure is a rotation of a free request, or provably safe to replay
  for a free request, a first credential recovery of the account, or a continuation whose state the
  gateway holds.
\<close>

theorem replay_exact:
  "case se_current s of
     None \<Rightarrow> snd (handle_stream_error r error s) = Inl EngNoActiveAttempt
   | Some cur \<Rightarrow> (snd (handle_stream_error r error s) = Inr PoAttemptDiscarded) = replay_allowed s cur error"
proof (cases "se_current s")
  case None
  then show ?thesis by (simp add: handle_stream_error_def take_atomic_client_events_def)
next
  case (Some cur)
  define error' where "error' = error\<lparr>err_atomic_client_events := None\<rparr>"
  have ev: "take_atomic_client_events error = (unwrap_or [] (err_atomic_client_events error), error')"
    by (simp add: take_atomic_client_events_def error'_def)
  define st where "st = (if cur_send_observed cur then Sent else err_send_state error')"
  define n where "n = note_failure r cur error' s"
  obtain u d where u: "decide_retry cur error' st n = (u, d)" by fastforce
  note eq = handle_stream_error_unfold [OF Some u [unfolded n_def] ev st_def, folded n_def]
  have "snd (handle_stream_error r error s) = Inr PoAttemptDiscarded \<longleftrightarrow> retryable d"
    unfolding eq by (auto simp: Let_def split: prod.split)
  also have "\<dots> \<longleftrightarrow> replay_allowed s cur error"
  proof -
    note np = note_failure_props [where r = r and cur = cur and error = error' and s = s, folded n_def]
    have op: "se_operation n = se_operation s"
      "se_credential_recovery_attempted n = se_credential_recovery_attempted s"
      by (simp_all add: n_def note_failure_def Let_def record_provider_failure_def raise_send_watermark_def store_write_def)
    have "err_kind error' = err_kind error" "err_send_state error' = err_send_state error"
      "err_pre_delivery_retry error' = err_pre_delivery_retry error"
      "provider_proved_replay_safe error' = provider_proved_replay_safe error"
      "err_retry_same_account error' = err_retry_same_account error"
      "err_continuation_recovery_disposition error' = err_continuation_recovery_disposition error"
      by (simp_all add: error'_def provider_proved_replay_safe_def)
    note er = this
    have "uncommitted n = uncommitted s" "free_to_rotate n = free_to_rotate s"
      "credential_recoverable n cur error' = credential_recoverable s cur error"
      "continuation_replayable n cur error' = continuation_replayable s cur error"
      by (simp_all add: uncommitted_def free_to_rotate_def credential_recoverable_def
          continuation_replayable_def session_state_for_def np(1-12) op er split: continuation_attempt.split)
    then show ?thesis
      using decide_retry_iff [of cur error' st n]
      by (simp add: u replay_allowed_def np(1,6) er) (simp add: st_def er)
  qed
  finally show ?thesis by (simp add: Some)
qed

section \<open>The charge\<close>

lemma decimal_add_zero: "a \<le> decimal_max \<Longrightarrow> add_capped a decimal_zero = a"
proof -
  assume "a \<le> decimal_max"
  then have "decimal_checked_add a decimal_zero = Some a"
    by (cases a) (simp add: decimal_checked_add_Some decimal_zero_def decimal_max_def less_eq_decimal_def)
  then show ?thesis by (simp add: add_capped_def)
qed

lemma add_capped_bounds:
  "add_capped a b \<le> decimal_max" "a \<le> decimal_max \<Longrightarrow> a \<le> add_capped a b"
  by (auto simp: add_capped_def decimal_checked_add_def decimal_max_def less_eq_decimal_def unwrap_or_def
      split: option.splits if_splits)

text \<open>
  Discarding an attempt never loses money: what it cost so far moves into the charge of the
  request, which stays the same, is at least what earlier attempts cost, and is capped at the
  largest amount instead of wrapping.
\<close>

theorem discard_keeps_charge:
  "bc_amount_usd (budget_charge now (discard_attempt r cur error events s)) = bc_amount_usd (budget_charge now s)
   \<and> bc_amount_usd (budget_charge now s) \<le> decimal_max
   \<and> (if se_budget_prior_attempts_usd s \<le> decimal_max
      then se_budget_prior_attempts_usd s \<le> bc_amount_usd (budget_charge now s) else True)"
proof -
  have "budget_attempt_usd (reset_uncommitted_observations t) = decimal_zero" for t
    by (simp add: budget_attempt_usd_def reset_uncommitted_observations_def observation_reset_for_attempt_def
        cost_estimate_unavailable_def)
  then have reset: "bc_amount_usd (budget_charge now (reset_uncommitted_observations t)) = bc_amount_usd (budget_charge now t)" for t
    using decimal_add_zero [OF add_capped_bounds(1)]
    by (simp add: budget_charge_def) (simp add: reset_uncommitted_observations_def)
  have "bc_amount_usd (budget_charge now (discard_attempt r cur error events s)) = bc_amount_usd (budget_charge now s)"
    by (simp add: discard_attempt_def Let_def reset)
       (simp add: budget_charge_def budget_attempt_usd_def store_write_def)
  then show ?thesis using add_capped_bounds by (simp add: budget_charge_def)
qed

section \<open>A sample request\<close>

text \<open>
  A search on \<open>grok-4\<close> that one xAI account may serve; the store accepts every write, the provider
  answers at once and its stream hands out one event.
\<close>

definition sample_candidate :: provider_candidate where
  "sample_candidate =
     \<lparr>pc_provider = ProviderKind ''xai'', pc_upstream_model = Some (UpstreamModelId ''grok-4''),
      pc_emulated_features = [], pc_account_scope = sample_full_scope\<rparr>"

definition sample_routing_plan :: routing_plan where
  "sample_routing_plan =
     \<lparr>rp_pricing = [], rp_request_location = None, rp_config_revision = ConfigRevision 7,
      rp_account_selection_policy = selection_policy_new Smart 1 0, rp_operation = Search,
      rp_max_attempts = max_request_attempts, rp_account_scope = sample_full_scope,
      rp_candidates = [sample_candidate]\<rparr>"

definition sample_request :: new_model_request where
  "sample_request =
     \<lparr>nmr_id = ModelRequestId ''req_1'', nmr_client_api_key_id = None,
      nmr_client_api_key_ref = ClientApiKeyId ''key_1'', nmr_config_revision = ConfigRevision 7,
      nmr_routing = routing_snapshot_all, nmr_protocol = ''openai'', nmr_operation = Search,
      nmr_endpoint = ''/v1/search'', nmr_client_transport = ''http'', nmr_requested_model = None,
      nmr_client_ip = None, nmr_user_agent = None, nmr_reasoning_effort = None, nmr_reasoning_preset = None,
      nmr_request_kind = None, nmr_subagent_kind = None, nmr_compact = False,
      nmr_continuation = \<lparr>cro_affinity_hash = None, cro_previous_response_id_hash = None, cro_requested = False\<rparr>,
      nmr_image_generation_requested = False, nmr_admission_decision_ms = None,
      nmr_started_at = 0, nmr_deadline_at = 100\<rparr>"

definition sample_env :: env where
  "sample_env = \<lparr>en_store = (\<lambda>_. True), en_wall = (\<lambda>_. 1), en_mono = (\<lambda>_. 1)\<rparr>"

definition sample_engine :: engine where
  "sample_engine = \<lparr>eg_registered = (\<lambda>_. True), eg_resolve_request_profile = (\<lambda>_ configuration. Inr configuration)\<rparr>"

definition sample_answer :: round where
  "sample_answer =
     \<lparr>en_store = (\<lambda>_. True), en_wall = (\<lambda>_. 1), en_mono = (\<lambda>_. 1),
      rd_delay = \<lparr>wt_now = 1, wt_cancelled = False, wt_timer = False\<rparr>,
      rd_call = \<lparr>wt_now = 1, wt_cancelled = False, wt_timer = False\<rparr>,
      rd_execute = (\<lambda>_ _ _. Inr (call_metadata_new (ProviderKind ''xai'') (UpstreamModelId ''grok-4'')
        (ProviderAccountId ''acct_1'') (UpstreamTransport ''http''))),
      rd_poll = \<lparr>wt_now = 1, wt_cancelled = False, wt_timer = False\<rparr>,
      rd_item = Some (Inr (provider_event_canonical (EvTextDelta \<lparr>td_content_index = 0, td_text = ''hi''\<rparr>)))\<rparr>"

definition sample_session :: session where
  "sample_session =
     with_concurrency_wait_budget None
       (new_session sample_request sample_search sample_routing_plan (Scheduled None) None False 1 0)"

definition sample_waiting :: session where
  "sample_waiting = api_step sample_engine (CallNext sample_env [sample_answer]) sample_session"

definition sample_delivering :: session where
  "sample_delivering = api_step sample_engine (CallCommit sample_env (Some 200)) sample_waiting"

lemma sample_start:
  "start_with_account_selection sample_env False sample_request sample_search sample_routing_plan (Scheduled None) None
     = Started (new_session sample_request sample_search sample_routing_plan (Scheduled None) None False 1 0)"
  by (simp add: start_with_account_selection_def sample_env_def sample_request_def) (simp add: new_session_def)

lemma sample_reachable:
  "session_reachable sample_engine sample_session"
  "session_reachable sample_engine sample_waiting"
  "session_reachable sample_engine sample_delivering"
proof -
  show s: "session_reachable sample_engine sample_session"
    unfolding sample_session_def by (rule session_reachable.start [OF sample_start])
  show w: "session_reachable sample_engine sample_waiting"
    unfolding sample_waiting_def by (rule session_reachable.step [OF s])
  show "session_reachable sample_engine sample_delivering"
    unfolding sample_delivering_def by (rule session_reachable.step [OF w])
qed


lemma sample_scope_allows: "scope_allows sample_full_scope (ProviderAccountId ''acct_1'')"
  by (simp add: sample_full_scope_def frozen_scope_new_def scope_allows_def sample_directory_def directory_new_def
      directory_account_def)

lemma sample_hands_out:
  "\<exists>t event. pull_step sample_engine sample_answer sample_session = (t, Inr (Some (PoEvent event)))
     \<and> se_downstream_committed_at t = None \<and> se_finalization t = None"
  by (simp add: pull_step_def prepare_attempt_def sample_session_def new_session_def with_concurrency_wait_budget_def Let_def
      nth_opt_def sample_routing_plan_def sample_candidate_def call_provider_def take_pinned_account_def sample_engine_def
      sample_request_def max_request_attempts_def initial_continuation_attempt_def bt_has_def request_profile_def
      resolve_profile_def sample_full_scope_def frozen_scope_new_def sample_answer_def poll_provider_def race_def
      accept_stream_def metadata_confirms_def call_metadata_new_def adopt_stream_def write_attempt_def store_write_def
      poll_current_def poll_stream_item_def observe_item_def provider_event_canonical_def take_observation_def
      mark_send_observed_def has_client_event_def checked_add_def
      sample_scope_allows [unfolded sample_full_scope_def frozen_scope_new_def])

lemma sample_fresh:
  "\<not> is_finalized sample_session" "resume_finalization r sample_session = sample_session"
  "\<not> se_delivery_pending sample_session" "se_pending_terminal_failure sample_session = None"
  by (simp_all add: sample_session_def new_session_def with_concurrency_wait_budget_def is_finalized_def
      resume_finalization_def)

lemma sample_waits:
  "se_delivery_pending sample_waiting" "se_downstream_committed_at sample_waiting = None"
  "se_finalization sample_waiting = None"
proof -
  obtain t event where t: "pull_step sample_engine sample_answer sample_session = (t, Inr (Some (PoEvent event)))"
    "se_downstream_committed_at t = None" "se_finalization t = None"
    using sample_hands_out by blast
  have "next_event sample_engine sample_env [sample_answer] sample_session = deliver event t"
    by (simp add: next_event_def Let_def sample_fresh next_loop.simps [of sample_engine sample_env "[sample_answer]"] t)
  then have w: "sample_waiting = t\<lparr>se_delivery_pending := True\<rparr>"
    by (simp add: sample_waiting_def deliver_def t)
  then show "se_delivery_pending sample_waiting" "se_downstream_committed_at sample_waiting = None"
    "se_finalization sample_waiting = None"
    by (simp_all add: w t)
qed

lemma sample_commits: "se_downstream_committed_at sample_delivering \<noteq> None"
  using sample_waits
  by (simp add: sample_delivering_def commit_downstream_def is_finalized_def Let_def vitals_fields(10) [OF vitals_finish(3)])


theorem session_attempts_witness:
  "map ar_attempt_count (logged_attempts (se_log sample_delivering)) = [1..<Suc (se_attempts sample_delivering)]"
  using session_attempts [OF sample_reachable(3)] by blast



theorem delivery_protocol_refined_witness:
  "phase_of sample_waiting = AwaitingCommit
   \<and> phase_step (CallCommit sample_env (Some 200)) AwaitingCommit (phase_of sample_delivering)"
proof -
  have p: "phase_of sample_waiting = AwaitingCommit" using sample_waits by (simp add: phase_of_def is_finalized_def)
  then show ?thesis
    using delivery_protocol_refined [OF sample_reachable(2), of "CallCommit sample_env (Some 200)"]
    by (simp add: sample_delivering_def)
qed

end
