(* ===== verification/CoordinatorProgress.thy ===== *)
theory CoordinatorProgress
  imports CoordinatorLaws
begin

text \<open>
  The coordinator of \<open>engine/coordinator.rs\<close> makes progress: cancellation and the deadline end a request
  in one round, and retrying comes to an end.
\<close>

section \<open>Requests end\<close>

text \<open>The token is cancelled, or the deadline has passed when the round looks at the clock.\<close>

definition must_stop :: "session \<Rightarrow> round \<Rightarrow> bool" where
  "must_stop s rd =
     (se_cancelled s
      \<or> sf_deadline (se_frame s) < wt_now (rd_call rd) \<and> sf_deadline (se_frame s) < wt_now (rd_poll rd))"

lemma poll_stops:
  "must_stop s rd \<Longrightarrow> poll_stream_item (se_cancelled s) (sf_deadline (se_frame s)) (rd_poll rd) item \<noteq> Answered x"
  "must_stop s rd \<Longrightarrow> poll_provider (se_cancelled s) (sf_deadline (se_frame s)) (rd_call rd) answer \<noteq> Answered y"
  by (auto simp: must_stop_def poll_stream_item_def poll_provider_def race_def)

lemma poll_current_stops: "must_stop s rd \<Longrightarrow> \<exists>t e. poll_current rd s = (t, Inl e)"
  using poll_stops(1) [of s rd "rd_item rd"]
  by (cases "poll_stream_item (se_cancelled s) (sf_deadline (se_frame s)) (rd_poll rd) (rd_item rd)")
     (auto simp: poll_current_def interrupted_def)

lemma call_provider_stops:
  assumes "must_stop s rd"
  shows "\<exists>t e. call_provider eg rd retry c next s = (t, Inl e)"
proof -
  obtain s1 pinned_account transport where tk: "take_pinned_account retry s = (s1, pinned_account, transport)"
    by (metis prod_cases3)
  have m1: "must_stop s1 rd"
    using tk assms by (auto simp: take_pinned_account_def must_stop_def split: option.splits account_selection.splits)
  show ?thesis
  proof (cases "eg_registered eg (pc_provider c)")
    case False
    then show ?thesis by (simp add: call_provider_def tk)
  next
    case reg: True
    show ?thesis
    proof (cases "resolve_profile eg (pc_provider c) s1")
      case (Inl e)
      then show ?thesis using reg by (simp add: call_provider_def tk)
    next
      case (Inr s2)
      then obtain ps where "s2 = s1\<lparr>se_request_profiles := ps\<rparr>" using resolve_profile_props by blast
      then have m2: "must_stop s2 rd" using m1 by (simp add: must_stop_def)
      define answer where "answer = poll_provider (se_cancelled s2) (sf_deadline (se_frame s2)) (rd_call rd)
        (rd_execute rd (se_operation s2) c (attempt_context_of next c (account_context_of pinned_account s1) transport s2))"
      have na: "answer \<noteq> Answered x" for x using poll_stops(2) [OF m2] by (simp add: answer_def)
      show ?thesis
        unfolding call_provider_def tk prod.case Let_def Inr sum.case answer_def [symmetric]
        using reg na by (cases answer) (auto simp: interrupted_def)
    qed
  qed
qed

lemma pull_step_stops:
  assumes "must_stop s rd"
  shows "\<exists>t e. pull_step eg rd s = (t, Inl e)"
proof (cases "se_current s = None")
  case False
  then show ?thesis using poll_current_stops [OF assms] by (simp add: pull_step_def)
next
  case True
  have m: "must_stop (s\<lparr>se_pending_retry := None\<rparr>) rd" using assms by (simp add: must_stop_def)
  have "\<exists>t e. prepare_attempt eg rd s = (t, Inl e)"
    using call_provider_stops [OF m]
    by (auto simp: prepare_attempt_def Let_def interrupted_def simp del: checked_add_Some
        split: boundary.split option.split)
  then show ?thesis using True by (auto simp: pull_step_def)
qed

text \<open>
  C25. Cancellation and the deadline are honoured at once: in one round of a request whose token is
  cancelled, or whose deadline has passed, \<open>next_event\<close> returns and the request is finalized, unless a
  handed-out event still waits for its commit.
\<close>

theorem stopped_request_ends:
  assumes "session_reachable eg s" and "must_stop s rd"
  shows "snd (next_event eg r (rd # rds) s) \<noteq> None
     \<and> (if se_delivery_pending s then fst (next_event eg r (rd # rds) s) = s
        else is_finalized (fst (next_event eg r (rd # rds) s)))"
proof -
  have ok: "session_ok s" by (rule session_reachable_ok [OF assms(1)])
  have res: "resume_finalization r s = s" by (simp add: ok)
  obtain t e where t: "pull_step eg rd s = (t, Inl e)" using pull_step_stops [OF assms(2)] by blast
  have l: "next_loop eg r (rd # rds) s = (t, Some (Inl e))"
    by (simp add: next_loop.simps [of eg r "rd # rds" s] t)
  note eq = next_event_def [of eg r "rd # rds" s, unfolded Let_def res l]
  show ?thesis
  proof (cases "se_delivery_pending s")
    case True
    then show ?thesis by (simp add: eq)
  next
    case np: False
    show ?thesis
    proof (cases "se_pending_terminal_failure s")
      case (Some p)
      then show ?thesis using np finish_terminal_closed [OF ok np] by (simp add: eq)
    next
      case nt: None
      show ?thesis
      proof (cases "is_finalized s")
        case True
        then show ?thesis using np nt by (simp add: eq)
      next
        case nf: False
        have "pull_ready s" using session_ok_collecting [OF ok nf np nt] by (simp add: collecting_def)
        from pull_step_post [OF this, of eg rd] have "is_finalized t" by (simp add: t pulled_post_def)
        then show ?thesis using np nt nf by (simp add: eq)
      qed
    qed
  qed
qed

section \<open>Retries end\<close>

text \<open>
  What is left to try: twice the routing budget (an attempt is started and may then fail), the
  candidates, one step away from a native continuation, and the running attempt.
\<close>

definition effort :: "session \<Rightarrow> nat" where
  "effort s =
     2 * (se_max_attempts s - se_routing_attempts s)
     + (length (rp_candidates (se_plan s)) - se_candidate_index s)
     + (if se_continuation_attempt s = CaNative then 1 else 0)
     + (if se_current s = None then 0 else 1)"

text \<open>No transport recovery, which has the provider's own budget, is due.\<close>

definition no_recovery_due :: "session \<Rightarrow> bool" where
  "no_recovery_due s = (\<not> opt_any pr_transport_recovery (se_pending_retry s))"

lemma effort_vitals:
  assumes "vitals t = vitals s"
  shows "effort t = effort s" "no_recovery_due t = no_recovery_due s"
  using vitals_fields [OF assms] by (simp_all add: effort_def no_recovery_due_def)

lemma refused_effort:
  assumes "call_refused r c error s = (t, Inr out)" and "out = None \<or> out = Some PoAttemptDiscarded"
  shows "effort t < effort s \<and> se_pending_retry t = se_pending_retry s"
proof (cases "prepare_unavailable_native_continuation_replay error s")
  case (Some u)
  then have "t = u" using assms by (simp add: call_refused_def)
  moreover from Some have "se_continuation_attempt s = CaNative"
    "\<exists>pin :: native_continuation_pin. exclude_account (ncp_account pin) (s\<lparr>se_continuation_attempt := CaReplayAny\<rparr>) = u"
    unfolding prepare_unavailable_native_continuation_replay_def
    by (simp_all split: if_split_asm option.split_asm) blast
  ultimately show ?thesis by (auto simp: exclude_account_def effort_def)
next
  case None
  define adv where "adv = (if local_unavailability error \<and> se_continuation_attempt s \<in> {CaNone, CaReplayAny}
                 then advance_provider_candidate s else None)"
  show ?thesis
  proof (cases adv)
    case (Some u)
    then have "t = u" "advance_provider_candidate s = Some u"
      using assms unfolding call_refused_def None option.case adv_def [symmetric]
      by (auto simp: adv_def split: if_splits)
    then show ?thesis by (auto simp: advance_provider_candidate_def effort_def split: if_splits)
  next
    case a: None
    show ?thesis
      using assms unfolding call_refused_def None option.case adv_def [symmetric] a
      by (auto simp: Let_def split: option.splits if_splits prod.splits)
  qed
qed

lemma adopt_effort:
  assumes "adopt_stream r False transport next m s = (t, Inr out)"
    and "se_current s = None" "se_routing_attempts s < se_max_attempts s" "se_routing_attempts s < u32_max"
  shows "effort t < effort s \<and> se_pending_retry t = se_pending_retry s"
proof -
  define key where "key = (\<lambda>x :: session. (se_frame x, se_routing_attempts x, se_candidate_index x, se_continuation_attempt x,
      se_current x = None, se_pending_retry x))"
  have wr: "key t' = key s'" if "write_attempt r rec s' = (t', Inr o')" for rec s' t' o'
    using that by (auto simp: write_attempt_def store_write_def key_def Let_def split: if_splits option.splits)
  have "key t = (se_frame s, se_routing_attempts s + 1, se_candidate_index s, se_continuation_attempt s,
      False, se_pending_retry s)"
    using wr assms unfolding adopt_stream_def Let_def
    by (auto simp: key_def saturating_add_def split: if_split_asm)
  then show ?thesis using assms(2,3) by (auto simp: key_def effort_def)
qed

lemma call_effort:
  assumes res: "call_provider eg rd retry c next s = (t, Inr out)" "out = None \<or> out = Some PoAttemptDiscarded"
    and retry: "\<not> opt_any pr_transport_recovery retry" and s: "se_current s = None"
    "se_routing_attempts s < se_max_attempts s" "se_max_attempts s \<le> u32_max"
  shows "effort t < effort s \<and> se_pending_retry t = se_pending_retry s"
proof -
  obtain s1 pinned_account transport where tk: "take_pinned_account retry s = (s1, pinned_account, transport)"
    by (metis prod_cases3)
  have s1: "\<exists>x. s1 = s\<lparr>se_recovery_account := x\<rparr>"
    using tk by (auto simp: take_pinned_account_def split: option.splits account_selection.splits)
       (metis session.surjective session.update_convs(16))+
  have tr: "opt_any pr_transport_recovery retry = False" using retry by simp
  have reg: "eg_registered eg (pc_provider c)"
    using res(1) by (auto simp: call_provider_def tk split: if_split_asm)
  obtain s2 where s2: "resolve_profile eg (pc_provider c) s1 = Inr s2"
    using res(1) reg by (cases "resolve_profile eg (pc_provider c) s1") (auto simp: call_provider_def tk)
  then obtain ps where "s2 = s1\<lparr>se_request_profiles := ps\<rparr>" using resolve_profile_props by blast
  with s1 obtain x where eq: "s2 = s\<lparr>se_recovery_account := x, se_request_profiles := ps\<rparr>" by blast
  have keep: "effort s2 = effort s" "se_pending_retry s2 = se_pending_retry s" "se_current s2 = None"
    "se_routing_attempts s2 < se_max_attempts s2" "se_routing_attempts s2 < u32_max"
    using s by (simp_all add: eq effort_def)
  define answer where "answer = poll_provider (se_cancelled s2) (sf_deadline (se_frame s2)) (rd_call rd)
        (rd_execute rd (se_operation s2) c (attempt_context_of next c (account_context_of pinned_account s1) transport s2))"
  have res': "(case answer of
                BoundaryCancelled \<Rightarrow> interrupted rd EngCancelled s2
              | BoundaryDeadline \<Rightarrow> interrupted rd EngDeadline s2
              | Answered (Inl error) \<Rightarrow> call_refused rd c error s2
              | Answered (Inr m) \<Rightarrow> accept_stream rd False pinned_account transport next c m s2) = (t, Inr out)"
    using res(1) reg unfolding call_provider_def tk prod.case Let_def s2 sum.case answer_def [symmetric] tr by simp
  show ?thesis
  proof (cases answer)
    case (Answered a)
    show ?thesis
    proof (cases a)
      case (Inl error)
      then have "call_refused rd c error s2 = (t, Inr out)" using res' Answered by simp
      from refused_effort [OF this res(2)] show ?thesis using keep by simp
    next
      case (Inr m)
      then have "accept_stream rd False pinned_account transport next c m s2 = (t, Inr out)"
        using res' Answered by simp
      then have "adopt_stream rd False transport next m s2 = (t, Inr out)"
        unfolding accept_stream_def Let_def by (simp add: reject_internal_def split: if_split_asm)
      from adopt_effort [OF this keep(3-5)] show ?thesis using keep by simp
    qed
  qed (use res' in \<open>simp_all add: interrupted_def\<close>)
qed

lemma prepare_effort:
  assumes res: "prepare_attempt eg rd s = (t, Inr out)" "out = None \<or> out = Some PoAttemptDiscarded"
    and s: "no_recovery_due s" "se_current s = None" "se_max_attempts s \<le> u32_max"
  shows "effort t < effort s \<and> no_recovery_due t"
proof -
  define s1 where "s1 = s\<lparr>se_pending_retry := None\<rparr>"
  have tr: "\<not> opt_any pr_transport_recovery (se_pending_retry s)" using s(1) by (simp add: no_recovery_due_def)
  have budget: "se_routing_attempts s < se_max_attempts s"
    using res(1) tr by (auto simp: prepare_attempt_def not_le [symmetric] split: if_split_asm)
  have guard: "\<not> (\<not> opt_any pr_transport_recovery (se_pending_retry s) \<and> se_max_attempts s1 \<le> se_routing_attempts s1)"
    using budget by (simp add: s1_def)
  note eq = prepare_attempt_def [of eg rd s, unfolded Let_def, folded s1_def, unfolded if_not_P [OF guard]]
  have "\<exists>c next. call_provider eg rd (se_pending_retry s) c next s1 = (t, Inr out)"
    using res(1) unfolding eq
    by (auto simp: interrupted_def simp del: checked_add_Some split: boundary.splits option.splits)
  then obtain c "next" where c: "call_provider eg rd (se_pending_retry s) c next s1 = (t, Inr out)" by blast
  have "effort t < effort s1 \<and> se_pending_retry t = se_pending_retry s1"
    using s budget by (intro call_effort [OF c res(2) tr]) (simp_all add: s1_def)
  then show ?thesis by (simp add: s1_def effort_def no_recovery_due_def)
qed

text \<open>An item the client gets to see, or a failure without a transport recovery of the provider's own.\<close>

definition visible :: "round \<Rightarrow> bool" where
  "visible rd =
     (case rd_item rd of
        None \<Rightarrow> True
      | Some (Inr event) \<Rightarrow> has_client_event (snd (take_observation event))
      | Some (Inl error) \<Rightarrow> \<not> transport_intent (err_pre_delivery_retry error))"

lemma continuation_retry_effort:
  assumes "prepare_continuation_retry cur error st safe s = (u, b)"
  shows "se_continuation_attempt u = CaNative \<Longrightarrow> se_continuation_attempt s = CaNative"
proof -
  assume u: "se_continuation_attempt u = CaNative"
  consider "u = s" | "u = s\<lparr>se_recovery_account := Some (cur_account cur)\<rparr>"
    | "se_continuation_attempt u \<noteq> CaNative"
    | "u = exclude_account (cur_account cur) s"
    using assms unfolding prepare_continuation_retry_def
    by (fastforce simp: exclude_account_def split: if_split_asm continuation_attempt.split_asm option.split_asm
        continuation_recovery_disposition.split_asm)
  then show "se_continuation_attempt s = CaNative"
    using u by cases (auto simp: exclude_account_def)
qed

lemma decide_retry_effort:
  assumes "decide_retry cur error st s = (u, d)"
  shows "se_frame u = se_frame s" "se_routing_attempts u = se_routing_attempts s"
    "se_candidate_index u = se_candidate_index s" "se_current u = se_current s"
    "se_pending_retry u = se_pending_retry s"
    "se_continuation_attempt u = CaNative \<Longrightarrow> se_continuation_attempt s = CaNative"
    "\<not> transport_intent (err_pre_delivery_retry error) \<Longrightarrow> rt_transport d = None"
proof -
  define safe where "safe = provider_proved_replay_safe error"
  obtain v b where v: "prepare_continuation_retry cur error st safe s = (v, b)" by fastforce
  obtain w x where w: "transient_retry_of (rotation_gate st v \<and> safe) (cur_account cur) error v = (w, x)" by fastforce
  have u: "u = w" "rt_transport d = transport_recovery_of error st v"
    using assms unfolding decide_retry_def Let_def safe_def [symmetric] v prod.case w by auto
  note a = transient_retry_cases(2) [OF w] and c = continuation_retry_cases(3) [OF v]
  show "se_frame u = se_frame s"
    unfolding u by (subst a, simp, subst c, simp)
  show "se_routing_attempts u = se_routing_attempts s"
    unfolding u by (subst a, simp, subst c, simp)
  show "se_candidate_index u = se_candidate_index s"
    unfolding u by (subst a, simp, subst c, simp)
  show "se_current u = se_current s"
    unfolding u by (subst a, simp, subst c, simp)
  show "se_pending_retry u = se_pending_retry s"
    unfolding u by (subst a, simp, subst c, simp)
  have "se_continuation_attempt w = se_continuation_attempt v" by (subst a) simp
  then show "se_continuation_attempt u = CaNative \<Longrightarrow> se_continuation_attempt s = CaNative"
    unfolding u using continuation_retry_effort [OF v] by simp
  show "\<not> transport_intent (err_pre_delivery_retry error) \<Longrightarrow> rt_transport d = None"
    unfolding u by (auto simp: transport_recovery_of_def split: option.split pre_delivery_retry.split)
qed

lemma discard_effort:
  assumes res: "handle_stream_error r error s = (t, Inr PoAttemptDiscarded)"
    and s: "no_recovery_due s" "\<not> transport_intent (err_pre_delivery_retry error)"
  shows "effort t < effort s \<and> no_recovery_due t"
proof -
  obtain cur where cur: "se_current s = Some cur"
    using res by (cases "se_current s") (simp_all add: handle_stream_error_def take_atomic_client_events_def)
  define error' where "error' = error\<lparr>err_atomic_client_events := None\<rparr>"
  define events where "events = unwrap_or [] (err_atomic_client_events error)"
  have ev: "take_atomic_client_events error = (events, error')"
    by (simp add: take_atomic_client_events_def error'_def events_def)
  define st where "st = (if cur_send_observed cur then Sent else err_send_state error')"
  define n where "n = note_failure r cur error' s"
  obtain u d where u: "decide_retry cur error' st n = (u, d)" by fastforce
  note eq = handle_stream_error_unfold [OF cur u [unfolded n_def] ev st_def, folded n_def]
  have ret: "retryable d" using res unfolding eq by (auto simp: Let_def split: prod.splits if_split_asm)
  note np = note_failure_props [where r = r and cur = cur and error = error' and s = s, folded n_def]
  have ni: "\<not> transport_intent (err_pre_delivery_retry error')" using s(2) by (simp add: error'_def)
  note dr = decide_retry_effort [OF u]
  have nt: "rt_transport d = None" by (rule dr(7) [OF ni])
  define v where "v = arrange_retry cur (rt_same_account d) (rt_transient d) (rt_transport d) (rt_continuation d)
             (u\<lparr>se_observation := observe_facts_at r 1 (concat (map pe_canonical events)) (se_observation u)\<rparr>)"
  have t: "t = discard_attempt r cur error' events v" using res ret unfolding eq by (simp add: v_def)
  have v: "effort v = effort u" "no_recovery_due u \<Longrightarrow> no_recovery_due v"
    unfolding v_def nt
    by (auto simp: arrange_retry_def exclude_account_def effort_def no_recovery_due_def split: option.split)
  have t': "effort t = effort v" "no_recovery_due t = no_recovery_due v"
    unfolding t
    by (simp_all add: discard_attempt_def Let_def reset_uncommitted_observations_def store_write_def effort_def no_recovery_due_def)
  have "effort u < effort s"
    using dr(6) unfolding effort_def by (auto simp: dr(1-5) np cur)
  moreover have "no_recovery_due u" using s(1) unfolding no_recovery_due_def by (simp add: dr(1-5) np)
  ultimately show ?thesis using v t' by simp
qed

lemma poll_effort:
  assumes res: "poll_current rd s = (t, Inr out)" "out = None \<or> out = Some PoAttemptDiscarded"
    and s: "no_recovery_due s" "visible rd"
  shows "effort t < effort s \<and> no_recovery_due t \<and> out \<noteq> None"
proof -
  have cur: "se_current s \<noteq> None" using res(1) by (auto simp: poll_current_def split: if_split_asm)
  define p where "p = poll_stream_item (se_cancelled s) (sf_deadline (se_frame s)) (rd_poll rd) (rd_item rd)"
  note eq = poll_current_def [of rd s, unfolded if_not_P [OF cur] p_def [symmetric]]
  obtain item where p: "p = Answered item"
    using res(1) unfolding eq by (cases p) (simp_all add: interrupted_def)
  have item: "rd_item rd = item"
    using p by (auto simp: p_def poll_stream_item_def race_def split: if_split_asm)
  show ?thesis
  proof (cases item)
    case None
    then show ?thesis using res unfolding eq p by auto
  next
    case (Some x)
    show ?thesis
    proof (cases x)
      case (Inr event)
      have "has_client_event (snd (take_observation event))" using s(2) item Some Inr by (simp add: visible_def)
      then have "out = Some (PoEvent (snd (take_observation event)))"
        using res(1) unfolding eq p Some Inr
        by (auto simp: observe_item_def Let_def split: prod.splits)
      then show ?thesis using res(2) by auto
    next
      case (Inl error)
      obtain u where u: "handle_stream_error rd error s = (u, Inr PoAttemptDiscarded)" "t = u" "out \<noteq> None"
        using res unfolding eq p Some Inl by (auto split: prod.splits sum.splits)
      have "\<not> transport_intent (err_pre_delivery_retry error)" using s(2) item Some Inl by (simp add: visible_def)
      from discard_effort [OF u(1) s(1) this] u show ?thesis by simp
    qed
  qed
qed

lemma pull_step_effort:
  assumes res: "pull_step eg rd s = (t, Inr out)" "out = None \<or> out = Some PoAttemptDiscarded"
    and s: "no_recovery_due s" "visible rd" "se_max_attempts s \<le> u32_max"
  shows "effort t < effort s \<and> no_recovery_due t \<and> out \<noteq> None"
proof (cases "se_current s = None")
  case False
  with res(1) have "poll_current rd s = (t, Inr out)" by (simp add: pull_step_def)
  from poll_effort [OF this res(2) s(1,2)] show ?thesis .
next
  case True
  obtain u x where u: "prepare_attempt eg rd s = (u, x)" by fastforce
  note eq = pull_step_def [of eg rd s, unfolded u prod.case]
  show ?thesis
  proof (cases x)
    case (Inl e)
    then show ?thesis using res(1) True unfolding eq by simp
  next
    case (Inr y)
    show ?thesis
    proof (cases y)
      case None
      have "effort u < effort s \<and> no_recovery_due u"
        using prepare_effort [OF u [unfolded Inr] _ s(1) True s(3)] None by simp
      moreover have "poll_current rd u = (t, Inr out)" using res(1) True Inr None unfolding eq by simp
      ultimately show ?thesis using poll_effort [of rd u t out] res(2) s(2) by force
    next
      case (Some z)
      then have t: "t = u" "out = Some z" using res(1) True Inr unfolding eq by auto
      then show ?thesis
        using prepare_effort [OF u [unfolded Inr] _ s(1) True s(3)] res(2) Some by auto
    qed
  qed
qed

lemma deliver_answers: "snd (deliver event s) \<noteq> None" "snd (deliver_failure events error st s) \<noteq> None"
  by (simp_all add: deliver_def deliver_failure_def Let_def)

lemma next_loop_answers:
  "collecting s \<Longrightarrow> no_recovery_due s \<Longrightarrow> list_all visible rds \<Longrightarrow> se_max_attempts s \<le> u32_max \<Longrightarrow>
     effort s < length rds \<Longrightarrow> snd (next_loop eg r rds s) \<noteq> None"
proof (induction rds arbitrary: s)
  case Nil
  then show ?case by simp
next
  case (Cons rd rds)
  obtain t x where t: "pull_step eg rd s = (t, x)" by fastforce
  show ?case
  proof (cases x)
    case (Inl e)
    then show ?thesis by (simp add: next_loop.simps [of eg r "rd # rds" s] t)
  next
    case (Inr out)
    have vis: "visible rd" using Cons.prems(3) by simp
    have "out \<noteq> None" if "out = None"
      using pull_step_effort [OF t [unfolded Inr] _ Cons.prems(2) vis Cons.prems(4)] that by simp
    then obtain y where y: "out = Some y" by blast
    have ct: "collecting t" by (rule pull_step_collecting [OF Cons.prems(1) t [unfolded Inr]])
    show ?thesis
    proof (cases "y = PoAttemptDiscarded")
      case True
      have fx: "se_max_attempts t = se_max_attempts s"
        using pull_step_post [of s eg rd] Cons.prems(1) t
        by (simp add: collecting_def pulled_post_def progress_def)
      have "effort t < effort s \<and> no_recovery_due t"
        using pull_step_effort [OF t [unfolded Inr] _ Cons.prems(2) vis Cons.prems(4)] y True by simp
      then have "snd (next_loop eg r rds t) \<noteq> None"
        using Cons.IH [OF ct] Cons.prems(3-5) fx by simp
      then show ?thesis using True by (simp add: next_loop.simps [of eg r "rd # rds" s] t Inr y)
    next
      case False
      then show ?thesis
        by (cases y) (simp_all add: next_loop.simps [of eg r "rd # rds" s] t Inr y deliver_answers)
    qed
  qed
qed

text \<open>
  C6. Retrying ends: while no transport recovery is due or asked for, every round that shows the
  client nothing uses up a part of the routing budget, of the candidates or of the continuation, so
  that a call of \<open>next_event\<close> answers within that many rounds. The budget is the code's \<open>u32\<close>.
\<close>

theorem retries_terminate:
  assumes "session_reachable eg s" and "no_recovery_due s" and "se_max_attempts s \<le> u32_max"
    and "list_all visible rds" and "effort s < length rds"
  shows "snd (next_event eg r rds s) \<noteq> None"
proof -
  have ok: "session_ok s" by (rule session_reachable_ok [OF assms(1)])
  have res: "resume_finalization r s = s" by (simp add: ok)
  have "snd (next_loop eg r rds s) \<noteq> None"
    if "\<not> se_delivery_pending s" "se_pending_terminal_failure s = None" "\<not> is_finalized s"
    by (rule next_loop_answers [OF session_ok_collecting [OF ok that(3) that(1) that(2)] assms(2,4,3,5)])
  then show ?thesis by (simp add: next_event_def Let_def res split: option.split)
qed

section \<open>The sample request, cancelled and answered\<close>

theorem stopped_request_ends_witness:
  "snd (next_event sample_engine sample_env [sample_answer] (cancel sample_session)) \<noteq> None
   \<and> is_finalized (fst (next_event sample_engine sample_env [sample_answer] (cancel sample_session)))"
proof -
  have "session_reachable sample_engine (cancel sample_session)"
    using session_reachable.step [OF sample_reachable(1), of CallCancel] by simp
  moreover have "must_stop (cancel sample_session) sample_answer" by (simp add: must_stop_def cancel_def)
  moreover have "\<not> se_delivery_pending (cancel sample_session)"
    by (simp add: cancel_def sample_session_def new_session_def with_concurrency_wait_budget_def)
  ultimately show ?thesis using stopped_request_ends by fastforce
qed

theorem retries_terminate_witness:
  "snd (next_event sample_engine sample_env (replicate 66 sample_answer) sample_session) \<noteq> None"
proof (rule retries_terminate [OF sample_reachable(1)])
  show "no_recovery_due sample_session"
    by (simp add: no_recovery_due_def sample_session_def new_session_def with_concurrency_wait_budget_def)
  show "se_max_attempts sample_session \<le> u32_max"
    by (simp add: sample_session_def new_session_def with_concurrency_wait_budget_def sample_routing_plan_def max_request_attempts_def)
  have "visible sample_answer"
    by (simp add: visible_def sample_answer_def provider_event_canonical_def take_observation_def has_client_event_def)
  then show "list_all visible (replicate 66 sample_answer)" by (simp add: list_all_length)
  show "effort sample_session < length (replicate 66 sample_answer)"
    by (simp add: effort_def sample_session_def new_session_def with_concurrency_wait_budget_def
        sample_routing_plan_def max_request_attempts_def initial_continuation_attempt_def)
qed

end
