(* ===== verification/ExecutionProps.thy ===== *)
theory ExecutionProps
  imports Execution CoordinatorProgress "HOL-Library.Sublist"
begin

text \<open>
  What \<open>engine/execution.rs\<close> guarantees: authentication by equality of the secret, a start that leaves
  no lease behind, settlement and release exactly once, circuit feedback exactly once, and that a
  request only ever uses accounts its key may use.
\<close>

section \<open>Authentication\<close>

lemma of_char_word_inj: "(of_char c :: 8 word) = of_char d \<Longrightarrow> c = d"
proof -
  assume "(of_char c :: 8 word) = of_char d"
  then have "unat (of_char c :: 8 word) = unat (of_char d :: 8 word)" by simp
  moreover have "unat (of_char e :: 8 word) = of_char e" for e :: char
  proof -
    have "(of_char e :: 8 word) = of_nat (of_char e)" by (simp only: of_char_of of_nat_of_char)
    moreover have "(of_char e :: nat) < 2 ^ LENGTH(8)" using nat_of_char_less_256 [of e] by simp
    ultimately show ?thesis by (simp add: unat_of_nat)
  qed
  ultimately show "c = d" by simp
qed

lemma differences_zero:
  "fold (\<lambda>(l, r) d. Bit_Operations.or d (Bit_Operations.xor (of_char l) (of_char r))) ps (d :: 8 word) = 0
     \<longleftrightarrow> d = 0 \<and> list_all (\<lambda>(l, r). l = r) ps"
proof (induction ps arbitrary: d)
  case Nil
  then show ?case by simp
next
  case (Cons p ps)
  obtain l r where p: "p = (l, r)" by (cases p)
  have or0: "Bit_Operations.or a b = 0 \<longleftrightarrow> a = 0 \<and> b = 0" for a b :: "8 word"
    by (auto simp: or_eq_0_iff)
  have xor0: "Bit_Operations.xor a b = 0 \<longleftrightarrow> a = b" for a b :: "8 word"
  proof
    assume "Bit_Operations.xor a b = 0"
    moreover have "b = Bit_Operations.xor a (Bit_Operations.xor a b)" by (simp flip: xor.assoc)
    ultimately show "a = b" by simp
  qed simp
  show ?case using of_char_word_inj [of l r] by (auto simp: p Cons.IH or0 xor0)
qed

lemma constant_time_equal_iff [simp]: "constant_time_equal left right \<longleftrightarrow> left = right"
  by (auto simp: constant_time_equal_def differences_zero list_all_length nth_equalityI list_eq_iff_nth_eq)

text \<open>
  C39. Authentication accepts a key exactly when the published snapshot holds an enabled policy with
  that very secret, and then freezes that policy with its snapshot; without a snapshot it fails
  closed. The comparison that does not stop at the first difference decides equality.
\<close>

theorem authentication_exact:
  "authenticate_without_usage env plaintext =
     (case sv_snapshot env of
        None \<Rightarrow> Inl SnapshotUnavailable
      | Some s \<Rightarrow>
          (case List.find (\<lambda>p. cp_enabled p \<and> expose_for_auth (cp_plaintext_key p) = plaintext)
                  (map snd (rt_client_policies s)) of
             None \<Rightarrow> Inl InvalidKey
           | Some p \<Rightarrow> Inr \<lparr>acl_snapshot = s, acl_policy = p\<rparr>))"
proof -
  have "List.find P (filter Q ps) = List.find (\<lambda>p. P p \<and> Q p) ps" for P Q and ps :: "frozen_account_scope client_policy list"
    by (induction ps) auto
  moreover have "\<not> isl (client_policy_authorize p) \<longleftrightarrow> cp_enabled p" for p :: "frozen_account_scope client_policy"
    by (simp add: client_policy_authorize_def)
  ultimately show ?thesis
    by (auto simp: authenticate_without_usage_def eq_commute [of plaintext] split: option.split)
qed

section \<open>A start leaves no lease behind\<close>

text \<open>
  Whether a lease may be held after the calls: an admission that was not seen to be rejected may have
  been granted.
\<close>

fun lease_open :: "bool \<Rightarrow> exec_effect list \<Rightarrow> bool" where
  "lease_open b [] = b"
| "lease_open b (EfAdmit _ (AdmitRejected _) # es) = lease_open b es"
| "lease_open b (EfAdmit _ _ # es) = lease_open True es"
| "lease_open b (EfAbandon _ _ # es) = lease_open False es"
| "lease_open b (EfRelease _ _ # es) = lease_open False es"
| "lease_open b (_ # es) = lease_open b es"

lemma lease_open_append [simp]: "lease_open b (xs @ ys) = lease_open (lease_open b xs) ys"
  by (induction b xs rule: lease_open.induct) auto

lemma lease_closing [simp]:
  "lease_open b (lease_abandon l) = False" "lease_open b (lease_release l) = False"
  by (simp_all add: lease_abandon_def lease_release_def)

lemma admission_lease_open:
  "\<not> lease_open False effects \<Longrightarrow>
     lease_open False (ar_effects (acquire_client_admission has_budget policy lease deadline rds effects budget q w))
       = (ar_outcome (acquire_client_admission has_budget policy lease deadline rds effects budget q w) = Proceeds ())"
proof (induction rds arbitrary: has_budget effects budget q w)
  case Nil
  then show ?case by simp
next
  case (Cons rd rds)
  show ?case
    using Cons.prems by (simp add: Let_def Cons.IH split: admit_reply.split option.split sum.split prod.split)
qed

lemma start_without_continuation_lease:
  "case start_without_continuation env client target op md rid deadline plan continuation of
     (effects, Proceeds x) \<Rightarrow>
       lease_open False effects
       \<and> mg_admission (sx_session x) =
           Some \<lparr>al_client_api_key_id = cp_key_id (acl_policy client), al_model_request_id = rid\<rparr>
   | (effects, _) \<Rightarrow> \<not> lease_open False effects"
proof -
  define adm where "adm = acquire_client_admission (sv_has_budget env) (acl_policy client)
      \<lparr>al_client_api_key_id = cp_key_id (acl_policy client), al_model_request_id = rid\<rparr> deadline (sv_admission env) [] None
      (sv_queue env) (capacity_wait_new (rt_client_queue_policy (acl_snapshot client)) deadline)"
  have held: "lease_open False (ar_effects adm) = (ar_outcome adm = Proceeds ())"
    using admission_lease_open [of "[]"] by (simp add: adm_def)
  show ?thesis
  proof (cases "ar_outcome adm")
    case (Proceeds u)
    then show ?thesis
      using held
      by (simp add: start_without_continuation_def Let_def adm_def [symmetric] managed_new_def
          split: sum.split start_result.split)
  qed (use held in \<open>simp_all add: start_without_continuation_def Let_def adm_def [symmetric]\<close>)
qed


lemma authenticate_effects: "authenticate env key = (used, auth) \<Longrightarrow> \<not> lease_open False used \<and> lease_open False (used @ es) = lease_open False es"
  by (auto simp: authenticate_def split: sum.splits)

text \<open>How far a start gets: it ends before the admission, or asks for one with a plan of its key's scope.\<close>

lemma start_inner_cases:
  obtains (early) used res where "start_inner_with_target env request = (used, res)" "\<not> lease_open False used"
      "res = GivenUp \<or> (\<exists>e. res = Refused e)"
    | (late) used client op c rid deadline plan effects res where
      "authenticate_without_usage env (expose_for_auth (cp_plaintext_key (acl_policy (pst_client request)))) = Inr client"
      "planned_for env client (pst_target request) (pst_operation request) = Inr plan"
      "start_without_continuation env client (pst_target request) op (pst_metadata request) rid deadline plan c = (effects, res)"
      "start_inner_with_target env request = (used @ effects, res)" "\<not> lease_open False used"
proof -
  obtain used auth where a: "authenticate env (expose_for_auth (cp_plaintext_key (acl_policy (pst_client request)))) = (used, auth)"
    by fastforce
  have used: "\<not> lease_open False used" using authenticate_effects [OF a] by simp
  note def = start_inner_with_target_def [of env request, unfolded a prod.case]
  show thesis
  proof (cases auth)
    case (Inl e)
    then have "\<exists>res. start_inner_with_target env request = (used, res) \<and> (res = GivenUp \<or> (\<exists>e. res = Refused e))"
      by (cases e) (simp_all add: def)
    then show thesis using used early by blast
  next
    case auth: (Inr client)
    have client: "authenticate_without_usage env (expose_for_auth (cp_plaintext_key (acl_policy (pst_client request)))) = Inr client"
      using a auth by (auto simp: authenticate_def split: sum.splits)
    show thesis
    proof (cases "planned_for env client (pst_target request) (pst_operation request)")
      case (Inl e)
      then have "\<exists>res. start_inner_with_target env request = (used, res) \<and> (res = GivenUp \<or> (\<exists>e. res = Refused e))"
        by (auto simp: def auth split: option.split sum.split)
      then show thesis using used early by blast
    next
      case plan: (Inr plan)
      define bound where "bound = continuation_for env (acl_policy client) plan (pst_operation request)
          (em_previous_response_id (pst_metadata request))"
      note eq = def [unfolded auth sum.case plan bound_def [symmetric]]
      show thesis
      proof (cases "\<exists>deadline rid op c. time_checked_add (sv_started_at env) model_request_deadline = Some deadline
          \<and> new_request_id (sv_uuid env) = Inr rid \<and> sv_gives_up env \<noteq> Some AtRoute \<and> bound = Proceeds (op, c)")
        case True
        then obtain deadline rid op c where t: "time_checked_add (sv_started_at env) model_request_deadline = Some deadline"
          "new_request_id (sv_uuid env) = Inr rid" "sv_gives_up env \<noteq> Some AtRoute" "bound = Proceeds (op, c)" by blast
        obtain effects res where r: "start_without_continuation env client (pst_target request) op
            (pst_metadata request) rid deadline plan c = (effects, res)" by fastforce
        have "start_inner_with_target env request = (used @ effects, res)"
          using t r by (simp add: eq)
        then show thesis by (rule late [OF client plan r _ used])
      next
        case False
        then have "\<exists>res. start_inner_with_target env request = (used, res) \<and> (res = GivenUp \<or> (\<exists>e. res = Refused e))"
          unfolding eq by (auto split: option.split sum.split outcome.split)
        then show thesis using used early by blast
      qed
    qed
  qed
qed


section \<open>Sessions in the hands of the API\<close>

text \<open>
  The calls on a session with the environment of the coordinator, the clock of the settlement and
  the number of port calls that complete before the caller drops the future.
\<close>

datatype managed_call =
    MNext env "round list" systime nat
  | MCollect env "round list" systime nat
  | MCommit env "nat option" systime nat
  | MStatus env nat systime nat
  | MCancel

text \<open>The session after the call, and whether the call was answered.\<close>

fun managed_step :: "engine \<Rightarrow> managed_call \<Rightarrow> managed \<Rightarrow> managed \<times> bool" where
  "managed_step eg (MNext r rs now n) m =
     (case managed_next_event eg r rs now n m of (m, res) \<Rightarrow> (m, res \<noteq> None))"
| "managed_step eg (MCollect r rs now n) m =
     (case managed_collect_uncommitted eg r rs now n m of (m, res) \<Rightarrow> (m, res \<noteq> None))"
| "managed_step eg (MCommit r status now n) m =
     (case managed_commit_downstream r status now n m of (m, res) \<Rightarrow> (m, res \<noteq> None))"
| "managed_step eg (MStatus r status now n) m =
     (case managed_record_client_status r status now n m of (m, res) \<Rightarrow> (m, res \<noteq> None))"
| "managed_step eg MCancel m = (managed_cancel m, True)"

definition lease_of :: "session \<Rightarrow> admission_lease" where
  "lease_of s =
     \<lparr>al_client_api_key_id = sf_client_api_key_ref (se_frame s), al_model_request_id = sf_request_id (se_frame s)\<rparr>"

text \<open>\<open>clean\<close> says that every call so far was answered; \<open>budget\<close> that the service has a budget port.\<close>

inductive managed_reachable :: "engine \<Rightarrow> bool \<Rightarrow> bool \<Rightarrow> managed \<Rightarrow> bool" for eg budget where
  start: "session_reachable eg s \<Longrightarrow> se_provider_attempt_outcomes s = [] \<Longrightarrow>
    managed_reachable eg budget True (managed_new s (lease_of s) budget)"
| step: "managed_reachable eg budget clean m \<Longrightarrow> managed_step eg call m = (m', answered) \<Longrightarrow>
    managed_reachable eg budget (clean \<and> answered) m'"

text \<open>A call is a call of the coordinator followed by its tail, or by nothing.\<close>

fun core_call :: "managed_call \<Rightarrow> api_call" where
  "core_call (MNext r rs now n) = CallNext r rs"
| "core_call (MCollect r rs now n) = CallCollect r rs"
| "core_call (MCommit r status now n) = CallCommit r status"
| "core_call (MStatus r status now n) = CallStatus r status"
| "core_call MCancel = CallCancel"

lemma managed_step_cases:
  assumes "managed_step eg call m = (m', answered)"
  obtains (plain) "m' = m\<lparr>mg_core := api_step eg (core_call call) (mg_core m)\<rparr>" "answered \<longrightarrow> call = MCancel"
    | (tail) now n state k l where
      "record_continuation n state (m\<lparr>mg_core := api_step eg (core_call call) (mg_core m)\<rparr>) = (k, l)"
      "call_tail now l k = (m', answered)"
    | (direct) now n where
      "call_tail now (Some n) (m\<lparr>mg_core := api_step eg (core_call call) (mg_core m)\<rparr>) = (m', answered)"
proof (cases call)
  case (MNext r rs now n)
  obtain core res where c: "next_event eg r rs (mg_core m) = (core, res)" by fastforce
  show thesis
  proof (cases res)
    case None
    then show thesis using assms c by (intro plain) (auto simp: MNext managed_next_event_def)
  next
    case (Some x)
    show thesis
    proof (cases "\<exists>event. x = Inr (Some event)")
      case True
      then obtain event where x: "x = Inr (Some event)" by blast
      obtain k l where r: "record_continuation n (coordinated_session_update event) (m\<lparr>mg_core := core\<rparr>) = (k, l)"
        by fastforce
      show thesis
        using assms c r by (intro tail [of n "coordinated_session_update event" k l now])
          (auto simp: MNext managed_next_event_def Some x Let_def split: prod.splits if_splits)
    next
      case False
      then show thesis
        using assms c by (intro direct [of now n])
          (auto simp: MNext managed_next_event_def Some Let_def split: prod.splits if_splits sum.splits option.splits)
    qed
  qed
next
  case (MCollect r rs now n)
  obtain core res where c: "collect_uncommitted eg r rs (mg_core m) = (core, res)" by fastforce
  show thesis
  proof (cases res)
    case None
    then show thesis using assms c by (intro plain) (auto simp: MCollect managed_collect_uncommitted_def)
  next
    case (Some x)
    show thesis
    proof (cases x)
      case (Inr events)
      let ?st = "Option.bind (List.find (\<lambda>e. pe_session_update e \<noteq> None) events) pe_session_update"
      obtain k l where r: "record_continuation n ?st (m\<lparr>mg_core := core\<rparr>) = (k, l)"
        by fastforce
      show thesis
        using assms c r by (intro tail [of n ?st k l now])
          (auto simp: MCollect managed_collect_uncommitted_def Some Inr Let_def split: prod.splits if_splits)
    next
      case (Inl e)
      then show thesis
        using assms c by (intro direct [of now n])
          (auto simp: MCollect managed_collect_uncommitted_def Some Let_def split: prod.splits if_splits)
    qed
  qed
next
  case (MCommit r status now n)
  then show thesis
    using assms by (intro direct [of now n])
      (auto simp: managed_commit_downstream_def Let_def split: prod.splits if_splits)
next
  case (MStatus r status now n)
  then show thesis
    using assms by (intro direct [of now n])
      (auto simp: managed_record_client_status_def Let_def split: prod.splits if_splits)
next
  case MCancel
  then show thesis using assms by (intro plain) (auto simp: managed_cancel_def)
qed

section \<open>The settlement\<close>

fun is_money :: "exec_effect \<Rightarrow> bool" where
  "is_money (EfSettle _) = True"
| "is_money (EfRelease _ _) = True"
| "is_money (EfAbandon _ _) = True"
| "is_money _ = False"

definition bill :: "bool \<Rightarrow> session \<Rightarrow> exec_effect list" where
  "bill budget s = (if budget then [EfSettle (budget_charge 0 s)] else []) @ lease_release (lease_of s)"

definition settled_so_far :: "managed \<Rightarrow> exec_effect list" where
  "settled_so_far m = filter is_money (mg_effects m)"

definition settlement_ok :: "bool \<Rightarrow> managed \<Rightarrow> bool" where
  "settlement_ok budget m =
     (session_ok (mg_core m)
      \<and> (case mg_admission m of
           Some l \<Rightarrow> l = lease_of (mg_core m) \<and> mg_cleanup m = None \<and> settled_so_far m = [] \<and> mg_budget m = budget
         | None \<Rightarrow> is_finalized (mg_core m) \<and> mg_cleanup m \<noteq> Some []
             \<and> settled_so_far m @ map cleanup_effect (unwrap_or [] (mg_cleanup m)) = bill budget (mg_core m)))"

lemma finalized_stamped: "session_ok s \<Longrightarrow> is_finalized s \<Longrightarrow> se_finalized_at s \<noteq> None"
  by (simp add: session_ok_def log_closed_def)

text \<open>Nothing changes the charge of a request that is over.\<close>

lemma finalized_charge:
  assumes "session_ok s" "is_finalized s"
  shows "budget_charge now (api_step eg call s) = budget_charge now s"
proof -
  have r: "resume_finalization r s = s" for r :: env by (simp add: assms)
  have np: "\<not> se_delivery_pending s" using assms by (simp add: session_ok_def)
  have f: "finish_failure r ff t = t" if "is_finalized t" for r :: env and ff t using that by (simp add: finish_failure_def)
  have e: "budget_charge now (finish_provider_error_with_send_state r error st (s\<lparr>se_pending_terminal_failure := None\<rparr>))
      = budget_charge now s" for r :: env and error st
  proof -
    have "is_finalized (raise_send_watermark st (s\<lparr>se_pending_terminal_failure := None\<rparr>))"
      using assms(2) by (simp add: is_finalized_def raise_send_watermark_def)
    then show ?thesis
      by (simp add: finish_provider_error_with_send_state_def Let_def f)
         (simp add: raise_send_watermark_def budget_charge_def budget_attempt_usd_def)
  qed
  show ?thesis
  proof (cases call)
    case (CallNext r rs)
    then show ?thesis
      using assms np by (simp add: next_event_def Let_def r e split: option.split)
  next
    case (CallCollect r rs)
    then show ?thesis using assms np by (simp add: collect_uncommitted_def Let_def r)
  next
    case (CallCommit r status)
    then show ?thesis using assms by (simp add: commit_downstream_def)
  next
    case (CallStatus r status)
    then show ?thesis
      by (simp add: record_client_status_def Let_def store_write_def budget_charge_def budget_attempt_usd_def)
  next
    case CallCancel
    then show ?thesis by (simp add: cancel_def budget_charge_def budget_attempt_usd_def)
  next
    case (CallCancelAndFinalize c)
    have "resume_finalization c (cancel s) = cancel s"
      using assms(2) by (simp add: resume_finalization_def cancel_def is_finalized_def)
    then have "cancel_and_finalize c s = cancel s"
      using assms(2) by (simp add: cancel_and_finalize_def Let_def cancel_def is_finalized_def)
    then show ?thesis by (simp add: CallCancelAndFinalize cancel_def budget_charge_def budget_attempt_usd_def)
  qed
qed

lemma settlement_core_step:
  assumes "settlement_ok budget m"
  shows "settlement_ok budget (m\<lparr>mg_core := api_step eg call (mg_core m)\<rparr>)"
proof -
  have ok: "session_ok (mg_core m)" using assms by (simp add: settlement_ok_def)
  have cp: "call_post (mg_core m) (api_step eg call (mg_core m))" by (rule api_step_ok [OF ok])
  then have fr: "lease_of (api_step eg call (mg_core m)) = lease_of (mg_core m)"
    by (simp add: call_post_def lease_of_def)
  have fin: "bill budget (api_step eg call (mg_core m)) = bill budget (mg_core m)" if "is_finalized (mg_core m)"
    using finalized_charge [OF ok that] by (simp add: bill_def fr)
  show ?thesis
    using assms cp fr fin
    by (auto simp: settlement_ok_def call_post_def settled_so_far_def split: option.splits)
qed

lemma settlement_keeps:
  assumes "settlement_ok budget m" "mg_core k = mg_core m" "mg_admission k = mg_admission m"
    "mg_cleanup k = mg_cleanup m" "mg_budget k = mg_budget m" "settled_so_far k = settled_so_far m"
  shows "settlement_ok budget k"
  using assms by (simp add: settlement_ok_def split: option.splits)

lemma circuits_no_money: "filter is_money (take n (publish_provider_attempt_outcomes os)) = []"
proof -
  have "e \<in> set (publish_provider_attempt_outcomes os) \<Longrightarrow> \<not> is_money e" for e
    by (auto simp: publish_provider_attempt_outcomes_def circuit_feedback_def split: option.splits if_splits)
  then show ?thesis by (auto simp: filter_empty_conv dest: in_set_takeD)
qed

lemma observe_keeps_settlement:
  "settlement_ok budget m \<Longrightarrow> observe_provider_outcomes n m = (k, l) \<Longrightarrow> settlement_ok budget k"
  by (erule settlement_keeps)
     (auto simp: observe_provider_outcomes_def Let_def settled_so_far_def circuits_no_money)

lemma record_keeps_settlement:
  "settlement_ok budget m \<Longrightarrow> record_continuation n st m = (k, l) \<Longrightarrow> settlement_ok budget k"
  by (erule settlement_keeps)
     (auto simp: record_continuation_def Let_def settled_so_far_def split: if_splits option.splits)

lemma budget_charge_stamped: "se_finalized_at s \<noteq> None \<Longrightarrow> budget_charge now s = budget_charge 0 s"
  by (auto simp: budget_charge_def)

lemma cleanup_money: "filter is_money (map cleanup_effect steps) = map cleanup_effect steps"
proof -
  have "is_money (cleanup_effect x)" for x by (cases x) simp_all
  then show ?thesis by (simp add: filter_map o_def)
qed

lemma settlement_handover:
  assumes ok: "settlement_ok budget m" and fin: "is_finalized (mg_core m)" and l: "mg_admission m = Some lease"
  shows "settlement_ok budget (m\<lparr>mg_admission := None, mg_budget := False,
           mg_cleanup := Some ((if mg_budget m then [SettleStep (budget_charge now (mg_core m))] else []) @ [ReleaseStep lease])\<rparr>)"
proof -
  have "session_ok (mg_core m)" "settled_so_far m = []" "lease = lease_of (mg_core m)" "mg_budget m = budget"
    using ok l by (simp_all add: settlement_ok_def)
  then show ?thesis
    using fin budget_charge_stamped [OF finalized_stamped, of "mg_core m" now]
    by (simp add: settlement_ok_def settled_so_far_def bill_def lease_release_def)
qed

lemma settlement_progress:
  assumes ok: "settlement_ok budget m" and c: "mg_cleanup m = Some steps"
  shows "settlement_ok budget (m\<lparr>mg_effects := mg_effects m @ map cleanup_effect (take n steps),
           mg_cleanup := (if length steps \<le> n then None else Some (drop n steps))\<rparr>)"
proof -
  have none: "mg_admission m = None" using ok c by (simp add: settlement_ok_def split: option.splits)
  have "map cleanup_effect (take n steps) @ map cleanup_effect (drop n steps) = map cleanup_effect steps"
    by (simp flip: map_append)
  then show ?thesis
    using ok none c by (simp add: settlement_ok_def settled_so_far_def cleanup_money)
qed

definition over_to_cleanup :: "systime \<Rightarrow> managed \<Rightarrow> managed" where
  "over_to_cleanup now m = (if is_finalized (mg_core m) then
                 (case mg_admission m of
                    None \<Rightarrow> m
                  | Some lease \<Rightarrow>
                      m\<lparr>mg_admission := None, mg_budget := False,
                        mg_cleanup := Some ((if mg_budget m then [SettleStep (budget_charge now (mg_core m))] else [])
                          @ [ReleaseStep lease])\<rparr>)
               else m)"

lemma settle_cases:
  assumes "settle_if_finalized now n m = (k, l)"
  obtains (idle) "mg_cleanup (over_to_cleanup now m) = None" "k = over_to_cleanup now m" "l = Some n"
    | (busy) steps where "mg_cleanup (over_to_cleanup now m) = Some steps"
        "k = (over_to_cleanup now m)\<lparr>mg_effects := mg_effects m @ map cleanup_effect (take n steps),
               mg_cleanup := (if length steps \<le> n then None else Some (drop n steps))\<rparr>"
        "l = (if length steps \<le> n then Some (n - length steps) else None)"
proof -
  note eq = assms [unfolded settle_if_finalized_def Let_def, folded over_to_cleanup_def]
  have "mg_effects (over_to_cleanup now m) = mg_effects m"
    by (simp add: over_to_cleanup_def split: option.split)
  then show ?thesis
    using that eq by (cases "mg_cleanup (over_to_cleanup now m)") (auto split: if_splits)
qed

lemma over_to_cleanup_keeps [simp]:
  "mg_core (over_to_cleanup now m) = mg_core m" "mg_observed (over_to_cleanup now m) = mg_observed m"
  "mg_effects (over_to_cleanup now m) = mg_effects m"
  by (simp_all add: over_to_cleanup_def split: option.split)

lemma settle_settlement:
  assumes ok: "settlement_ok budget m" and s: "settle_if_finalized now n m = (k, l)"
  shows "settlement_ok budget k"
proof -
  have ok1: "settlement_ok budget (over_to_cleanup now m)"
  proof (cases "is_finalized (mg_core m) \<and> mg_admission m \<noteq> None")
    case True
    then obtain lease where "mg_admission m = Some lease" "is_finalized (mg_core m)" by blast
    then show ?thesis
      using settlement_handover [OF ok, of lease now] by (simp only: over_to_cleanup_def option.case if_True)
  next
    case False
    then have "over_to_cleanup now m = m" by (auto simp: over_to_cleanup_def)
    then show ?thesis using ok by simp
  qed
  from s show ?thesis
    by (cases rule: settle_cases) (use ok1 settlement_progress [OF ok1, of _ n] in simp_all)
qed

lemma tail_settlement:
  "settlement_ok budget m \<Longrightarrow> call_tail now n m = (k, b) \<Longrightarrow> settlement_ok budget k"
  by (auto simp: call_tail_def split: option.splits prod.splits
      dest: observe_keeps_settlement settle_settlement)

lemma managed_settlement: "managed_reachable eg budget clean m \<Longrightarrow> settlement_ok budget m"
proof (induction rule: managed_reachable.induct)
  case (start s)
  then show ?case
    by (simp add: settlement_ok_def managed_new_def settled_so_far_def session_reachable_ok)
next
  case (step clean m call m' answered)
  note core = settlement_core_step [OF step.IH, of eg "core_call call"]
  from step.hyps(2) show ?case
    by (cases rule: managed_step_cases) (use core in \<open>auto dest: record_keeps_settlement tail_settlement\<close>)
qed

text \<open>
  C2. Every request is settled exactly once, whatever calls its caller drops: before the request is
  over nothing is charged and its lease is held; afterwards the store is told its final charge and
  then the lease is released, in that order and never twice, and the session reports itself
  finalized exactly when both are done.
\<close>

theorem settlement_exactly_once:
  assumes "managed_reachable eg budget clean m"
  shows "prefix (settled_so_far m) (bill budget (mg_core m))
     \<and> (if is_finalized (mg_core m) then True else settled_so_far m = [] \<and> mg_admission m \<noteq> None)
     \<and> managed_is_finalized m = (is_finalized (mg_core m) \<and> settled_so_far m = bill budget (mg_core m))"
proof -
  have ok: "settlement_ok budget m" by (rule managed_settlement [OF assms])
  have ne: "bill budget (mg_core m) \<noteq> []" by (simp add: bill_def lease_release_def)
  show ?thesis
  proof (cases "mg_admission m")
    case None
    then show ?thesis
      using ok by (cases "mg_cleanup m")
        (auto simp: settlement_ok_def managed_is_finalized_def prefix_def intro: sym)
  next
    case (Some l)
    then show ?thesis using ok ne by (auto simp: settlement_ok_def managed_is_finalized_def)
  qed
qed


section \<open>Feedback to the provider circuits\<close>

fun is_circuit :: "exec_effect \<Rightarrow> bool" where
  "is_circuit (EfCircuitSuccess _) = True"
| "is_circuit (EfCircuitFailure _) = True"
| "is_circuit _ = False"

definition circuits_told :: "managed \<Rightarrow> exec_effect list" where
  "circuits_told m = filter is_circuit (mg_effects m)"

abbreviation outcomes_of :: "managed \<Rightarrow> provider_attempt_outcome list" where
  "outcomes_of m \<equiv> se_provider_attempt_outcomes (mg_core m)"

definition told_ok :: "bool \<Rightarrow> managed \<Rightarrow> bool" where
  "told_ok clean m =
     (session_ok (mg_core m) \<and> mg_observed m \<le> length (outcomes_of m)
      \<and> subseq (circuits_told m) (publish_provider_attempt_outcomes (take (mg_observed m) (outcomes_of m)))
      \<and> (if clean then circuits_told m = publish_provider_attempt_outcomes (take (mg_observed m) (outcomes_of m)) else True))"

definition all_observed :: "managed \<Rightarrow> bool" where
  "all_observed m = (mg_observed m = length (outcomes_of m))"

lemma publish_append [simp]:
  "publish_provider_attempt_outcomes (xs @ ys) = publish_provider_attempt_outcomes xs @ publish_provider_attempt_outcomes ys"
  by (simp add: publish_provider_attempt_outcomes_def)

lemma published_circuits: "filter is_circuit (take n (publish_provider_attempt_outcomes os)) = take n (publish_provider_attempt_outcomes os)"
proof -
  have "e \<in> set (publish_provider_attempt_outcomes os) \<Longrightarrow> is_circuit e" for e
    by (auto simp: publish_provider_attempt_outcomes_def circuit_feedback_def split: option.splits if_splits)
  then show ?thesis by (auto simp: filter_id_conv dest: in_set_takeD)
qed

lemma told_grows:
  assumes "told_ok clean m" "session_ok s" "se_provider_attempt_outcomes s = outcomes_of m @ later"
  shows "told_ok clean (m\<lparr>mg_core := s\<rparr>)"
  using assms unfolding told_ok_def circuits_told_def by (cases clean) simp_all

lemma told_core_step:
  assumes "told_ok clean m"
  shows "told_ok clean (m\<lparr>mg_core := api_step eg call (mg_core m)\<rparr>)"
proof -
  have cp: "call_post (mg_core m) (api_step eg call (mg_core m))"
    using assms by (intro api_step_ok) (simp add: told_ok_def)
  then obtain later where "se_provider_attempt_outcomes (api_step eg call (mg_core m)) = outcomes_of m @ later"
    by (auto simp: call_post_def prefix_def)
  moreover have "session_ok (api_step eg call (mg_core m))" using cp by (simp add: call_post_def)
  ultimately show ?thesis using told_grows [OF assms] by blast
qed

lemma told_keeps:
  assumes "told_ok clean m" "mg_core k = mg_core m" "mg_observed k = mg_observed m" "circuits_told k = circuits_told m"
  shows "told_ok clean k" "all_observed k = all_observed m"
  using assms by (simp_all add: told_ok_def all_observed_def)

lemma record_keeps:
  "record_continuation n st m = (k, l) \<Longrightarrow>
     mg_core k = mg_core m \<and> mg_observed k = mg_observed m \<and> circuits_told k = circuits_told m"
  by (auto simp: record_continuation_def Let_def circuits_told_def split: if_splits option.splits)

lemma no_circuit_cleanup [simp]: "\<not> is_circuit (cleanup_effect x)"
  by (cases x) simp_all

lemma no_circuits_in_cleanup: "filter is_circuit (xs @ map cleanup_effect steps) = filter is_circuit xs"
  by (simp add: filter_map o_def)

lemma settle_keeps:
  assumes "settle_if_finalized now n m = (k, l)"
  shows "mg_core k = mg_core m \<and> mg_observed k = mg_observed m \<and> circuits_told k = circuits_told m"
  using assms
  by (cases rule: settle_cases) (simp_all add: circuits_told_def no_circuits_in_cleanup del: filter_append)

lemma observe_told:
  assumes ok: "told_ok clean m" and o: "observe_provider_outcomes n m = (k, l)"
  shows "told_ok (clean \<and> l \<noteq> None) k" "all_observed k"
proof -
  define os where "os = outcomes_of m"
  define calls where "calls = publish_provider_attempt_outcomes (drop (mg_observed m) os)"
  note eq = o [unfolded observe_provider_outcomes_def Let_def, folded os_def, folded calls_def]
  have k: "k = m\<lparr>mg_observed := length os, mg_effects := mg_effects m @ take n calls\<rparr>"
    and l: "l \<noteq> None \<longleftrightarrow> length calls \<le> n"
    using eq by (auto split: if_splits)
  have told: "circuits_told k = circuits_told m @ take n calls"
    by (simp add: k circuits_told_def calls_def published_circuits)
  have all: "publish_provider_attempt_outcomes os = publish_provider_attempt_outcomes (take (mg_observed m) os) @ calls"
    unfolding calls_def by (simp flip: publish_append)
  have "subseq (take n calls) calls" by (simp add: prefix_imp_subseq take_is_prefix)
  then have "subseq (circuits_told k) (publish_provider_attempt_outcomes os)"
    unfolding told all using ok by (intro list_emb_append_mono) (simp_all add: told_ok_def os_def)
  moreover have "circuits_told k = publish_provider_attempt_outcomes os" if "clean" "length calls \<le> n"
    using that ok told all by (simp add: told_ok_def os_def)
  ultimately show "told_ok (clean \<and> l \<noteq> None) k"
    using ok l unfolding told_ok_def by (simp add: k os_def)
  show "all_observed k" by (simp add: all_observed_def k os_def)
qed

lemma tail_told:
  assumes "told_ok clean m" and t: "call_tail now n m = (k, answered)"
  shows "told_ok (clean \<and> answered) k" "answered \<Longrightarrow> all_observed k"
proof -
  have weak: "told_ok b m \<Longrightarrow> told_ok False m" for b m by (simp add: told_ok_def)
  show "told_ok (clean \<and> answered) k" and "answered \<Longrightarrow> all_observed k"
  proof (atomize (full), cases n)
    case None
    then show "told_ok (clean \<and> answered) k \<and> (answered \<longrightarrow> all_observed k)"
      using t weak [OF assms(1)] by (auto simp: call_tail_def)
  next
    case (Some a)
    obtain p q where o: "observe_provider_outcomes a m = (p, q)" by fastforce
    note told = observe_told [OF assms(1) o]
    show "told_ok (clean \<and> answered) k \<and> (answered \<longrightarrow> all_observed k)"
    proof (cases q)
      case None
      then show ?thesis using t told Some o weak by (auto simp: call_tail_def)
    next
      case q: (Some b)
      obtain u v where s: "settle_if_finalized now b p = (u, v)" by fastforce
      have k: "k = u" "answered = (v \<noteq> None)" using t Some o q s by (auto simp: call_tail_def)
      note keep = settle_keeps [OF s]
      have "told_ok clean u" "all_observed u"
        using told_keeps [of clean p u] keep told q by simp_all
      then show ?thesis using k weak [of clean u] by (cases "v = None") auto
    qed
  qed
qed

lemma managed_told:
  "managed_reachable eg budget clean m \<Longrightarrow> told_ok clean m \<and> (if clean then all_observed m else True)"
proof (induction rule: managed_reachable.induct)
  case (start s)
  then show ?case
    by (simp add: told_ok_def all_observed_def managed_new_def circuits_told_def session_reachable_ok
        publish_provider_attempt_outcomes_def)
next
  case (step clean m call m' answered)
  have core: "told_ok clean (m\<lparr>mg_core := api_step eg (core_call call) (mg_core m)\<rparr>)"
    using told_core_step step.IH by blast
  from step.hyps(2) show ?case
  proof (cases rule: managed_step_cases)
    case plain
    have "told_ok b m \<Longrightarrow> told_ok False m" for b m by (simp add: told_ok_def)
    moreover have "all_observed m'" if "clean" "answered"
      using that plain step.IH by (simp add: all_observed_def cancel_def)
    ultimately show ?thesis using core plain by (cases answered) auto
  next
    case (tail now n state k l)
    have "told_ok clean k" using told_keeps(1) [OF core] record_keeps [OF tail(1)] by simp
    from tail_told [OF this tail(2)] show ?thesis by auto
  next
    case (direct now n)
    from tail_told [OF core direct] show ?thesis by auto
  qed
qed

text \<open>
  C38. The circuits hear of every provider call at most once and in order, whatever calls the caller
  drops; when no call was dropped they have heard of all of them: a success for each call that
  succeeded and a failure for each whose error is the provider's fault.
\<close>

theorem circuit_feedback_exact:
  assumes "managed_reachable eg budget clean m"
  shows "subseq (circuits_told m) (publish_provider_attempt_outcomes (outcomes_of m))
     \<and> (if clean then circuits_told m = publish_provider_attempt_outcomes (outcomes_of m) else True)"
proof -
  note ok = managed_told [OF assms]
  have "subseq (publish_provider_attempt_outcomes (take (mg_observed m) (outcomes_of m)))
      (publish_provider_attempt_outcomes (take (mg_observed m) (outcomes_of m) @ drop (mg_observed m) (outcomes_of m)))"
    unfolding publish_append by (rule prefix_imp_subseq) simp
  then have "subseq (circuits_told m) (publish_provider_attempt_outcomes (outcomes_of m))"
    using ok by (auto simp: told_ok_def intro: subseq_order.trans)
  then show ?thesis using ok by (auto simp: told_ok_def all_observed_def split: if_splits)
qed

section \<open>Detached sessions\<close>

text \<open>
  C37. A session that is detached comes to its end: whatever was going on, its request is finalized,
  and with an allowance for the outstanding calls it is settled and released completely.
\<close>

theorem detached_session_ends:
  assumes "managed_reachable eg budget clean m"
    and "length (publish_provider_attempt_outcomes (drop (mg_observed m)
           (se_provider_attempt_outcomes (cancel_and_finalize (r :: env) (mg_core m))))) + 2 \<le> n"
  shows "is_finalized (mg_core (detach_finalize r now n m))
     \<and> settled_so_far (detach_finalize r now n m) = bill budget (mg_core (detach_finalize r now n m))"
proof -
  define c where "c = m\<lparr>mg_core := cancel_and_finalize r (mg_core m)\<rparr>"
  define calls where "calls = publish_provider_attempt_outcomes (drop (mg_observed m) (outcomes_of c))"
  have ok: "settlement_ok budget c"
    using settlement_core_step [OF managed_settlement [OF assms(1)], of eg "CallCancelAndFinalize r"] by (simp add: c_def)
  have "session_ok (mg_core m)" using managed_settlement [OF assms(1)] by (simp add: settlement_ok_def)
  then have fin: "is_finalized (mg_core c)" by (simp add: c_def cancel_and_finalize_ok)
  define p where "p = c\<lparr>mg_observed := length (outcomes_of c), mg_effects := mg_effects c @ take n calls\<rparr>"
  have len: "length calls + 2 \<le> n" using assms(2) by (simp add: calls_def c_def)
  have o: "observe_provider_outcomes n c = (p, Some (n - length calls))"
    using len by (simp add: observe_provider_outcomes_def Let_def p_def calls_def c_def)
  note okp = observe_keeps_settlement [OF ok o]
  obtain u v where s: "settle_if_finalized now (n - length calls) p = (u, v)" by fastforce
  note oku = settle_settlement [OF okp s]
  have core: "mg_core u = mg_core c" using settle_keeps [OF s] by (simp add: p_def)
  have "length steps \<le> 2" if "mg_cleanup p = Some steps" for steps
  proof -
    have "length (map cleanup_effect steps) \<le> length (bill budget (mg_core p))"
      using okp that by (auto simp: settlement_ok_def split: option.splits) (metis length_append length_map le_add2)
    then show ?thesis by (simp add: bill_def lease_release_def split: if_splits)
  qed
  then have over: "mg_admission u = None \<and> mg_cleanup u = None"
    using s len fin okp
    by (auto simp: settle_if_finalized_def Let_def p_def settlement_ok_def split: if_splits option.splits)
  then have bill: "settled_so_far u = bill budget (mg_core u)" using oku by (simp add: settlement_ok_def)
  have d: "detach_finalize r now n m = managed_drop u"
    using o s by (simp add: detach_finalize_def call_tail_def c_def [symmetric])
  have "mg_core (managed_drop u) = cancel (mg_core u)" "settled_so_far (managed_drop u) = settled_so_far u"
    using over by (simp_all add: managed_drop_def held_leases_def settled_so_far_def)
  moreover have "bill budget (cancel s) = bill budget s" "is_finalized (cancel s) = is_finalized s" for s
    by (simp_all add: bill_def cancel_def budget_charge_def budget_attempt_usd_def lease_of_def is_finalized_def)
  ultimately show ?thesis using d bill fin core by simp
qed


section \<open>From the facts to the provider calls\<close>

definition managed_run :: "engine \<Rightarrow> managed_call list \<Rightarrow> managed \<Rightarrow> managed" where
  "managed_run eg calls m = fold (\<lambda>call m. fst (managed_step eg call m)) calls m"

lemma tail_keeps_core: "call_tail now n m = (k, b) \<Longrightarrow> mg_core k = mg_core m"
  by (auto simp: call_tail_def observe_provider_outcomes_def Let_def split: option.splits prod.splits if_splits
      dest: settle_keeps)

lemma managed_step_core:
  assumes "managed_step eg call m = (m', answered)"
  shows "mg_core m' = api_step eg (core_call call) (mg_core m)"
  using assms
proof (cases rule: managed_step_cases)
  case plain
  then show ?thesis by simp
next
  case (tail now n state k l)
  then show ?thesis using tail_keeps_core record_keeps by fastforce
next
  case (direct now n)
  then show ?thesis using tail_keeps_core by fastforce
qed

lemma managed_run_core:
  "mg_core (managed_run eg calls m) = fold (\<lambda>call s. api_step eg (core_call call) s) calls (mg_core m)"
proof (induction calls arbitrary: m)
  case (Cons call calls)
  obtain m' b where m': "managed_step eg call m = (m', b)" by fastforce
  then show ?case using Cons [of m'] managed_step_core [OF m'] by (simp add: managed_run_def)
qed (simp add: managed_run_def)

lemma api_run_keeps:
  "session_ok s \<Longrightarrow> session_ok (fold (\<lambda>call s. api_step eg (core_call call) s) calls s)
     \<and> se_frame (fold (\<lambda>call s. api_step eg (core_call call) s) calls s) = se_frame s"
proof (induction calls arbitrary: s)
  case (Cons call calls)
  then show ?case using api_step_ok [OF Cons.prems, of eg "core_call call"] by (simp add: call_post_def)
qed simp

text \<open>The sessions a start hands out are those the properties of the coordinator speak of.\<close>

lemma started_session:
  assumes "start_without_continuation env client target op md rid deadline plan c = (effects, Proceeds x)"
  obtains s where "sx_session x = managed_new s (lease_of s) (sv_has_budget env)" "session_reachable eg s"
    "sf_plan (se_frame s) = plan" "sf_account_selection (se_frame s) = Scheduled None"
    "se_provider_attempt_outcomes s = []"
proof -
  define lease where "lease = \<lparr>al_client_api_key_id = cp_key_id (acl_policy client), al_model_request_id = rid\<rparr>"
  obtain request core b where s: "start_session (sv_core env) False request op plan None c = Started core"
    and x: "sx_session x = managed_new (with_concurrency_wait_budget b core) lease (sv_has_budget env)"
    and r: "nmr_id request = rid" "nmr_client_api_key_ref request = cp_key_id (acl_policy client)"
    using assms
    by (auto simp: start_without_continuation_def Let_def lease_def request_record_def
        split: outcome.splits if_splits sum.splits start_result.splits)
  let ?s = "with_concurrency_wait_budget b core"
  have "\<exists>i. core = new_session request op plan (Scheduled None) c False (en_mono (sv_core env) 1) i"
    using s by (auto simp: start_session_def start_with_account_selection_def Let_def split: option.splits if_splits)
  then have f: "sf_plan (se_frame ?s) = plan" "sf_account_selection (se_frame ?s) = Scheduled None"
      "se_provider_attempt_outcomes ?s = []" "lease_of ?s = lease"
    by (auto simp: with_concurrency_wait_budget_def new_session_def lease_of_def lease_def r)
  moreover have "session_reachable eg ?s"
    using s unfolding start_session_def by (rule session_reachable.start)
  ultimately show thesis using that [of ?s] x by simp
qed

lemma planned_candidates_scope:
  assumes "planned_for env client target op = Inr plan" "c \<in> set (rp_candidates plan)"
  shows "pc_account_scope c = cp_account_scope (acl_policy client)"
proof (cases target)
  case (TargetProviderEndpoint k)
  then show ?thesis
    using assms
    by (auto simp: planned_for_def Let_def plan_provider_endpoint_def freeze_plan_def plan_candidate_def split: if_splits)
next
  case (TargetModel model)
  have scope: "candidate_of s model req scope ctx k = Some c \<Longrightarrow> pc_account_scope c = scope" for s req scope ctx k
    by (auto simp: candidate_of_def plan_candidate_def split: if_splits sum.splits)
  from assms obtain k where "candidate_of (acl_snapshot client) model (operation_requirements op)
      (cp_account_scope (acl_policy client))
      (route_context env (frozen_provider_kinds (cp_account_scope (acl_policy client)))) k = Some c"
    by (auto simp: TargetModel planned_for_def Let_def plan_request_def consider_run freeze_plan_def
        List.map_filter_def split: if_splits)
  then show ?thesis by (rule scope)
qed

lemma find_mem: "List.find P xs = Some x \<Longrightarrow> x \<in> set xs"
  by (auto simp: find_Some_iff)

lemma authenticated_policy:
  assumes "authenticate_without_usage env key = Inr client"
  shows "sv_snapshot env = Some (acl_snapshot client)"
    and "\<exists>k. (k, acl_policy client) \<in> set (rt_client_policies (acl_snapshot client))"
    and "expose_for_auth (cp_plaintext_key (acl_policy client)) = key"
proof -
  from assms obtain s p where s: "sv_snapshot env = Some s"
    and f: "List.find (\<lambda>policy. \<not> isl (client_policy_authorize policy))
          (filter (\<lambda>policy. constant_time_equal key (expose_for_auth (cp_plaintext_key policy)))
            (map snd (rt_client_policies s))) = Some p"
    and c: "client = \<lparr>acl_snapshot = s, acl_policy = p\<rparr>"
    by (auto simp: authenticate_without_usage_def split: option.splits)
  from f have "p \<in> set (filter (\<lambda>policy. constant_time_equal key (expose_for_auth (cp_plaintext_key policy)))
            (map snd (rt_client_policies s)))"
    by (rule find_mem)
  then show "sv_snapshot env = Some (acl_snapshot client)"
    "\<exists>k. (k, acl_policy client) \<in> set (rt_client_policies (acl_snapshot client))"
    "expose_for_auth (cp_plaintext_key (acl_policy client)) = key"
    using s c by (auto simp: constant_time_equal_iff)
qed

text \<open>
  C1. From the configuration to the provider calls: whatever the routing, the retries and the order
  of the caller's calls, every call a request made for a client key of a compiled snapshot used an
  account which the persisted facts let a key with that secret use.
\<close>

theorem request_uses_allowed_accounts:
  assumes "compile_runtime_snapshot semver facts catalogs kinds = Inr snapshot"
    and "sv_snapshot env = Some snapshot"
    and "start_inner_with_target env request = (effects, Proceeds x)"
  shows "\<exists>p \<in> set (sn_client_policies facts).
           scp_plaintext_key p = cp_plaintext_key (acl_policy (pst_client request))
           \<and> list_all (\<lambda>rec. opt_any (key_may_use facts p) (ar_provider_account_id rec))
               (logged_attempts (se_log (mg_core (managed_run eg calls (sx_session x)))))"
proof (cases rule: start_inner_cases [of env request])
  case (early used res)
  then show ?thesis using assms(3) by auto
next
  case (late used client op c rid deadline plan used' res)
  then have "start_without_continuation env client (pst_target request) op (pst_metadata request) rid deadline plan c
      = (used', Proceeds x)" using assms(3) by simp
  then obtain s where s: "sx_session x = managed_new s (lease_of s) (sv_has_budget env)" "session_reachable eg s"
    "sf_plan (se_frame s) = plan" "sf_account_selection (se_frame s) = Scheduled None"
    by (rule started_session)
  note auth = authenticated_policy [OF late(1)]
  obtain p where p: "p \<in> set (sn_client_policies facts)"
      "scp_plaintext_key p = cp_plaintext_key (acl_policy (pst_client request))"
      "\<And>aid. scope_allows (cp_account_scope (acl_policy client)) aid \<longleftrightarrow> key_may_use facts p aid"
    using auth compiled_policy_origin(1) [OF assms(1)] assms(2)
    by (metis option.inject plaintext_client_api_key.expand)
  define t where "t = mg_core (managed_run eg calls (sx_session x))"
  have t: "session_ok t" "se_frame t = se_frame s"
    using api_run_keeps [OF session_reachable_ok [OF s(2)]] by (simp_all add: t_def managed_run_core s(1) managed_new_def)
  have ok: "list_all (record_authorised (se_frame s)) (logged_attempts (se_log t))"
    using t by (simp add: session_ok_def attempts_ok_def)
  have "opt_any (key_may_use facts p) (ar_provider_account_id rec)" if "record_authorised (se_frame s) rec" for rec
    using that s(3,4) p(3) planned_candidates_scope [OF late(2)]
    by (auto simp: record_authorised_def authorised_def opt_any_iff list_ex_iff)
  then have "list_all (\<lambda>rec. opt_any (key_may_use facts p) (ar_provider_account_id rec)) (logged_attempts (se_log t))"
    using ok by (auto simp: list_all_iff)
  then show ?thesis using p(1,2) unfolding t_def by blast
qed


section \<open>The properties at work\<close>

lemma sample_managed: "managed_reachable sample_engine True True (managed_new sample_session (lease_of sample_session) True)"
  by (rule managed_reachable.start [OF sample_reachable(1)])
    (simp add: sample_session_def with_concurrency_wait_budget_def new_session_def)

definition sample_managed_session :: managed where
  "sample_managed_session = fst (managed_step sample_engine (MNext sample_env [sample_answer] 5 9)
     (managed_new sample_session (lease_of sample_session) True))"

lemma sample_managed_reachable: "\<exists>clean. managed_reachable sample_engine True clean sample_managed_session"
proof -
  obtain m b where m: "managed_step sample_engine (MNext sample_env [sample_answer] 5 9)
      (managed_new sample_session (lease_of sample_session) True) = (m, b)" by fastforce
  from managed_reachable.step [OF sample_managed this] show ?thesis
    unfolding sample_managed_session_def m fst_conv by blast
qed

theorem settlement_exactly_once_witness:
  "prefix (settled_so_far sample_managed_session) (bill True (mg_core sample_managed_session))"
  using sample_managed_reachable settlement_exactly_once by blast

theorem circuit_feedback_exact_witness:
  "subseq (circuits_told sample_managed_session) (publish_provider_attempt_outcomes (outcomes_of sample_managed_session))"
  using sample_managed_reachable circuit_feedback_exact by blast

theorem detached_session_ends_witness:
  "\<exists>n. is_finalized (mg_core (detach_finalize sample_env 5 n sample_managed_session))"
  using sample_managed_reachable detached_session_ends [OF _ order_refl] by blast

definition sample_client :: "nat authenticated_client" where
  "sample_client = \<lparr>acl_snapshot = sample_snapshot, acl_policy = snd (hd (rt_client_policies sample_snapshot))\<rparr>"

definition sample_start_request :: "nat pending_start" where
  "sample_start_request =
     \<lparr>pst_client = sample_client, pst_target = TargetProviderEndpoint (ProviderKind ''xai''),
      pst_operation = sample_search,
      pst_metadata = \<lparr>em_protocol = ''openai'', em_endpoint = ''search'', em_transport = HttpJson, em_stream = False,
        em_client_ip = None, em_user_agent = None, em_previous_response_id = None\<rparr>\<rparr>"

definition sample_admission :: admission_round where
  "sample_admission = \<lparr>ad_now = 0, ad_mono = 0, ad_others = id, ad_reply = AdmitGranted, ad_budget = None,
     ad_wait_now = 0, ad_wait_sys_now = 0, ad_retry = None\<rparr>"

definition sample_service :: "nat service_env" where
  "sample_service =
     \<lparr>sv_snapshot = Some sample_snapshot, sv_started_at = 0, sv_uuid = ''1'', sv_circuit = (\<lambda>_. None),
      sv_resolve = (\<lambda>_ _. None), sv_queue = queue_default, sv_admission = [sample_admission],
      sv_admission_elapsed = 0, sv_has_budget = False, sv_budget = Inr (), sv_observation = (\<lambda>_ _ _. None),
      sv_core = sample_env, sv_settle_now = 1, sv_gives_up = None\<rparr>"

lemma sample_key_policy:
  "\<exists>(s :: nat runtime_snapshot) c.
     compile_runtime_snapshot (\<lambda>_. None) sample_facts sample_catalogs sample_kinds = Inr s
     \<and> rt_client_policies s = [(ClientApiKeyId ''key_1'', c)] \<and> cp_enabled c
     \<and> cp_plaintext_key c = PlaintextClientApiKey ''sk-1''
     \<and> frozen_provider_kinds (cp_account_scope c) = [ProviderKind ''xai'']"
  unfolding compile_runtime_snapshot_def sample_groups Let_def sum.case sample_directory_compiles
  by (simp add: sample_facts_def settings_facts_new_def queue_settings_ok_def body_limit_ok_def
      parse_min_version_def compile_selection_policy_def compile_request_location_def compile_policy_def
      client_policy_facts_new_def compile_scope_def bind_group_def account_group_facts_new_def
      client_scope_restricted_def sample_kinds_def sample_catalogs_def runtime_snapshot_new_def add_provider_def
      less_provider_kind_def provider_model_capabilities_new_def compile_model_def provider_model_new_def
      add_provider_model_def bt_has_def add_policy_def Let_def client_policy_new_def)
    (simp add: frozen_provider_kinds_def frozen_scope_new_def sample_directory_def directory_new_def
      with_request_profiles_def with_disable_fast_def runtime_account_new_def runtime_account_with_model_access_def
      providers_for_groups_def index_account_def index_group_def bs_of_list_def List.map_filter_simps
      less_provider_kind_def group_a_def)

lemma sample_client_facts:
  "\<exists>c. rt_client_policies sample_snapshot = [(ClientApiKeyId ''key_1'', c)] \<and> cp_enabled c
     \<and> acl_policy sample_client = c \<and> cp_plaintext_key c = PlaintextClientApiKey ''sk-1''
     \<and> frozen_provider_kinds (cp_account_scope c) = [ProviderKind ''xai'']"
  using sample_key_policy by (auto simp: sample_snapshot_def sample_client_def)

lemma sample_request_id: "new_request_id ''1'' = Inr (ModelRequestId ''req_1'')"
  by code_simp

lemma sample_authenticates: "authenticate sample_service ''sk-1'' = ([EfKeyUsed (cp_key_id (acl_policy sample_client))], Inr sample_client)"
proof -
  obtain c where c: "rt_client_policies sample_snapshot = [(ClientApiKeyId ''key_1'', c)]" "cp_enabled c"
    "cp_plaintext_key c = PlaintextClientApiKey ''sk-1''"
    using sample_client_facts by blast
  then have "sample_client = \<lparr>acl_snapshot = sample_snapshot, acl_policy = c\<rparr>" by (simp add: sample_client_def)
  with c show ?thesis
    by (simp add: authenticate_def authenticate_without_usage_def sample_service_def constant_time_equal_iff
        client_policy_authorize_def)
qed

lemma sample_starts: "\<exists>effects x. start_inner_with_target sample_service sample_start_request = (effects, Proceeds x)"
proof -
  obtain c where c: "rt_client_policies sample_snapshot = [(ClientApiKeyId ''key_1'', c)]" "cp_enabled c"
    "acl_policy sample_client = c" "cp_plaintext_key c = PlaintextClientApiKey ''sk-1''"
    "frozen_provider_kinds (cp_account_scope c) = [ProviderKind ''xai'']"
    using sample_client_facts by blast
  have "\<exists>plan. planned_for sample_service sample_client (TargetProviderEndpoint (ProviderKind ''xai'')) sample_search = Inr plan"
    using c by (simp add: planned_for_def plan_provider_endpoint_def route_context_def sample_client_def
        sample_snapshot_facts sample_kinds_def sample_service_def blocked_by_def bs_of_list_def Let_def)
  then obtain plan where plan: "planned_for sample_service sample_client (TargetProviderEndpoint (ProviderKind ''xai'')) sample_search = Inr plan" ..
  have "\<exists>effects x. start_without_continuation sample_service sample_client (TargetProviderEndpoint (ProviderKind ''xai''))
      sample_search md (ModelRequestId ''req_1'') 600000000000 plan None = (effects, Proceeds x)" for md
    by (simp add: start_without_continuation_def Let_def sample_service_def sample_admission_def duration_since_def
        start_session_def start_with_account_selection_def sample_env_def request_record_def new_session_def)
  then obtain effects x where "start_without_continuation sample_service sample_client (TargetProviderEndpoint (ProviderKind ''xai''))
      sample_search (pst_metadata sample_start_request) (ModelRequestId ''req_1'') 600000000000 plan None = (effects, Proceeds x)"
    by blast
  moreover have "sv_started_at sample_service = 0" "sv_uuid sample_service = ''1''" "sv_gives_up sample_service = None"
    by (simp_all add: sample_service_def)
  moreover have "pst_client sample_start_request = sample_client" "pst_operation sample_start_request = sample_search"
    "pst_target sample_start_request = TargetProviderEndpoint (ProviderKind ''xai'')"
    "em_previous_response_id (pst_metadata sample_start_request) = None"
    by (simp_all add: sample_start_request_def)
  ultimately show ?thesis
    using c(3,4) plan
    by (simp add: start_inner_with_target_def sample_authenticates sample_request_id time_checked_add_def
        model_request_deadline_def of_secs_def continuation_for_def)
qed

theorem request_uses_allowed_accounts_witness:
  "\<exists>effects x p. start_inner_with_target sample_service sample_start_request = (effects, Proceeds x)
     \<and> p \<in> set (sn_client_policies sample_facts)
     \<and> list_all (\<lambda>rec. opt_any (key_may_use sample_facts p) (ar_provider_account_id rec))
         (logged_attempts (se_log (mg_core (managed_run sample_engine [MNext sample_env [sample_answer] 5 9] (sx_session x)))))"
proof -
  obtain effects x where x: "start_inner_with_target sample_service sample_start_request = (effects, Proceeds x)"
    using sample_starts by blast
  have "sv_snapshot sample_service = Some sample_snapshot" by (simp add: sample_service_def)
  from request_uses_allowed_accounts [OF sample_compiles this x] x show ?thesis by blast
qed

end
