(* ===== verification/Tasks.thy ===== *)
theory Tasks
  imports Containers Validation
begin

text \<open>
  \<open>task/mod.rs\<close> and \<open>health.rs\<close>: the definitions of background work that are handed to the host, with
  every check of their constructors. The task bodies and the lease store are traits; a runnable
  keeps here only what the checks read.
\<close>

section \<open>Worker identities\<close>

datatype worker_kind =
    OAuthRefresh
  | QuotaCatalogHealth
  | RuntimeSnapshotReconciliation
  | RuntimeChangeSubscription
  | StaleModelRequestRecovery
  | Retention
  | OpsFlush
  | Backup
  | AccountImport
  | AccountFreezeRecovery
  | AccountSlotReconciliation

definition worker_kind_all :: "worker_kind list" where
  "worker_kind_all =
     [OAuthRefresh, QuotaCatalogHealth, RuntimeSnapshotReconciliation, RuntimeChangeSubscription,
      StaleModelRequestRecovery, Retention, OpsFlush, Backup, AccountImport, AccountFreezeRecovery,
      AccountSlotReconciliation]"

fun worker_kind_as_str :: "worker_kind \<Rightarrow> string" where
  "worker_kind_as_str OAuthRefresh = ''oauth_refresh''"
| "worker_kind_as_str QuotaCatalogHealth = ''quota_catalog_health''"
| "worker_kind_as_str RuntimeSnapshotReconciliation = ''runtime_snapshot_reconciliation''"
| "worker_kind_as_str RuntimeChangeSubscription = ''runtime_change_subscription''"
| "worker_kind_as_str StaleModelRequestRecovery = ''stale_model_request_recovery''"
| "worker_kind_as_str Retention = ''retention''"
| "worker_kind_as_str OpsFlush = ''ops_flush''"
| "worker_kind_as_str Backup = ''backup''"
| "worker_kind_as_str AccountImport = ''account_import''"
| "worker_kind_as_str AccountFreezeRecovery = ''account_freeze_recovery''"
| "worker_kind_as_str AccountSlotReconciliation = ''account_slot_reconciliation''"

datatype worker_definition_error =
    InvalidOwner
  | InvalidSchedule
  | InvalidDaemonRestartPolicy
  | InvalidLeaseTtl
  | LeaseWorkerMismatch
  | LeaseTtlMismatch
  | DisabledReasonMismatch

datatype worker_id = WorkerId (wid_kind: worker_kind) (wid_owner: string)

definition is_ascii_lowercase :: "char \<Rightarrow> bool" where
  "is_ascii_lowercase c = (97 \<le> (of_char c :: nat) \<and> (of_char c :: nat) \<le> 122)"

definition is_ascii_alphanumeric :: "char \<Rightarrow> bool" where
  "is_ascii_alphanumeric c = (is_ascii_lowercase c \<or> is_ascii_uppercase c \<or> is_ascii_digit c)"

definition valid_owner :: "string \<Rightarrow> bool" where
  "valid_owner owner =
     (owner \<noteq> [] \<and> length owner \<le> 64
      \<and> list_all (\<lambda>b. is_ascii_lowercase b \<or> is_ascii_digit b \<or> b \<in> set ''-_.'') owner
      \<and> is_ascii_alphanumeric (hd owner))"

definition worker_id_try_new :: "worker_kind \<Rightarrow> string \<Rightarrow> worker_definition_error + worker_id" where
  "worker_id_try_new kind owner =
     (if valid_owner owner then Inr (WorkerId kind owner) else Inl InvalidOwner)"

definition worker_id_display :: "worker_id \<Rightarrow> string" where
  "worker_id_display w = worker_kind_as_str (wid_kind w) @ '':'' @ wid_owner w"

datatype worker_fencing_token = WorkerFencingToken (fencing_get: nat)

section \<open>Schedules and leases\<close>

record worker_schedule =
  ws_interval :: duration
  ws_initial_backoff :: duration
  ws_maximum_backoff :: duration
  ws_leader_lease_ttl :: duration
  ws_leader_lease_renewal_interval :: duration

definition worker_schedule_try_new ::
  "duration \<Rightarrow> duration \<Rightarrow> duration \<Rightarrow> duration \<Rightarrow> duration \<Rightarrow> worker_definition_error + worker_schedule" where
  "worker_schedule_try_new interval initial_backoff maximum_backoff ttl renewal =
     (if interval = 0 \<or> initial_backoff = 0 \<or> maximum_backoff = 0 \<or> ttl = 0 \<or> renewal = 0
         \<or> maximum_backoff < initial_backoff \<or> ttl \<le> renewal
      then Inl InvalidSchedule
      else Inr \<lparr>ws_interval = interval, ws_initial_backoff = initial_backoff, ws_maximum_backoff = maximum_backoff,
             ws_leader_lease_ttl = ttl, ws_leader_lease_renewal_interval = renewal\<rparr>)"

record daemon_restart_policy =
  dr_initial_backoff :: duration
  dr_maximum_backoff :: duration

definition daemon_restart_policy_try_new ::
  "duration \<Rightarrow> duration \<Rightarrow> worker_definition_error + daemon_restart_policy" where
  "daemon_restart_policy_try_new initial_backoff maximum_backoff =
     (if initial_backoff = 0 \<or> maximum_backoff = 0 \<or> maximum_backoff < initial_backoff
      then Inl InvalidDaemonRestartPolicy
      else Inr \<lparr>dr_initial_backoff = initial_backoff, dr_maximum_backoff = maximum_backoff\<rparr>)"

record worker_lease_request =
  wl_worker :: worker_id
  wl_ttl :: duration

definition worker_lease_request_try_new ::
  "worker_id \<Rightarrow> duration \<Rightarrow> worker_definition_error + worker_lease_request" where
  "worker_lease_request_try_new worker ttl =
     (if ttl = 0 then Inl InvalidLeaseTtl else Inr \<lparr>wl_worker = worker, wl_ttl = ttl\<rparr>)"

section \<open>Contributions\<close>

datatype worker_runnable =
    RunScheduled worker_schedule "worker_lease_request option"
  | RunDaemon daemon_restart_policy

record worker_registration =
  wr_id :: worker_id
  wr_runnable :: worker_runnable

definition worker_registration_validate :: "worker_registration \<Rightarrow> worker_definition_error + unit" where
  "worker_registration_validate r =
     (case wr_runnable r of
        RunScheduled schedule (Some lease) \<Rightarrow>
          if wl_worker lease \<noteq> wr_id r then Inl LeaseWorkerMismatch
          else if wl_ttl lease \<noteq> ws_leader_lease_ttl schedule then Inl LeaseTtlMismatch
          else Inr ()
      | _ \<Rightarrow> Inr ())"

definition worker_registration_try_new ::
  "worker_id \<Rightarrow> worker_runnable \<Rightarrow> worker_definition_error + worker_registration" where
  "worker_registration_try_new i runnable =
     (let r = \<lparr>wr_id = i, wr_runnable = runnable\<rparr>
      in case worker_registration_validate r of Inl e \<Rightarrow> Inl e | Inr _ \<Rightarrow> Inr r)"

datatype worker_disabled_reason = NoBufferedOpsEvents | AccountSlotsDisabled

fun disabled_reason_kind :: "worker_disabled_reason \<Rightarrow> worker_kind" where
  "disabled_reason_kind NoBufferedOpsEvents = OpsFlush"
| "disabled_reason_kind AccountSlotsDisabled = AccountSlotReconciliation"

fun disabled_reason_as_str :: "worker_disabled_reason \<Rightarrow> string" where
  "disabled_reason_as_str NoBufferedOpsEvents = ''ops events have no flush buffer''"
| "disabled_reason_as_str AccountSlotsDisabled = ''account slots are globally disabled''"

datatype worker_contribution =
    ContributedRegistration worker_registration
  | ContributedDisabled worker_kind worker_disabled_reason

fun contribution_kind :: "worker_contribution \<Rightarrow> worker_kind" where
  "contribution_kind (ContributedRegistration r) = wid_kind (wr_id r)"
| "contribution_kind (ContributedDisabled kind reason) = kind"

fun contribution_validate :: "worker_contribution \<Rightarrow> worker_definition_error + unit" where
  "contribution_validate (ContributedRegistration r) = worker_registration_validate r"
| "contribution_validate (ContributedDisabled kind reason) =
     (if kind = disabled_reason_kind reason then Inr () else Inl DisabledReasonMismatch)"

section \<open>Health\<close>

datatype health_state = Healthy | DegradedHealth string | Unhealthy string

datatype worker_runtime_state =
    WrStarting | WrAcquiringLease | WrStandby | WrRunning | WrIdle | WrBackingOff | WrStopped | WrDisabled

datatype worker_health_key = HealthTask worker_id | HealthDisabled worker_kind

record worker_health_snapshot =
  wh_key :: worker_health_key
  wh_state :: worker_runtime_state
  wh_consecutive_failures :: nat
  wh_completed_cycles :: nat
  wh_last_fencing_token :: "worker_fencing_token option"
  wh_last_success_at :: "systime option"
  wh_last_failure_at :: "systime option"
  wh_last_error :: "string option"

section \<open>Order: kinds as declared, identities by kind and owner, tasks before disabled kinds\<close>

fun worker_kind_rank :: "worker_kind \<Rightarrow> nat" where
  "worker_kind_rank OAuthRefresh = 0"
| "worker_kind_rank QuotaCatalogHealth = 1"
| "worker_kind_rank RuntimeSnapshotReconciliation = 2"
| "worker_kind_rank RuntimeChangeSubscription = 3"
| "worker_kind_rank StaleModelRequestRecovery = 4"
| "worker_kind_rank Retention = 5"
| "worker_kind_rank OpsFlush = 6"
| "worker_kind_rank Backup = 7"
| "worker_kind_rank AccountImport = 8"
| "worker_kind_rank AccountFreezeRecovery = 9"
| "worker_kind_rank AccountSlotReconciliation = 10"

lemma worker_kind_rank_inj: "worker_kind_rank k = worker_kind_rank l \<longleftrightarrow> k = l"
  by (cases k; cases l) simp_all

lemma set_worker_kind_all [simp]: "set worker_kind_all = UNIV"
proof -
  have "k \<in> set worker_kind_all" for k by (cases k) (simp_all add: worker_kind_all_def)
  then show ?thesis by blast
qed

instantiation worker_kind :: linorder
begin
definition "k \<le> l \<longleftrightarrow> worker_kind_rank k \<le> worker_kind_rank l"
definition "k < l \<longleftrightarrow> worker_kind_rank k < worker_kind_rank l"
instance by standard (auto simp: less_eq_worker_kind_def less_worker_kind_def worker_kind_rank_inj)
end

instantiation worker_id :: linorder
begin
definition "v \<le> w \<longleftrightarrow> wid_kind v < wid_kind w \<or> wid_kind v = wid_kind w \<and> wid_owner v \<le> wid_owner w"
definition "v < w \<longleftrightarrow> wid_kind v < wid_kind w \<or> wid_kind v = wid_kind w \<and> wid_owner v < wid_owner w"
instance by standard (auto simp: less_eq_worker_id_def less_worker_id_def worker_id.expand)
end

fun health_key_le :: "worker_health_key \<Rightarrow> worker_health_key \<Rightarrow> bool" where
  "health_key_le (HealthTask v) (HealthTask w) = (v \<le> w)"
| "health_key_le (HealthTask v) (HealthDisabled k) = True"
| "health_key_le (HealthDisabled k) (HealthTask w) = False"
| "health_key_le (HealthDisabled k) (HealthDisabled l) = (k \<le> l)"

instantiation worker_health_key :: linorder
begin
definition "x \<le> y \<longleftrightarrow> health_key_le x y"
definition "x < y \<longleftrightarrow> health_key_le x y \<and> x \<noteq> y"
instance
proof
  fix x y z :: worker_health_key
  show "x < y \<longleftrightarrow> x \<le> y \<and> \<not> y \<le> x"
    by (cases x; cases y) (auto simp: less_eq_worker_health_key_def less_worker_health_key_def)
  show "x \<le> x" by (cases x) (simp_all add: less_eq_worker_health_key_def)
  show "x \<le> y \<Longrightarrow> y \<le> z \<Longrightarrow> x \<le> z"
    by (cases x; cases y; cases z) (auto simp: less_eq_worker_health_key_def)
  show "x \<le> y \<Longrightarrow> y \<le> x \<Longrightarrow> x = y"
    by (cases x; cases y) (auto simp: less_eq_worker_health_key_def)
  show "x \<le> y \<or> y \<le> x"
    by (cases x; cases y) (auto simp: less_eq_worker_health_key_def)
qed
end

section \<open>Facts\<close>

lemma worker_schedule_ok:
  "worker_schedule_try_new i b m t r = Inr s \<Longrightarrow>
     0 < ws_interval s \<and> 0 < ws_initial_backoff s \<and> ws_initial_backoff s \<le> ws_maximum_backoff s
     \<and> 0 < ws_leader_lease_renewal_interval s \<and> ws_leader_lease_renewal_interval s < ws_leader_lease_ttl s"
  by (auto simp: worker_schedule_try_new_def split: if_splits)

lemma worker_registration_ok:
  "worker_registration_try_new i runnable = Inr r \<Longrightarrow>
     wr_id r = i \<and> wr_runnable r = runnable \<and> worker_registration_validate r = Inr ()"
  by (auto simp: worker_registration_try_new_def Let_def split: sum.splits)

end
