(* ===== verification/Lifecycle.thy ===== *)
theory Lifecycle
  imports Main
begin

text \<open>
  \<open>lifecycle.rs\<close>: the cancellation token shared by requests, tasks and connections. Any number of
  callers run \<open>cancel\<close> and \<open>cancelled\<close> at once; a step is one atomic action of one of them, namely
  the atomic swap or load of the flag, taking the lock of the waiter list, the body of a critical
  section, or sending to one waiter. A waiter is the identity of its one-shot channel.
\<close>

section \<open>State\<close>

datatype cancel_phase =
    CIdle
  | CSwapped
  | CLocked
  | CSending "nat list"
  | CFinished
  | CReturned

datatype waiter_phase =
    WStart
  | WChecked
  | WLocked
  | WPush
  | WWaiting
  | WReturned

datatype lock_holder = HCanceller nat | HWaiter nat

record cancel_state =
  c_cancelled :: bool
  c_lock :: "lock_holder option"
  c_waiters :: "nat list"
  c_sent :: "nat list"
  c_winner :: "nat option"
  c_cancel :: "nat \<Rightarrow> cancel_phase"
  c_waiter :: "nat \<Rightarrow> waiter_phase"

definition cancel_init :: cancel_state where
  "cancel_init =
     \<lparr>c_cancelled = False, c_lock = None, c_waiters = [], c_sent = [], c_winner = None,
      c_cancel = (\<lambda>_. CIdle), c_waiter = (\<lambda>_. WStart)\<rparr>"

definition is_cancelled :: "cancel_state \<Rightarrow> bool" where
  "is_cancelled s = c_cancelled s"

section \<open>Steps\<close>

definition set_cancel :: "nat \<Rightarrow> cancel_phase \<Rightarrow> cancel_state \<Rightarrow> cancel_state" where
  "set_cancel c p s = s\<lparr>c_cancel := (c_cancel s)(c := p)\<rparr>"

definition set_waiter :: "nat \<Rightarrow> waiter_phase \<Rightarrow> cancel_state \<Rightarrow> cancel_state" where
  "set_waiter w p s = s\<lparr>c_waiter := (c_waiter s)(w := p)\<rparr>"

text \<open>
  \<open>cancel_step\<close> is the body of \<open>cancel\<close>, \<open>waiter_step\<close> that of \<open>cancelled\<close>; \<open>None\<close> means the caller
  is blocked or has returned.
\<close>

definition cancel_step :: "nat \<Rightarrow> cancel_state \<Rightarrow> cancel_state option" where
  "cancel_step c s =
     (case c_cancel s c of
        CIdle \<Rightarrow>
          if c_cancelled s then Some (set_cancel c CReturned s)
          else Some (set_cancel c CSwapped (s\<lparr>c_cancelled := True, c_winner := Some c\<rparr>))
      | CSwapped \<Rightarrow>
          if c_lock s = None then Some (set_cancel c CLocked (s\<lparr>c_lock := Some (HCanceller c)\<rparr>)) else None
      | CLocked \<Rightarrow>
          Some (set_cancel c (CSending (c_waiters s)) (s\<lparr>c_waiters := [], c_lock := None\<rparr>))
      | CSending [] \<Rightarrow> Some (set_cancel c CFinished s)
      | CSending (w # ws) \<Rightarrow> Some (set_cancel c (CSending ws) (s\<lparr>c_sent := w # c_sent s\<rparr>))
      | CFinished \<Rightarrow> None
      | CReturned \<Rightarrow> None)"

definition waiter_step :: "nat \<Rightarrow> cancel_state \<Rightarrow> cancel_state option" where
  "waiter_step w s =
     (case c_waiter s w of
        WStart \<Rightarrow> Some (set_waiter w (if c_cancelled s then WReturned else WChecked) s)
      | WChecked \<Rightarrow>
          if c_lock s = None then Some (set_waiter w WLocked (s\<lparr>c_lock := Some (HWaiter w)\<rparr>)) else None
      | WLocked \<Rightarrow>
          if c_cancelled s then Some (set_waiter w WReturned (s\<lparr>c_lock := None\<rparr>))
          else Some (set_waiter w WPush s)
      | WPush \<Rightarrow>
          Some (set_waiter w WWaiting (s\<lparr>c_waiters := c_waiters s @ [w], c_lock := None\<rparr>))
      | WWaiting \<Rightarrow> if w \<in> set (c_sent s) then Some (set_waiter w WReturned s) else None
      | WReturned \<Rightarrow> None)"

datatype cancel_action = ACancel nat | AWait nat

fun cancel_act :: "cancel_action \<Rightarrow> cancel_state \<Rightarrow> cancel_state option" where
  "cancel_act (ACancel c) s = cancel_step c s"
| "cancel_act (AWait w) s = waiter_step w s"

inductive cancel_reachable :: "cancel_state \<Rightarrow> bool" where
  reach_init: "cancel_reachable cancel_init"
| reach_act: "cancel_reachable s \<Longrightarrow> cancel_act a s = Some t \<Longrightarrow> cancel_reachable t"

section \<open>Invariant\<close>

text \<open>The winner has taken the list of waiters.\<close>

fun past_take :: "cancel_phase \<Rightarrow> bool" where
  "past_take (CSending ws) = True"
| "past_take CFinished = True"
| "past_take _ = False"

fun to_send :: "cancel_phase \<Rightarrow> nat list" where
  "to_send (CSending ws) = ws"
| "to_send _ = []"

text \<open>The call of \<open>cancel\<close> set the flag.\<close>

definition in_cancel :: "cancel_phase \<Rightarrow> bool" where
  "in_cancel p = (p \<noteq> CIdle \<and> p \<noteq> CReturned)"

definition locks_ok :: "cancel_state \<Rightarrow> bool" where
  "locks_ok s \<longleftrightarrow>
     (\<forall>w. c_waiter s w = WLocked \<or> c_waiter s w = WPush \<longrightarrow> c_lock s = Some (HWaiter w))
     \<and> (\<forall>c. c_cancel s c = CLocked \<longrightarrow> c_lock s = Some (HCanceller c))"

definition winner_ok :: "cancel_state \<Rightarrow> bool" where
  "winner_ok s \<longleftrightarrow>
     (c_cancelled s \<longleftrightarrow> c_winner s \<noteq> None)
     \<and> (\<forall>c. c_winner s = Some c \<longleftrightarrow> in_cancel (c_cancel s c))"

definition taken_ok :: "cancel_state \<Rightarrow> bool" where
  "taken_ok s \<longleftrightarrow>
     (\<forall>c. past_take (c_cancel s c) \<longrightarrow> c_waiters s = [] \<and> (\<forall>w. c_waiter s w \<noteq> WPush))"

definition waiting_ok :: "cancel_state \<Rightarrow> bool" where
  "waiting_ok s \<longleftrightarrow>
     (\<forall>w. c_waiter s w = WWaiting \<longrightarrow>
        w \<in> set (c_waiters s) \<or> w \<in> set (c_sent s) \<or> (\<exists>c. w \<in> set (to_send (c_cancel s c))))"

definition sent_ok :: "cancel_state \<Rightarrow> bool" where
  "sent_ok s \<longleftrightarrow> (c_sent s \<noteq> [] \<longrightarrow> c_cancelled s)
     \<and> (\<forall>w. c_waiter s w = WReturned \<longrightarrow> c_cancelled s)"

definition cancel_inv :: "cancel_state \<Rightarrow> bool" where
  "cancel_inv s \<longleftrightarrow> locks_ok s \<and> winner_ok s \<and> taken_ok s \<and> waiting_ok s \<and> sent_ok s"

lemmas cancel_inv_defs =
  cancel_inv_def locks_ok_def winner_ok_def taken_ok_def waiting_ok_def sent_ok_def

lemmas cancel_step_defs = cancel_step_def waiter_step_def set_cancel_def set_waiter_def

lemma cancel_inv_init: "cancel_inv cancel_init"
  by (simp add: cancel_inv_defs cancel_init_def in_cancel_def)

lemma locks_unique:
  "locks_ok s \<Longrightarrow> c_lock s = Some h \<Longrightarrow> c_waiter s w \<in> {WLocked, WPush} \<Longrightarrow> h = HWaiter w"
  "locks_ok s \<Longrightarrow> c_lock s = Some h \<Longrightarrow> c_cancel s c = CLocked \<Longrightarrow> h = HCanceller c"
  by (auto simp: locks_ok_def)

lemma locks_held:
  "locks_ok s \<Longrightarrow> c_waiter s w \<in> {WLocked, WPush} \<Longrightarrow> c_lock s = Some (HWaiter w)"
  "locks_ok s \<Longrightarrow> c_cancel s c = CLocked \<Longrightarrow> c_lock s = Some (HCanceller c)"
  by (auto simp: locks_ok_def)

lemma locks_ok_waiter:
  assumes ok: "locks_ok s" and step: "waiter_step w s = Some t"
  shows "locks_ok t"
proof (cases "c_waiter s w \<in> {WLocked, WPush}")
  case True
  then have "c_lock s = Some (HWaiter w)" using locks_held(1) [OF ok] by simp
  then have other: "c_waiter s v \<noteq> WLocked" "c_waiter s v \<noteq> WPush" "c_cancel s c \<noteq> CLocked" if "v \<noteq> w" for v c
    using locks_unique [OF ok] that by fastforce+
  have "c_cancel s c \<noteq> CLocked" for c using locks_unique(2) [OF ok \<open>c_lock s = _\<close>, of c] by auto
  with True other step \<open>c_lock s = _\<close> show ?thesis
    by (auto simp: locks_ok_def cancel_step_defs split: if_splits)
next
  case False
  with ok step show ?thesis
    by (cases "c_waiter s w") (auto simp: locks_ok_def cancel_step_defs split: if_splits)
qed

lemma waiter_step_frame:
  assumes "waiter_step w s = Some t"
  shows "c_cancelled t = c_cancelled s" and "c_winner t = c_winner s" and "c_cancel t = c_cancel s"
    and "c_sent t = c_sent s"
  using assms by (cases "c_waiter s w"; auto simp: cancel_step_defs split: if_splits)+

lemma winner_ok_waiter: "winner_ok s \<Longrightarrow> waiter_step w s = Some t \<Longrightarrow> winner_ok t"
  unfolding winner_ok_def by (simp only: waiter_step_frame) blast

text \<open>Whoever is past the take has won, so the flag is set.\<close>

lemma past_take_in_cancel: "past_take p \<Longrightarrow> in_cancel p"
  by (cases p) (simp_all add: in_cancel_def)

lemma past_take_cancelled: "winner_ok s \<Longrightarrow> past_take (c_cancel s c) \<Longrightarrow> c_cancelled s"
  unfolding winner_ok_def using past_take_in_cancel by fastforce

lemma taken_ok_waiter:
  assumes "winner_ok s" and ok: "taken_ok s" and step: "waiter_step w s = Some t"
  shows "taken_ok t"
proof (cases "\<exists>c. past_take (c_cancel s c)")
  case True
  then have "c_cancelled s" "c_waiters s = []" "\<And>v. c_waiter s v \<noteq> WPush"
    using past_take_cancelled [OF assms(1)] ok by (auto simp: taken_ok_def)
  with step show ?thesis
    by (cases "c_waiter s w") (auto simp: taken_ok_def cancel_step_defs split: if_splits)
next
  case False
  moreover have "c_cancel t = c_cancel s"
    using step by (cases "c_waiter s w") (auto simp: cancel_step_defs split: if_splits)
  ultimately show ?thesis by (simp add: taken_ok_def)
qed

lemma waiting_ok_waiter: "waiting_ok s \<Longrightarrow> waiter_step w s = Some t \<Longrightarrow> waiting_ok t"
  by (cases "c_waiter s w") (auto simp: waiting_ok_def cancel_step_defs split: if_splits)

lemma sent_ok_waiter: "sent_ok s \<Longrightarrow> waiter_step w s = Some t \<Longrightarrow> sent_ok t"
  by (cases "c_waiter s w") (auto simp: sent_ok_def cancel_step_defs split: if_splits)

lemma locks_ok_cancel:
  assumes ok: "locks_ok s" and step: "cancel_step c s = Some t"
  shows "locks_ok t"
proof (cases "c_cancel s c = CLocked")
  case True
  then have held: "c_lock s = Some (HCanceller c)" using locks_held(2) [OF ok] by simp
  have "c_waiter s v \<noteq> WLocked \<and> c_waiter s v \<noteq> WPush" for v
    using locks_unique(1) [OF ok held, of v] by auto
  moreover have "c_cancel s d \<noteq> CLocked" if "d \<noteq> c" for d
    using locks_unique(2) [OF ok held, of d] that by auto
  ultimately show ?thesis
    using True step by (auto simp: locks_ok_def cancel_step_defs split: if_splits)
next
  case False
  with ok step show ?thesis
    by (cases "c_cancel s c") (auto simp: locks_ok_def cancel_step_defs split: if_splits list.splits)
qed

lemma winner_ok_cancel:
  assumes ok: "winner_ok s" and step: "cancel_step c s = Some t"
  shows "winner_ok t"
proof (cases "in_cancel (c_cancel s c)")
  case True
  have "c_cancelled t = c_cancelled s" "c_winner t = c_winner s"
    using True step
    by (cases "c_cancel s c"; auto simp: cancel_step_defs in_cancel_def split: if_splits list.splits)+
  moreover have "in_cancel (c_cancel t d) = in_cancel (c_cancel s d)" for d
    using True step
    by (cases "c_cancel s c") (auto simp: cancel_step_defs in_cancel_def split: if_splits list.splits)
  ultimately show ?thesis using ok by (simp add: winner_ok_def)
next
  case False
  with step have idle: "c_cancel s c = CIdle"
    by (cases "c_cancel s c") (simp_all add: cancel_step_defs in_cancel_def)
  show ?thesis
  proof (cases "c_cancelled s")
    case True
    then have "t = set_cancel c CReturned s" using step idle by (simp add: cancel_step_def)
    with ok idle show ?thesis by (auto simp: winner_ok_def set_cancel_def in_cancel_def)
  next
    case False
    then have "c_winner s = None" and t: "t = set_cancel c CSwapped (s\<lparr>c_cancelled := True, c_winner := Some c\<rparr>)"
      using ok step idle by (simp_all add: winner_ok_def cancel_step_def)
    then have "\<not> in_cancel (c_cancel s d)" for d using ok by (simp add: winner_ok_def)
    then show ?thesis by (simp add: t winner_ok_def set_cancel_def in_cancel_def)
  qed
qed

lemma taken_ok_cancel:
  assumes "locks_ok s" and ok: "taken_ok s" and step: "cancel_step c s = Some t"
  shows "taken_ok t"
proof (cases "c_cancel s c")
  case CLocked
  then have "c_waiter s w \<noteq> WPush" for w
    using locks_unique(1) [OF assms(1) locks_held(2) [OF assms(1) CLocked], of w] by auto
  with CLocked step show ?thesis by (auto simp: taken_ok_def cancel_step_defs)
next
  case (CSending ws)
  then have "c_waiters s = []" "\<And>w. c_waiter s w \<noteq> WPush"
    using ok [unfolded taken_ok_def, rule_format, of c] by simp_all
  with CSending step show ?thesis
    by (cases ws) (auto simp: taken_ok_def cancel_step_defs)
next
  case CIdle
  with ok step show ?thesis by (auto simp: taken_ok_def cancel_step_defs split: if_splits)
next
  case CSwapped
  with ok step show ?thesis by (auto simp: taken_ok_def cancel_step_defs split: if_splits)
qed (use step in \<open>simp_all add: cancel_step_defs\<close>)

lemma cancel_step_frame:
  assumes "cancel_step c s = Some t"
  shows "c_waiter t = c_waiter s" and "c_cancelled s \<longrightarrow> c_cancelled t"
    and "\<not> past_take (c_cancel s c) \<longrightarrow> c_sent t = c_sent s"
proof -
  have "c_waiter t = c_waiter s \<and> (c_cancelled s \<longrightarrow> c_cancelled t)
      \<and> (\<not> past_take (c_cancel s c) \<longrightarrow> c_sent t = c_sent s)"
  proof (cases "c_cancel s c")
    case (CSending ws)
    with assms show ?thesis by (cases ws) (auto simp: cancel_step_defs)
  qed (use assms in \<open>auto simp: cancel_step_defs split: if_splits\<close>)
  then show "c_waiter t = c_waiter s" and "c_cancelled s \<longrightarrow> c_cancelled t"
    and "\<not> past_take (c_cancel s c) \<longrightarrow> c_sent t = c_sent s" by blast+
qed

lemma waiting_ok_cancel:
  assumes ok: "waiting_ok s" and step: "cancel_step c s = Some t"
  shows "waiting_ok t"
proof -
  have other: "c_cancel t d = c_cancel s d" if "d \<noteq> c" for d
    using step that
    by (cases "c_cancel s c") (auto simp: cancel_step_defs split: if_splits list.splits)
  have own: "set (c_waiters s) \<union> set (c_sent s) \<union> set (to_send (c_cancel s c))
      \<subseteq> set (c_waiters t) \<union> set (c_sent t) \<union> set (to_send (c_cancel t c))"
  proof (cases "c_cancel s c")
    case (CSending ws)
    with step show ?thesis by (cases ws) (auto simp: cancel_step_defs)
  qed (use step in \<open>auto simp: cancel_step_defs split: if_splits\<close>)
  show ?thesis
    unfolding waiting_ok_def cancel_step_frame(1) [OF step]
  proof (intro allI impI)
    fix w
    assume "c_waiter s w = WWaiting"
    with ok consider "w \<in> set (c_waiters s) \<union> set (c_sent s)" | d where "w \<in> set (to_send (c_cancel s d))"
      unfolding waiting_ok_def by blast
    then show "w \<in> set (c_waiters t) \<or> w \<in> set (c_sent t) \<or> (\<exists>c. w \<in> set (to_send (c_cancel t c)))"
    proof cases
      case 1
      with own show ?thesis by blast
    next
      case (2 d)
      show ?thesis
      proof (cases "d = c")
        case True
        with 2 own show ?thesis by blast
      next
        case False
        with 2 other show ?thesis by metis
      qed
    qed
  qed
qed

lemma sent_ok_cancel:
  assumes win: "winner_ok s" and ok: "sent_ok s" and step: "cancel_step c s = Some t"
  shows "sent_ok t"
proof (cases "c_cancelled s")
  case True
  then show ?thesis using cancel_step_frame(2) [OF step] by (simp add: sent_ok_def)
next
  case False
  then have "c_sent t = c_sent s"
    using past_take_cancelled [OF win] cancel_step_frame(3) [OF step] by blast
  with False ok show ?thesis by (simp add: sent_ok_def cancel_step_frame(1) [OF step])
qed

lemma cancel_reachable_inv: "cancel_reachable s \<Longrightarrow> cancel_inv s"
proof (induction rule: cancel_reachable.induct)
  case reach_init
  then show ?case by (rule cancel_inv_init)
next
  case (reach_act s a t)
  then show ?case
    unfolding cancel_inv_def
    by (cases a) (auto intro: locks_ok_waiter locks_ok_cancel winner_ok_waiter winner_ok_cancel
        taken_ok_waiter taken_ok_cancel waiting_ok_waiter waiting_ok_cancel sent_ok_waiter sent_ok_cancel)
qed

section \<open>Properties\<close>

text \<open>
  C17. No wake-up is lost, however the callers interleave: once the \<open>cancel\<close> that set the flag has
  finished, every call of \<open>cancelled\<close> that is still waiting has been sent to and its next step
  returns; and no call of \<open>cancelled\<close> ever returns before the token is cancelled.
\<close>

theorem cancellation_no_lost_wakeup:
  assumes "cancel_reachable s"
  shows "(c_cancel s c = CFinished \<and> c_waiter s w = WWaiting \<longrightarrow>
            waiter_step w s = Some (set_waiter w WReturned s))
       \<and> (c_waiter s w = WReturned \<longrightarrow> is_cancelled s)"
proof -
  have inv: "cancel_inv s" using assms by (rule cancel_reachable_inv)
  have "w \<in> set (c_sent s)" if "c_cancel s c = CFinished" and "c_waiter s w = WWaiting"
  proof -
    have "in_cancel (c_cancel s c)" using that(1) by (simp add: in_cancel_def)
    with inv have "c_winner s = Some c" by (simp add: cancel_inv_def winner_ok_def)
    have "to_send (c_cancel s d) = []" for d
    proof (rule ccontr)
      assume "to_send (c_cancel s d) \<noteq> []"
      then obtain ws where d: "c_cancel s d = CSending ws" by (cases "c_cancel s d") simp_all
      then have "in_cancel (c_cancel s d)" by (simp add: in_cancel_def)
      with inv have "c_winner s = Some d" by (simp add: cancel_inv_def winner_ok_def)
      with \<open>c_winner s = Some c\<close> d that(1) show False by simp
    qed
    moreover have "taken_ok s" using inv by (simp add: cancel_inv_def)
    then have "c_waiters s = []"
      using that(1) unfolding taken_ok_def by (metis past_take.simps(2))
    ultimately show ?thesis
      using inv that(2) unfolding cancel_inv_def waiting_ok_def by (metis empty_iff empty_set)
  qed
  moreover have "c_waiter s w = WReturned \<Longrightarrow> is_cancelled s"
    using inv by (auto simp: cancel_inv_def sent_ok_def is_cancelled_def)
  ultimately show ?thesis by (simp add: waiter_step_def)
qed

definition run_actions :: "cancel_action list \<Rightarrow> cancel_state" where
  "run_actions acts = fold (\<lambda>a s. case cancel_act a s of None \<Rightarrow> s | Some t \<Rightarrow> t) acts cancel_init"

lemma run_actions_reachable: "cancel_reachable (run_actions acts)"
proof -
  have "cancel_reachable s \<Longrightarrow>
      cancel_reachable (fold (\<lambda>a s. case cancel_act a s of None \<Rightarrow> s | Some t \<Rightarrow> t) acts s)" for s
    by (induction acts arbitrary: s) (auto split: option.splits intro: reach_act)
  then show ?thesis by (simp add: run_actions_def reach_init)
qed

definition sample_actions :: "cancel_action list" where
  "sample_actions =
     [AWait 0, AWait 0, AWait 0, ACancel 7, AWait 0, ACancel 7, ACancel 7, ACancel 7, ACancel 7]"

theorem cancellation_no_lost_wakeup_witness:
  "waiter_step 0 (run_actions sample_actions) = Some (set_waiter 0 WReturned (run_actions sample_actions))"
  using cancellation_no_lost_wakeup [OF run_actions_reachable [of sample_actions], of 7 0]
  by (simp add: run_actions_def sample_actions_def cancel_step_defs cancel_init_def)

end
