(* ===== verification/Runtime.thy ===== *)
theory Runtime
  imports Snapshot Tasks Lifecycle
begin

text \<open>
  \<open>runtime/mod.rs\<close>: the handle that holds the published snapshot, the publisher whose refreshes from
  the administration API, the reconciliation worker and the subscription run at once, and the
  subscription daemon. The refreshes are interleaved: a step of the system is what one of them does
  between two points where it may wait, a commit of configuration to the store, or a caller that drops
  a refresh. The history of committed configurations is kept, so that the age of a published snapshot
  can be spoken of.
\<close>

section \<open>The handle\<close>

definition reconciliation_interval :: duration where "reconciliation_interval = of_secs 5"
definition initial_backoff :: duration where "initial_backoff = of_secs 1"
definition maximum_backoff :: duration where "maximum_backoff = of_secs 30"
definition unused_lease_ttl :: duration where "unused_lease_ttl = of_secs 30"
definition unused_lease_renewal :: duration where "unused_lease_renewal = of_secs 10"

type_synonym 's runtime_snapshot_handle = "'s option"

definition handle_acquire :: "'v runtime_snapshot option \<Rightarrow> unit + 'v runtime_snapshot" where
  "handle_acquire current = (case current of None \<Rightarrow> Inl () | Some s \<Rightarrow> Inr s)"

definition handle_revision :: "'v runtime_snapshot option \<Rightarrow> config_revision option" where
  "handle_revision current = map_option rt_revision current"

definition handle_provider_catalog_generations ::
  "'v runtime_snapshot option \<Rightarrow> (provider_kind, provider_catalog_generation) btree option" where
  "handle_provider_catalog_generations current = map_option rt_provider_catalog_generations current"

definition handle_check :: "'v runtime_snapshot option \<Rightarrow> health_state" where
  "handle_check current =
     (if handle_revision current \<noteq> None then Healthy else Unhealthy ''Runtime snapshot is unavailable'')"

definition runtime_revision_needs_refresh :: "nat option \<Rightarrow> nat \<Rightarrow> bool" where
  "runtime_revision_needs_refresh published_revision persisted_revision = (published_revision \<noteq> Some persisted_revision)"

definition provider_catalogs_need_refresh ::
  "'v runtime_snapshot option \<Rightarrow> (provider_kind, provider_catalog_generation) btree \<Rightarrow> bool" where
  "provider_catalogs_need_refresh current generations =
     (handle_provider_catalog_generations current \<noteq> Some generations)"

section \<open>Refreshes\<close>

datatype refresh_mode = Required | Reconcile

text \<open>
  Where a refresh is: it waits for the lock; it holds the lock and reads the persisted revision, if it
  reconciles; it compiles, knowing whether the configuration changed, and has its result; it is over.
  A published snapshot is kept with the index of the configuration it was compiled from.
\<close>

datatype 'v refresh_phase =
    RfWaiting
  | RfLocked
  | RfCompiling bool
  | RfCompiled bool "runtime_snapshot_compile_error + 'v runtime_snapshot \<times> nat"
  | RfDone "runtime_snapshot_compile_error + config_revision"
  | RfDropped

record 'v refresh =
  rf_mode :: refresh_mode
  rf_started :: nat
  rf_locked :: nat
  rf_phase :: "'v refresh_phase"

fun holds_lock :: "'v refresh_phase \<Rightarrow> bool" where
  "holds_lock RfLocked = True"
| "holds_lock (RfCompiling _) = True"
| "holds_lock (RfCompiled _ _) = True"
| "holds_lock _ = False"

record 'v runtime_world =
  rw_history :: "snapshot_facts list"
  rw_current :: "('v runtime_snapshot \<times> nat) option"
  rw_refreshes :: "'v refresh list"

definition published :: "'v runtime_world \<Rightarrow> 'v runtime_snapshot option" where
  "published w = map_option fst (rw_current w)"

definition latest :: "'v runtime_world \<Rightarrow> nat" where
  "latest w = length (rw_history w) - 1"

text \<open>The part of \<open>refresh_with_mode\<close> from the lock to the start of the compilation.\<close>

definition refresh_checks ::
  "refresh_mode \<Rightarrow> (unit + config_revision) \<Rightarrow> (provider_kind, provider_catalog_generation) btree
   \<Rightarrow> ('v runtime_snapshot \<times> nat) option \<Rightarrow> ('v runtime_snapshot \<times> nat) option \<times> 'v refresh_phase" where
  "refresh_checks mode persisted generations current =
     (case mode of
        Required \<Rightarrow> (current, RfCompiling True)
      | Reconcile \<Rightarrow>
          (case persisted of
             Inl _ \<Rightarrow> (None, RfDone (Inl StoreUnavailable))
           | Inr revision \<Rightarrow>
               let changed = runtime_revision_needs_refresh
                     (map_option revision_get (handle_revision (map_option fst current))) (revision_get revision)
               in if \<not> changed \<and> \<not> provider_catalogs_need_refresh (map_option fst current) generations
                  then (current, RfDone (Inr revision))
                  else (current, RfCompiling changed)))"

text \<open>The rest: the failure suspends unless only a catalog moved, a snapshot is published.\<close>

definition refresh_result ::
  "bool \<Rightarrow> (runtime_snapshot_compile_error + 'v runtime_snapshot \<times> nat)
   \<Rightarrow> ('v runtime_snapshot \<times> nat) option \<Rightarrow> ('v runtime_snapshot \<times> nat) option \<times> 'v refresh_phase" where
  "refresh_result changed result current =
     (case result of
        Inl e \<Rightarrow> (if changed then None else current, RfDone (Inl e))
      | Inr (snapshot, n) \<Rightarrow> (Some (snapshot, n), RfDone (Inr (rt_revision snapshot))))"

text \<open>
  What a compilation may answer: every attempt reads a configuration that was current at some time
  since the refresh got the lock, and the current revision once more.
\<close>

definition reads_since :: "snapshot_facts list \<Rightarrow> nat \<Rightarrow> snapshot_facts \<Rightarrow> nat \<Rightarrow> bool" where
  "reads_since history from facts n =
     (from \<le> n \<and> n < length history
      \<and> facts = (history ! n)\<lparr>sn_observed_current_revision := sn_observed_current_revision facts\<rparr>)"

definition compile_answer ::
  "(string \<Rightarrow> 'v option) \<Rightarrow> snapshot_facts list \<Rightarrow> nat
   \<Rightarrow> (runtime_snapshot_compile_error + 'v runtime_snapshot \<times> nat) \<Rightarrow> bool" where
  "compile_answer semver history from result =
     (case result of
        Inl e \<Rightarrow> True
      | Inr (s, n) \<Rightarrow>
          (\<exists>(r :: compile_round) facts (t :: 'v runtime_snapshot). cr_facts r = Some facts \<and> reads_since history from facts n
             \<and> sn_config_revision facts = sn_observed_current_revision facts
             \<and> compile_runtime_snapshot semver facts (cr_catalogs r) (map fst (cr_generations r)) = Inr t
             \<and> s = t\<lparr>rt_provider_catalog_generations := cr_generations r\<rparr>))"

definition set_phase :: "nat \<Rightarrow> 'v refresh_phase \<Rightarrow> 'v runtime_world \<Rightarrow> 'v runtime_world" where
  "set_phase i phase w = w\<lparr>rw_refreshes := (rw_refreshes w)[i := (rw_refreshes w ! i)\<lparr>rf_phase := phase\<rparr>]\<rparr>"

inductive runtime_step ::
  "(string \<Rightarrow> 'v option) \<Rightarrow> 'v runtime_world \<Rightarrow> 'v runtime_world \<Rightarrow> bool" for semver where
  commit: "runtime_step semver w (w\<lparr>rw_history := rw_history w @ [facts]\<rparr>)"
| call: "runtime_step semver w
     (w\<lparr>rw_refreshes := rw_refreshes w
        @ [\<lparr>rf_mode = mode, rf_started = latest w, rf_locked = 0, rf_phase = RfWaiting\<rparr>]\<rparr>)"
| lock: "i < length (rw_refreshes w) \<Longrightarrow> rf_phase (rw_refreshes w ! i) = RfWaiting \<Longrightarrow>
     \<not> (\<exists>r \<in> set (rw_refreshes w). holds_lock (rf_phase r)) \<Longrightarrow>
     runtime_step semver w
       (w\<lparr>rw_refreshes := (rw_refreshes w)[i := (rw_refreshes w ! i)\<lparr>rf_phase := RfLocked, rf_locked := latest w\<rparr>]\<rparr>)"
| checks: "i < length (rw_refreshes w) \<Longrightarrow> rf_phase (rw_refreshes w ! i) = RfLocked \<Longrightarrow>
     (case persisted of Inl _ \<Rightarrow> True
      | Inr revision \<Rightarrow> \<exists>n. rf_locked (rw_refreshes w ! i) \<le> n \<and> n < length (rw_history w)
          \<and> revision = sn_config_revision (rw_history w ! n)) \<Longrightarrow>
     refresh_checks (rf_mode (rw_refreshes w ! i)) persisted generations (rw_current w) = (current, phase) \<Longrightarrow>
     runtime_step semver w (set_phase i phase (w\<lparr>rw_current := current\<rparr>))"
| compile: "i < length (rw_refreshes w) \<Longrightarrow> rf_phase (rw_refreshes w ! i) = RfCompiling changed \<Longrightarrow>
     compile_answer semver (rw_history w) (rf_locked (rw_refreshes w ! i)) result \<Longrightarrow>
     runtime_step semver w (set_phase i (RfCompiled changed result) w)"
| result: "i < length (rw_refreshes w) \<Longrightarrow> rf_phase (rw_refreshes w ! i) = RfCompiled changed result \<Longrightarrow>
     refresh_result changed result (rw_current w) = (current, phase) \<Longrightarrow>
     runtime_step semver w (set_phase i phase (w\<lparr>rw_current := current\<rparr>))"
| dropped: "i < length (rw_refreshes w) \<Longrightarrow>
     rf_phase (rw_refreshes w ! i) \<in> {RfWaiting, RfLocked, RfCompiling True, RfCompiling False} \<Longrightarrow>
     runtime_step semver w (set_phase i RfDropped w)"

text \<open>The process starts with a first configuration and a snapshot of it, or suspended.\<close>

inductive runtime_reachable :: "(string \<Rightarrow> 'v option) \<Rightarrow> 'v runtime_world \<Rightarrow> bool" for semver where
  start: "(case current of None \<Rightarrow> True
      | Some (s, n) \<Rightarrow> n = 0 \<and> compile_answer semver [facts] 0 (Inr (s, n))) \<Longrightarrow>
     runtime_reachable semver \<lparr>rw_history = [facts], rw_current = current, rw_refreshes = []\<rparr>"
| step: "runtime_reachable semver w \<Longrightarrow> runtime_step semver w w' \<Longrightarrow> runtime_reachable semver w'"

section \<open>The subscription daemon\<close>

datatype subscription_event = SubscribeOk | SubscribeFailed | Notified | StreamBroken | DaemonCancelled

datatype daemon_action = WaitBackoff duration | RefreshNow | DaemonReturned

text \<open>
  The loop over what it waits for: the outer level subscribes, the inner one (\<open>True\<close>) listens. The
  cancellation is looked at before every subscription, during a backoff and while listening.
\<close>

fun subscription_run :: "bool \<Rightarrow> duration \<Rightarrow> subscription_event list \<Rightarrow> daemon_action list" where
  "subscription_run listening delay [] = []"
| "subscription_run listening delay (DaemonCancelled # es) = [DaemonReturned]"
| "subscription_run False delay (SubscribeOk # es) = subscription_run True initial_backoff es"
| "subscription_run False delay (SubscribeFailed # es) =
     WaitBackoff delay # subscription_run False (min (duration_saturating_mul delay 2) maximum_backoff) es"
| "subscription_run True delay (Notified # es) = RefreshNow # subscription_run True delay es"
| "subscription_run True delay (StreamBroken # es) = subscription_run False delay es"
| "subscription_run listening delay (e # es) = subscription_run listening delay es"

section \<open>Background work of the publisher\<close>

definition runtime_worker_contributions :: "worker_definition_error + worker_contribution list" where
  "runtime_worker_contributions =
     (case worker_id_try_new RuntimeSnapshotReconciliation ''runtime_snapshot'' of
        Inl e \<Rightarrow> Inl e
      | Inr reconciliation_id \<Rightarrow>
     (case worker_schedule_try_new reconciliation_interval initial_backoff maximum_backoff unused_lease_ttl
             unused_lease_renewal of
        Inl e \<Rightarrow> Inl e
      | Inr schedule \<Rightarrow>
     (case worker_registration_try_new reconciliation_id (RunScheduled schedule None) of
        Inl e \<Rightarrow> Inl e
      | Inr reconciliation \<Rightarrow>
     (case worker_id_try_new RuntimeChangeSubscription ''runtime_snapshot'' of
        Inl e \<Rightarrow> Inl e
      | Inr subscription_id \<Rightarrow>
     (case daemon_restart_policy_try_new initial_backoff maximum_backoff of
        Inl e \<Rightarrow> Inl e
      | Inr restart \<Rightarrow>
     (case worker_registration_try_new subscription_id (RunDaemon restart) of
        Inl e \<Rightarrow> Inl e
      | Inr subscription \<Rightarrow>
          Inr [ContributedRegistration reconciliation, ContributedRegistration subscription]))))))"

lemma runtime_workers_valid: "\<exists>cs. runtime_worker_contributions = Inr cs \<and> map contribution_kind cs
    = [RuntimeSnapshotReconciliation, RuntimeChangeSubscription]"
proof -
  have "valid_owner ''runtime_snapshot''" by code_simp
  then show ?thesis
    by (simp add: runtime_worker_contributions_def worker_id_try_new_def worker_schedule_try_new_def
        worker_registration_try_new_def worker_registration_validate_def daemon_restart_policy_try_new_def Let_def
        reconciliation_interval_def initial_backoff_def maximum_backoff_def unused_lease_ttl_def unused_lease_renewal_def
        of_secs_def)
qed

end
