(* ===== verification/RuntimeProps.thy ===== *)
theory RuntimeProps
  imports Runtime
begin

text \<open>
  What the runtime holder promises while refreshes, commits and dropped calls interleave: published
  snapshots never go back in time, a refresh that has returned leaves no older configuration in
  force, and so a committed change of a client key is in effect when the administration call is over.
\<close>

section \<open>Answers of the compiler\<close>

text \<open>The compilation of the previous theory gives such an answer when its attempts read the store.\<close>

lemma compile_attempts_answer:
  assumes "compile_attempts semver rs = Inr s"
    and "\<And>r facts. r \<in> set rs \<Longrightarrow> cr_facts r = Some facts \<Longrightarrow> \<exists>n. reads_since history from facts n"
  shows "\<exists>n. compile_answer semver history from (Inr (s, n))"
  using assms
proof (induction rs)
  case (Cons r rs)
  from Cons.prems(1) obtain facts t where f: "cr_facts r = Some facts"
    "sn_config_revision facts = sn_observed_current_revision facts"
    and t: "compile_runtime_snapshot semver facts (cr_catalogs r) (map fst (cr_generations r)) = Inr t"
    by (auto split: option.splits if_splits sum.splits)
  show ?case
  proof (cases "cr_generations r = cr_observed_generations r")
    case True
    then have "s = t\<lparr>rt_provider_catalog_generations := cr_generations r\<rparr>" using Cons.prems(1) f t by simp
    moreover obtain n where "reads_since history from facts n" using Cons.prems(2) [OF _ f(1)] by auto
    ultimately show ?thesis using f t unfolding compile_answer_def sum.case prod.case by blast
  next
    case False
    then have "compile_attempts semver rs = Inr s" using Cons.prems(1) f t by simp
    then show ?thesis by (rule Cons.IH) (use Cons.prems(2) in auto)
  qed
qed simp

lemma compile_answer_reads:
  assumes "compile_answer semver history from (Inr (s, n))"
  shows "from \<le> n" "n < length history" "rt_revision s = sn_config_revision (history ! n)"
proof -
  from assms obtain r facts t where a: "reads_since history from facts n"
    "compile_runtime_snapshot semver facts (cr_catalogs r) (map fst (cr_generations (r :: compile_round))) = Inr t"
    "s = t\<lparr>rt_provider_catalog_generations := cr_generations r\<rparr>"
    by (auto simp: compile_answer_def)
  show "from \<le> n" "n < length history" using a(1) by (auto simp: reads_since_def)
  have "rt_revision t = sn_config_revision facts" using a(2) by (rule compile_stages)
  moreover have "sn_config_revision facts = sn_config_revision (history ! n)"
    using a(1) unfolding reads_since_def by (metis snapshot_facts.select_convs(1) snapshot_facts.surjective snapshot_facts.update_convs(2))
  ultimately show "rt_revision s = sn_config_revision (history ! n)" using a(3) by simp
qed

lemma reads_since_mono: "reads_since history from facts n \<Longrightarrow> since \<le> from \<Longrightarrow> reads_since (history @ more_history) since facts n"
  by (auto simp: reads_since_def nth_append)

lemma compile_answer_mono:
  "compile_answer semver history from res \<Longrightarrow> since \<le> from \<Longrightarrow> compile_answer semver (history @ more_history) since res"
  unfolding compile_answer_def using reads_since_mono by (fastforce split: sum.splits)

section \<open>The invariant\<close>

fun is_done :: "'v refresh_phase \<Rightarrow> bool" where
  "is_done (RfDone _) = True"
| "is_done _ = False"

text \<open>The published revision is that of a configuration at least as new as \<open>v\<close>.\<close>

definition revision_since :: "nat \<Rightarrow> 'v runtime_world \<Rightarrow> bool" where
  "revision_since v w =
     (case rw_current w of None \<Rightarrow> True
      | Some (s, n) \<Rightarrow> \<exists>m. v \<le> m \<and> m < length (rw_history w) \<and> rt_revision s = sn_config_revision (rw_history w ! m))"

definition version_since :: "nat \<Rightarrow> 'v runtime_world \<Rightarrow> bool" where
  "version_since v w = (case rw_current w of None \<Rightarrow> True | Some (s, n) \<Rightarrow> v \<le> n)"

definition done_ok :: "'v runtime_world \<Rightarrow> 'v refresh \<Rightarrow> bool" where
  "done_ok w r = (revision_since (rf_started r) w \<and> (rf_mode r = Required \<longrightarrow> version_since (rf_started r) w))"

fun phase_ok :: "(string \<Rightarrow> 'v option) \<Rightarrow> 'v runtime_world \<Rightarrow> 'v refresh \<Rightarrow> 'v refresh_phase \<Rightarrow> bool" where
  "phase_ok semver w r (RfCompiling changed) = (changed \<or> rf_mode r = Reconcile \<and> revision_since (rf_locked r) w)"
| "phase_ok semver w r (RfCompiled changed result) =
     ((changed \<or> rf_mode r = Reconcile \<and> revision_since (rf_locked r) w)
      \<and> compile_answer semver (rw_history w) (rf_locked r) result)"
| "phase_ok semver w r _ = True"

definition holder_ok :: "(string \<Rightarrow> 'v option) \<Rightarrow> 'v runtime_world \<Rightarrow> 'v refresh \<Rightarrow> bool" where
  "holder_ok semver w r =
     (rf_started r \<le> rf_locked r \<and> rf_locked r \<le> latest w
      \<and> (\<forall>r' \<in> set (rw_refreshes w). is_done (rf_phase r') \<longrightarrow> rf_started r' \<le> rf_locked r)
      \<and> (case rw_current w of None \<Rightarrow> True | Some (s, n) \<Rightarrow> n \<le> rf_locked r)
      \<and> phase_ok semver w r (rf_phase r))"

definition one_holder :: "'v refresh list \<Rightarrow> bool" where
  "one_holder rs = (\<forall>i < length rs. \<forall>j < length rs. holds_lock (rf_phase (rs ! i)) \<and> holds_lock (rf_phase (rs ! j)) \<longrightarrow> i = j)"

definition current_ok :: "(string \<Rightarrow> 'v option) \<Rightarrow> 'v runtime_world \<Rightarrow> bool" where
  "current_ok semver w =
     (case rw_current w of None \<Rightarrow> True | Some p \<Rightarrow> compile_answer semver (rw_history w) 0 (Inr p))"

definition runtime_inv :: "(string \<Rightarrow> 'v option) \<Rightarrow> 'v runtime_world \<Rightarrow> bool" where
  "runtime_inv semver w =
     (rw_history w \<noteq> [] \<and> one_holder (rw_refreshes w) \<and> current_ok semver w
      \<and> (\<forall>r \<in> set (rw_refreshes w). rf_started r \<le> latest w)
      \<and> (\<forall>r \<in> set (rw_refreshes w). holds_lock (rf_phase r) \<longrightarrow> holder_ok semver w r)
      \<and> (\<forall>r \<in> set (rw_refreshes w). is_done (rf_phase r) \<longrightarrow> done_ok w r))"

lemma current_version: "current_ok semver w \<Longrightarrow> rw_current w = Some (s, n) \<Longrightarrow> n < length (rw_history w) \<and> rt_revision s = sn_config_revision (rw_history w ! n)"
  by (auto simp: current_ok_def dest: compile_answer_reads)

lemma revision_since_mono: "revision_since v w \<Longrightarrow> u \<le> v \<Longrightarrow> revision_since u w"
  by (auto simp: revision_since_def split: option.splits) (metis order_trans)

lemma since_cong:
  assumes "rw_current v = rw_current w" "rw_history v = rw_history w"
  shows "revision_since u v = revision_since u w" "version_since u v = version_since u w" "done_ok v r = done_ok w r"
  unfolding done_ok_def revision_since_def version_since_def assms by (rule refl)+

text \<open>A commit keeps everything.\<close>

lemma commit_inv:
  assumes "runtime_inv semver w"
  shows "runtime_inv semver (w\<lparr>rw_history := rw_history w @ [facts]\<rparr>)" (is "runtime_inv semver ?w")
proof -
  have rev: "revision_since v w \<Longrightarrow> revision_since v ?w" for v
    unfolding revision_since_def
    by (auto split: option.splits simp: nth_append)
  have ver: "version_since v ?w = version_since v w" for v by (simp add: version_since_def)
  have late: "latest w \<le> latest ?w" using assms by (simp add: latest_def)
  have phase: "phase_ok semver w r p \<Longrightarrow> phase_ok semver ?w r p" for r p
    using rev compile_answer_mono [of semver "rw_history w" "rf_locked r" _ "rf_locked r" "[facts]"] by (cases p) auto
  have holder: "holder_ok semver w r \<Longrightarrow> holder_ok semver ?w r" for r
    using late phase unfolding holder_ok_def by auto
  have "current_ok semver ?w"
    using assms compile_answer_mono [of semver "rw_history w" 0 _ 0 "[facts]"]
    by (auto simp: runtime_inv_def current_ok_def split: option.splits)
  then show ?thesis
    using assms holder rev late
    by (auto simp: runtime_inv_def done_ok_def ver intro: order_trans)
qed

text \<open>A new call of a refresh.\<close>

lemma call_inv:
  assumes "runtime_inv semver w"
  shows "runtime_inv semver (w\<lparr>rw_refreshes := rw_refreshes w
        @ [\<lparr>rf_mode = mode, rf_started = latest w, rf_locked = 0, rf_phase = RfWaiting\<rparr>]\<rparr>)" (is "runtime_inv semver ?w")
proof -
  have same: "revision_since v ?w = revision_since v w" "version_since v ?w = version_since v w" "latest ?w = latest w" for v
    by (simp_all add: revision_since_def version_since_def latest_def split: option.split)
  have phase: "phase_ok semver ?w r p = phase_ok semver w r p" for r p by (cases p) (simp_all add: same)
  have cur: "current_ok semver ?w = current_ok semver w" by (simp add: current_ok_def split: option.split)
  have "one_holder (rw_refreshes ?w)"
    using assms by (auto simp: runtime_inv_def one_holder_def nth_append less_Suc_eq)
  then show ?thesis
    using assms unfolding runtime_inv_def cur
    by (auto simp: done_ok_def holder_ok_def same phase)
qed


text \<open>The two steps that may write the handle, seen from the lock holder that takes them.\<close>

lemma one_holder_set:
  assumes "one_holder rs" "i < length rs" "holds_lock p \<Longrightarrow> holds_lock (rf_phase (rs ! i))"
  shows "one_holder (rs[i := (rs ! i)\<lparr>rf_phase := p\<rparr>])"
  using assms by (auto simp: one_holder_def nth_list_update)

lemma others_free:
  assumes "one_holder rs" "i < length rs" "holds_lock (rf_phase (rs ! i))"
    and "j < length rs" "holds_lock (rf_phase (rs ! j))"
  shows "j = i"
  using assms by (auto simp: one_holder_def)

lemma set_update_other:
  assumes "x \<in> set (xs[i := y])" "x \<noteq> y"
  shows "\<exists>j < length xs. j \<noteq> i \<and> xs ! j = x"
proof -
  obtain j where j: "j < length xs" "xs[i := y] ! j = x" using assms(1) by (auto simp: in_set_conv_nth)
  then have "j \<noteq> i" using assms(2) by auto
  then show ?thesis using j by auto
qed

lemma holder_step_inv:
  assumes inv: "runtime_inv semver w" and i: "i < length (rw_refreshes w)"
    and held: "holds_lock (rf_phase (rw_refreshes w ! i))"
    and cur: "current = rw_current w \<or> current = None
      \<or> (\<exists>p. current = Some p \<and> compile_answer semver (rw_history w) (rf_locked (rw_refreshes w ! i)) (Inr p))"
    and released: "holds_lock phase \<Longrightarrow> current = rw_current w \<and> phase_ok semver w (rw_refreshes w ! i) phase"
    and finished: "is_done phase \<Longrightarrow> done_ok (w\<lparr>rw_current := current\<rparr>) (rw_refreshes w ! i)"
    and v: "rw_history v = rw_history w" "rw_current v = current"
      "rw_refreshes v = (rw_refreshes w)[i := (rw_refreshes w ! i)\<lparr>rf_phase := phase\<rparr>]"
  shows "runtime_inv semver v"
proof -
  define ri where "ri = rw_refreshes w ! i"
  define rn where "rn = ri\<lparr>rf_phase := phase\<rparr>"
  have rn: "rf_phase rn = phase" "rf_mode rn = rf_mode ri" "rf_started rn = rf_started ri" "rf_locked rn = rf_locked ri"
    by (simp_all add: rn_def)
  have hist: "rw_history v = rw_history w" "rw_current v = current" "latest v = latest w"
    "rw_refreshes v = (rw_refreshes w)[i := rn]"
    using v by (simp_all add: latest_def rn_def ri_def)
  have r: "ri \<in> set (rw_refreshes w)" using i by (simp add: ri_def)
  then have r: "holder_ok semver w ri" "ri \<in> set (rw_refreshes w)"
    using inv held [folded ri_def] unfolding runtime_inv_def by blast+
  note cur = cur [folded ri_def] and released = released [folded ri_def] and finished = finished [folded ri_def]
  have members: "r = rn \<or> r \<in> set (rw_refreshes w)" if "r \<in> set (rw_refreshes v)" for r
    using that set_update_subset_insert [of "rw_refreshes w" i rn] by (auto simp: hist)
  have free: "\<not> holds_lock (rf_phase r)" if inside: "r \<in> set (rw_refreshes v)" and other: "r \<noteq> rn" for r
  proof
    assume h: "holds_lock (rf_phase r)"
    obtain j where j: "j < length (rw_refreshes w)" "j \<noteq> i" "rw_refreshes w ! j = r"
      using set_update_other [OF inside [unfolded hist(4)] other] by blast
    have "one_holder (rw_refreshes w)" using inv by (simp add: runtime_inv_def)
    then have "j = i" by (rule others_free [OF _ i held j(1)]) (simp add: j(3) h)
    then show False using j(2) by simp
  qed
  have kept: "version_since u v \<and> revision_since u v"
    if "\<exists>p. current = Some p \<and> compile_answer semver (rw_history w) (rf_locked ri) (Inr p)" "u \<le> rf_locked ri" for u
  proof -
    from that(1) obtain s n where "current = Some (s, n)"
      and a: "compile_answer semver (rw_history w) (rf_locked ri) (Inr (s, n))" by auto
    then show ?thesis
      using compile_answer_reads [OF a] that(2)
      by (auto simp: version_since_def revision_since_def hist intro!: exI [of _ n])
  qed
  have since: "done_ok v r" if "done_ok w r" "rf_started r \<le> rf_locked ri" for r
    using cur
  proof (elim disjE)
    assume same: "current = rw_current w"
    show ?thesis
      using that(1) unfolding done_ok_def version_since_def revision_since_def hist same .
  next
    assume "current = None"
    then show ?thesis by (simp add: done_ok_def version_since_def revision_since_def hist)
  next
    assume "\<exists>p. current = Some p \<and> compile_answer semver (rw_history w) (rf_locked ri) (Inr p)"
    from kept [OF this that(2)] show ?thesis by (simp add: done_ok_def)
  qed
  have dones: "done_ok v r" if "r \<in> set (rw_refreshes v)" "is_done (rf_phase r)" for r
  proof (cases "r = rn")
    case True
    then have "done_ok (w\<lparr>rw_current := current\<rparr>) ri" using finished that(2) by (simp add: rn)
    then have "done_ok v ri" using since_cong(3) [of v "w\<lparr>rw_current := current\<rparr>" ri] by (simp add: hist)
    then show ?thesis unfolding True by (simp add: done_ok_def rn)
  next
    case False
    then have "r \<in> set (rw_refreshes w)" using members that(1) by blast
    then have "done_ok w r" "rf_started r \<le> rf_locked ri"
      using that(2) inv r(1) unfolding runtime_inv_def holder_ok_def by blast+
    then show ?thesis by (rule since)
  qed
  have holders: "holder_ok semver v r" if "r \<in> set (rw_refreshes v)" "holds_lock (rf_phase r)" for r
  proof -
    have r': "r = rn" using free that by blast
    then have h: "holds_lock phase" using that(2) by (simp add: rn)
    note rel = released [OF h]
    have "revision_since u v = revision_since u w" for u
      using rel by (intro since_cong(1)) (simp_all add: hist)
    then have "phase_ok semver v rn phase = phase_ok semver w ri phase"
      by (cases phase) (simp_all add: hist rn)
    moreover have "\<forall>r \<in> set (rw_refreshes v). is_done (rf_phase r) \<longrightarrow> rf_started r \<le> rf_locked ri"
    proof (intro ballI impI)
      fix q assume q: "q \<in> set (rw_refreshes v)" "is_done (rf_phase q)"
      then have "q \<noteq> rn" using h by (cases phase) (auto simp: rn)
      then show "rf_started q \<le> rf_locked ri" using members q r(1) by (auto simp: holder_ok_def)
    qed
    ultimately show ?thesis
      using r(1) rel unfolding r' holder_ok_def hist(2,3) rn by simp
  qed
  have "one_holder (rw_refreshes v)"
    using inv i held unfolding hist(4) rn_def ri_def by (intro one_holder_set) (simp_all add: runtime_inv_def)
  moreover have "current_ok semver v"
    using cur
  proof (elim disjE)
    assume same: "current = rw_current w"
    show ?thesis using inv unfolding runtime_inv_def current_ok_def hist same by blast
  next
    assume "current = None"
    then show ?thesis by (simp add: current_ok_def hist)
  next
    assume "\<exists>p. current = Some p \<and> compile_answer semver (rw_history w) (rf_locked ri) (Inr p)"
    then obtain p where p: "current = Some p" "compile_answer semver (rw_history w) (rf_locked ri) (Inr p)" by blast
    show ?thesis
      using compile_answer_mono [OF p(2), of 0 "[]"] by (simp add: current_ok_def hist p(1))
  qed
  moreover have "rf_started r \<le> latest v" if "r \<in> set (rw_refreshes v)" for r
  proof -
    have "\<forall>r \<in> set (rw_refreshes w). rf_started r \<le> latest w" using inv by (simp add: runtime_inv_def)
    then show ?thesis using members [OF that] r(2) rn(3) hist(3) by metis
  qed
  moreover have "rw_history v \<noteq> []" using inv hist(1) by (simp add: runtime_inv_def)
  ultimately show ?thesis using holders dones unfolding runtime_inv_def by blast
qed


lemma lock_inv:
  assumes inv: "runtime_inv semver w" and i: "i < length (rw_refreshes w)"
    and waiting: "rf_phase (rw_refreshes w ! i) = RfWaiting"
    and free: "\<not> (\<exists>r \<in> set (rw_refreshes w). holds_lock (rf_phase r))"
    and v: "rw_history v = rw_history w" "rw_current v = rw_current w"
      "rw_refreshes v = (rw_refreshes w)[i := (rw_refreshes w ! i)\<lparr>rf_phase := RfLocked, rf_locked := latest w\<rparr>]"
  shows "runtime_inv semver v"
proof -
  define ri where "ri = rw_refreshes w ! i"
  define rn where "rn = ri\<lparr>rf_phase := RfLocked, rf_locked := latest w\<rparr>"
  have rn: "rf_phase rn = RfLocked" "rf_started rn = rf_started ri" "rf_locked rn = latest w"
    by (simp_all add: rn_def)
  have hist: "rw_history v = rw_history w" "rw_current v = rw_current w" "latest v = latest w"
    "rw_refreshes v = (rw_refreshes w)[i := rn]"
    using v by (simp_all add: latest_def rn_def ri_def)
  have ri: "ri \<in> set (rw_refreshes w)" using i by (simp add: ri_def)
  have members: "r = rn \<or> r \<in> set (rw_refreshes w)" if "r \<in> set (rw_refreshes v)" for r
    using that set_update_subset_insert [of "rw_refreshes w" i rn] by (auto simp: hist)
  have started: "rf_started r \<le> latest w" if "r \<in> set (rw_refreshes w)" for r
    using inv that by (simp add: runtime_inv_def)
  have started': "rf_started r \<le> latest w" if "r \<in> set (rw_refreshes v)" for r
    using members [OF that] started ri rn(2) by metis
  have "one_holder (rw_refreshes v)"
    using free i by (auto simp: one_holder_def hist nth_list_update)
  moreover have "current_ok semver v"
    using inv unfolding runtime_inv_def current_ok_def hist by blast
  moreover have "done_ok v r" if "r \<in> set (rw_refreshes v)" "is_done (rf_phase r)" for r
  proof -
    have "r \<noteq> rn" using that(2) rn(1) by auto
    then have "done_ok w r" using members [OF that(1)] that(2) inv unfolding runtime_inv_def by blast
    then show ?thesis unfolding done_ok_def version_since_def revision_since_def hist .
  qed
  moreover have "holder_ok semver v r" if "r \<in> set (rw_refreshes v)" "holds_lock (rf_phase r)" for r
  proof -
    have r: "r = rn" using members [OF that(1)] that(2) free by blast
    have "case rw_current w of None \<Rightarrow> True | Some (s, n) \<Rightarrow> n \<le> latest w"
      using inv current_version [of semver w] by (fastforce simp: runtime_inv_def latest_def split: option.splits)
    then show ?thesis
      using started' started ri unfolding r holder_ok_def hist rn by simp
  qed
  ultimately show ?thesis
    using inv started' unfolding runtime_inv_def hist(1,3) by blast
qed

lemma checks_inv:
  assumes inv: "runtime_inv semver w" and i: "i < length (rw_refreshes w)"
    and held: "rf_phase (rw_refreshes w ! i) = RfLocked"
    and persisted: "case persisted of Inl _ \<Rightarrow> True
      | Inr revision \<Rightarrow> \<exists>n. rf_locked (rw_refreshes w ! i) \<le> n \<and> n < length (rw_history w)
          \<and> revision = sn_config_revision (rw_history w ! n)"
    and step: "refresh_checks (rf_mode (rw_refreshes w ! i)) persisted generations (rw_current w) = (current, phase)"
  shows "runtime_inv semver (set_phase i phase (w\<lparr>rw_current := current\<rparr>))"
proof (rule holder_step_inv [OF inv i, where current = current and phase = phase])
  let ?r = "rw_refreshes w ! i"
  have r: "rf_started ?r \<le> rf_locked ?r"
    using inv i held by (auto simp: runtime_inv_def holder_ok_def)
  show "holds_lock (rf_phase ?r)" using held by simp
  have unchanged: "revision_since (rf_locked ?r) w"
    if read: "persisted = Inr revision" and same:
      "\<not> runtime_revision_needs_refresh (map_option revision_get (handle_revision (map_option fst (rw_current w))))
         (revision_get revision)" for revision
  proof -
    obtain s n where c: "rw_current w = Some (s, n)" "rt_revision s = revision"
      using same by (auto simp: runtime_revision_needs_refresh_def handle_revision_def config_revision.expand)
    then show ?thesis using persisted read by (auto simp: revision_since_def)
  qed
  show "current = rw_current w \<or> current = None
      \<or> (\<exists>p. current = Some p \<and> compile_answer semver (rw_history w) (rf_locked ?r) (Inr p))"
    using step by (auto simp: refresh_checks_def Let_def split: refresh_mode.splits sum.splits if_splits)
  show "current = rw_current w \<and> phase_ok semver w ?r phase" if goes_on: "holds_lock phase"
  proof (cases "rf_mode ?r")
    case Required
    then show ?thesis using step by (auto simp: refresh_checks_def)
  next
    case mode: Reconcile
    obtain revision where p: "persisted = Inr revision" "current = rw_current w"
      "phase = RfCompiling (runtime_revision_needs_refresh
         (map_option revision_get (handle_revision (map_option fst (rw_current w)))) (revision_get revision))"
      using step goes_on mode by (auto simp: refresh_checks_def Let_def split: sum.splits if_splits)
    then show ?thesis using mode unchanged [OF p(1)] by auto
  qed
  show "done_ok (w\<lparr>rw_current := current\<rparr>) ?r" if finished: "is_done phase"
  proof (cases "rf_mode ?r")
    case Required
    then show ?thesis using step finished by (auto simp: refresh_checks_def)
  next
    case mode: Reconcile
    show ?thesis
    proof (cases persisted)
      case (Inl e)
      then show ?thesis
        using step mode by (auto simp: refresh_checks_def done_ok_def revision_since_def)
    next
      case (Inr revision)
      then have "current = rw_current w"
        "\<not> runtime_revision_needs_refresh (map_option revision_get (handle_revision (map_option fst (rw_current w))))
           (revision_get revision)"
        using step mode finished by (auto simp: refresh_checks_def Let_def split: if_splits)
      then have "revision_since (rf_started ?r) w" using unchanged [OF Inr] revision_since_mono r by blast
      then show ?thesis
        using mode \<open>current = rw_current w\<close> since_cong(1) [of "w\<lparr>rw_current := current\<rparr>" w "rf_started ?r"]
        by (simp add: done_ok_def)
    qed
  qed
qed (simp_all add: set_phase_def)

lemma compile_inv:
  assumes inv: "runtime_inv semver w" and i: "i < length (rw_refreshes w)"
    and held: "rf_phase (rw_refreshes w ! i) = RfCompiling changed"
    and answer: "compile_answer semver (rw_history w) (rf_locked (rw_refreshes w ! i)) result"
  shows "runtime_inv semver (set_phase i (RfCompiled changed result) w)"
proof (rule holder_step_inv [OF inv i, where current = "rw_current w" and phase = "RfCompiled changed result"])
  have "holder_ok semver w (rw_refreshes w ! i)" using inv i held by (auto simp: runtime_inv_def)
  then show "rw_current w = rw_current w \<and> phase_ok semver w (rw_refreshes w ! i) (RfCompiled changed result)"
    using answer held by (simp add: holder_ok_def)
qed (use held in \<open>simp_all add: set_phase_def\<close>)

lemma result_inv:
  assumes inv: "runtime_inv semver w" and i: "i < length (rw_refreshes w)"
    and held: "rf_phase (rw_refreshes w ! i) = RfCompiled changed result"
    and step: "refresh_result changed result (rw_current w) = (current, phase)"
  shows "runtime_inv semver (set_phase i phase (w\<lparr>rw_current := current\<rparr>))"
proof (rule holder_step_inv [OF inv i, where current = current and phase = phase])
  let ?r = "rw_refreshes w ! i"
  have h: "holder_ok semver w ?r" using inv i held by (auto simp: runtime_inv_def)
  then have r: "rf_started ?r \<le> rf_locked ?r"
    and answer: "compile_answer semver (rw_history w) (rf_locked ?r) result"
    and c: "changed \<or> rf_mode ?r = Reconcile \<and> revision_since (rf_locked ?r) w"
    using held by (simp_all add: holder_ok_def)
  show "current = rw_current w \<or> current = None
      \<or> (\<exists>p. current = Some p \<and> compile_answer semver (rw_history w) (rf_locked ?r) (Inr p))"
    using step answer by (auto simp: refresh_result_def split: sum.splits if_splits)
  show "current = rw_current w \<and> phase_ok semver w ?r phase" if "holds_lock phase"
    using step that by (auto simp: refresh_result_def split: sum.splits)
  show "done_ok (w\<lparr>rw_current := current\<rparr>) ?r"
  proof (cases result)
    case (Inl e)
    show ?thesis
    proof (cases changed)
      case True
      then show ?thesis
        using step Inl by (simp add: refresh_result_def done_ok_def revision_since_def version_since_def)
    next
      case False
      then have "revision_since (rf_started ?r) w" "rf_mode ?r = Reconcile"
        using c revision_since_mono r by blast+
      moreover have "current = rw_current w" using step Inl False by (simp add: refresh_result_def)
      ultimately show ?thesis
        using since_cong(1) [of "w\<lparr>rw_current := current\<rparr>" w "rf_started ?r"] by (simp add: done_ok_def)
    qed
  next
    case (Inr p)
    then obtain s n where p: "result = Inr (s, n)" by (cases p) simp
    have a: "compile_answer semver (rw_history w) (rf_locked ?r) (Inr (s, n))" using answer p by simp
    note reads = compile_answer_reads [OF a]
    have "current = Some (s, n)" using step by (simp add: refresh_result_def p)
    then show ?thesis
      using reads r by (auto simp: done_ok_def revision_since_def version_since_def intro!: exI [of _ n])
  qed
qed (use held in \<open>simp_all add: set_phase_def\<close>)

lemma dropped_inv:
  assumes inv: "runtime_inv semver w" and i: "i < length (rw_refreshes w)"
    and p: "rf_phase (rw_refreshes w ! i) \<in> {RfWaiting, RfLocked, RfCompiling True, RfCompiling False}"
  shows "runtime_inv semver (set_phase i RfDropped w)"
proof (cases "holds_lock (rf_phase (rw_refreshes w ! i))")
  case True
  then show ?thesis
    by (intro holder_step_inv [OF inv i, where current = "rw_current w" and phase = RfDropped]) (simp_all add: set_phase_def)
next
  case False
  define rn where "rn = (rw_refreshes w ! i)\<lparr>rf_phase := RfDropped\<rparr>"
  define v where "v = set_phase i RfDropped w"
  have hist: "rw_history v = rw_history w" "rw_current v = rw_current w" "latest v = latest w"
    "rw_refreshes v = (rw_refreshes w)[i := rn]"
    by (simp_all add: v_def set_phase_def latest_def rn_def)
  have rn: "rf_phase rn = RfDropped" "rf_started rn = rf_started (rw_refreshes w ! i)" by (simp_all add: rn_def)
  have members: "r = rn \<or> r \<in> set (rw_refreshes w)" if "r \<in> set (rw_refreshes v)" for r
    using that set_update_subset_insert [of "rw_refreshes w" i rn] by (auto simp: hist)
  have "one_holder (rw_refreshes v)"
    using inv i False unfolding hist(4) rn_def by (intro one_holder_set) (simp_all add: runtime_inv_def)
  moreover have "current_ok semver v" using inv unfolding runtime_inv_def current_ok_def hist by blast
  moreover have "rf_started r \<le> latest v" if "r \<in> set (rw_refreshes v)" for r
  proof -
    have "\<forall>r \<in> set (rw_refreshes w). rf_started r \<le> latest w" using inv by (simp add: runtime_inv_def)
    then show ?thesis using members [OF that] i rn(2) hist(3) by (metis nth_mem)
  qed
  moreover have "done_ok v r" if "r \<in> set (rw_refreshes v)" "is_done (rf_phase r)" for r
  proof -
    have "done_ok w r" using members [OF that(1)] that(2) rn(1) inv unfolding runtime_inv_def by (metis is_done.simps(6))
    then show ?thesis unfolding done_ok_def version_since_def revision_since_def hist .
  qed
  moreover have "holder_ok semver v r" if "r \<in> set (rw_refreshes v)" "holds_lock (rf_phase r)" for r
  proof -
    have "r \<in> set (rw_refreshes w)" using members [OF that(1)] that(2) rn(1) by auto
    then have old: "holder_ok semver w r" using that(2) inv by (simp add: runtime_inv_def)
    have "phase_ok semver v r p = phase_ok semver w r p" for p
      using since_cong(1) [of v w] by (cases p) (simp_all add: hist)
    moreover have "rf_started q \<le> rf_locked r" if "q \<in> set (rw_refreshes v)" "is_done (rf_phase q)" for q
      using members [OF that(1)] that(2) rn(1) old by (auto simp: holder_ok_def)
    ultimately show ?thesis using old unfolding holder_ok_def hist(2,3) by blast
  qed
  ultimately have "runtime_inv semver v" using inv unfolding runtime_inv_def hist(1,3) by blast
  then show ?thesis by (simp add: v_def)
qed

lemma runtime_reachable_inv: "runtime_reachable semver w \<Longrightarrow> runtime_inv semver w"
proof (induction rule: runtime_reachable.induct)
  case (start current facts)
  then show ?case
    by (auto simp: runtime_inv_def one_holder_def current_ok_def split: option.splits)
next
  case (step w w')
  from step.hyps(2) show ?case
  proof cases
    case (commit facts)
    then show ?thesis using commit_inv [OF step.IH] by simp
  next
    case (call mode)
    then show ?thesis using call_inv [OF step.IH] by simp
  next
    case (lock i)
    show ?thesis by (rule lock_inv [OF step.IH lock(2-4)]) (simp_all add: lock(1))
  next
    case (checks i persisted generations current phase)
    then show ?thesis using checks_inv [OF step.IH] by simp
  next
    case (compile i changed result)
    then show ?thesis using compile_inv [OF step.IH] by simp
  next
    case (result i changed result current phase)
    then show ?thesis using result_inv [OF step.IH] by simp
  next
    case (dropped i)
    then show ?thesis using dropped_inv [OF step.IH] by simp
  qed
qed


section \<open>What requests see\<close>

text \<open>
  C36. Published configurations never go back: whatever refreshes run at once and whichever are
  dropped, a step that replaces one published snapshot by another publishes one compiled from the
  same or a later configuration.
\<close>

theorem published_never_goes_back:
  assumes "runtime_reachable semver w" and "runtime_step semver w w'"
    and "rw_current w = Some (s, m)" and "rw_current w' = Some (s', n)"
  shows "m \<le> n"
proof -
  have inv: "runtime_inv semver w" by (rule runtime_reachable_inv [OF assms(1)])
  from assms(2) show ?thesis
  proof cases
    case (checks i persisted generations current phase)
    then have "current = rw_current w \<or> current = None"
      by (auto simp: refresh_checks_def Let_def split: refresh_mode.splits sum.splits if_splits)
    moreover have "rw_current w' = current" by (simp add: checks(1) set_phase_def)
    ultimately show ?thesis using assms(3,4) by auto
  next
    case (result i changed res current phase)
    let ?r = "rw_refreshes w ! i"
    have "holder_ok semver w ?r" using inv result(2,3) by (auto simp: runtime_inv_def)
    then have h: "m \<le> rf_locked ?r" "compile_answer semver (rw_history w) (rf_locked ?r) res"
      using assms(3) result(3) by (simp_all add: holder_ok_def)
    have "current = Some (s', n)" using assms(4) by (simp add: result(1) set_phase_def)
    then consider "res = Inr (s', n)" | "rw_current w = Some (s', n)"
      using result(4) by (cases res) (auto simp: refresh_result_def split: if_splits)
    then show ?thesis
    proof cases
      case 1
      then show ?thesis using h compile_answer_reads(1) by fastforce
    next
      case 2
      then show ?thesis using assms(3) by simp
    qed
  qed (use assms(3,4) in \<open>auto simp: set_phase_def\<close>)
qed

text \<open>
  Refreshes fail closed: once any refresh has returned, with success or with an error, requests
  get no snapshot, or one whose revision the store held after the refresh was called.
\<close>

theorem refresh_fails_closed:
  assumes "runtime_reachable semver w" and "r \<in> set (rw_refreshes w)" and "rf_phase r = RfDone res"
  shows "case handle_acquire (published w) of
       Inl _ \<Rightarrow> True
     | Inr s \<Rightarrow> \<exists>m. rf_started r \<le> m \<and> m < length (rw_history w) \<and> rt_revision s = sn_config_revision (rw_history w ! m)"
proof -
  have "done_ok w r" using runtime_reachable_inv [OF assms(1)] assms(2,3) by (auto simp: runtime_inv_def)
  then show ?thesis
    by (auto simp: done_ok_def revision_since_def handle_acquire_def published_def split: option.splits)
qed

text \<open>
  C8. A committed change is in force when the administration call returns: after a required refresh
  has returned, every client key a request can be served with has the secret and the accounts that a
  configuration at least as new as the one committed before the call gives it.
\<close>

theorem committed_change_in_force:
  assumes "runtime_reachable semver w" and "r \<in> set (rw_refreshes w)"
    and "rf_mode r = Required" and "rf_phase r = RfDone res"
    and "handle_acquire (published w) = Inr s" and "(key, c) \<in> set (rt_client_policies s)"
  shows "\<exists>n. rf_started r \<le> n \<and> n < length (rw_history w)
     \<and> (\<exists>p \<in> set (sn_client_policies (rw_history w ! n)).
          cp_key_id c = scp_key_id p \<and> cp_plaintext_key c = scp_plaintext_key p
          \<and> (\<forall>aid. scope_allows (cp_account_scope c) aid \<longleftrightarrow> key_may_use (rw_history w ! n) p aid))"
proof -
  have inv: "runtime_inv semver w" by (rule runtime_reachable_inv [OF assms(1)])
  then have "done_ok w r" using assms(2,4) by (auto simp: runtime_inv_def)
  moreover obtain n where cur: "rw_current w = Some (s, n)"
    using assms(5) by (auto simp: handle_acquire_def published_def split: option.splits)
  ultimately have n: "rf_started r \<le> n" using assms(3) by (simp add: done_ok_def version_since_def)
  have "compile_answer semver (rw_history w) 0 (Inr (s, n))"
    using inv cur by (simp add: runtime_inv_def current_ok_def)
  then obtain q facts t where a: "reads_since (rw_history w) 0 facts n"
    "compile_runtime_snapshot semver facts (cr_catalogs q) (map fst (cr_generations (q :: compile_round))) = Inr t"
    "s = t\<lparr>rt_provider_catalog_generations := cr_generations q\<rparr>"
    by (auto simp: compile_answer_def)
  have "(key, c) \<in> set (rt_client_policies t)" using assms(6) a(3) by simp
  from compiled_policy_origin(1) [OF a(2) this] obtain p where p: "p \<in> set (sn_client_policies facts)"
    "cp_key_id c = scp_key_id p" "cp_plaintext_key c = scp_plaintext_key p"
    "\<forall>aid. scope_allows (cp_account_scope c) aid \<longleftrightarrow> key_may_use facts p aid" by blast
  define h where "h = rw_history w ! n"
  have f: "facts = h\<lparr>sn_observed_current_revision := sn_observed_current_revision facts\<rparr>" "n < length (rw_history w)"
    using a(1) by (auto simp: reads_since_def h_def)
  have "sn_client_policies facts = sn_client_policies h" "key_may_use facts p = key_may_use h p"
    by (subst f(1), simp add: key_may_use_def fun_eq_iff)+
  then show ?thesis using p n f(2) unfolding h_def by auto
qed


section \<open>The properties at work\<close>

definition sample_refresh :: "nat refresh_phase \<Rightarrow> nat refresh" where
  "sample_refresh phase = \<lparr>rf_mode = Required, rf_started = 0, rf_locked = 0, rf_phase = phase\<rparr>"

definition sample_world :: "(nat runtime_snapshot \<times> nat) option \<Rightarrow> nat refresh_phase \<Rightarrow> nat runtime_world" where
  "sample_world current phase =
     \<lparr>rw_history = [sample_facts], rw_current = current, rw_refreshes = [sample_refresh phase]\<rparr>"

definition sample_published :: "nat runtime_snapshot" where
  "sample_published = sample_snapshot\<lparr>rt_provider_catalog_generations := cr_generations sample_round\<rparr>"

definition sample_refreshed :: "nat runtime_world" where
  "sample_refreshed = sample_world (Some (sample_published, 0)) (RfDone (Inr (rt_revision sample_published)))"

lemma sample_answers: "compile_answer (\<lambda>_. None) [sample_facts] 0 (Inr (sample_published, 0))"
proof -
  have "map fst (cr_generations sample_round) = sample_kinds" by (simp add: sample_round_def o_def)
  then have "compile_runtime_snapshot (\<lambda>_. None) sample_facts (cr_catalogs sample_round) (map fst (cr_generations sample_round))
      = Inr sample_snapshot"
    using sample_compiles by (simp add: sample_round_def)
  moreover have "cr_facts sample_round = Some sample_facts" by (simp add: sample_round_def)
  moreover have "reads_since [sample_facts] 0 sample_facts 0" by (simp add: reads_since_def)
  moreover have "sn_config_revision sample_facts = sn_observed_current_revision sample_facts"
    by (simp add: sample_facts_def)
  ultimately show ?thesis
    unfolding compile_answer_def sum.case prod.case sample_published_def by blast
qed

lemma sample_compiled_reachable:
  "runtime_reachable (\<lambda>_. None) (sample_world None (RfCompiled True (Inr (sample_published, 0))))"
proof -
  have "runtime_reachable (\<lambda>_. None) \<lparr>rw_history = [sample_facts], rw_current = None, rw_refreshes = []\<rparr>"
    by (rule runtime_reachable.start) simp
  moreover have "runtime_step (\<lambda>_. None) \<lparr>rw_history = [sample_facts], rw_current = None, rw_refreshes = []\<rparr>
      (sample_world None RfWaiting)"
    using runtime_step.call [of "\<lambda>_. None" "\<lparr>rw_history = [sample_facts], rw_current = None, rw_refreshes = []\<rparr>" Required]
    by (simp add: sample_world_def sample_refresh_def latest_def)
  ultimately have "runtime_reachable (\<lambda>_. None) (sample_world None RfWaiting)" by (rule runtime_reachable.step)
  moreover have "runtime_step (\<lambda>_. None) (sample_world None RfWaiting) (sample_world None RfLocked)"
    using runtime_step.lock [of 0 "sample_world None RfWaiting" "\<lambda>_. None"]
    by (simp add: sample_world_def sample_refresh_def latest_def)
  ultimately have "runtime_reachable (\<lambda>_. None) (sample_world None RfLocked)" by (rule runtime_reachable.step)
  moreover have "runtime_step (\<lambda>_. None) (sample_world None RfLocked) (sample_world None (RfCompiling True))"
    using runtime_step.checks [of 0 "sample_world None RfLocked" "Inl ()" "[]" None "RfCompiling True" "\<lambda>_. None"]
    by (simp add: sample_world_def sample_refresh_def refresh_checks_def set_phase_def)
  ultimately have "runtime_reachable (\<lambda>_. None) (sample_world None (RfCompiling True))" by (rule runtime_reachable.step)
  moreover have "runtime_step (\<lambda>_. None) (sample_world None (RfCompiling True))
      (sample_world None (RfCompiled True (Inr (sample_published, 0))))"
    using runtime_step.compile [of 0 "sample_world None (RfCompiling True)" True "\<lambda>_. None" "Inr (sample_published, 0)"]
      sample_answers
    by (simp add: sample_world_def sample_refresh_def set_phase_def)
  ultimately show ?thesis by (rule runtime_reachable.step)
qed

lemma sample_refreshed_reachable: "runtime_reachable (\<lambda>_. None) sample_refreshed"
proof -
  have "runtime_step (\<lambda>_. None) (sample_world None (RfCompiled True (Inr (sample_published, 0)))) sample_refreshed"
    using runtime_step.result [of 0 "sample_world None (RfCompiled True (Inr (sample_published, 0)))" True
        "Inr (sample_published, 0)" "Some (sample_published, 0)" "RfDone (Inr (rt_revision sample_published))" "\<lambda>_. None"]
    by (simp add: sample_world_def sample_refresh_def refresh_result_def set_phase_def sample_refreshed_def)
  then show ?thesis by (rule runtime_reachable.step [OF sample_compiled_reachable])
qed

lemma sample_refreshed_parts:
  "rw_refreshes sample_refreshed = [sample_refresh (RfDone (Inr (rt_revision sample_published)))]"
  "rw_current sample_refreshed = Some (sample_published, 0)" "rw_history sample_refreshed = [sample_facts]"
  by (simp_all add: sample_refreshed_def sample_world_def)

theorem published_never_goes_back_witness:
  "runtime_step (\<lambda>_. None) sample_refreshed (sample_refreshed\<lparr>rw_history := [sample_facts, sample_facts]\<rparr>) \<and> (0 :: nat) \<le> 0"
proof -
  have step: "runtime_step (\<lambda>_. None) sample_refreshed (sample_refreshed\<lparr>rw_history := [sample_facts, sample_facts]\<rparr>)"
    using runtime_step.commit [of "\<lambda>_. None" sample_refreshed sample_facts] by (simp add: sample_refreshed_parts)
  from published_never_goes_back [OF sample_refreshed_reachable step, of sample_published 0 sample_published 0] step
  show ?thesis by (simp add: sample_refreshed_parts)
qed

theorem refresh_fails_closed_witness:
  "\<exists>m. m < 1 \<and> rt_revision sample_published = sn_config_revision ([sample_facts] ! m)"
  using refresh_fails_closed [OF sample_refreshed_reachable, of "sample_refresh (RfDone (Inr (rt_revision sample_published)))"
      "Inr (rt_revision sample_published)"]
  by (auto simp: sample_refreshed_parts sample_refresh_def handle_acquire_def published_def)

theorem committed_change_in_force_witness:
  "\<exists>c. rt_client_policies sample_published = [(ClientApiKeyId ''key_1'', c)]
     \<and> (\<exists>p \<in> set (sn_client_policies sample_facts). cp_plaintext_key c = scp_plaintext_key p)"
proof -
  obtain c where c: "rt_client_policies sample_published = [(ClientApiKeyId ''key_1'', c)]"
    using sample_snapshot_facts(2) by (auto simp: sample_published_def)
  from committed_change_in_force [OF sample_refreshed_reachable, of "sample_refresh (RfDone (Inr (rt_revision sample_published)))"
      "Inr (rt_revision sample_published)" sample_published "ClientApiKeyId ''key_1''" c]
  have "\<exists>p \<in> set (sn_client_policies sample_facts). cp_plaintext_key c = scp_plaintext_key p"
    by (auto simp: sample_refreshed_parts sample_refresh_def handle_acquire_def published_def c)
  then show ?thesis using c by blast
qed

end
