(* ===== verification/Sse.thy ===== *)
theory Sse
  imports Metering AccountModel
begin

text \<open>
  \<open>gateway-protocol/src/openai/sse.rs\<close>: the server-sent event parser, the incremental decoder that
  takes byte chunks cut anywhere and hands on every frame unchanged, and the encoder. Texts and
  byte buffers are both byte lists; a text is a byte list that is well-formed UTF-8. The JSON
  parser and printer of \<open>serde_json\<close> and the wording of a UTF-8 error are arguments. A
  \<open>serde_json\<close> object keeps insertion order.
\<close>

section \<open>Strings of the standard library\<close>

definition utf8_valid :: "string \<Rightarrow> bool" where
  "utf8_valid s = (list_all is_scalar (utf8_chars s) \<and> utf8_encode (utf8_chars s) = s)"

definition strip_prefix :: "string \<Rightarrow> string \<Rightarrow> string option" where
  "strip_prefix p s = (if starts_with p s then Some (drop (length p) s) else None)"

definition strip_cr :: "string \<Rightarrow> string" where
  "strip_cr s = (if s \<noteq> [] \<and> last s = CHR 0x0D then butlast s else s)"

text \<open>\<open>str::lines\<close>: a line ends at LF or CRLF, and text after the last LF is a line of its own.\<close>

definition str_lines :: "string \<Rightarrow> string list" where
  "str_lines s =
     (let parts = split_on (CHR 0x0A) s
      in map strip_cr (butlast parts) @ (if last parts = [] then [] else [last parts]))"

definition split_once :: "char \<Rightarrow> string \<Rightarrow> (string \<times> string) option" where
  "split_once c s =
     (if c \<in> set s then Some (takeWhile (\<lambda>x. x \<noteq> c) s, tl (dropWhile (\<lambda>x. x \<noteq> c) s)) else None)"

text \<open>\<open>str::parse::<u64>\<close>: decimal digits with an optional plus sign.\<close>

definition parse_u64 :: "string \<Rightarrow> nat option" where
  "parse_u64 s =
     (let ds = unwrap_or s (strip_prefix ''+'' s)
      in if ds = [] \<or> \<not> list_all is_ascii_digit ds \<or> u64_max < digits_value ds then None
         else Some (digits_value ds))"

text \<open>\<open>windows(n).position(..)\<close>: the first place of a pattern.\<close>

fun window_position :: "string \<Rightarrow> string \<Rightarrow> nat option" where
  "window_position pat [] = None"
| "window_position pat (b # bs) =
     (if starts_with pat (b # bs) then Some 0 else map_option Suc (window_position pat bs))"

section \<open>Events, frames and errors\<close>

record sse_event =
  sse_name :: "string option"
  sse_data :: string
  sse_id :: "string option"
  sse_retry :: "nat option"

record sse_frame =
  sf_raw :: string
  sf_events :: "sse_event list"

datatype sse_error = InvalidRetry string | BufferExceeded nat | ParseError string

record sse_lib =
  sl_json_parse :: "string \<Rightarrow> json option"
  sl_json_text :: "json \<Rightarrow> string"
  sl_utf8_error :: "string \<Rightarrow> string"

definition max_sse_event_buffer_bytes :: nat where
  "max_sse_event_buffer_bytes = 64 * 1024 * 1024"

definition done_sse_frame :: string where
  "done_sse_frame = ''data: [DONE]'' @ [CHR 0x0A, CHR 0x0A]"

section \<open>Frame boundaries\<close>

definition lf_lf :: string where "lf_lf = [CHR 0x0A, CHR 0x0A]"

definition crlf_crlf :: string where "crlf_crlf = [CHR 0x0D, CHR 0x0A, CHR 0x0D, CHR 0x0A]"

definition sse_frame_separator_bytes :: "string \<Rightarrow> (nat \<times> nat) option" where
  "sse_frame_separator_bytes bytes =
     (case (window_position lf_lf bytes, window_position crlf_crlf bytes) of
        (Some l, Some r) \<Rightarrow> Some (if l \<le> r then (l, 2) else (r, 4))
      | (Some l, None) \<Rightarrow> Some (l, 2)
      | (None, Some r) \<Rightarrow> Some (r, 4)
      | (None, None) \<Rightarrow> None)"

definition sse_frame_end :: "string \<Rightarrow> nat option" where
  "sse_frame_end bytes = map_option (\<lambda>(position, len). position + len) (sse_frame_separator_bytes bytes)"

section \<open>Fields\<close>

definition split_sse_field :: "string \<Rightarrow> string \<times> string" where
  "split_sse_field line =
     (case split_once (CHR '':'') line of
        None \<Rightarrow> (line, [])
      | Some (field, v) \<Rightarrow> (field, unwrap_or v (strip_prefix '' '' v)))"

definition is_sse_metadata_line :: "string \<Rightarrow> bool" where
  "is_sse_metadata_line line =
     (starts_with ''event:'' line \<or> starts_with ''data:'' line \<or> starts_with ''id:'' line
      \<or> starts_with ''retry:'' line \<or> starts_with '':'' line)"

definition sse_frame_is_done :: "string \<Rightarrow> bool" where
  "sse_frame_is_done frame =
     (map snd (filter (\<lambda>(field, v). field = ''data'') (map (\<lambda>l. split_sse_field (strip_cr l)) (str_lines frame)))
      = [''[DONE]''])"

section \<open>The event builder\<close>

record event_builder =
  eb_event :: "string option"
  eb_data :: string
  eb_has_data :: bool
  eb_id :: "string option"
  eb_retry :: "nat option"

definition event_builder_default :: event_builder where
  "event_builder_default = \<lparr>eb_event = None, eb_data = [], eb_has_data = False, eb_id = None, eb_retry = None\<rparr>"

definition push_data :: "string \<Rightarrow> event_builder \<Rightarrow> event_builder" where
  "push_data v b =
     b\<lparr>eb_data := eb_data b @ (if eb_has_data b then [CHR 0x0A] else []) @ v, eb_has_data := True\<rparr>"

definition builder_finish :: "event_builder \<Rightarrow> event_builder \<times> sse_event option" where
  "builder_finish b =
     (if \<not> eb_has_data b then (b\<lparr>eb_event := None, eb_id := None, eb_retry := None\<rparr>, None)
      else
        let cleared = b\<lparr>eb_has_data := False, eb_event := None, eb_id := None, eb_retry := None, eb_data := []\<rparr>
        in if eb_data b = ''[DONE]'' then (cleared, None)
           else (cleared, Some \<lparr>sse_name = eb_event b, sse_data = eb_data b, sse_id = eb_id b, sse_retry = eb_retry b\<rparr>))"

section \<open>The parser\<close>

definition obj_get :: "string \<Rightarrow> json \<Rightarrow> json option" where
  "obj_get k v = (case v of JObject m \<Rightarrow> map_of m k | _ \<Rightarrow> None)"

fun json_as_str :: "json \<Rightarrow> string option" where
  "json_as_str (JString s) = Some s"
| "json_as_str _ = None"

definition non_sse_error_message :: "sse_lib \<Rightarrow> string \<Rightarrow> string" where
  "non_sse_error_message lib raw =
     (case sl_json_parse lib raw of
        None \<Rightarrow> raw
      | Some v \<Rightarrow>
          unwrap_or raw
            (opt_filter (\<lambda>message. str_trim message \<noteq> [])
              (opt_or (Option.bind (obj_get ''detail'' v) json_as_str)
                (Option.bind (Option.bind (obj_get ''error'' v) (obj_get ''message'')) json_as_str))))"

definition non_sse_response_event :: "sse_lib \<Rightarrow> string \<Rightarrow> sse_event" where
  "non_sse_response_event lib raw =
     \<lparr>sse_name = Some ''error'',
      sse_data = sl_json_text lib (JObject [(''error'', JObject
        [(''type'', JString ''error''), (''code'', JString ''non_sse_response''),
         (''message'', JString (non_sse_error_message lib raw))])]),
      sse_id = None, sse_retry = None\<rparr>"

definition track_event_buffer_bytes :: "nat \<Rightarrow> string \<Rightarrow> sse_error + nat" where
  "track_event_buffer_bytes current line =
     (let now = saturating_add u64_max (saturating_add u64_max current (if current \<noteq> 0 then 1 else 0)) (length line)
      in if max_sse_event_buffer_bytes < now then Inl (BufferExceeded max_sse_event_buffer_bytes) else Inr now)"

record parse_state =
  ps_events :: "sse_event list"
  ps_builder :: event_builder
  ps_saw_syntax :: bool
  ps_bytes :: nat

definition parse_start :: parse_state where
  "parse_start = \<lparr>ps_events = [], ps_builder = event_builder_default, ps_saw_syntax = False, ps_bytes = 0\<rparr>"

definition finish_event :: "parse_state \<Rightarrow> parse_state" where
  "finish_event st =
     (case builder_finish (ps_builder st) of
        (b, None) \<Rightarrow> st\<lparr>ps_builder := b\<rparr>
      | (b, Some event) \<Rightarrow> st\<lparr>ps_builder := b, ps_events := ps_events st @ [event]\<rparr>)"

definition parse_field :: "string \<Rightarrow> event_builder \<Rightarrow> sse_error + event_builder" where
  "parse_field line b =
     (let (field, v) = split_sse_field line
      in if field = ''event'' then Inr (b\<lparr>eb_event := Some v\<rparr>)
         else if field = ''data'' then Inr (push_data v b)
         else if field = ''id'' \<and> CHR 0x00 \<notin> set v then Inr (b\<lparr>eb_id := Some v\<rparr>)
         else if field = ''retry'' then
           (case parse_u64 v of None \<Rightarrow> Inl (InvalidRetry v) | Some n \<Rightarrow> Inr (b\<lparr>eb_retry := Some n\<rparr>))
         else if eb_has_data b \<and> \<not> is_sse_metadata_line line then Inr (push_data line b)
         else Inr b)"

definition bom :: string where
  "bom = [CHR 0xEF, CHR 0xBB, CHR 0xBF]"

definition parse_line :: "bool \<Rightarrow> string \<Rightarrow> parse_state \<Rightarrow> sse_error + parse_state" where
  "parse_line strip_bom raw_line st =
     (let raw_line = (if strip_bom then unwrap_or raw_line (strip_prefix bom raw_line) else raw_line);
          line = strip_cr raw_line
      in if line = [] then Inr (finish_event (st\<lparr>ps_bytes := 0\<rparr>))
         else
           (case track_event_buffer_bytes (ps_bytes st) raw_line of
              Inl e \<Rightarrow> Inl e
            | Inr bytes \<Rightarrow>
                if starts_with '':'' line then Inr (st\<lparr>ps_bytes := bytes, ps_saw_syntax := True\<rparr>)
                else
                  let saw = fst (split_sse_field line) \<in> {''event'', ''data'', ''id'', ''retry''}
                  in case parse_field line (ps_builder st) of
                       Inl e \<Rightarrow> Inl e
                     | Inr b \<Rightarrow>
                         Inr (st\<lparr>ps_bytes := bytes, ps_saw_syntax := ps_saw_syntax st \<or> saw, ps_builder := b\<rparr>)))"

fun parse_lines :: "bool \<Rightarrow> string list \<Rightarrow> parse_state \<Rightarrow> sse_error + parse_state" where
  "parse_lines strip_bom [] st = Inr st"
| "parse_lines strip_bom (l # ls) st =
     (case parse_line strip_bom l st of Inl e \<Rightarrow> Inl e | Inr st \<Rightarrow> parse_lines False ls st)"

definition parse_sse_events_inner :: "sse_lib \<Rightarrow> string \<Rightarrow> bool \<Rightarrow> sse_error + sse_event list" where
  "parse_sse_events_inner lib input strip_leading_bom =
     (case parse_lines strip_leading_bom (str_lines input) parse_start of
        Inl e \<Rightarrow> Inl e
      | Inr st \<Rightarrow>
          let st = finish_event st
          in if ps_events st = [] \<and> \<not> ps_saw_syntax st \<and> str_trim input \<noteq> []
             then Inr [non_sse_response_event lib (str_trim input)]
             else Inr (ps_events st))"

definition parse_sse_events :: "sse_lib \<Rightarrow> string \<Rightarrow> sse_error + sse_event list" where
  "parse_sse_events lib input = parse_sse_events_inner lib input True"

section \<open>The incremental decoder\<close>

record sse_event_decoder =
  sd_pending :: string
  sd_scanned :: nat
  sd_opaque_frame :: bool
  sd_stream_start :: bool

definition decoder_default :: sse_event_decoder where
  "decoder_default = \<lparr>sd_pending = [], sd_scanned = 0, sd_opaque_frame = False, sd_stream_start = True\<rparr>"

text \<open>The scan goes on three bytes before the bytes seen, where a separator may begin.\<close>

definition next_frame_end :: "sse_event_decoder \<Rightarrow> nat \<Rightarrow> sse_event_decoder \<times> nat option" where
  "next_frame_end d consumed =
     (let start = max (sd_scanned d - 3) consumed
      in case sse_frame_separator_bytes (drop start (sd_pending d)) of
           Some (position, separator_len) \<Rightarrow>
             (d\<lparr>sd_scanned := start + position + separator_len\<rparr>, Some (start + position + separator_len))
         | None \<Rightarrow> (d\<lparr>sd_scanned := length (sd_pending d)\<rparr>, None))"

definition commit_consumed :: "nat \<Rightarrow> sse_event_decoder \<Rightarrow> sse_event_decoder" where
  "commit_consumed consumed d =
     (if consumed \<noteq> 0
      then d\<lparr>sd_pending := drop consumed (sd_pending d), sd_scanned := sd_scanned d - consumed\<rparr> else d)"

definition slice :: "nat \<Rightarrow> nat \<Rightarrow> string \<Rightarrow> string" where
  "slice i j s = take (j - i) (drop i s)"

definition append_chunk :: "string \<Rightarrow> sse_event_decoder \<Rightarrow> sse_event_decoder" where
  "append_chunk chunk d = d\<lparr>sd_pending := sd_pending d @ chunk\<rparr>"

definition parse_frame :: "sse_lib \<Rightarrow> string \<Rightarrow> bool \<Rightarrow> sse_error + sse_event list" where
  "parse_frame lib raw at_start =
     (if utf8_valid raw then parse_sse_events_inner lib raw at_start else Inl (ParseError (sl_utf8_error lib raw)))"

lemma window_position_fits: "window_position pat bs = Some i \<Longrightarrow> pat \<noteq> [] \<Longrightarrow> i + length pat \<le> length bs"
proof (induction bs arbitrary: i)
  case (Cons b bs)
  show ?case
  proof (cases "starts_with pat (b # bs)")
    case True
    then have "length pat \<le> length (b # bs)" by (metis length_append le_add1 starts_with_iff)
    then show ?thesis using Cons.prems True by simp
  qed (use Cons in auto)
qed simp

lemma separator_fits:
  "sse_frame_separator_bytes bs = Some (p, n) \<Longrightarrow> p + n \<le> length bs \<and> 2 \<le> n"
  by (auto simp: sse_frame_separator_bytes_def lf_lf_def crlf_crlf_def split: option.splits if_splits
      dest: window_position_fits)

lemma next_frame_end_advances:
  "next_frame_end d consumed = (d', Some e) \<Longrightarrow>
     sd_pending d' = sd_pending d \<and> consumed < e \<and> e \<le> length (sd_pending d)"
  by (auto simp: next_frame_end_def Let_def split: option.splits dest!: separator_fits)

text \<open>The loop of \<open>push\<close>; an error leaves the decoder as it is at that point.\<close>

function push_loop ::
  "sse_lib \<Rightarrow> sse_event_decoder \<Rightarrow> nat \<Rightarrow> sse_event list
   \<Rightarrow> sse_event_decoder \<times> nat \<times> (sse_error + sse_event list)" where
  "push_loop lib d consumed events =
     (case next_frame_end d consumed of
        (d, None) \<Rightarrow> (d, consumed, Inr events)
      | (d, Some e) \<Rightarrow>
          (case parse_frame lib (slice consumed e (sd_pending d)) (sd_stream_start d) of
             Inl err \<Rightarrow> (d, consumed, Inl err)
           | Inr more_events \<Rightarrow> push_loop lib (d\<lparr>sd_stream_start := False\<rparr>) e (events @ more_events)))"
  by pat_completeness auto
termination
  by (relation "measure (\<lambda>(lib, d, consumed, events). length (sd_pending d) - consumed)")
     (auto dest!: next_frame_end_advances [OF sym])

definition push :: "sse_lib \<Rightarrow> string \<Rightarrow> sse_event_decoder \<Rightarrow> sse_event_decoder \<times> (sse_error + sse_event list)" where
  "push lib chunk d =
     (case push_loop lib (append_chunk chunk d) 0 [] of
        (d, consumed, Inl e) \<Rightarrow> (d, Inl e)
      | (d, consumed, Inr events) \<Rightarrow>
          let d = commit_consumed consumed d
          in if max_sse_event_buffer_bytes < length (sd_pending d)
             then (d, Inl (BufferExceeded max_sse_event_buffer_bytes)) else (d, Inr events))"

definition frame_events :: "sse_lib \<Rightarrow> string \<Rightarrow> bool \<Rightarrow> sse_event list" where
  "frame_events lib raw at_start =
     (if max_sse_event_buffer_bytes < length raw then []
      else case parse_frame lib raw at_start of Inl _ \<Rightarrow> [] | Inr events \<Rightarrow> events)"

text \<open>Continues a frame beyond the budget up to its separator, when that has arrived.\<close>

definition finish_opaque_frame ::
  "sse_event_decoder \<Rightarrow> sse_frame list \<Rightarrow> (sse_event_decoder \<times> sse_frame list) option" where
  "finish_opaque_frame d frames =
     (case sse_frame_separator_bytes (sd_pending d) of
        None \<Rightarrow> None
      | Some (position, separator_len) \<Rightarrow>
          let e = position + separator_len
          in Some (d\<lparr>sd_pending := drop e (sd_pending d), sd_stream_start := False, sd_opaque_frame := False,
                     sd_scanned := 0\<rparr>,
                   frames @ [\<lparr>sf_raw = take e (sd_pending d), sf_events = []\<rparr>]))"

definition flush_opaque_prefix :: "sse_event_decoder \<Rightarrow> sse_frame list \<Rightarrow> sse_event_decoder \<times> sse_frame list" where
  "flush_opaque_prefix d frames =
     (let emit_len = length (sd_pending d) - 3
      in if emit_len = 0 then (d, frames)
         else (d\<lparr>sd_pending := drop emit_len (sd_pending d), sd_scanned := 0, sd_stream_start := False\<rparr>,
               frames @ [\<lparr>sf_raw = take emit_len (sd_pending d), sf_events = []\<rparr>]))"

function push_frames_loop ::
  "sse_lib \<Rightarrow> sse_event_decoder \<Rightarrow> nat \<Rightarrow> sse_frame list \<Rightarrow> sse_event_decoder \<times> nat \<times> sse_frame list" where
  "push_frames_loop lib d consumed frames =
     (case next_frame_end d consumed of
        (d, None) \<Rightarrow> (d, consumed, frames)
      | (d, Some e) \<Rightarrow>
          let raw = slice consumed e (sd_pending d);
              frame = \<lparr>sf_raw = raw, sf_events = frame_events lib raw (sd_stream_start d)\<rparr>
          in push_frames_loop lib (d\<lparr>sd_stream_start := False\<rparr>) e (frames @ [frame]))"
  by pat_completeness auto
termination
  by (relation "measure (\<lambda>(lib, d, consumed, frames). length (sd_pending d) - consumed)")
     (auto dest!: next_frame_end_advances [OF sym])

declare push_loop.simps [simp del] push_frames_loop.simps [simp del]

definition push_frames :: "sse_lib \<Rightarrow> string \<Rightarrow> sse_event_decoder \<Rightarrow> sse_event_decoder \<times> sse_frame list" where
  "push_frames lib chunk d =
     (let d = append_chunk chunk d
      in case (if sd_opaque_frame d then finish_opaque_frame d [] else Some (d, [])) of
           None \<Rightarrow> flush_opaque_prefix d []
         | Some (d, frames) \<Rightarrow>
             (case push_frames_loop lib d 0 frames of
                (d, consumed, frames) \<Rightarrow>
                  let d = commit_consumed consumed d
                  in if max_sse_event_buffer_bytes < length (sd_pending d)
                     then flush_opaque_prefix (d\<lparr>sd_opaque_frame := True\<rparr>) frames
                     else (d, frames)))"

definition finish :: "sse_lib \<Rightarrow> sse_event_decoder \<Rightarrow> sse_event_decoder \<times> (sse_error + sse_event list)" where
  "finish lib d =
     (let d = d\<lparr>sd_scanned := 0\<rparr>; pending = sd_pending d
      in if pending = [] then (d, Inr [])
         else
           let d = d\<lparr>sd_pending := []\<rparr>
           in case parse_frame lib pending (sd_stream_start d) of
                Inl e \<Rightarrow> (d, Inl e)
              | Inr events \<Rightarrow> (d\<lparr>sd_stream_start := False\<rparr>, Inr events))"

definition finish_frames :: "sse_lib \<Rightarrow> sse_event_decoder \<Rightarrow> sse_event_decoder \<times> sse_frame list" where
  "finish_frames lib d =
     (let d = d\<lparr>sd_scanned := 0\<rparr>; raw = sd_pending d
      in if raw = [] then (d\<lparr>sd_opaque_frame := False\<rparr>, [])
         else (d\<lparr>sd_pending := [], sd_stream_start := False, sd_opaque_frame := False\<rparr>,
               [\<lparr>sf_raw = raw,
                 sf_events = (if sd_opaque_frame d then [] else frame_events lib raw (sd_stream_start d))\<rparr>]))"

section \<open>The encoder\<close>

definition sse_field_value_is_single_line :: "string \<Rightarrow> bool" where
  "sse_field_value_is_single_line v = (CHR 0x0D \<notin> set v \<and> CHR 0x0A \<notin> set v)"

definition sse_id_is_representable :: "string \<Rightarrow> bool" where
  "sse_id_is_representable v = (sse_field_value_is_single_line v \<and> CHR 0x00 \<notin> set v)"

definition field_line :: "string \<Rightarrow> string \<Rightarrow> string" where
  "field_line field v = field @ '': '' @ v @ [CHR 0x0A]"

definition encode_sse_event_with_metadata ::
  "string \<Rightarrow> string \<Rightarrow> string option \<Rightarrow> nat option \<Rightarrow> string" where
  "encode_sse_event_with_metadata event data i retry =
     (case opt_filter sse_id_is_representable i of None \<Rightarrow> [] | Some i \<Rightarrow> field_line ''id'' i)
     @ (if event \<noteq> [] \<and> sse_field_value_is_single_line event then field_line ''event'' event else [])
     @ (case retry of None \<Rightarrow> [] | Some n \<Rightarrow> field_line ''retry'' (nat_str n))
     @ concat (map (field_line ''data'') (split_on (CHR 0x0A) data))
     @ [CHR 0x0A]"

definition encode_sse_event :: "string \<Rightarrow> string \<Rightarrow> string" where
  "encode_sse_event event data = encode_sse_event_with_metadata event data None None"

section \<open>Failure events\<close>

text \<open>\<open>uuid\<close> is the text of the fresh identifier the code would use.\<close>

definition response_id_or_generated :: "string \<Rightarrow> string option \<Rightarrow> string" where
  "response_id_or_generated uuid response_id =
     unwrap_or (''resp_proxy_'' @ uuid) (opt_filter (\<lambda>v. str_trim v \<noteq> []) response_id)"

definition response_failed_sse_data_with_id ::
  "string \<Rightarrow> string option \<Rightarrow> string \<Rightarrow> string \<Rightarrow> string \<Rightarrow> json" where
  "response_failed_sse_data_with_id uuid response_id error_type code message =
     (let failure = JObject [(''type'', JString error_type), (''code'', JString code), (''message'', JString message)]
      in JObject [(''type'', JString ''response.failed''),
           (''response'', JObject
             [(''id'', JString (response_id_or_generated uuid response_id)), (''status'', JString ''failed''),
              (''error'', failure)]),
           (''error'', failure)])"

definition response_failed_sse_event_with_id ::
  "sse_lib \<Rightarrow> string \<Rightarrow> string option \<Rightarrow> string \<Rightarrow> string \<Rightarrow> string \<Rightarrow> string" where
  "response_failed_sse_event_with_id lib uuid response_id error_type code message =
     encode_sse_event ''response.failed''
       (sl_json_text lib (response_failed_sse_data_with_id uuid response_id error_type code message))"

definition response_failed_sse_event :: "sse_lib \<Rightarrow> string \<Rightarrow> string \<Rightarrow> string \<Rightarrow> string \<Rightarrow> string" where
  "response_failed_sse_event lib uuid error_type code message =
     response_failed_sse_event_with_id lib uuid None error_type code message"

text \<open>
  The object map keeps insertion order: an insert replaces in place or appends, and a removal puts
  the last entry in the gap.
\<close>

fun obj_insert :: "string \<Rightarrow> json \<Rightarrow> json_map \<Rightarrow> json_map" where
  "obj_insert k v [] = [(k, v)]"
| "obj_insert k v (p # m) = (if fst p = k then (k, v) # m else p # obj_insert k v m)"

fun obj_remove :: "string \<Rightarrow> json_map \<Rightarrow> json_map" where
  "obj_remove k [] = []"
| "obj_remove k (p # m) = (if fst p = k then (if m = [] then [] else last m # butlast m) else p # obj_remove k m)"

definition response_failed_sse_data_from_error_event ::
  "string \<Rightarrow> json option \<Rightarrow> string option \<Rightarrow> json \<Rightarrow> json option" where
  "response_failed_sse_data_from_error_event uuid response response_id error_event =
     (case error_event of
        JObject event \<Rightarrow>
          (case map_of event ''error'' of
             Some (JObject failure) \<Rightarrow>
               let event = obj_remove ''error'' event;
                   response = (case response of Some (JObject m) \<Rightarrow> m | _ \<Rightarrow> []);
                   has_response_id =
                     opt_any (\<lambda>v. str_trim v \<noteq> []) (Option.bind (map_of response ''id'') json_as_str);
                   response = (if has_response_id then response
                     else obj_insert ''id'' (JString (response_id_or_generated uuid response_id)) response);
                   response = obj_insert ''error'' (JObject failure) (obj_insert ''status'' (JString ''failed'') response)
               in Some (JObject (obj_insert ''response'' (JObject response)
                    (obj_insert ''type'' (JString ''response.failed'') event)))
           | _ \<Rightarrow> None)
      | _ \<Rightarrow> None)"

end
