(* ===== verification/SseProps.thy ===== *)
theory SseProps
  imports Sse "HOL-Library.Sublist"
begin

text \<open>
  What the server-sent event decoder and encoder promise: the bytes handed on are the bytes
  received, the frames and events do not depend on how the bytes are cut into chunks, the buffer
  stays within its budget, and an encoded event parses back to itself.
\<close>

section \<open>Frame boundaries\<close>

text \<open>A place where a separator ends.\<close>

definition is_end :: "string \<Rightarrow> nat \<Rightarrow> bool" where
  "is_end bs e = (e \<le> length bs \<and> (suffix lf_lf (take e bs) \<or> suffix crlf_crlf (take e bs)))"

lemma window_position_least:
  "window_position pat bs = (if \<exists>i. i < length bs \<and> starts_with pat (drop i bs)
     then Some (LEAST i. i < length bs \<and> starts_with pat (drop i bs)) else None)"
proof (induction bs)
  case (Cons b bs)
  let ?P = "\<lambda>i. i < length (b # bs) \<and> starts_with pat (drop i (b # bs))"
  show ?case
  proof (cases "starts_with pat (b # bs)")
    case True
    then have "?P 0" by simp
    moreover from this have "(LEAST i. ?P i) = 0" by (intro Least_equality) simp_all
    ultimately show ?thesis using True by auto
  next
    case False
    have shift: "(\<exists>i. ?P i) \<longleftrightarrow> (\<exists>i. i < length bs \<and> starts_with pat (drop i bs))"
      using False by (metis (no_types, lifting) Suc_less_eq drop0 drop_Suc_Cons gr0_implies_Suc length_Cons not_gr_zero)
    have "(LEAST i. ?P i) = Suc (LEAST i. ?P (Suc i))" if ex: "\<exists>i. ?P i"
    proof -
      obtain i where "?P i" using ex ..
      then show ?thesis by (rule Least_Suc) (use False in simp)
    qed
    then show ?thesis using False shift Cons by simp
  qed
qed simp

lemma window_position_at:
  "window_position pat bs = Some i \<Longrightarrow> starts_with pat (drop i bs) \<and> (\<forall>j < i. \<not> starts_with pat (drop j bs)) \<and> i < length bs"
  unfolding window_position_least
  by (auto split: if_splits dest: not_less_Least LeastI_ex) (metis (mono_tags, lifting) LeastI_ex not_less_Least order_less_trans)+

lemma window_position_none: "pat \<noteq> [] \<Longrightarrow> window_position pat bs = None \<Longrightarrow> \<not> starts_with pat (drop j bs)"
  unfolding window_position_least
  by (cases "j < length bs") (auto simp: starts_with_def split: if_splits)

lemma suffix_take: "e \<le> length bs \<Longrightarrow> suffix p (take e bs) \<longleftrightarrow> length p \<le> e \<and> starts_with p (drop (e - length p) bs)"
proof
  assume e: "e \<le> length bs" "suffix p (take e bs)"
  then obtain zs where z: "take e bs = zs @ p" by (auto simp: suffix_def)
  then have "e = length zs + length p" using e(1) by (metis length_append length_take min.absorb2)
  moreover have "bs = zs @ p @ drop e bs" using z by (metis append.assoc append_take_drop_id)
  ultimately show "length p \<le> e \<and> starts_with p (drop (e - length p) bs)"
    by (metis add_diff_cancel_right' append_eq_conv_conj le_add2 starts_with_iff)
next
  assume e: "e \<le> length bs" "length p \<le> e \<and> starts_with p (drop (e - length p) bs)"
  then obtain r where r: "drop (e - length p) bs = p @ r" by (auto simp: starts_with_iff)
  then have "take e bs = take (e - length p) bs @ p"
    using e by (metis append_eq_conv_conj le_add_diff_inverse2 take_add)
  then show "suffix p (take e bs)" by (simp add: suffix_def)
qed


lemma separator_lengths [simp]: "length lf_lf = 2" "length crlf_crlf = 4" "lf_lf \<noteq> []" "crlf_crlf \<noteq> []"
  by (simp_all add: lf_lf_def crlf_crlf_def)

lemma is_end_iff:
  "e \<le> length bs \<Longrightarrow> is_end bs e \<longleftrightarrow>
     2 \<le> e \<and> starts_with lf_lf (drop (e - 2) bs) \<or> 4 \<le> e \<and> starts_with crlf_crlf (drop (e - 4) bs)"
  by (simp add: is_end_def suffix_take)

lemma is_end_bounds: "is_end bs e \<Longrightarrow> 2 \<le> e \<and> e \<le> length bs"
  by (auto simp: is_end_def suffix_take)

lemma overlap: "starts_with crlf_crlf bs \<Longrightarrow> \<not> starts_with lf_lf (drop (Suc 0) bs)"
  by (auto simp: starts_with_iff crlf_crlf_def lf_lf_def)

lemma sse_frame_end_least:
  "sse_frame_end bs = Some e \<Longrightarrow> is_end bs e \<and> (\<forall>e' < e. \<not> is_end bs e')"
  "sse_frame_end bs = None \<Longrightarrow> \<not> is_end bs e"
proof -
  let ?l = "window_position lf_lf bs" and ?r = "window_position crlf_crlf bs"
  have ends: "\<exists>j. starts_with lf_lf (drop j bs) \<and> e' = j + 2 \<or> starts_with crlf_crlf (drop j bs) \<and> e' = j + 4"
    if "is_end bs e'" for e'
    using that is_end_bounds [OF that] is_end_iff [of e' bs] by (metis le_add_diff_inverse2)
  have lf: "is_end bs (l + 2)" if "?l = Some l" for l
    using that window_position_fits [OF that] window_position_at [OF that]
    by (simp add: is_end_iff)
  have crlf: "is_end bs (r + 4)" if "?r = Some r" for r
    using that window_position_fits [OF that] window_position_at [OF that]
    by (simp add: is_end_iff)
  have no_lf: "?l = None \<Longrightarrow> \<not> starts_with lf_lf (drop j bs)" for j
    by (rule window_position_none) simp_all
  have no_crlf: "?r = None \<Longrightarrow> \<not> starts_with crlf_crlf (drop j bs)" for j
    by (rule window_position_none) simp_all
  have least_lf: "\<not> is_end bs e'"
    if "?l = Some l" "e' < l + 2" "\<And>j. starts_with crlf_crlf (drop j bs) \<Longrightarrow> l \<le> j" for l e'
  proof
    assume "is_end bs e'"
    from ends [OF this] obtain j where
      "starts_with lf_lf (drop j bs) \<and> e' = j + 2 \<or> starts_with crlf_crlf (drop j bs) \<and> e' = j + 4" ..
    then show False using that(2) that(3) [of j] window_position_at [OF that(1)] by auto
  qed
  have least_crlf: "\<not> is_end bs e'"
    if r: "?r = Some r" "e' < r + 4" and far: "\<And>j. starts_with lf_lf (drop j bs) \<Longrightarrow> r < j" for r e'
  proof
    assume "is_end bs e'"
    from ends [OF this] obtain j where
      j: "starts_with lf_lf (drop j bs) \<and> e' = j + 2 \<or> starts_with crlf_crlf (drop j bs) \<and> e' = j + 4" ..
    have at: "starts_with crlf_crlf (drop r bs)" "\<forall>j < r. \<not> starts_with crlf_crlf (drop j bs)"
      using window_position_at [OF r(1)] by auto
    show False
      using j
    proof
      assume lf: "starts_with lf_lf (drop j bs) \<and> e' = j + 2"
      then have "j = Suc r" using far [of j] r(2) by linarith
      then show False using overlap [OF at(1)] lf by simp
    next
      assume "starts_with crlf_crlf (drop j bs) \<and> e' = j + 4"
      then show False using at(2) r(2) by simp
    qed
  qed
  show "sse_frame_end bs = Some e \<Longrightarrow> is_end bs e \<and> (\<forall>e' < e. \<not> is_end bs e')"
  proof -
    assume e: "sse_frame_end bs = Some e"
    show ?thesis
    proof (cases ?l)
      case None
      then obtain r where r: "?r = Some r" "e = r + 4"
        using e by (auto simp: sse_frame_end_def sse_frame_separator_bytes_def split: option.splits)
      then show ?thesis using crlf least_crlf [OF r(1)] no_lf [OF None] by blast
    next
      case (Some l)
      note at = window_position_at [OF Some]
      show ?thesis
      proof (cases "\<exists>r. ?r = Some r \<and> r < l")
        case True
        then obtain r where r: "?r = Some r" "r < l" by blast
        then have "e = r + 4" using e Some by (simp add: sse_frame_end_def sse_frame_separator_bytes_def)
        moreover have "r < j" if "starts_with lf_lf (drop j bs)" for j
          using that at r(2) by (meson leI order_less_le_trans)
        ultimately show ?thesis using crlf [OF r(1)] least_crlf [OF r(1)] by blast
      next
        case False
        then have "e = l + 2" using e Some
          by (auto simp: sse_frame_end_def sse_frame_separator_bytes_def split: option.splits if_splits)
        moreover have "l \<le> j" if "starts_with crlf_crlf (drop j bs)" for j
        proof (cases ?r)
          case None
          then show ?thesis using that no_crlf by blast
        next
          case (Some r)
          then show ?thesis using that False window_position_at [OF Some] by (metis leI order_trans)
        qed
        ultimately show ?thesis using lf [OF Some] least_lf [OF Some] by blast
      qed
    qed
  qed
  show "sse_frame_end bs = None \<Longrightarrow> \<not> is_end bs e"
    using ends [of e] no_lf no_crlf
    by (auto simp: sse_frame_end_def sse_frame_separator_bytes_def split: option.splits)
qed


lemma frame_end_iff: "sse_frame_end bs = Some e \<longleftrightarrow> is_end bs e \<and> (\<forall>e' < e. \<not> is_end bs e')"
proof
  assume r: "is_end bs e \<and> (\<forall>e' < e. \<not> is_end bs e')"
  then obtain f where f: "sse_frame_end bs = Some f" using sse_frame_end_least(2) by (cases "sse_frame_end bs") auto
  then have "\<not> f < e" "\<not> e < f" using r sse_frame_end_least(1) [OF f] by blast+
  then show "sse_frame_end bs = Some e" using f by simp
qed (rule sse_frame_end_least(1))

lemma frame_end_none: "sse_frame_end bs = None \<longleftrightarrow> (\<forall>e. \<not> is_end bs e)"
  using sse_frame_end_least(1) sse_frame_end_least(2) by (metis option.exhaust)

lemma frame_end_bounds: "sse_frame_end bs = Some e \<Longrightarrow> 2 \<le> e \<and> e \<le> length bs"
  using frame_end_iff is_end_bounds by blast

text \<open>Later bytes do not move the first boundary, and a scan may begin late if nothing was missed.\<close>

lemma is_end_append: "e \<le> length a \<Longrightarrow> is_end (a @ b) e \<longleftrightarrow> is_end a e"
  by (simp add: is_end_def)

lemma frame_end_append: "sse_frame_end a = Some e \<Longrightarrow> sse_frame_end (a @ b) = Some e"
  using frame_end_bounds [of a e] by (auto simp: frame_end_iff is_end_append)

lemma is_end_drop: "is_end (drop k bs) e \<Longrightarrow> is_end bs (k + e)"
  using is_end_bounds [of "drop k bs" e] by (auto simp: is_end_def take_add intro: suffix_appendI)

lemma is_end_drop_far: "is_end bs (k + e) \<Longrightarrow> 4 \<le> e \<Longrightarrow> is_end (drop k bs) e"
  using is_end_bounds [of bs "k + e"] by (simp add: is_end_iff add.commute)

lemma frame_end_late:
  assumes "\<forall>e \<le> k + 3. \<not> is_end bs e" "k \<le> length bs"
  shows "sse_frame_end bs = map_option ((+) k) (sse_frame_end (drop k bs))"
proof (cases "sse_frame_end (drop k bs)")
  case None
  have "\<not> is_end bs e" for e
  proof
    assume e: "is_end bs e"
    then have "k + 3 < e" using assms(1) by (meson leI)
    then have "is_end (drop k bs) (e - k)" using e is_end_drop_far [of bs k "e - k"] by simp
    then show False using None by (simp add: frame_end_none)
  qed
  then have "sse_frame_end bs = None" by (simp add: frame_end_none)
  then show ?thesis using None by simp
next
  case (Some e)
  have "\<not> is_end bs e'" if "e' < k + e" for e'
  proof
    assume e': "is_end bs e'"
    then have "k + 3 < e'" using assms(1) by (meson leI)
    then have "is_end (drop k bs) (e' - k)" using e' is_end_drop_far [of bs k "e' - k"] by simp
    moreover have "e' - k < e" using that \<open>k + 3 < e'\<close> by simp
    ultimately show False using Some by (auto simp: frame_end_iff)
  qed
  then have "sse_frame_end bs = Some (k + e)" using Some is_end_drop [of k bs e] by (simp add: frame_end_iff)
  then show ?thesis using Some by simp
qed

section \<open>Cutting bytes into frames\<close>

text \<open>The complete frames of a byte sequence and what follows the last of them.\<close>

function cut_frames :: "string \<Rightarrow> string list \<times> string" where
  "cut_frames bs =
     (case sse_frame_end bs of
        None \<Rightarrow> ([], bs)
      | Some e \<Rightarrow> (case cut_frames (drop e bs) of (fs, rest) \<Rightarrow> (take e bs # fs, rest)))"
  by pat_completeness auto
termination
  by (relation "measure length") (auto dest: frame_end_bounds)

declare cut_frames.simps [simp del]

lemma cut_frames_None: "sse_frame_end bs = None \<Longrightarrow> cut_frames bs = ([], bs)"
  by (subst cut_frames.simps) simp

lemma cut_frames_Some: "sse_frame_end bs = Some e \<Longrightarrow> cut_frames bs = (take e bs # fst (cut_frames (drop e bs)), snd (cut_frames (drop e bs)))"
  by (subst cut_frames.simps) (simp add: case_prod_beta)

lemma cut_frames_bytes: "concat (fst (cut_frames bs)) @ snd (cut_frames bs) = bs"
proof (induction bs rule: cut_frames.induct)
  case (1 bs)
  then show ?case by (cases "sse_frame_end bs") (simp_all add: cut_frames_None cut_frames_Some)
qed

lemma cut_frames_rest: "sse_frame_end (snd (cut_frames bs)) = None"
proof (induction bs rule: cut_frames.induct)
  case (1 bs)
  then show ?case by (cases "sse_frame_end bs") (simp_all add: cut_frames_None cut_frames_Some)
qed

lemma cut_frames_append:
  "cut_frames (a @ b) = (fst (cut_frames a) @ fst (cut_frames (snd (cut_frames a) @ b)), snd (cut_frames (snd (cut_frames a) @ b)))"
proof (induction a rule: cut_frames.induct)
  case (1 a)
  show ?case
  proof (cases "sse_frame_end a")
    case None
    then show ?thesis by (simp add: cut_frames_None)
  next
    case (Some e)
    then have "e \<le> length a" using frame_end_bounds by blast
    then show ?thesis using 1 [OF Some] cut_frames_Some [OF frame_end_append [OF Some, of b]] by (simp add: cut_frames_Some [OF Some])
  qed
qed

section \<open>The scan of the decoder\<close>

text \<open>No separator ends within the bytes already seen.\<close>

definition scan_ok :: "sse_event_decoder \<Rightarrow> nat \<Rightarrow> bool" where
  "scan_ok d consumed =
     (consumed \<le> length (sd_pending d) \<and> sd_scanned d \<le> length (sd_pending d)
      \<and> (\<forall>e. consumed + e \<le> sd_scanned d \<longrightarrow> \<not> is_end (drop consumed (sd_pending d)) e))"

lemma next_frame_end_exact:
  assumes "scan_ok d consumed"
  shows "next_frame_end d consumed =
     (case sse_frame_end (drop consumed (sd_pending d)) of
        None \<Rightarrow> (d\<lparr>sd_scanned := length (sd_pending d)\<rparr>, None)
      | Some e \<Rightarrow> (d\<lparr>sd_scanned := consumed + e\<rparr>, Some (consumed + e)))"
proof -
  define k where "k = max (sd_scanned d - 3) consumed - consumed"
  have start: "max (sd_scanned d - 3) consumed = consumed + k" by (simp add: k_def)
  have "sse_frame_end (drop consumed (sd_pending d)) =
      map_option ((+) k) (sse_frame_end (drop (consumed + k) (sd_pending d)))"
  proof (cases "k = 0")
    case False
    then have "consumed + k + 3 = sd_scanned d" by (simp add: k_def max_def split: if_splits)
    then have "\<forall>e \<le> k + 3. \<not> is_end (drop consumed (sd_pending d)) e" "k \<le> length (drop consumed (sd_pending d))"
      using assms by (auto simp: scan_ok_def)
    then show ?thesis using frame_end_late by (simp add: add.commute)
  next
    case True
    then show ?thesis by (cases "sse_frame_end (drop consumed (sd_pending d))") simp_all
  qed
  then show ?thesis
    by (auto simp: next_frame_end_def start Let_def sse_frame_end_def split: option.splits)
qed

lemma scan_ok_after:
  "scan_ok d consumed \<Longrightarrow> sse_frame_end (drop consumed (sd_pending d)) = Some e \<Longrightarrow>
     scan_ok (d\<lparr>sd_scanned := consumed + e, sd_stream_start := b\<rparr>) (consumed + e)"
  using frame_end_bounds [of "drop consumed (sd_pending d)" e]
  by (auto simp: scan_ok_def dest: is_end_bounds)


section \<open>The frames of a stream\<close>

text \<open>Frames labelled with the events of each, the first one at the start of the stream or not.\<close>

fun labelled :: "sse_lib \<Rightarrow> bool \<Rightarrow> string list \<Rightarrow> sse_frame list" where
  "labelled lib at_start [] = []"
| "labelled lib at_start (raw # raws) =
     \<lparr>sf_raw = raw, sf_events = frame_events lib raw at_start\<rparr> # labelled lib False raws"

lemma labelled_append:
  "labelled lib b (xs @ ys) = labelled lib b xs @ labelled lib (b \<and> xs = []) ys"
  by (induction xs arbitrary: b) auto

lemma frames_loop_exact:
  assumes "scan_ok d consumed"
  shows "\<exists>consumed'. push_frames_loop lib d consumed frames =
       (d\<lparr>sd_scanned := length (sd_pending d),
          sd_stream_start := (sd_stream_start d \<and> fst (cut_frames (drop consumed (sd_pending d))) = [])\<rparr>,
        consumed', frames @ labelled lib (sd_stream_start d) (fst (cut_frames (drop consumed (sd_pending d)))))
     \<and> drop consumed' (sd_pending d) = snd (cut_frames (drop consumed (sd_pending d))) \<and> consumed' \<le> length (sd_pending d)"
  using assms
proof (induction "length (sd_pending d) - consumed" arbitrary: d consumed frames rule: less_induct)
  case less
  let ?bs = "drop consumed (sd_pending d)"
  note scan = next_frame_end_exact [OF less.prems]
  show ?case
  proof (cases "sse_frame_end ?bs")
    case None
    then show ?thesis
      using scan less.prems by (subst push_frames_loop.simps) (simp add: cut_frames_None scan_ok_def)
  next
    case (Some e)
    let ?d = "d\<lparr>sd_scanned := consumed + e, sd_stream_start := False\<rparr>"
    let ?frame = "\<lparr>sf_raw = take e ?bs, sf_events = frame_events lib (take e ?bs) (sd_stream_start d)\<rparr>"
    have e: "2 \<le> e" "consumed + e \<le> length (sd_pending d)"
      using frame_end_bounds [OF Some] less.prems unfolding scan_ok_def length_drop by linarith+
    have "length (sd_pending ?d) - (consumed + e) < length (sd_pending d) - consumed" using e by simp
    from less.hyps [OF this scan_ok_after [OF less.prems Some], of "frames @ [?frame]"]
    obtain c where c: "push_frames_loop lib ?d (consumed + e) (frames @ [?frame]) =
        (?d\<lparr>sd_scanned := length (sd_pending d)\<rparr>, c,
          frames @ [?frame] @ labelled lib False (fst (cut_frames (drop (consumed + e) (sd_pending d)))))"
      "drop c (sd_pending d) = snd (cut_frames (drop (consumed + e) (sd_pending d)))" "c \<le> length (sd_pending d)"
      by auto
    have "push_frames_loop lib d consumed frames = push_frames_loop lib ?d (consumed + e) (frames @ [?frame])"
      using scan Some by (subst push_frames_loop.simps) (simp add: slice_def Let_def)
    then show ?thesis using c cut_frames_Some [OF Some] by (simp add: add.commute)
  qed
qed

text \<open>A decoder between two chunks that has no oversized frame in hand.\<close>

definition between_chunks :: "sse_event_decoder \<Rightarrow> bool" where
  "between_chunks d =
     (\<not> sd_opaque_frame d \<and> sd_scanned d = length (sd_pending d) \<and> sse_frame_end (sd_pending d) = None)"

lemma scan_ok_append: "between_chunks d \<Longrightarrow> scan_ok (append_chunk chunk d) 0"
  by (auto simp: between_chunks_def scan_ok_def append_chunk_def frame_end_none is_end_append)

lemma push_frames_exact:
  assumes "between_chunks d" and bs: "bs = sd_pending d @ chunk" and "length bs \<le> max_sse_event_buffer_bytes"
  shows "push_frames lib chunk d =
       (d\<lparr>sd_pending := snd (cut_frames bs), sd_scanned := length (snd (cut_frames bs)),
          sd_stream_start := (sd_stream_start d \<and> fst (cut_frames bs) = [])\<rparr>,
        labelled lib (sd_stream_start d) (fst (cut_frames bs)))"
    and "between_chunks (fst (push_frames lib chunk d))"
proof -
  have app: "append_chunk chunk d = d\<lparr>sd_pending := bs\<rparr>" by (simp add: append_chunk_def bs)
  obtain c where c: "push_frames_loop lib (d\<lparr>sd_pending := bs\<rparr>) 0 [] =
       (d\<lparr>sd_pending := bs, sd_scanned := length bs,
          sd_stream_start := (sd_stream_start d \<and> fst (cut_frames bs) = [])\<rparr>,
        c, labelled lib (sd_stream_start d) (fst (cut_frames bs)))"
     "drop c bs = snd (cut_frames bs)" "c \<le> length bs"
    using frames_loop_exact [OF scan_ok_append [OF assms(1), of chunk], of lib "[]"] by (auto simp: app)
  have len: "length bs - c = length (snd (cut_frames bs))"
    unfolding c(2) [symmetric] by simp
  have small: "length (snd (cut_frames bs)) \<le> max_sse_event_buffer_bytes"
    using assms(3) len by simp
  have committed: "commit_consumed c (d\<lparr>sd_pending := bs, sd_scanned := length bs, sd_stream_start := b\<rparr>) =
      d\<lparr>sd_pending := snd (cut_frames bs), sd_scanned := length (snd (cut_frames bs)), sd_stream_start := b\<rparr>" for b
    unfolding c(2) [symmetric] by (simp add: commit_consumed_def)
  show eq: "push_frames lib chunk d =
       (d\<lparr>sd_pending := snd (cut_frames bs), sd_scanned := length (snd (cut_frames bs)),
          sd_stream_start := (sd_stream_start d \<and> fst (cut_frames bs) = [])\<rparr>,
        labelled lib (sd_stream_start d) (fst (cut_frames bs)))"
    using assms(1) small
    by (simp add: push_frames_def Let_def between_chunks_def app c(1) committed)
  show "between_chunks (fst (push_frames lib chunk d))"
    unfolding eq using assms(1) by (simp add: between_chunks_def cut_frames_rest)
qed


section \<open>Whole streams\<close>

text \<open>All chunks of a stream one after the other, then its end.\<close>

fun run_frames :: "sse_lib \<Rightarrow> string list \<Rightarrow> sse_event_decoder \<Rightarrow> sse_frame list \<times> sse_event_decoder" where
  "run_frames lib [] d = ([], d)"
| "run_frames lib (chunk # chunks) d =
     (case push_frames lib chunk d of (d, fs) \<Rightarrow>
        (case run_frames lib chunks d of (gs, d) \<Rightarrow> (fs @ gs, d)))"

definition decode_frames :: "sse_lib \<Rightarrow> string list \<Rightarrow> sse_frame list" where
  "decode_frames lib chunks =
     (case run_frames lib chunks decoder_default of (fs, d) \<Rightarrow> fs @ snd (finish_frames lib d))"

text \<open>The pieces of the whole byte sequence: its complete frames and a last one without a separator.\<close>

definition pieces :: "string \<Rightarrow> string list" where
  "pieces bs = fst (cut_frames bs) @ (if snd (cut_frames bs) = [] then [] else [snd (cut_frames bs)])"

definition frame_bytes :: "sse_frame list \<Rightarrow> string" where
  "frame_bytes fs = concat (map sf_raw fs)"

lemma frame_bytes_append [simp]: "frame_bytes (fs @ gs) = frame_bytes fs @ frame_bytes gs"
  by (simp add: frame_bytes_def)

lemma frame_bytes_simps [simp]: "frame_bytes [] = []" "frame_bytes [\<lparr>sf_raw = r, sf_events = es\<rparr>] = r"
  by (simp_all add: frame_bytes_def)

lemma frames_loop_bytes:
  "push_frames_loop lib d consumed fs = (d', c, gs) \<Longrightarrow>
     sd_pending d' = sd_pending d \<and> frame_bytes gs @ drop c (sd_pending d) = frame_bytes fs @ drop consumed (sd_pending d)"
proof (induction lib d consumed fs rule: push_frames_loop.induct)
  case (1 lib d consumed fs)
  obtain u res where n: "next_frame_end d consumed = (u, res)" by fastforce
  show ?case
  proof (cases res)
    case None
    have "sd_pending u = sd_pending d"
      using n by (auto simp: next_frame_end_def Let_def split: option.splits)
    then show ?thesis using 1(2) n None by (subst (asm) push_frames_loop.simps) simp
  next
    case (Some e)
    note adv = next_frame_end_advances [OF n [unfolded Some]]
    define frame where "frame = \<lparr>sf_raw = slice consumed e (sd_pending u),
        sf_events = frame_events lib (slice consumed e (sd_pending u)) (sd_stream_start u)\<rparr>"
    have rec: "push_frames_loop lib (u\<lparr>sd_stream_start := False\<rparr>) e (fs @ [frame]) = (d', c, gs)"
      using 1(2) n Some by (subst (asm) push_frames_loop.simps) (simp add: Let_def frame_def)
    have "slice consumed e (sd_pending u) @ drop e (sd_pending d) = drop consumed (sd_pending d)"
      using adv by (simp add: slice_def) (metis append_take_drop_id drop_drop le_add_diff_inverse2 less_imp_le_nat)
    then show ?thesis
      using 1(1) [OF n [symmetric] Some refl frame_def rec] adv by (simp add: frame_def)
  qed
qed

lemma push_frames_bytes:
  "push_frames lib chunk d = (d', fs) \<Longrightarrow> frame_bytes fs @ sd_pending d' = sd_pending d @ chunk"
proof -
  assume p: "push_frames lib chunk d = (d', fs)"
  have flush: "frame_bytes gs @ sd_pending u' = frame_bytes hs @ sd_pending u"
    if "flush_opaque_prefix u hs = (u', gs)" for u u' gs hs
    using that by (auto simp: flush_opaque_prefix_def Let_def split: if_splits)
  have opaque: "frame_bytes gs @ sd_pending u' = frame_bytes hs @ sd_pending u"
    if "finish_opaque_frame u hs = Some (u', gs)" for u u' gs hs
    using that by (auto simp: finish_opaque_frame_def Let_def split: option.splits)
  define u where "u = append_chunk chunk d"
  define first where "first = (if sd_opaque_frame u then finish_opaque_frame u [] else Some (u, []))"
  have u: "sd_pending u = sd_pending d @ chunk" by (simp add: u_def append_chunk_def)
  note eq = p [unfolded push_frames_def Let_def, folded u_def, folded first_def]
  show ?thesis
  proof (cases first)
    case None
    then show ?thesis using eq flush [of u "[]"] u by simp
  next
    case (Some q)
    then obtain v gs where q: "first = Some (v, gs)" by (cases q) simp
    then have v: "frame_bytes gs @ sd_pending v = sd_pending u"
      using opaque [of u "[]"] by (auto simp: first_def split: if_splits)
    obtain w c hs where l: "push_frames_loop lib v 0 gs = (w, c, hs)" by (metis prod_cases3)
    note lb = frames_loop_bytes [OF l]
    have w: "frame_bytes hs @ sd_pending (commit_consumed c w) = sd_pending u"
      using lb v by (cases "c = 0") (simp_all add: commit_consumed_def)
    have "sd_pending ((commit_consumed c w)\<lparr>sd_opaque_frame := True\<rparr>) = sd_pending (commit_consumed c w)" by simp
    then show ?thesis
      using eq w u flush [of "(commit_consumed c w)\<lparr>sd_opaque_frame := True\<rparr>" hs]
      by (simp add: q l split: if_splits)
  qed
qed

lemma run_frames_bytes:
  "run_frames lib chunks d = (fs, d') \<Longrightarrow> frame_bytes fs @ sd_pending d' = sd_pending d @ concat chunks"
proof (induction chunks arbitrary: d fs)
  case (Cons chunk chunks)
  obtain u gs where p: "push_frames lib chunk d = (u, gs)" by fastforce
  obtain hs where r: "run_frames lib chunks u = (hs, d')" "fs = gs @ hs"
    using Cons.prems p by (auto split: prod.splits)
  show ?case using Cons.IH [OF r(1)] push_frames_bytes [OF p] r(2) by (metis append.assoc concat.simps(2) frame_bytes_append)
qed auto

text \<open>
  C10. What the decoder hands on is the stream: the raw bytes of all its frames, in order, are the
  bytes of all chunks, whatever they contain and however they are cut, also for frames beyond the
  budget.
\<close>

theorem decoder_keeps_bytes: "concat (map sf_raw (decode_frames lib chunks)) = concat chunks"
proof -
  obtain fs d where r: "run_frames lib chunks decoder_default = (fs, d)" by fastforce
  have "frame_bytes (snd (finish_frames lib d)) = sd_pending d"
    by (simp add: finish_frames_def Let_def)
  then have "frame_bytes (decode_frames lib chunks) = concat chunks"
    using run_frames_bytes [OF r] unfolding decode_frames_def r by (simp add: decoder_default_def)
  then show ?thesis by (simp add: frame_bytes_def)
qed

text \<open>
  C35. Chunks do not matter: for a stream within the budget, the decoder yields the pieces between
  the separators of the whole byte sequence, each with the events the parser finds in it, however
  the bytes were cut, inside a separator too.
\<close>

theorem frames_independent_of_chunks:
  assumes "length (concat chunks) \<le> max_sse_event_buffer_bytes"
  shows "decode_frames lib chunks = labelled lib True (pieces (concat chunks))"
proof -
  have run: "run_frames lib chunks d =
      (labelled lib (sd_stream_start d) (fst (cut_frames (sd_pending d @ concat chunks))),
       d\<lparr>sd_pending := snd (cut_frames (sd_pending d @ concat chunks)),
         sd_scanned := length (snd (cut_frames (sd_pending d @ concat chunks))),
         sd_stream_start := (sd_stream_start d \<and> fst (cut_frames (sd_pending d @ concat chunks)) = [])\<rparr>)"
    if "between_chunks d" "length (sd_pending d @ concat chunks) \<le> max_sse_event_buffer_bytes" for d
    using that
  proof (induction chunks arbitrary: d)
    case Nil
    then show ?case by (simp add: cut_frames_None between_chunks_def)
  next
    case (Cons chunk chunks)
    define bs where "bs = sd_pending d @ chunk"
    define u where "u = fst (push_frames lib chunk d)"
    have small: "length bs \<le> max_sse_event_buffer_bytes" using Cons.prems(2) by (simp add: bs_def)
    note p = push_frames_exact [OF Cons.prems(1) bs_def small, of lib]
    have u: "u = d\<lparr>sd_pending := snd (cut_frames bs), sd_scanned := length (snd (cut_frames bs)),
          sd_stream_start := (sd_stream_start d \<and> fst (cut_frames bs) = [])\<rparr>"
      by (simp add: u_def p(1))
    have push: "push_frames lib chunk d = (u, labelled lib (sd_stream_start d) (fst (cut_frames bs)))"
      unfolding u by (rule p(1))
    have "length (snd (cut_frames bs)) \<le> length bs" using cut_frames_bytes [of bs] by (metis length_append le_add2)
    then have "length (sd_pending u @ concat chunks) \<le> max_sse_event_buffer_bytes"
      using Cons.prems(2) by (simp add: u bs_def)
    from Cons.IH [OF p(2) [folded u_def] this] have
      "run_frames lib chunks u =
      (labelled lib (sd_stream_start d \<and> fst (cut_frames bs) = []) (fst (cut_frames (snd (cut_frames bs) @ concat chunks))),
       d\<lparr>sd_pending := snd (cut_frames (snd (cut_frames bs) @ concat chunks)),
         sd_scanned := length (snd (cut_frames (snd (cut_frames bs) @ concat chunks))),
         sd_stream_start := ((sd_stream_start d \<and> fst (cut_frames bs) = []) \<and> fst (cut_frames (snd (cut_frames bs) @ concat chunks)) = [])\<rparr>)"
      by (simp add: u)
    moreover have "sd_pending d @ concat (chunk # chunks) = bs @ concat chunks" by (simp add: bs_def)
    ultimately show ?case
      by (simp only: run_frames.simps push prod.case cut_frames_append [of bs] labelled_append fst_conv snd_conv)
        (simp add: conj_ac)
  qed
  have start: "between_chunks decoder_default"
    by (simp add: between_chunks_def decoder_default_def sse_frame_end_def sse_frame_separator_bytes_def)
  have "length (snd (cut_frames (concat chunks))) \<le> max_sse_event_buffer_bytes"
    using assms cut_frames_bytes [of "concat chunks"] by (metis length_append le_add2 order_trans)
  then show ?thesis
    using run [OF start] assms
    by (simp add: decode_frames_def finish_frames_def Let_def decoder_default_def pieces_def labelled_append)
qed


text \<open>The size of the buffer and of its scanned part.\<close>

definition buffer_ok :: "sse_event_decoder \<Rightarrow> bool" where
  "buffer_ok d =
     (sd_scanned d \<le> length (sd_pending d) \<and> length (sd_pending d) \<le> max_sse_event_buffer_bytes
      \<and> (if sd_opaque_frame d then length (sd_pending d) \<le> 3 \<and> sd_scanned d = 0 else True))"

lemma frames_loop_scan:
  "push_frames_loop lib d consumed fs = (d', c, gs) \<Longrightarrow> consumed \<le> length (sd_pending d) \<Longrightarrow>
     sd_pending d' = sd_pending d \<and> sd_opaque_frame d' = sd_opaque_frame d
     \<and> sd_scanned d' = length (sd_pending d) \<and> c \<le> length (sd_pending d)"
proof (induction lib d consumed fs rule: push_frames_loop.induct)
  case (1 lib d consumed fs)
  obtain u res where n: "next_frame_end d consumed = (u, res)" by fastforce
  have u: "sd_pending u = sd_pending d \<and> sd_opaque_frame u = sd_opaque_frame d"
    using n by (auto simp: next_frame_end_def Let_def split: option.splits)
  show ?case
  proof (cases res)
    case None
    then have "sd_scanned u = length (sd_pending d)"
      using n by (auto simp: next_frame_end_def Let_def split: option.splits)
    then show ?thesis using 1(2,3) n None u by (subst (asm) push_frames_loop.simps) simp
  next
    case (Some e)
    note adv = next_frame_end_advances [OF n [unfolded Some]]
    define frame where "frame = \<lparr>sf_raw = slice consumed e (sd_pending u),
        sf_events = frame_events lib (slice consumed e (sd_pending u)) (sd_stream_start u)\<rparr>"
    have rec: "push_frames_loop lib (u\<lparr>sd_stream_start := False\<rparr>) e (fs @ [frame]) = (d', c, gs)"
      using 1(2) n Some by (subst (asm) push_frames_loop.simps) (simp add: Let_def frame_def)
    show ?thesis
      using 1(1) [OF n [symmetric] Some refl frame_def rec] adv u by simp
  qed
qed

lemma push_frames_buffer: "buffer_ok d \<Longrightarrow> buffer_ok (fst (push_frames lib chunk d))"
proof -
  assume ok: "buffer_ok d"
  have big: "(3 :: nat) \<le> max_sse_event_buffer_bytes" by (simp add: max_sse_event_buffer_bytes_def)
  have flush: "buffer_ok (fst (flush_opaque_prefix u hs))"
    if "sd_opaque_frame u" "sd_scanned u = 0 \<or> 3 < length (sd_pending u)" for u hs
    using that big by (auto simp: flush_opaque_prefix_def Let_def buffer_ok_def)
  define u where "u = append_chunk chunk d"
  define first where "first = (if sd_opaque_frame u then finish_opaque_frame u [] else Some (u, []))"
  have eq: "push_frames lib chunk d = (case first of
           None \<Rightarrow> flush_opaque_prefix u []
         | Some (d, frames) \<Rightarrow>
             (case push_frames_loop lib d 0 frames of
                (d, consumed, frames) \<Rightarrow>
                  let d = commit_consumed consumed d
                  in if max_sse_event_buffer_bytes < length (sd_pending d)
                     then flush_opaque_prefix (d\<lparr>sd_opaque_frame := True\<rparr>) frames
                     else (d, frames)))"
    by (simp only: push_frames_def Let_def first_def u_def)
  show ?thesis
  proof (cases first)
    case None
    then have "sd_opaque_frame u" by (simp add: first_def split: if_splits)
    moreover have "sd_scanned u = 0" using ok calculation by (simp add: u_def append_chunk_def buffer_ok_def)
    ultimately show ?thesis using flush by (simp add: eq None)
  next
    case (Some q)
    then obtain v gs where q: "first = Some (v, gs)" by (cases q) simp
    have v: "\<not> sd_opaque_frame v"
      using q by (auto simp: first_def finish_opaque_frame_def Let_def split: if_splits option.splits)
    obtain w c hs where l: "push_frames_loop lib v 0 gs = (w, c, hs)" by (metis prod_cases3)
    note ls = frames_loop_scan [OF l]
    let ?x = "commit_consumed c w"
    have x: "sd_scanned ?x = length (sd_pending ?x)" "\<not> sd_opaque_frame ?x"
      using ls v by (simp_all add: commit_consumed_def)
    show ?thesis
    proof (cases "max_sse_event_buffer_bytes < length (sd_pending ?x)")
      case True
      then show ?thesis using flush [of "?x\<lparr>sd_opaque_frame := True\<rparr>" hs] big by (simp add: eq q l)
    next
      case False
      then show ?thesis using x by (simp add: eq q l buffer_ok_def)
    qed
  qed
qed

text \<open>
  The decoder's memory is bounded on any stream: after each chunk at most the budget is held
  back, three bytes while an oversized frame passes through, and the scan never stands beyond the
  buffer, so that no slice of it is out of range.
\<close>

theorem decoder_buffer_bounded:
  "sd_scanned (snd (run_frames lib chunks decoder_default)) \<le> length (sd_pending (snd (run_frames lib chunks decoder_default)))
     \<and> length (sd_pending (snd (run_frames lib chunks decoder_default)))
        \<le> (if sd_opaque_frame (snd (run_frames lib chunks decoder_default)) then 3 else max_sse_event_buffer_bytes)"
proof -
  have "buffer_ok d \<Longrightarrow> buffer_ok (snd (run_frames lib chunks d))" for d
  proof (induction chunks arbitrary: d)
    case (Cons chunk chunks)
    obtain u gs where p: "push_frames lib chunk d = (u, gs)" by fastforce
    have "buffer_ok u" using push_frames_buffer [OF Cons.prems, of lib chunk] by (simp add: p)
    from Cons.IH [OF this] show ?case by (cases "run_frames lib chunks u") (simp add: p)
  qed simp
  from this [of decoder_default] have "buffer_ok (snd (run_frames lib chunks decoder_default))"
    by (simp add: buffer_ok_def decoder_default_def)
  then show ?thesis by (simp add: buffer_ok_def split: if_splits)
qed


section \<open>Streams of events\<close>

text \<open>The chunks through \<open>push\<close> and the end through \<open>finish\<close>, up to the first error.\<close>

fun decode_events :: "sse_lib \<Rightarrow> string list \<Rightarrow> sse_event_decoder \<Rightarrow> sse_error + sse_event list" where
  "decode_events lib [] d = snd (finish lib d)"
| "decode_events lib (chunk # chunks) d =
     (case push lib chunk d of
        (d, Inl e) \<Rightarrow> Inl e
      | (d, Inr events) \<Rightarrow> map_sum id ((@) events) (decode_events lib chunks d))"

fun parse_pieces :: "sse_lib \<Rightarrow> bool \<Rightarrow> string list \<Rightarrow> sse_error + sse_event list" where
  "parse_pieces lib at_start [] = Inr []"
| "parse_pieces lib at_start (raw # raws) =
     (case parse_frame lib raw at_start of
        Inl e \<Rightarrow> Inl e
      | Inr events \<Rightarrow> map_sum id ((@) events) (parse_pieces lib False raws))"

lemma map_sum_append: "map_sum id ((@) xs) (map_sum id ((@) ys) r) = map_sum id ((@) (xs @ ys)) r"
  by (cases r) simp_all

lemma parse_pieces_append:
  "parse_pieces lib b (xs @ ys) =
     (case parse_pieces lib b xs of
        Inl e \<Rightarrow> Inl e
      | Inr events \<Rightarrow> map_sum id ((@) events) (parse_pieces lib (b \<and> xs = []) ys))"
proof (induction xs arbitrary: b)
  case Nil
  show ?case by (cases "parse_pieces lib b ys") simp_all
next
  case (Cons x xs)
  show ?case
    by (simp add: Cons split: sum.split) (simp add: map_sum_append id_def [symmetric] split: sum.split)
qed

lemma push_loop_exact:
  assumes "scan_ok d consumed"
  shows "case parse_pieces lib (sd_stream_start d) (fst (cut_frames (drop consumed (sd_pending d)))) of
       Inl e \<Rightarrow> \<exists>d' c. push_loop lib d consumed events = (d', c, Inl e)
     | Inr more_events \<Rightarrow> \<exists>c. push_loop lib d consumed events =
         (d\<lparr>sd_scanned := length (sd_pending d),
          sd_stream_start := (sd_stream_start d \<and> fst (cut_frames (drop consumed (sd_pending d))) = [])\<rparr>,
          c, Inr (events @ more_events))
         \<and> drop c (sd_pending d) = snd (cut_frames (drop consumed (sd_pending d))) \<and> c \<le> length (sd_pending d)"
  using assms
proof (induction "length (sd_pending d) - consumed" arbitrary: d consumed events rule: less_induct)
  case less
  let ?bs = "drop consumed (sd_pending d)"
  note scan = next_frame_end_exact [OF less.prems]
  show ?case
  proof (cases "sse_frame_end ?bs")
    case None
    then show ?thesis
      using scan less.prems by (subst push_loop.simps) (simp add: cut_frames_None scan_ok_def)
  next
    case (Some e)
    let ?d = "d\<lparr>sd_scanned := consumed + e, sd_stream_start := False\<rparr>"
    have e: "2 \<le> e" "consumed + e \<le> length (sd_pending d)"
      using frame_end_bounds [OF Some] less.prems unfolding scan_ok_def length_drop by linarith+
    show ?thesis
    proof (cases "parse_frame lib (take e ?bs) (sd_stream_start d)")
      case (Inl err)
      then show ?thesis
        using scan Some by (subst push_loop.simps) (simp add: cut_frames_Some [OF Some] slice_def)
    next
      case (Inr first)
      have "length (sd_pending ?d) - (consumed + e) < length (sd_pending d) - consumed" using e by simp
      note ih = less.hyps [OF this scan_ok_after [OF less.prems Some], of "events @ first"]
      have step: "push_loop lib d consumed events = push_loop lib ?d (consumed + e) (events @ first)"
        using scan Some Inr by (subst push_loop.simps) (simp add: slice_def)
      show ?thesis
        using ih cut_frames_Some [OF Some] Inr
        by (cases "parse_pieces lib False (fst (cut_frames (drop (consumed + e) (sd_pending d))))")
          (simp_all add: step add.commute)
    qed
  qed
qed

lemma push_exact:
  assumes "between_chunks d" and bs: "bs = sd_pending d @ chunk" and "length bs \<le> max_sse_event_buffer_bytes"
  shows "case parse_pieces lib (sd_stream_start d) (fst (cut_frames bs)) of
       Inl e \<Rightarrow> snd (push lib chunk d) = Inl e
     | Inr events \<Rightarrow> push lib chunk d =
       (d\<lparr>sd_pending := snd (cut_frames bs), sd_scanned := length (snd (cut_frames bs)),
          sd_stream_start := (sd_stream_start d \<and> fst (cut_frames bs) = [])\<rparr>, Inr events)"
proof -
  have app: "append_chunk chunk d = d\<lparr>sd_pending := bs\<rparr>" by (simp add: append_chunk_def bs)
  note loop = push_loop_exact [OF scan_ok_append [OF assms(1), of chunk], of lib "[]", unfolded app, simplified]
  show ?thesis
  proof (cases "parse_pieces lib (sd_stream_start d) (fst (cut_frames bs))")
    case (Inl e)
    then show ?thesis using loop by (auto simp: push_def app)
  next
    case (Inr events)
    then obtain c where c: "push_loop lib (d\<lparr>sd_pending := bs\<rparr>) 0 [] =
       (d\<lparr>sd_pending := bs, sd_scanned := length bs,
          sd_stream_start := (sd_stream_start d \<and> fst (cut_frames bs) = [])\<rparr>, c, Inr events)"
      "drop c bs = snd (cut_frames bs)"
      using loop by auto
    have len: "length bs - c = length (snd (cut_frames bs))" unfolding c(2) [symmetric] by simp
    have committed: "commit_consumed c (d\<lparr>sd_pending := bs, sd_scanned := length bs, sd_stream_start := b\<rparr>) =
        d\<lparr>sd_pending := snd (cut_frames bs), sd_scanned := length (snd (cut_frames bs)), sd_stream_start := b\<rparr>" for b
      unfolding c(2) [symmetric] by (simp add: commit_consumed_def)
    have "length (snd (cut_frames bs)) \<le> max_sse_event_buffer_bytes" using assms(3) len by simp
    then show ?thesis using Inr by (simp add: push_def app c(1) committed Let_def)
  qed
qed

lemma start_between [simp]: "between_chunks decoder_default"
  by (simp add: between_chunks_def decoder_default_def sse_frame_end_def sse_frame_separator_bytes_def)

lemma decode_pieces:
  assumes "length (concat chunks) \<le> max_sse_event_buffer_bytes"
  shows "decode_events lib chunks decoder_default = parse_pieces lib True (pieces (concat chunks))"
proof -
  have run: "decode_events lib chunks d = parse_pieces lib (sd_stream_start d) (pieces (sd_pending d @ concat chunks))"
    if "between_chunks d" "length (sd_pending d @ concat chunks) \<le> max_sse_event_buffer_bytes" for d
    using that
  proof (induction chunks arbitrary: d)
    case Nil
    then have "pieces (sd_pending d) = (if sd_pending d = [] then [] else [sd_pending d])"
      by (simp add: pieces_def cut_frames_None between_chunks_def)
    then show ?case by (simp add: finish_def Let_def split: sum.split)
  next
    case (Cons chunk chunks)
    define bs where "bs = sd_pending d @ chunk"
    have small: "length bs \<le> max_sse_event_buffer_bytes" using Cons.prems(2) by (simp add: bs_def)
    note p = push_exact [OF Cons.prems(1) bs_def small, of lib]
    have len: "length (snd (cut_frames bs)) \<le> length bs" using cut_frames_bytes [of bs] by (metis length_append le_add2)
    let ?u = "d\<lparr>sd_pending := snd (cut_frames bs), sd_scanned := length (snd (cut_frames bs)),
          sd_stream_start := (sd_stream_start d \<and> fst (cut_frames bs) = [])\<rparr>"
    have "between_chunks ?u" using Cons.prems(1) by (simp add: between_chunks_def cut_frames_rest)
    moreover have "length (sd_pending ?u @ concat chunks) \<le> max_sse_event_buffer_bytes"
      using Cons.prems(2) len by (simp add: bs_def)
    ultimately have ih: "decode_events lib chunks ?u =
        parse_pieces lib (sd_stream_start d \<and> fst (cut_frames bs) = []) (pieces (snd (cut_frames bs) @ concat chunks))"
      using Cons.IH [of ?u] by simp
    have all: "pieces (sd_pending d @ chunk @ concat chunks) =
        fst (cut_frames bs) @ pieces (snd (cut_frames bs) @ concat chunks)"
      using cut_frames_append [of bs "concat chunks"] by (simp add: pieces_def bs_def)
    show ?case
    proof (cases "parse_pieces lib (sd_stream_start d) (fst (cut_frames bs))")
      case (Inl e)
      then show ?thesis using p by (cases "push lib chunk d") (simp add: all parse_pieces_append)
    next
      case (Inr events)
      then show ?thesis using p ih by (simp add: all parse_pieces_append)
    qed
  qed
  show ?thesis using run [OF start_between] assms by (simp add: decoder_default_def)
qed

text \<open>
  The parsing decoder too does not see the chunks: for a stream within the budget it answers as
  if it had parsed the pieces of the whole byte sequence one after the other, with the first error
  if one of them is malformed.
\<close>

theorem events_independent_of_chunks:
  assumes "length (concat chunks) \<le> max_sse_event_buffer_bytes"
  shows "decode_events lib chunks decoder_default = parse_pieces lib True (pieces (concat chunks))"
  using assms by (rule decode_pieces)


section \<open>Lines\<close>

abbreviation lf :: char where "lf \<equiv> CHR 0x0A"
abbreviation cr :: char where "cr \<equiv> CHR 0x0D"

definition unlines :: "string list \<Rightarrow> string" where
  "unlines ls = concat (map (\<lambda>l. l @ [lf]) ls)"

lemma unlines_simps [simp]:
  "unlines [] = []" "unlines (l # ls) = l @ lf # unlines ls" "unlines (xs @ ys) = unlines xs @ unlines ys"
  by (simp_all add: unlines_def)

definition plain_line :: "string \<Rightarrow> bool" where
  "plain_line l = (l \<noteq> [] \<and> lf \<notin> set l \<and> cr \<notin> set l)"

lemma strip_cr_plain [simp]: "cr \<notin> set l \<Longrightarrow> strip_cr l = l"
  by (cases l rule: rev_cases) (auto simp: strip_cr_def)

lemma lines_unlines: "list_all (\<lambda>l. lf \<notin> set l \<and> cr \<notin> set l) ls \<Longrightarrow> str_lines (unlines ls) = ls"
proof -
  assume a: "list_all (\<lambda>l. lf \<notin> set l \<and> cr \<notin> set l) ls"
  have "split_on lf (unlines ls) = ls @ [[]]"
    using a by (induction ls) (simp_all add: split_on_append)
  moreover have "map strip_cr ls = ls" using a by (induction ls) simp_all
  ultimately show ?thesis by (simp add: str_lines_def Let_def)
qed

lemma split_on_join: "hd (split_on d s) @ concat (map ((#) d) (tl (split_on d s))) = s"
  by (induction s) (auto split: list.split)

lemma split_on_sep: "p \<in> set (split_on d s) \<Longrightarrow> d \<notin> set p \<and> set p \<subseteq> set s"
proof (induction s arbitrary: p)
  case (Cons a s)
  obtain q qs where q: "split_on d s = q # qs" by (cases "split_on d s") simp_all
  have q_ok: "d \<notin> set q \<and> set q \<subseteq> set s" using Cons.IH [of q] q by simp
  from Cons.prems consider "p = []" | "p \<in> set (split_on d s)" | "a \<noteq> d" "p = a # q"
    by (auto simp: q split: if_splits)
  then show ?case
  proof cases
    case 2
    then show ?thesis using Cons.IH [of p] by auto
  qed (use q_ok in auto)
qed simp

text \<open>Within unterminated plain lines no frame ends.\<close>

lemma no_end_in_lines: "list_all plain_line ls \<Longrightarrow> \<not> is_end (unlines ls) e"
proof (induction ls arbitrary: e rule: rev_induct)
  case Nil
  then show ?case using is_end_bounds [of "[]" e] by auto
next
  case (snoc l ls)
  show ?case
  proof
    assume e: "is_end (unlines (ls @ [l])) e"
    define X where "X = unlines ls"
    have "\<not> e \<le> length X" using e snoc by (auto simp: X_def is_end_append)
    moreover have "e \<le> length X + Suc (length l)" using is_end_bounds [OF e] by (simp add: X_def)
    ultimately obtain k where k: "e = length X + Suc k" "Suc k \<le> Suc (length l)"
      by (intro that [of "e - length X - 1"]) simp_all
    have t: "take e (unlines (ls @ [l])) = X @ take (Suc k) (l @ [lf])" by (simp add: X_def k(1))
    have "last (take e (unlines (ls @ [l]))) = lf"
      using e by (auto simp: is_end_def suffix_def lf_lf_def crlf_crlf_def)
    then have "last (take (Suc k) (l @ [lf])) = lf" unfolding t by simp
    then have "(l @ [lf]) ! k = lf"
      using k(2) take_Suc_conv_app_nth [of k "l @ [lf]"] by simp
    then have at: "k < length l \<Longrightarrow> l ! k = lf" by (simp add: nth_append)
    have "k = length l"
    proof (rule ccontr)
      assume "k \<noteq> length l"
      then have "k < length l" using k(2) by simp
      then have "lf \<in> set l" using at nth_mem by metis
      then show False using snoc.prems by (simp add: plain_line_def)
    qed
    then have "take e (unlines (ls @ [l])) = X @ l @ [lf]" using t by simp
    then obtain z y where z: "X @ l = z @ [y]" "y = lf \<or> y = cr"
      using e by (auto simp: is_end_def suffix_def lf_lf_def crlf_crlf_def)
    then have "last l \<in> {lf, cr}" using snoc.prems by (cases l rule: rev_cases) (auto simp: plain_line_def)
    then show False using snoc.prems by (auto simp: plain_line_def dest: last_in_set)
  qed
qed

lemma frame_of_lines:
  assumes "list_all plain_line ls" "ls \<noteq> []"
  shows "sse_frame_end ((unlines ls @ [lf]) @ rest) = Some (length (unlines ls @ [lf]))"
proof -
  obtain z where z: "unlines ls = z @ [lf]" using assms(2) by (cases ls rule: rev_cases) simp_all
  have "is_end (unlines ls @ [lf]) (length (unlines ls @ [lf]))"
    by (simp add: is_end_def z lf_lf_def suffix_def)
  moreover have "\<not> is_end (unlines ls @ [lf]) e" if "e < length (unlines ls @ [lf])" for e
    using that no_end_in_lines [OF assms(1)] is_end_append [of e "unlines ls"] by simp
  ultimately have "sse_frame_end (unlines ls @ [lf]) = Some (length (unlines ls @ [lf]))"
    by (simp add: frame_end_iff)
  then show ?thesis by (rule frame_end_append)
qed

section \<open>Encoding and parsing\<close>

lemma split_once_append: "c \<notin> set a \<Longrightarrow> split_once c (a @ c # b) = Some (a, b)"
  by (induction a) (auto simp: split_once_def)

lemma split_field: "CHR '':'' \<notin> set field \<Longrightarrow> split_sse_field (field @ '': '' @ v) = (field, v)"
  by (simp add: split_sse_field_def split_once_append strip_prefix_def starts_with_def)

definition known_field :: "string \<Rightarrow> bool" where
  "known_field field = (field \<in> {''event'', ''data'', ''id'', ''retry''})"

lemma track_fits:
  assumes "current + length l + 1 \<le> max_sse_event_buffer_bytes"
  shows "\<exists>n \<le> current + length l + 1. track_event_buffer_bytes current l = Inr n"
proof -
  define now where "now = saturating_add u64_max (saturating_add u64_max current (if current \<noteq> 0 then 1 else 0)) (length l)"
  have "now \<le> current + length l + 1" by (simp add: now_def saturating_add_def min_le_iff_disj)
  moreover have "track_event_buffer_bytes current l =
      (if max_sse_event_buffer_bytes < now then Inl (BufferExceeded max_sse_event_buffer_bytes) else Inr now)"
    by (simp only: track_event_buffer_bytes_def Let_def now_def)
  ultimately show ?thesis using assms by simp
qed

lemma parse_line_field:
  assumes f: "known_field field" and v: "cr \<notin> set v"
    and len: "ps_bytes st + length (field @ '': '' @ v) + 1 \<le> max_sse_event_buffer_bytes"
    and p: "parse_field (field @ '': '' @ v) (ps_builder st) = Inr b"
  shows "\<exists>n \<le> ps_bytes st + length (field @ '': '' @ v) + 1.
     parse_line at_start (field @ '': '' @ v) st = Inr (st\<lparr>ps_bytes := n, ps_saw_syntax := True, ps_builder := b\<rparr>)"
proof -
  have colon: "CHR '':'' \<notin> set field" using f by (auto simp: known_field_def)
  have line: "strip_prefix bom (field @ '': '' @ v) = None" "strip_cr (field @ '': '' @ v) = field @ '': '' @ v"
    "\<not> starts_with '':'' (field @ '': '' @ v)"
    using f v by (auto simp: known_field_def strip_prefix_def starts_with_def bom_def)
  obtain n where n: "track_event_buffer_bytes (ps_bytes st) (field @ '': '' @ v) = Inr n"
      "n \<le> ps_bytes st + length (field @ '': '' @ v) + 1"
    using track_fits [OF len] by blast
  have "fst (split_sse_field (field @ '': '' @ v)) \<in> {''event'', ''data'', ''id'', ''retry''}"
    using f unfolding split_field [OF colon] by (simp add: known_field_def)
  then have "parse_line at_start (field @ '': '' @ v) st = Inr (st\<lparr>ps_bytes := n, ps_saw_syntax := True, ps_builder := b\<rparr>)"
    using line n p by (simp add: parse_line_def Let_def split: if_split)
  then show ?thesis using n(2) by blast
qed


text \<open>The lines of an encoded event, without their ends.\<close>

definition meta_lines :: "string \<Rightarrow> string option \<Rightarrow> nat option \<Rightarrow> (string \<times> string) list" where
  "meta_lines event i retry =
     (case opt_filter sse_id_is_representable i of None \<Rightarrow> [] | Some i \<Rightarrow> [(''id'', i)])
     @ (if event \<noteq> [] \<and> sse_field_value_is_single_line event then [(''event'', event)] else [])
     @ (case retry of None \<Rightarrow> [] | Some n \<Rightarrow> [(''retry'', nat_str n)])"

definition event_lines :: "string \<Rightarrow> string \<Rightarrow> string option \<Rightarrow> nat option \<Rightarrow> (string \<times> string) list" where
  "event_lines event data i retry = meta_lines event i retry @ map (Pair ''data'') (split_on lf data)"

definition line_text :: "string \<times> string \<Rightarrow> string" where
  "line_text p = fst p @ '': '' @ snd p"

lemma field_line_text: "field_line f = (\<lambda>v. line_text (f, v) @ [lf])"
  by (simp add: field_line_def line_text_def fun_eq_iff)

lemma encode_lines:
  "encode_sse_event_with_metadata event data i retry = unlines (map line_text (event_lines event data i retry)) @ [lf]"
proof -
  have "unlines (map line_text (map (Pair ''data'') (split_on lf data))) =
      concat (map (field_line ''data'') (split_on lf data))"
    by (simp add: unlines_def field_line_text o_def)
  moreover have "unlines (map line_text (meta_lines event i retry)) =
      (case opt_filter sse_id_is_representable i of None \<Rightarrow> [] | Some i \<Rightarrow> field_line ''id'' i)
     @ (if event \<noteq> [] \<and> sse_field_value_is_single_line event then field_line ''event'' event else [])
     @ (case retry of None \<Rightarrow> [] | Some n \<Rightarrow> field_line ''retry'' (nat_str n))"
    by (simp add: meta_lines_def field_line_text split: option.split)
  ultimately show ?thesis by (simp add: encode_sse_event_with_metadata_def event_lines_def)
qed

text \<open>What the lines do to the builder.\<close>

definition builder_of :: "string \<Rightarrow> string option \<Rightarrow> nat option \<Rightarrow> event_builder" where
  "builder_of event i retry =
     \<lparr>eb_event = (if event \<noteq> [] \<and> sse_field_value_is_single_line event then Some event else None),
      eb_data = [], eb_has_data = False, eb_id = opt_filter sse_id_is_representable i, eb_retry = retry\<rparr>"

fun parse_fields :: "(string \<times> string) list \<Rightarrow> event_builder \<Rightarrow> sse_error + event_builder" where
  "parse_fields [] b = Inr b"
| "parse_fields (p # ps) b =
     (case parse_field (line_text p) b of Inl e \<Rightarrow> Inl e | Inr b \<Rightarrow> parse_fields ps b)"

lemma parse_fields_append:
  "parse_fields (ps @ qs) b = (case parse_fields ps b of Inl e \<Rightarrow> Inl e | Inr b \<Rightarrow> parse_fields qs b)"
  by (induction ps arbitrary: b) (auto split: sum.splits)

definition line_ok :: "string \<times> string \<Rightarrow> bool" where
  "line_ok p = (known_field (fst p) \<and> lf \<notin> set (snd p) \<and> cr \<notin> set (snd p))"

lemma parse_lines_fields:
  assumes "list_all line_ok ps" "parse_fields ps (ps_builder st) = Inr b" "ps \<noteq> []"
    "ps_bytes st + length (unlines (map line_text ps)) \<le> max_sse_event_buffer_bytes"
  shows "\<exists>n. parse_lines at_start (map line_text ps) st = Inr (st\<lparr>ps_bytes := n, ps_saw_syntax := True, ps_builder := b\<rparr>)"
  using assms
proof (induction ps arbitrary: st at_start)
  case (Cons p ps)
  obtain c where c: "parse_field (line_text p) (ps_builder st) = Inr c" "parse_fields ps c = Inr b"
    using Cons.prems(2) by (auto split: sum.splits)
  have "ps_bytes st + length (line_text p) + 1 \<le> max_sse_event_buffer_bytes" using Cons.prems(4) by simp
  then obtain n where n: "n \<le> ps_bytes st + length (line_text p) + 1"
    "parse_line at_start (line_text p) st = Inr (st\<lparr>ps_bytes := n, ps_saw_syntax := True, ps_builder := c\<rparr>)"
    using parse_line_field [of "fst p" "snd p" st c at_start] Cons.prems(1) c(1) by (auto simp: line_ok_def line_text_def)
  show ?case
  proof (cases "ps = []")
    case True
    then show ?thesis using n(2) c(2) by auto
  next
    case False
    have "ps_bytes (st\<lparr>ps_bytes := n, ps_saw_syntax := True, ps_builder := c\<rparr>) + length (unlines (map line_text ps))
        \<le> max_sse_event_buffer_bytes"
      using Cons.prems(4) n(1) by simp
    from Cons.IH [OF _ _ False this, of False] Cons.prems(1) c(2) n(2) show ?thesis by auto
  qed
qed simp

lemma parse_data_fields:
  "parse_fields (map (Pair ''data'') vs) b = Inr (fold push_data vs b)"
  by (induction vs arbitrary: b) (simp_all add: line_text_def parse_field_def split_field [of "''data''", simplified])

lemma fold_push_data:
  "eb_has_data b \<Longrightarrow> fold push_data vs b = b\<lparr>eb_data := eb_data b @ concat (map ((#) lf) vs)\<rparr>"
  by (induction vs arbitrary: b) (simp_all add: push_data_def)

lemma push_split:
  "fold push_data (split_on lf data) (b\<lparr>eb_data := [], eb_has_data := False\<rparr>) = b\<lparr>eb_data := data, eb_has_data := True\<rparr>"
proof -
  obtain q qs where q: "split_on lf data = q # qs" by (cases "split_on lf data") simp_all
  have "fold push_data (split_on lf data) (b\<lparr>eb_data := [], eb_has_data := False\<rparr>) =
      b\<lparr>eb_data := q @ concat (map ((#) lf) qs), eb_has_data := True\<rparr>"
    by (simp add: q fold_push_data push_data_def)
  also have "q @ concat (map ((#) lf) qs) = data" using split_on_join [of lf data] by (simp add: q)
  finally show ?thesis .
qed

lemma digits_no_plus: "list_all is_ascii_digit s \<Longrightarrow> strip_prefix ''+'' s = None"
  by (cases s) (auto simp: strip_prefix_def starts_with_def is_ascii_digit_def)

lemma parse_u64_nat_str: "n \<le> u64_max \<Longrightarrow> parse_u64 (nat_str n) = Some n"
  by (simp add: parse_u64_def digits_no_plus digits_nat_str)

lemma parse_event_lines:
  assumes "opt_any (\<lambda>n. n \<le> u64_max) retry \<or> retry = None"
  shows "parse_fields (event_lines event data i retry) event_builder_default =
     Inr ((builder_of event i retry)\<lparr>eb_data := data, eb_has_data := True\<rparr>)"
proof -
  have id_field: "parse_field (line_text (''id'', v)) b = Inr (b\<lparr>eb_id := Some v\<rparr>)" if "CHR 0x00 \<notin> set v" for v b
    using that by (simp add: line_text_def parse_field_def split_field [of "''id''", simplified])
  have event_field: "parse_field (line_text (''event'', v)) b = Inr (b\<lparr>eb_event := Some v\<rparr>)" for v b
    by (simp add: line_text_def parse_field_def split_field [of "''event''", simplified])
  have retry_field: "parse_field (line_text (''retry'', nat_str n)) b = Inr (b\<lparr>eb_retry := Some n\<rparr>)" if "n \<le> u64_max" for n b
    using parse_u64_nat_str [OF that]
    by (simp add: line_text_def parse_field_def split_field [of "''retry''", simplified])
  have meta: "parse_fields (meta_lines event i retry) event_builder_default = Inr (builder_of event i retry)"
    using assms
    by (cases "opt_filter sse_id_is_representable i"; cases retry)
      (auto simp: meta_lines_def id_field event_field retry_field event_builder_default_def builder_of_def
        sse_id_is_representable_def parse_fields_append)
  have b: "builder_of event i retry = (builder_of event i retry)\<lparr>eb_data := [], eb_has_data := False\<rparr>"
    by (simp add: builder_of_def)
  have "parse_fields (event_lines event data i retry) event_builder_default =
      Inr (fold push_data (split_on lf data) (builder_of event i retry))"
    by (simp add: event_lines_def parse_fields_append meta parse_data_fields)
  also have "fold push_data (split_on lf data) (builder_of event i retry) =
      (builder_of event i retry)\<lparr>eb_data := data, eb_has_data := True\<rparr>"
    using push_split [of data "builder_of event i retry"] b by simp
  finally show ?thesis .
qed


lemma meta_lines_ok:
  "p \<in> set (meta_lines event i retry) \<Longrightarrow> known_field (fst p) \<and> lf \<notin> set (snd p) \<and> cr \<notin> set (snd p)"
proof -
  have "lf \<notin> set (nat_str n)" "cr \<notin> set (nat_str n)" for n
    using digits_nat_str [of n] by (auto simp: list_all_iff is_ascii_digit_def)
  then show "p \<in> set (meta_lines event i retry) \<Longrightarrow> ?thesis"
    by (cases i; cases retry)
      (auto simp: meta_lines_def known_field_def sse_id_is_representable_def sse_field_value_is_single_line_def
        split: if_splits)
qed

lemma event_lines_ok: "cr \<notin> set data \<Longrightarrow> list_all line_ok (event_lines event data i retry)"
  using split_on_sep [of _ lf data] meta_lines_ok [of _ event i retry]
  by (fastforce simp: event_lines_def list_all_iff line_ok_def known_field_def)

lemma line_text_plain: "line_ok p \<Longrightarrow> plain_line (line_text p)"
  by (auto simp: line_ok_def plain_line_def line_text_def known_field_def)

lemma event_lines_plain:
  "cr \<notin> set data \<Longrightarrow> list_all plain_line (map line_text (event_lines event data i retry))"
  using event_lines_ok [of data event i retry] by (auto simp: list_all_iff line_text_plain)

lemma event_lines_not_Nil [simp]: "event_lines event data i retry \<noteq> []"
  by (simp add: event_lines_def)

text \<open>
  The event an encoding carries: what the wire format cannot represent (an event name or an id with
  a line break, an empty name) is left out.
\<close>

definition carried :: "string \<Rightarrow> string \<Rightarrow> string option \<Rightarrow> nat option \<Rightarrow> sse_event" where
  "carried event data i retry =
     \<lparr>sse_name = (if event \<noteq> [] \<and> sse_field_value_is_single_line event then Some event else None),
      sse_data = data, sse_id = opt_filter sse_id_is_representable i, sse_retry = retry\<rparr>"

lemma parse_encoded:
  assumes "cr \<notin> set data" "data \<noteq> ''[DONE]''" "case retry of None \<Rightarrow> True | Some n \<Rightarrow> n \<le> u64_max"
    "length (encode_sse_event_with_metadata event data i retry) \<le> max_sse_event_buffer_bytes"
  shows "parse_sse_events_inner lib (encode_sse_event_with_metadata event data i retry) at_start =
     Inr [carried event data i retry]"
proof -
  let ?ls = "event_lines event data i retry"
  let ?b = "(builder_of event i retry)\<lparr>eb_data := data, eb_has_data := True\<rparr>"
  have "unlines (map line_text ?ls) @ [lf] = unlines (map line_text ?ls @ [[]])" by simp
  moreover have "list_all (\<lambda>l. lf \<notin> set l \<and> cr \<notin> set l) (map line_text ?ls @ [[]])"
    using event_lines_plain [OF assms(1), of event i retry] by (auto simp: list_all_iff plain_line_def)
  ultimately have lines: "str_lines (encode_sse_event_with_metadata event data i retry) = map line_text ?ls @ [[]]"
    using lines_unlines by (simp only: encode_lines)
  have "parse_fields ?ls (ps_builder parse_start) = Inr ?b"
    using parse_event_lines [of retry event data i] assms(3) by (simp add: parse_start_def split: option.splits)
  moreover have "ps_bytes parse_start + length (unlines (map line_text ?ls)) \<le> max_sse_event_buffer_bytes"
    using assms(4) by (simp add: parse_start_def encode_lines)
  ultimately obtain n where n: "parse_lines at_start (map line_text ?ls) parse_start =
      Inr (parse_start\<lparr>ps_bytes := n, ps_saw_syntax := True, ps_builder := ?b\<rparr>)"
    using parse_lines_fields [OF event_lines_ok [OF assms(1)]] by (metis event_lines_not_Nil)
  have parse_append: "parse_lines b (xs @ ys) st =
      (case parse_lines b xs st of Inl e \<Rightarrow> Inl e | Inr st \<Rightarrow> parse_lines (b \<and> xs = []) ys st)" for b xs ys st
    by (induction xs arbitrary: b st) (auto split: sum.splits)
  have blank: "parse_line b [] st = Inr (finish_event (st\<lparr>ps_bytes := 0\<rparr>))" for b st
    by (simp add: parse_line_def strip_prefix_def bom_def starts_with_def strip_cr_def)
  have "builder_finish ?b = (event_builder_default, Some (carried event data i retry))"
    using assms(2) by (simp add: builder_finish_def builder_of_def event_builder_default_def carried_def Let_def)
  then have finish: "finish_event (parse_start\<lparr>ps_saw_syntax := True, ps_builder := ?b, ps_bytes := 0\<rparr>) =
      parse_start\<lparr>ps_events := [carried event data i retry], ps_saw_syntax := True\<rparr>"
    by (simp add: finish_event_def parse_start_def)
  have again: "finish_event (parse_start\<lparr>ps_events := es, ps_saw_syntax := True\<rparr>) =
      parse_start\<lparr>ps_events := es, ps_saw_syntax := True\<rparr>" for es
    by (simp add: finish_event_def parse_start_def builder_finish_def event_builder_default_def)
  have "parse_lines at_start (map line_text ?ls @ [[]]) parse_start =
      Inr (parse_start\<lparr>ps_events := [carried event data i retry], ps_saw_syntax := True\<rparr>)"
    using finish by (simp add: parse_append n blank)
  then show ?thesis
    by (simp add: parse_sse_events_inner_def lines again Let_def)
qed

text \<open>
  An encoded event parses back to itself, with its name, id and retry time: the parser finds
  exactly the one event the encoding carries, whatever line breaks its data has.
\<close>

theorem encode_parse_roundtrip:
  assumes "cr \<notin> set data" and "data \<noteq> ''[DONE]''" and "case retry of None \<Rightarrow> True | Some n \<Rightarrow> n \<le> u64_max"
    and "length (encode_sse_event_with_metadata event data i retry) \<le> max_sse_event_buffer_bytes"
  shows "parse_sse_events lib (encode_sse_event_with_metadata event data i retry) = Inr [carried event data i retry]"
  using parse_encoded [OF assms] by (simp add: parse_sse_events_def)


section \<open>A stream of encoded events\<close>

lemma utf8_valid_iff: "utf8_valid s \<longleftrightarrow> (\<exists>ns. list_all is_scalar ns \<and> s = utf8_encode ns)"
  by (auto simp: utf8_valid_def utf8_roundtrip intro: exI [of _ "utf8_chars s"])

lemma utf8_valid_append: "utf8_valid a \<Longrightarrow> utf8_valid b \<Longrightarrow> utf8_valid (a @ b)"
proof -
  assume "utf8_valid a" "utf8_valid b"
  then obtain ns ms where "list_all is_scalar (ns @ ms)" "a @ b = utf8_encode (ns @ ms)"
    by (auto simp: utf8_valid_iff utf8_encode_def)
  then show ?thesis unfolding utf8_valid_iff by blast
qed

lemma utf8_valid_ascii: "list_all (\<lambda>c. of_char c < (128 :: nat)) s \<Longrightarrow> utf8_valid s"
proof (induction s)
  case Nil
  then show ?case by (simp add: utf8_valid_def utf8_encode_def)
next
  case (Cons c s)
  have "[c] = utf8_encode [of_char c]" using Cons.prems by (simp add: utf8_encode_def utf8_char_def)
  moreover have "list_all is_scalar [of_char c]" using Cons.prems by (simp add: is_scalar_def)
  ultimately have "utf8_valid [c]" unfolding utf8_valid_iff by blast
  then show ?case using utf8_valid_append [of "[c]" s] Cons by simp
qed

lemma utf8_valid_concat: "list_all utf8_valid xs \<Longrightarrow> utf8_valid (concat xs)"
  by (induction xs) (simp_all add: utf8_valid_append utf8_valid_ascii)

lemma lf_code: "(of_char lf :: nat) = 10" "char_of (10 :: nat) = lf"
  by code_simp+

lemma high_byte_not_lf: "128 \<le> m \<Longrightarrow> m < 256 \<Longrightarrow> char_of (m :: nat) \<noteq> lf"
  using of_char_char_of_nat [of m] lf_code(1) by fastforce

lemma lf_in_utf8_char:
  assumes "is_scalar n" "lf \<in> set (utf8_char n)"
  shows "n = 10"
proof (cases "n < 128")
  case True
  then have "lf = char_of n" using assms(2) by (simp add: utf8_char_def)
  then show ?thesis using lf_code(1) of_char_char_of_nat [of n] True by simp
next
  case False
  have cont: "char_of (128 + k mod 64) \<noteq> lf" for k :: nat
    using mod_less_divisor [of 64 k] by (intro high_byte_not_lf) linarith+
  have "char_of (192 + n div 64) \<noteq> lf" if "n < 2048"
    using that by (intro high_byte_not_lf) simp_all
  moreover have "char_of (224 + n div 4096) \<noteq> lf" if "n < 65536"
    using that by (intro high_byte_not_lf) simp_all
  moreover have "n < 1114112" using assms(1) by (auto simp: is_scalar_def)
  then have "char_of (240 + n div 262144) \<noteq> lf" by (intro high_byte_not_lf) simp_all
  ultimately show ?thesis
    using assms(2) False cont [THEN not_sym] by (auto simp: utf8_char_def dest: not_sym split: if_splits)
qed

lemma split_on_append_plain:
  "d \<notin> set a \<Longrightarrow> split_on d (a @ b) = (a @ hd (split_on d b)) # tl (split_on d b)"
  by (induction a) (auto split: list.split)

lemma split_on_valid: "utf8_valid s \<Longrightarrow> list_all utf8_valid (split_on lf s)"
proof -
  have "list_all is_scalar ns \<Longrightarrow> list_all utf8_valid (split_on lf (utf8_encode ns))" for ns
  proof (induction ns)
    case Nil
    then show ?case by (simp add: utf8_encode_def utf8_valid_ascii)
  next
    case (Cons n ns)
    have enc: "utf8_encode (n # ns) = utf8_char n @ utf8_encode ns" by (simp add: utf8_encode_def)
    have ih: "list_all utf8_valid (split_on lf (utf8_encode ns))" using Cons by simp
    show ?case
    proof (cases "n = 10")
      case True
      then have "utf8_char n = [lf]" by (simp add: utf8_char_def lf_code)
      then show ?thesis using ih by (simp add: enc utf8_valid_ascii)
    next
      case False
      then have "lf \<notin> set (utf8_char n)" using lf_in_utf8_char Cons.prems by auto
      moreover have "utf8_valid (utf8_char n)"
        unfolding utf8_valid_iff using Cons.prems by (intro exI [of _ "[n]"]) (simp add: utf8_encode_def)
      ultimately show ?thesis
        using ih by (cases "split_on lf (utf8_encode ns)") (simp_all add: enc split_on_append_plain utf8_valid_append)
    qed
  qed
  then show "utf8_valid s \<Longrightarrow> ?thesis" by (auto simp: utf8_valid_iff)
qed


definition wire :: "sse_event \<Rightarrow> string" where
  "wire e = encode_sse_event_with_metadata (unwrap_or [] (sse_name e)) (sse_data e) (sse_id e) (sse_retry e)"

text \<open>An event the wire format can carry.\<close>

definition sendable :: "sse_event \<Rightarrow> bool" where
  "sendable e =
     (cr \<notin> set (sse_data e) \<and> sse_data e \<noteq> ''[DONE]'' \<and> utf8_valid (sse_data e)
      \<and> (case sse_name e of None \<Rightarrow> True | Some n \<Rightarrow> n \<noteq> [] \<and> sse_field_value_is_single_line n \<and> utf8_valid n)
      \<and> (case sse_id e of None \<Rightarrow> True | Some i \<Rightarrow> sse_id_is_representable i \<and> utf8_valid i)
      \<and> (case sse_retry e of None \<Rightarrow> True | Some n \<Rightarrow> n \<le> u64_max))"

lemma carried_sendable:
  "sendable e \<Longrightarrow> carried (unwrap_or [] (sse_name e)) (sse_data e) (sse_id e) (sse_retry e) = e"
  by (cases "sse_name e"; cases "sse_id e") (simp_all add: sendable_def carried_def)

lemma line_text_valid: "utf8_valid (fst p) \<Longrightarrow> utf8_valid (snd p) \<Longrightarrow> utf8_valid (line_text p @ [lf])"
  using utf8_valid_ascii [of "'': ''"] utf8_valid_ascii [of "[lf]"]
  by (simp add: line_text_def utf8_valid_append flip: append_Cons)

lemma wire_valid: "sendable e \<Longrightarrow> utf8_valid (wire e)"
proof -
  assume e: "sendable e"
  have field: "utf8_valid (fst p)" if "line_ok p" for p
    using that by (auto simp: line_ok_def known_field_def intro!: utf8_valid_ascii)
  have digits: "utf8_valid (nat_str n)" for n
    using digits_nat_str [of n] by (intro utf8_valid_ascii) (auto simp: list_all_iff is_ascii_digit_def)
  let ?ls = "event_lines (unwrap_or [] (sse_name e)) (sse_data e) (sse_id e) (sse_retry e)"
  have "utf8_valid (snd p)" if "p \<in> set (meta_lines (unwrap_or [] (sse_name e)) (sse_id e) (sse_retry e))" for p
    using that e digits
    by (cases "sse_name e"; cases "sse_id e"; cases "sse_retry e")
      (auto simp: meta_lines_def sendable_def split: if_splits)
  moreover have "list_all utf8_valid (split_on lf (sse_data e))"
    using e by (intro split_on_valid) (simp add: sendable_def)
  ultimately have "list_all (\<lambda>p. utf8_valid (snd p)) ?ls"
    by (auto simp: event_lines_def list_all_iff)
  moreover have "list_all line_ok ?ls" using e by (intro event_lines_ok) (simp add: sendable_def)
  ultimately have "list_all utf8_valid (map (\<lambda>p. line_text p @ [lf]) ?ls)"
    using field line_text_valid by (auto simp: list_all_iff)
  from utf8_valid_concat [OF this] show ?thesis
    by (simp add: wire_def encode_lines unlines_def o_def utf8_valid_append utf8_valid_ascii)
qed

lemma cut_wires: "list_all sendable es \<Longrightarrow> cut_frames (concat (map wire es)) = (map wire es, [])"
proof (induction es)
  case Nil
  then show ?case by (simp add: cut_frames_None sse_frame_end_def sse_frame_separator_bytes_def)
next
  case (Cons e es)
  have "sse_frame_end (wire e @ concat (map wire es)) = Some (length (wire e))"
    unfolding wire_def encode_lines
    by (rule frame_of_lines) (use Cons.prems in \<open>simp_all add: event_lines_plain sendable_def\<close>)
  from cut_frames_Some [OF this] show ?case using Cons by simp
qed

text \<open>
  C9. From one end of the wire to the other: whatever events are encoded one after the other and
  however the bytes are cut into chunks on the way, the decoder yields exactly these events.
\<close>

theorem stream_roundtrip:
  assumes "list_all sendable es" and "concat chunks = concat (map wire es)"
    and "length (concat chunks) \<le> max_sse_event_buffer_bytes"
  shows "decode_events lib chunks decoder_default = Inr es"
proof -
  have one: "parse_frame lib (wire e) b = Inr [e]" if "sendable e" "length (wire e) \<le> max_sse_event_buffer_bytes" for e b
  proof -
    have "parse_sse_events_inner lib (wire e) b = Inr [e]"
      using parse_encoded [of "sse_data e" "sse_retry e" "unwrap_or [] (sse_name e)" "sse_id e" lib b] that
        carried_sendable [OF that(1)]
      by (simp add: wire_def sendable_def)
    then show ?thesis using wire_valid [OF that(1)] by (simp add: parse_frame_def)
  qed
  have "parse_pieces lib b (map wire es) = Inr es"
    if "list_all sendable es" "length (concat (map wire es)) \<le> max_sse_event_buffer_bytes" for b es
    using that by (induction es arbitrary: b) (simp_all add: one)
  moreover have "pieces (concat chunks) = map wire es"
    by (simp add: assms(2) pieces_def cut_wires [OF assms(1)])
  moreover have "decode_events lib chunks decoder_default = parse_pieces lib True (pieces (concat chunks))"
    using assms(3)
    by (rule decode_pieces)
  ultimately show ?thesis using assms by simp
qed

section \<open>The properties at work\<close>

definition sample_lib :: sse_lib where
  "sample_lib = \<lparr>sl_json_parse = (\<lambda>_. None), sl_json_text = (\<lambda>_. ''{}''), sl_utf8_error = (\<lambda>_. ''invalid utf-8'')\<rparr>"

text \<open>A separator cut in half by the chunks.\<close>

definition sample_chunks :: "string list" where
  "sample_chunks = [''event: a'' @ [lf] @ ''data: x'' @ [lf], [lf] @ ''data: y'' @ [lf, lf]]"

definition sample_sse_events :: "sse_event list" where
  "sample_sse_events =
     [\<lparr>sse_name = Some ''a'', sse_data = ''x'', sse_id = None, sse_retry = None\<rparr>,
      \<lparr>sse_name = None, sse_data = ''y'', sse_id = None, sse_retry = None\<rparr>]"

lemma sample_chunks_fit: "length (concat sample_chunks) \<le> max_sse_event_buffer_bytes"
  by (simp add: sample_chunks_def max_sse_event_buffer_bytes_def)

theorem frames_independent_of_chunks_witness:
  "decode_frames sample_lib sample_chunks = labelled sample_lib True (pieces (concat sample_chunks))"
  by (rule frames_independent_of_chunks [OF sample_chunks_fit])

theorem events_independent_of_chunks_witness:
  "decode_events sample_lib sample_chunks decoder_default = parse_pieces sample_lib True (pieces (concat sample_chunks))"
  by (rule events_independent_of_chunks [OF sample_chunks_fit])

theorem encode_parse_roundtrip_witness:
  "parse_sse_events sample_lib (encode_sse_event_with_metadata ''a'' (''x'' @ [lf] @ ''y'') (Some ''7'') (Some 20)) =
     Inr [\<lparr>sse_name = Some ''a'', sse_data = ''x'' @ [lf] @ ''y'', sse_id = Some ''7'', sse_retry = Some 20\<rparr>]"
proof -
  have "length (nat_str 20) \<le> 2" using length_nat_str [of 20 1] by simp
  then have "length (encode_sse_event_with_metadata ''a'' (''x'' @ [lf] @ ''y'') (Some ''7'') (Some 20)) \<le> 1000"
    by (simp add: encode_sse_event_with_metadata_def field_line_def sse_id_is_representable_def
        sse_field_value_is_single_line_def)
  then have "parse_sse_events sample_lib (encode_sse_event_with_metadata ''a'' (''x'' @ [lf] @ ''y'') (Some ''7'') (Some 20)) =
      Inr [carried ''a'' (''x'' @ [lf] @ ''y'') (Some ''7'') (Some 20)]"
    by (intro encode_parse_roundtrip) (simp_all add: max_sse_event_buffer_bytes_def)
  then show ?thesis
    by (simp add: carried_def sse_id_is_representable_def sse_field_value_is_single_line_def)
qed

lemma sample_sendable: "list_all sendable sample_sse_events"
  by (simp add: sample_sse_events_def sendable_def utf8_valid_ascii sse_field_value_is_single_line_def)

theorem stream_roundtrip_witness:
  "decode_events sample_lib sample_chunks decoder_default = Inr sample_sse_events"
proof (rule stream_roundtrip [OF sample_sendable _ sample_chunks_fit])
  show "concat sample_chunks = concat (map wire sample_sse_events)"
    by (simp add: sample_chunks_def sample_sse_events_def wire_def encode_sse_event_with_metadata_def field_line_def
        sse_field_value_is_single_line_def)
qed

end
