(* ===== verification/Breaker.thy ===== *)
theory Breaker
  imports Prelude
begin

text \<open>
  \<open>providers/openai/src/transport/websocket/breaker.rs\<close>: the circuit breaker of an origin's WebSocket
  openings. The mutex-protected map is a map, a permit and the reporters cloned from it share one
  flag, and every operation is cut where another thread can come between: the flag is read or set
  first, the map changes in a later step. Probe identifiers are fresh UUIDs, given by the caller of
  the model.
\<close>

section \<open>Circuits\<close>

record breaker_config =
  bk_failure_threshold :: nat
  bk_failure_window :: duration
  bk_open_duration :: duration

definition breaker_config_default :: breaker_config where
  "breaker_config_default =
     \<lparr>bk_failure_threshold = 3, bk_failure_window = of_secs 30, bk_open_duration = of_secs 30\<rparr>"

definition breaker_with_config :: "breaker_config \<Rightarrow> breaker_config" where
  "breaker_with_config c = c\<lparr>bk_failure_threshold := max (bk_failure_threshold c) 1\<rparr>"

datatype circuit_state = CsClosed "instant list" | CsOpen instant | CsHalfOpen nat

type_synonym circuits = "string \<rightharpoonup> circuit_state"

definition circuit_closed :: circuit_state where
  "circuit_closed = CsClosed []"

definition retain_window :: "instant \<Rightarrow> duration \<Rightarrow> instant list \<Rightarrow> instant list" where
  "retain_window now window timeouts = dropWhile (\<lambda>recorded_at. window < now - recorded_at) timeouts"

fun permit_still_owns_state :: "circuit_state option \<Rightarrow> nat option \<Rightarrow> bool" where
  "permit_still_owns_state (Some (CsClosed _)) None = True"
| "permit_still_owns_state (Some (CsHalfOpen active)) (Some expected) = (active = expected)"
| "permit_still_owns_state _ _ = False"

datatype breaker_decision = OriginAllowed "nat option" | OriginOpen | OriginHalfOpenBusy

text \<open>Decides on a new opening; an allowed one carries the id of its probe, if it is one.\<close>

definition breaker_try_acquire ::
  "breaker_config \<Rightarrow> instant \<Rightarrow> nat \<Rightarrow> string \<Rightarrow> circuits \<Rightarrow> circuits \<times> breaker_decision" where
  "breaker_try_acquire cfg now fresh key cs =
     (case (case cs key of None \<Rightarrow> circuit_closed | Some st \<Rightarrow> st) of
        CsClosed failures \<Rightarrow>
          (cs(key \<mapsto> CsClosed (retain_window now (bk_failure_window cfg) failures)), OriginAllowed None)
      | CsOpen until \<Rightarrow>
          if now < until then (cs, OriginOpen) else (cs(key \<mapsto> CsHalfOpen fresh), OriginAllowed (Some fresh))
      | CsHalfOpen _ \<Rightarrow> (cs, OriginHalfOpenBusy))"

definition record_success :: "string \<Rightarrow> nat option \<Rightarrow> circuits \<Rightarrow> circuits" where
  "record_success key probe cs =
     (if permit_still_owns_state (cs key) probe then cs(key \<mapsto> circuit_closed) else cs)"

definition record_failure :: "breaker_config \<Rightarrow> instant \<Rightarrow> string \<Rightarrow> nat option \<Rightarrow> circuits \<Rightarrow> circuits" where
  "record_failure cfg now key probe cs =
     (if \<not> permit_still_owns_state (cs key) probe then cs
      else if probe \<noteq> None then cs(key \<mapsto> CsOpen (now + bk_open_duration cfg))
      else
        (case (case cs key of None \<Rightarrow> circuit_closed | Some st \<Rightarrow> st) of
           CsClosed failures \<Rightarrow>
             let failures = retain_window now (bk_failure_window cfg) failures @ [now]
             in if bk_failure_threshold cfg \<le> length failures
                then cs(key \<mapsto> CsOpen (now + bk_open_duration cfg))
                else cs(key \<mapsto> CsClosed failures)
         | _ \<Rightarrow> cs))"

definition cancel_probe :: "instant \<Rightarrow> string \<Rightarrow> nat option \<Rightarrow> circuits \<Rightarrow> circuits" where
  "cancel_probe now key probe cs =
     (case probe of
        None \<Rightarrow> cs
      | Some _ \<Rightarrow> if permit_still_owns_state (cs key) probe then cs(key \<mapsto> CsOpen now) else cs)"

section \<open>Permits and reporters\<close>

text \<open>
  One opening: the permit with the flag it shares with its reporters. \<open>og_due\<close> holds the calls of
  the breaker that were decided on and wait for its lock.
\<close>

datatype breaker_call = CallSuccess | CallFailure | CallCancel

record origin_opening =
  og_key :: string
  og_probe :: "nat option"
  og_degradation_recorded :: bool
  og_armed :: bool
  og_due :: "breaker_call list"

definition permit_new :: "string \<Rightarrow> nat option \<Rightarrow> origin_opening" where
  "permit_new key probe =
     \<lparr>og_key = key, og_probe = probe, og_degradation_recorded = False, og_armed = True, og_due = []\<rparr>"

text \<open>\<open>record_failure_once\<close>, and \<open>missed\<close> of a reporter: the swap of the flag decides.\<close>

definition record_failure_once :: "origin_opening \<Rightarrow> origin_opening" where
  "record_failure_once o' =
     (if og_degradation_recorded o' then o'
      else o'\<lparr>og_degradation_recorded := True, og_due := og_due o' @ [CallFailure]\<rparr>)"

definition permit_succeed :: "origin_opening \<Rightarrow> origin_opening" where
  "permit_succeed o' =
     (if og_degradation_recorded o' then o' else o'\<lparr>og_due := og_due o' @ [CallSuccess]\<rparr>)\<lparr>og_armed := False\<rparr>"

definition permit_fast_timeout :: "origin_opening \<Rightarrow> origin_opening" where
  "permit_fast_timeout o' = (record_failure_once o')\<lparr>og_armed := False\<rparr>"

definition permit_fail :: "origin_opening \<Rightarrow> origin_opening" where
  "permit_fail o' = (record_failure_once o')\<lparr>og_armed := False\<rparr>"

definition permit_cancel :: "origin_opening \<Rightarrow> origin_opening" where
  "permit_cancel o' = o'\<lparr>og_due := og_due o' @ [CallCancel], og_armed := False\<rparr>"

text \<open>The drop of a permit that was never completed.\<close>

definition permit_drop :: "origin_opening \<Rightarrow> origin_opening" where
  "permit_drop o' = (if og_armed o' then (record_failure_once o')\<lparr>og_armed := False\<rparr> else o')"

fun call_breaker :: "breaker_config \<Rightarrow> instant \<Rightarrow> origin_opening \<Rightarrow> breaker_call \<Rightarrow> circuits \<Rightarrow> circuits" where
  "call_breaker cfg now o' CallSuccess cs = record_success (og_key o') (og_probe o') cs"
| "call_breaker cfg now o' CallFailure cs = record_failure cfg now (og_key o') (og_probe o') cs"
| "call_breaker cfg now o' CallCancel cs = cancel_probe now (og_key o') (og_probe o') cs"

section \<open>All threads together\<close>

record breaker_world =
  bw_circuits :: circuits
  bw_openings :: "origin_opening list"

definition breaker_start :: breaker_world where
  "breaker_start = \<lparr>bw_circuits = Map.empty, bw_openings = []\<rparr>"

datatype permit_end = PeSucceed | PeFastTimeout | PeFail | PeCancel | PeDrop

fun end_permit :: "permit_end \<Rightarrow> origin_opening \<Rightarrow> origin_opening" where
  "end_permit PeSucceed = permit_succeed"
| "end_permit PeFastTimeout = permit_fast_timeout"
| "end_permit PeFail = permit_fail"
| "end_permit PeCancel = permit_cancel"
| "end_permit PeDrop = permit_drop"

definition with_opening :: "nat \<Rightarrow> (origin_opening \<Rightarrow> origin_opening) \<Rightarrow> breaker_world \<Rightarrow> breaker_world" where
  "with_opening i f w = w\<lparr>bw_openings := (bw_openings w)[i := f (bw_openings w ! i)]\<rparr>"

text \<open>
  A thread asks for an opening, ends its permit (only once: the ending methods consume it), reports
  a missed fast path at any time, or gets the lock for a call that is due.
\<close>

inductive breaker_step :: "breaker_config \<Rightarrow> breaker_world \<Rightarrow> breaker_world \<Rightarrow> bool" for cfg where
  acquire: "fresh \<notin> {p. \<exists>o' \<in> set (bw_openings w). og_probe o' = Some p} \<Longrightarrow>
     breaker_try_acquire cfg now fresh key (bw_circuits w) = (cs, decision) \<Longrightarrow>
     breaker_step cfg w
       \<lparr>bw_circuits = cs,
        bw_openings = bw_openings w
          @ (case decision of OriginAllowed probe \<Rightarrow> [permit_new key probe] | _ \<Rightarrow> [])\<rparr>"
| ending: "i < length (bw_openings w) \<Longrightarrow> og_armed (bw_openings w ! i) \<Longrightarrow>
     breaker_step cfg w (with_opening i (end_permit how) w)"
| missed: "i < length (bw_openings w) \<Longrightarrow> breaker_step cfg w (with_opening i record_failure_once w)"
| locked: "i < length (bw_openings w) \<Longrightarrow> og_due (bw_openings w ! i) = before @ call # after \<Longrightarrow>
     breaker_step cfg w
       ((with_opening i (\<lambda>o'. o'\<lparr>og_due := before @ after\<rparr>) w)
          \<lparr>bw_circuits := call_breaker cfg now (bw_openings w ! i) call (bw_circuits w)\<rparr>)"

inductive breaker_reachable :: "breaker_config \<Rightarrow> breaker_world \<Rightarrow> bool" for cfg where
  start: "breaker_reachable cfg breaker_start"
| step: "breaker_reachable cfg w \<Longrightarrow> breaker_step cfg w w' \<Longrightarrow> breaker_reachable cfg w'"

section \<open>A probe is never lost\<close>

text \<open>Something will still come from the opening: its permit can still report, or a call is due.\<close>

definition opening_alive :: "origin_opening \<Rightarrow> bool" where
  "opening_alive o' = (og_armed o' \<and> \<not> og_degradation_recorded o' \<or> og_due o' \<noteq> [])"

definition probes_distinct :: "breaker_world \<Rightarrow> bool" where
  "probes_distinct w =
     (\<forall>i < length (bw_openings w). \<forall>j < length (bw_openings w).
        og_probe (bw_openings w ! i) = og_probe (bw_openings w ! j) \<and> og_probe (bw_openings w ! i) \<noteq> None \<longrightarrow> i = j)"

definition half_open_owned :: "breaker_world \<Rightarrow> bool" where
  "half_open_owned w =
     (\<forall>key p. bw_circuits w key = Some (CsHalfOpen p) \<longrightarrow>
        (\<exists>i < length (bw_openings w). og_probe (bw_openings w ! i) = Some p
           \<and> og_key (bw_openings w ! i) = key \<and> opening_alive (bw_openings w ! i)))"

definition breaker_inv :: "breaker_config \<Rightarrow> breaker_world \<Rightarrow> bool" where
  "breaker_inv cfg w =
     (probes_distinct w \<and> half_open_owned w
      \<and> (\<forall>key fs. bw_circuits w key = Some (CsClosed fs) \<longrightarrow> length fs < bk_failure_threshold cfg))"

lemma end_permit_keeps [simp]:
  "og_key (end_permit how o') = og_key o'" "og_probe (end_permit how o') = og_probe o'"
  by (cases how; simp add: permit_succeed_def permit_fast_timeout_def permit_fail_def permit_cancel_def permit_drop_def
      record_failure_once_def)+

lemma record_failure_once_keeps [simp]:
  "og_key (record_failure_once o') = og_key o'" "og_probe (record_failure_once o') = og_probe o'"
  "og_armed (record_failure_once o') = og_armed o'"
  by (simp_all add: record_failure_once_def)


lemma ending_alive: "opening_alive o' \<Longrightarrow> opening_alive (end_permit how o')"
  by (cases how) (auto simp: opening_alive_def permit_succeed_def permit_fast_timeout_def permit_fail_def
      permit_cancel_def permit_drop_def record_failure_once_def)

lemma missed_alive: "opening_alive o' \<Longrightarrow> opening_alive (record_failure_once o')"
  by (auto simp: opening_alive_def record_failure_once_def)

lemma with_opening_simps [simp]:
  "bw_circuits (with_opening i f w) = bw_circuits w"
  "length (bw_openings (with_opening i f w)) = length (bw_openings w)"
  "i < length (bw_openings w) \<Longrightarrow>
     bw_openings (with_opening i f w) ! j = (if j = i then f (bw_openings w ! j) else bw_openings w ! j)"
  by (simp_all add: with_opening_def)

text \<open>Changing one opening without touching its identity.\<close>

lemma with_opening_inv:
  assumes "breaker_inv cfg w" "i < length (bw_openings w)"
    and "\<And>o'. og_key (f o') = og_key o' \<and> og_probe (f o') = og_probe o'"
    and "opening_alive (bw_openings w ! i) \<Longrightarrow> opening_alive (f (bw_openings w ! i))"
  shows "breaker_inv cfg (with_opening i f w)"
proof -
  have "half_open_owned (with_opening i f w)"
    unfolding half_open_owned_def
  proof (intro allI impI)
    fix key p
    assume "bw_circuits (with_opening i f w) key = Some (CsHalfOpen p)"
    then obtain j where j: "j < length (bw_openings w)" "og_probe (bw_openings w ! j) = Some p"
      "og_key (bw_openings w ! j) = key" "opening_alive (bw_openings w ! j)"
      using assms(1) by (auto simp: breaker_inv_def half_open_owned_def)
    then show "\<exists>j < length (bw_openings (with_opening i f w)). og_probe (bw_openings (with_opening i f w) ! j) = Some p
        \<and> og_key (bw_openings (with_opening i f w) ! j) = key \<and> opening_alive (bw_openings (with_opening i f w) ! j)"
      using assms(2-4) by (intro exI [of _ j]) auto
  qed
  moreover have "probes_distinct (with_opening i f w)"
  proof -
    have "og_probe (bw_openings (with_opening i f w) ! j) = og_probe (bw_openings w ! j)" for j
      using assms(2,3) by simp
    then show ?thesis
      using assms(1) unfolding breaker_inv_def probes_distinct_def with_opening_simps(2) by (elim conjE) simp
  qed
  moreover have "\<forall>key fs. bw_circuits (with_opening i f w) key = Some (CsClosed fs) \<longrightarrow> length fs < bk_failure_threshold cfg"
    using assms(1) unfolding breaker_inv_def with_opening_simps(1) by blast
  ultimately show ?thesis unfolding breaker_inv_def by blast
qed

lemma retain_window_length: "length (retain_window now window fs) \<le> length fs"
  by (simp add: retain_window_def length_dropWhile_le)

lemma retain_window_Nil [simp]: "retain_window now window [] = []"
  by (simp add: retain_window_def)

lemma acquire_half_open:
  assumes "breaker_try_acquire cfg now fresh key cs = (cs', decision)"
  shows "cs' k = Some (CsHalfOpen p) \<longleftrightarrow> cs k = Some (CsHalfOpen p) \<or> k = key \<and> p = fresh \<and> decision = OriginAllowed (Some fresh)"
    and "decision = OriginAllowed (Some q) \<Longrightarrow> q = fresh"
  using assms
  by (auto simp: breaker_try_acquire_def circuit_closed_def split: option.splits circuit_state.splits if_splits)

lemma acquire_closed_bound:
  assumes "breaker_try_acquire cfg now fresh key cs = (cs', decision)" "1 \<le> n"
    and "\<And>k gs. cs k = Some (CsClosed gs) \<Longrightarrow> length gs < n" "cs' k = Some (CsClosed fs)"
  shows "length fs < n"
proof -
  have "length (retain_window now (bk_failure_window cfg) gs) < n" if "cs key = Some (CsClosed gs)" for gs
    using assms(3) [OF that] retain_window_length [of now "bk_failure_window cfg" gs] by linarith
  then show ?thesis
    using assms
    by (auto simp: breaker_try_acquire_def circuit_closed_def split: option.splits circuit_state.splits if_splits)
qed

lemma call_other_key: "k \<noteq> og_key o' \<Longrightarrow> call_breaker cfg now o' call cs k = cs k"
  by (cases call) (auto simp: record_success_def record_failure_def cancel_probe_def Let_def
      split: option.splits circuit_state.splits)

lemma call_half_open:
  "call_breaker cfg now o' call cs k = Some (CsHalfOpen p) \<longleftrightarrow>
     cs k = Some (CsHalfOpen p) \<and> \<not> (k = og_key o' \<and> og_probe o' = Some p)"
  by (cases call; cases "og_probe o'"; cases "cs (og_key o')" rule: option.exhaust)
    (auto simp: record_success_def record_failure_def cancel_probe_def Let_def circuit_closed_def
      split: circuit_state.splits)

lemma call_closed_bound:
  assumes "call_breaker cfg now o' call cs k = Some (CsClosed fs)" "1 \<le> bk_failure_threshold cfg"
    and "\<And>gs. cs k = Some (CsClosed gs) \<Longrightarrow> length gs < bk_failure_threshold cfg"
  shows "length fs < bk_failure_threshold cfg"
  using assms
  by (cases call) (auto simp: record_success_def record_failure_def cancel_probe_def Let_def circuit_closed_def
      split: option.splits circuit_state.splits if_splits)


lemma acquire_inv:
  assumes inv: "breaker_inv cfg w" and n: "1 \<le> bk_failure_threshold cfg"
    and fresh: "fresh \<notin> {p. \<exists>o' \<in> set (bw_openings w). og_probe o' = Some p}"
    and acq: "breaker_try_acquire cfg now fresh key (bw_circuits w) = (cs, decision)"
  shows "breaker_inv cfg
     \<lparr>bw_circuits = cs,
      bw_openings = bw_openings w @ (case decision of OriginAllowed probe \<Rightarrow> [permit_new key probe] | _ \<Rightarrow> [])\<rparr>"
    (is "breaker_inv cfg ?w")
proof -
  let ?os = "bw_openings w" and ?n = "length (bw_openings w)"
  have probe: "og_probe (?os ! i) \<noteq> Some fresh" if "i < ?n" for i
    using fresh that nth_mem by fastforce
  have old: "probes_distinct w" "half_open_owned w" using inv by (simp_all add: breaker_inv_def)
  have "probes_distinct ?w"
  proof (cases "\<exists>probe. decision = OriginAllowed probe")
    case True
    then obtain probe where d: "decision = OriginAllowed probe" ..
    have "probe = None \<or> probe = Some fresh" using acquire_half_open(2) [OF acq] d by (cases probe) auto
    then have new: "og_probe (?os ! i) \<noteq> probe \<or> probe = None" if "i < ?n" for i using probe [OF that] by auto
    have at: "og_probe ((?os @ [permit_new key probe]) ! i) = (if i < ?n then og_probe (?os ! i) else probe)"
      if "i < Suc ?n" for i
      using that by (simp add: nth_append permit_new_def)
    show ?thesis
      unfolding probes_distinct_def
    proof (intro allI impI)
      fix i j
      assume i: "i < length (bw_openings ?w)" and j: "j < length (bw_openings ?w)"
        and eq: "og_probe (bw_openings ?w ! i) = og_probe (bw_openings ?w ! j) \<and> og_probe (bw_openings ?w ! i) \<noteq> None"
      have ij: "i < Suc ?n" "j < Suc ?n" using i j by (simp_all add: d)
      define f where "f i = (if i < ?n then og_probe (?os ! i) else probe)" for i
      have "og_probe (bw_openings ?w ! k) = f k" if "k < Suc ?n" for k
        using at [OF that] by (simp add: d f_def)
      then have "f i = f j" "f i \<noteq> None" using eq ij by metis+
      then show "i = j"
        using ij new old(1) unfolding f_def probes_distinct_def by (metis less_SucE)
    qed
  next
    case False
    then show ?thesis using old(1) by (cases decision) (simp_all add: probes_distinct_def)
  qed
  moreover have "half_open_owned ?w"
    unfolding half_open_owned_def
  proof (intro allI impI)
    fix k p
    assume "bw_circuits ?w k = Some (CsHalfOpen p)"
    then consider "bw_circuits w k = Some (CsHalfOpen p)"
      | "k = key" "p = fresh" "decision = OriginAllowed (Some fresh)"
      using acquire_half_open(1) [OF acq] by auto
    then show "\<exists>i < length (bw_openings ?w). og_probe (bw_openings ?w ! i) = Some p
        \<and> og_key (bw_openings ?w ! i) = k \<and> opening_alive (bw_openings ?w ! i)"
    proof cases
      case 1
      then obtain i where "i < ?n" "og_probe (?os ! i) = Some p" "og_key (?os ! i) = k" "opening_alive (?os ! i)"
        using old(2) by (auto simp: half_open_owned_def)
      then show ?thesis by (intro exI [of _ i]) (simp add: nth_append)
    next
      case 2
      then show ?thesis by (intro exI [of _ ?n]) (simp add: permit_new_def opening_alive_def)
    qed
  qed
  moreover have "length fs < bk_failure_threshold cfg" if "bw_circuits ?w k = Some (CsClosed fs)" for k fs
    using acquire_closed_bound [OF acq n _, of k fs] that inv by (simp add: breaker_inv_def)
  ultimately show ?thesis by (simp add: breaker_inv_def)
qed

lemma locked_inv:
  assumes inv: "breaker_inv cfg w" and n: "1 \<le> bk_failure_threshold cfg"
    and i: "i < length (bw_openings w)" "og_due (bw_openings w ! i) = before @ call # after"
  shows "breaker_inv cfg
     ((with_opening i (\<lambda>o'. o'\<lparr>og_due := before @ after\<rparr>) w)
        \<lparr>bw_circuits := call_breaker cfg now (bw_openings w ! i) call (bw_circuits w)\<rparr>)"
    (is "breaker_inv cfg ?w")
proof -
  let ?v = "with_opening i (\<lambda>o'. o'\<lparr>og_due := before @ after\<rparr>) w"
  have os: "bw_openings ?w = bw_openings ?v" by simp
  have at: "bw_openings ?w ! j = (if j = i then (bw_openings w ! i)\<lparr>og_due := before @ after\<rparr> else bw_openings w ! j)" for j
    using i(1) by simp
  have probes: "og_probe (bw_openings ?w ! j) = og_probe (bw_openings w ! j)"
    "og_key (bw_openings ?w ! j) = og_key (bw_openings w ! j)" for j
    unfolding at by simp_all
  have len: "length (bw_openings ?w) = length (bw_openings w)" by simp
  have old: "probes_distinct w" "half_open_owned w" using inv by (simp_all add: breaker_inv_def)
  have "probes_distinct ?w" using old(1) unfolding probes_distinct_def len probes .
  moreover have "half_open_owned ?w"
    unfolding half_open_owned_def len probes
  proof (intro allI impI)
    fix k p
    assume "bw_circuits ?w k = Some (CsHalfOpen p)"
    then have h: "bw_circuits w k = Some (CsHalfOpen p)"
      "\<not> (k = og_key (bw_openings w ! i) \<and> og_probe (bw_openings w ! i) = Some p)"
      by (simp_all add: call_half_open)
    then obtain j where j: "j < length (bw_openings w)" "og_probe (bw_openings w ! j) = Some p"
      "og_key (bw_openings w ! j) = k" "opening_alive (bw_openings w ! j)"
      using old(2) by (auto simp: half_open_owned_def)
    then have "j \<noteq> i" using h(2) by blast
    then show "\<exists>j < length (bw_openings w). og_probe (bw_openings w ! j) = Some p
        \<and> og_key (bw_openings w ! j) = k \<and> opening_alive (bw_openings ?w ! j)"
      unfolding at using j by (intro exI [of _ j]) simp
  qed
  moreover have "length fs < bk_failure_threshold cfg" if "bw_circuits ?w k = Some (CsClosed fs)" for k fs
    using call_closed_bound [of cfg now "bw_openings w ! i" call "bw_circuits w" k fs] that n inv
    by (simp add: breaker_inv_def)
  ultimately show ?thesis by (simp add: breaker_inv_def)
qed

lemma breaker_reachable_inv:
  assumes "breaker_reachable cfg w" "1 \<le> bk_failure_threshold cfg"
  shows "breaker_inv cfg w"
  using assms(1)
proof (induction rule: breaker_reachable.induct)
  case start
  then show ?case by (simp add: breaker_inv_def breaker_start_def probes_distinct_def half_open_owned_def)
next
  case (step w w')
  from step.hyps(2) show ?case
  proof cases
    case (acquire fresh now key cs decision)
    then show ?thesis using acquire_inv [OF step.IH assms(2)] by blast
  next
    case (ending i how)
    then show ?thesis using with_opening_inv [OF step.IH] ending_alive by simp
  next
    case (missed i)
    then show ?thesis using with_opening_inv [OF step.IH] missed_alive by simp
  next
    case (locked i before call after now)
    then show ?thesis using locked_inv [OF step.IH assms(2)] by blast
  qed
qed


text \<open>
  C11. A half-open circuit has exactly one probe, and the probe is never lost: whatever order the
  threads run in, one opening only carries the circuit's probe, its permit can still report or its
  report is already due, and every other opening is refused until then.
\<close>

theorem half_open_single_probe:
  assumes "breaker_reachable cfg w" and "1 \<le> bk_failure_threshold cfg"
    and "bw_circuits w key = Some (CsHalfOpen p)"
  shows "(\<exists>!i. i < length (bw_openings w) \<and> og_probe (bw_openings w ! i) = Some p)
     \<and> (\<exists>i < length (bw_openings w). og_probe (bw_openings w ! i) = Some p \<and> og_key (bw_openings w ! i) = key
          \<and> opening_alive (bw_openings w ! i))
     \<and> breaker_try_acquire cfg now fresh key (bw_circuits w) = (bw_circuits w, OriginHalfOpenBusy)"
proof -
  have inv: "probes_distinct w" "half_open_owned w"
    using breaker_reachable_inv [OF assms(1,2)] by (simp_all add: breaker_inv_def)
  then obtain i where i: "i < length (bw_openings w)" "og_probe (bw_openings w ! i) = Some p"
    "og_key (bw_openings w ! i) = key" "opening_alive (bw_openings w ! i)"
    using assms(3) unfolding half_open_owned_def by blast
  have "j = i" if "j < length (bw_openings w)" "og_probe (bw_openings w ! j) = Some p" for j
    using inv(1) i(1,2) that unfolding probes_distinct_def by (metis option.distinct(1))
  then have "\<exists>!i. i < length (bw_openings w) \<and> og_probe (bw_openings w ! i) = Some p" using i by blast
  moreover have "breaker_try_acquire cfg now fresh key (bw_circuits w) = (bw_circuits w, OriginHalfOpenBusy)"
    using assms(3) by (simp add: breaker_try_acquire_def)
  ultimately show ?thesis using i by blast
qed

text \<open>
  Only its own probe moves a half-open circuit: a step of the system leaves it half-open with the
  same probe, or is a call of the opening that holds the probe and closes or opens it.
\<close>

theorem half_open_moved_by_its_probe:
  assumes "breaker_step cfg w w'" and "bw_circuits w key = Some (CsHalfOpen p)"
  shows "if bw_circuits w' key = Some (CsHalfOpen p) then True
     else \<exists>i < length (bw_openings w). og_probe (bw_openings w ! i) = Some p \<and> og_key (bw_openings w ! i) = key
        \<and> length (og_due (bw_openings w' ! i)) < length (og_due (bw_openings w ! i))"
  using assms(1)
proof cases
  case (acquire fresh now k cs decision)
  then show ?thesis using acquire_half_open(1) [OF acquire(3), of key p] assms(2) by simp
next
  case (locked i before call after now)
  then show ?thesis
    using assms(2) call_half_open [of cfg now "bw_openings w ! i" call "bw_circuits w" key p]
    by (auto intro!: exI [of _ i])
qed (use assms(2) in simp_all)

text \<open>Failures of plain openings, one after the other.\<close>

definition failures_at :: "breaker_config \<Rightarrow> string \<Rightarrow> instant list \<Rightarrow> circuits \<Rightarrow> circuits" where
  "failures_at cfg key ts cs = fold (\<lambda>t. record_failure cfg t key None) ts cs"

text \<open>The failures up to the \<open>n\<close>-th that its window still holds.\<close>

definition in_window :: "breaker_config \<Rightarrow> instant list \<Rightarrow> instant list" where
  "in_window cfg ts = (if ts = [] then [] else filter (\<lambda>t. last ts - t \<le> bk_failure_window cfg) ts)"

lemma retain_sorted: "sorted fs \<Longrightarrow> retain_window now window fs = filter (\<lambda>t. now - t \<le> window) fs"
proof (induction fs)
  case (Cons a fs)
  have "filter (\<lambda>t. now - t \<le> window) fs = fs" if "now - a \<le> window"
    using Cons.prems that by (auto simp: filter_id_conv dest: diff_le_mono2 intro: order_trans)
  then show ?case using Cons by (auto simp: retain_window_def not_less)
qed (simp add: retain_window_def)

lemma window_snoc:
  assumes "sorted (ts @ [t])"
  shows "retain_window t (bk_failure_window cfg) (in_window cfg ts) @ [t] = in_window cfg (ts @ [t])"
proof (cases "ts = []")
  case False
  have "sorted (in_window cfg ts)" using assms by (simp add: in_window_def sorted_append sorted_wrt_filter)
  moreover have "last ts \<le> t" using assms False by (simp add: sorted_append)
  then have "t - x \<le> bk_failure_window cfg \<Longrightarrow> last ts - x \<le> bk_failure_window cfg" for x by linarith
  then have "filter (\<lambda>x. t - x \<le> bk_failure_window cfg) (in_window cfg ts) = filter (\<lambda>x. t - x \<le> bk_failure_window cfg) ts"
    using False by (auto simp: in_window_def intro: filter_cong)
  ultimately show ?thesis using False by (simp add: retain_sorted in_window_def)
qed (simp add: in_window_def)

text \<open>
  The breaker opens exactly at the threshold: after failures at times that do not go back, the
  circuit is closed and remembers the failures of the current window as long as no window held the
  threshold of them; the first failure that fills a window opens it for the open duration, and later
  failures of openings without a probe leave it open.
\<close>

theorem opens_at_threshold:
  assumes "sorted ts" and "1 \<le> bk_failure_threshold cfg"
  shows "failures_at cfg key ts (Map.empty(key \<mapsto> circuit_closed)) key =
     (case List.find (\<lambda>n. bk_failure_threshold cfg \<le> length (in_window cfg (take n ts))) [0..<Suc (length ts)] of
        None \<Rightarrow> Some (CsClosed (in_window cfg ts))
      | Some n \<Rightarrow> Some (CsOpen (ts ! (n - 1) + bk_open_duration cfg)))"
  using assms(1)
proof (induction ts rule: rev_induct)
  case Nil
  then show ?case using assms(2) by (simp add: failures_at_def in_window_def circuit_closed_def)
next
  case (snoc t ts)
  let ?full = "\<lambda>ts n. bk_failure_threshold cfg \<le> length (in_window cfg (take n ts))"
  have find_snoc: "List.find P (xs @ [x]) = (case List.find P xs of None \<Rightarrow> if P x then Some x else None | Some y \<Rightarrow> Some y)"
    for P and xs :: "nat list" and x
    by (induction xs) auto
  have old: "List.find (?full (ts @ [t])) [0..<Suc (length ts)] = List.find (?full ts) [0..<Suc (length ts)]"
    by (rule find_cong) auto
  have new: "List.find (?full (ts @ [t])) [0..<Suc (length (ts @ [t]))] =
      (case List.find (?full ts) [0..<Suc (length ts)] of
         None \<Rightarrow> if bk_failure_threshold cfg \<le> length (in_window cfg (ts @ [t])) then Some (Suc (length ts)) else None
       | Some n \<Rightarrow> Some n)"
  proof -
    have "[0..<Suc (length (ts @ [t]))] = [0..<Suc (length ts)] @ [Suc (length ts)]" by simp
    then show ?thesis unfolding find_snoc old [symmetric] by (simp only: find_snoc) (simp del: upt_Suc)
  qed
  define now where "now = failures_at cfg key ts (Map.empty(key \<mapsto> circuit_closed))"
  have step: "failures_at cfg key (ts @ [t]) (Map.empty(key \<mapsto> circuit_closed)) = record_failure cfg t key None now"
    by (simp add: failures_at_def now_def)
  have "sorted ts" using snoc.prems by (simp add: sorted_append)
  note ih = snoc.IH [OF this, folded now_def]
  show ?case
  proof (cases "List.find (?full ts) [0..<Suc (length ts)]")
    case None
    then have "now key = Some (CsClosed (in_window cfg ts))" using ih by (simp del: upt_Suc)
    then have "record_failure cfg t key None now key =
        (if bk_failure_threshold cfg \<le> length (in_window cfg (ts @ [t])) then Some (CsOpen (t + bk_open_duration cfg))
         else Some (CsClosed (in_window cfg (ts @ [t]))))"
      using window_snoc [OF snoc.prems, of cfg] by (simp add: record_failure_def Let_def)
    then show ?thesis unfolding step new None by simp
  next
    case (Some n)
    then have n: "n < Suc (length ts)" "bk_failure_threshold cfg \<le> length (in_window cfg (take n ts))"
      by (auto simp: find_Some_iff simp del: upt_Suc)
    have "n \<noteq> 0"
    proof
      assume "n = 0"
      then show False using n(2) assms(2) by (simp add: in_window_def)
    qed
    then have "n - 1 < length ts" using n(1) by linarith
    then have "(ts @ [t]) ! (n - 1) = ts ! (n - 1)" by (simp add: nth_append)
    moreover have "now key = Some (CsOpen (ts ! (n - 1) + bk_open_duration cfg))" using ih Some by (simp del: upt_Suc)
    ultimately show ?thesis unfolding step new Some by (simp add: record_failure_def)
  qed
qed


section \<open>The properties at work\<close>

definition sample_breaker :: breaker_config where
  "sample_breaker = \<lparr>bk_failure_threshold = 1, bk_failure_window = 10, bk_open_duration = 5\<rparr>"

definition sample_failed :: breaker_world where
  "sample_failed =
     \<lparr>bw_circuits = [''o'' \<mapsto> CsOpen 5],
      bw_openings = [\<lparr>og_key = ''o'', og_probe = None, og_degradation_recorded = True, og_armed = False, og_due = []\<rparr>]\<rparr>"

definition sample_probing :: breaker_world where
  "sample_probing =
     \<lparr>bw_circuits = [''o'' \<mapsto> CsHalfOpen 7],
      bw_openings = bw_openings sample_failed @ [permit_new ''o'' (Some 7)]\<rparr>"

lemma sample_failed_reachable: "breaker_reachable sample_breaker sample_failed"
proof -
  define w1 where "w1 = \<lparr>bw_circuits = [''o'' \<mapsto> CsClosed []], bw_openings = [permit_new ''o'' None]\<rparr>"
  define w2 where "w2 = with_opening 0 (end_permit PeFail) w1"
  have "breaker_step sample_breaker breaker_start w1"
    using breaker_step.acquire [of 3 breaker_start sample_breaker 0 "''o''" "[''o'' \<mapsto> CsClosed []]" "OriginAllowed None"]
    by (simp add: breaker_start_def w1_def breaker_try_acquire_def circuit_closed_def)
  then have "breaker_reachable sample_breaker w1" by (rule breaker_reachable.step [OF breaker_reachable.start])
  moreover have "breaker_step sample_breaker w1 w2"
    unfolding w2_def by (rule breaker_step.ending) (simp_all add: w1_def permit_new_def)
  ultimately have "breaker_reachable sample_breaker w2" by (rule breaker_reachable.step)
  moreover have "breaker_step sample_breaker w2 sample_failed"
    using breaker_step.locked [of 0 w2 "[]" CallFailure "[]" sample_breaker 0]
    by (simp add: w2_def w1_def with_opening_def permit_new_def permit_fail_def record_failure_once_def
        record_failure_def sample_breaker_def sample_failed_def Let_def)
  ultimately show ?thesis by (rule breaker_reachable.step)
qed

lemma sample_probing_reachable: "breaker_reachable sample_breaker sample_probing"
proof -
  have "breaker_step sample_breaker sample_failed sample_probing"
    using breaker_step.acquire [of 7 sample_failed sample_breaker 6 "''o''" "[''o'' \<mapsto> CsHalfOpen 7]" "OriginAllowed (Some 7)"]
    by (simp add: sample_failed_def sample_probing_def breaker_try_acquire_def)
  then show ?thesis by (rule breaker_reachable.step [OF sample_failed_reachable])
qed

theorem half_open_single_probe_witness:
  "breaker_try_acquire sample_breaker 9 8 ''o'' (bw_circuits sample_probing) = (bw_circuits sample_probing, OriginHalfOpenBusy)"
  using half_open_single_probe [OF sample_probing_reachable, of "''o''" 7]
  by (simp add: sample_breaker_def sample_probing_def)

theorem half_open_moved_by_its_probe_witness:
  "bw_circuits (with_opening 1 (end_permit PeSucceed) sample_probing) ''o'' = Some (CsHalfOpen 7)"
proof -
  have "breaker_step sample_breaker sample_probing (with_opening 1 (end_permit PeSucceed) sample_probing)"
    by (rule breaker_step.ending) (simp_all add: sample_probing_def sample_failed_def permit_new_def)
  from half_open_moved_by_its_probe [OF this, of "''o''" 7] show ?thesis
    by (simp add: sample_probing_def)
qed

theorem opens_at_threshold_witness:
  "failures_at (sample_breaker\<lparr>bk_failure_threshold := 2\<rparr>) ''o'' [1, 20, 25] (Map.empty(''o'' \<mapsto> circuit_closed)) ''o''
     = Some (CsOpen 30)"
  using opens_at_threshold [of "[1, 20, 25]" "sample_breaker\<lparr>bk_failure_threshold := 2\<rparr>" "''o''"]
  by (simp add: sample_breaker_def in_window_def upt_rec numeral_eq_Suc)

end
