(* ===== verification/Workers.thy ===== *)
theory Workers
  imports Tasks
begin

text \<open>
  \<open>gateway-host/src/workers/mod.rs\<close>: the supervisor that validates the plan of background work, runs
  every task under its leader lease with renewal, backoff and health, and shuts all of them down. A
  worker is an \<open>async fn\<close>; here it is a state machine whose steps are what it does between two points
  where it may wait, with what it waited for as the event. The supervisor interleaves the workers, the
  cancellation and calls of \<open>shutdown\<close>. A join handle is the index of its worker.
\<close>

section \<open>The plan\<close>

datatype worker_start_error =
    AlreadyStarted
  | RuntimeUnavailable
  | InvalidDefinition worker_definition_error
  | DuplicateWorker worker_id
  | KindDisabled worker_kind
  | KindHasTasks worker_kind
  | DuplicateDisabled worker_kind
  | MissingWorkers "worker_kind list"

record worker_plan =
  pl_registrations :: "(worker_id, worker_registration) btree"
  pl_disabled :: "(worker_kind, worker_disabled_reason) btree"

definition plan_contribution :: "worker_contribution \<Rightarrow> worker_plan \<Rightarrow> worker_start_error + worker_plan" where
  "plan_contribution c p =
     (case contribution_validate c of
        Inl e \<Rightarrow> Inl (InvalidDefinition e)
      | Inr _ \<Rightarrow>
          (case c of
             ContributedRegistration r \<Rightarrow>
               if bt_has (pl_disabled p) (wid_kind (wr_id r)) then Inl (KindDisabled (wid_kind (wr_id r)))
               else if bt_has (pl_registrations p) (wr_id r) then Inl (DuplicateWorker (wr_id r))
               else Inr (p\<lparr>pl_registrations := bt_insert (wr_id r) r (pl_registrations p)\<rparr>)
           | ContributedDisabled kind reason \<Rightarrow>
               if list_ex (\<lambda>(w, r). wid_kind w = kind) (pl_registrations p) then Inl (KindHasTasks kind)
               else if bt_has (pl_disabled p) kind then Inl (DuplicateDisabled kind)
               else Inr (p\<lparr>pl_disabled := bt_insert kind reason (pl_disabled p)\<rparr>)))"

definition worker_plan_try_from :: "worker_contribution list \<Rightarrow> worker_start_error + worker_plan" where
  "worker_plan_try_from plan =
     (case try_fold plan_contribution plan \<lparr>pl_registrations = [], pl_disabled = []\<rparr> of
        Inl e \<Rightarrow> Inl e
      | Inr p \<Rightarrow>
          let active = bs_of_list (map (wid_kind \<circ> fst) (pl_registrations p));
              missing = filter (\<lambda>k. k \<notin> set active \<and> \<not> bt_has (pl_disabled p) k) worker_kind_all
          in if missing \<noteq> [] then Inl (MissingWorkers missing) else Inr p)"

section \<open>Health\<close>

record health_entry =
  he_snapshot :: worker_health_snapshot
  he_success_freshness :: duration

type_synonym health_registry = "(worker_health_key, health_entry) btree"

definition empty_snapshot :: "worker_health_key \<Rightarrow> worker_runtime_state \<Rightarrow> worker_health_snapshot" where
  "empty_snapshot key state =
     \<lparr>wh_key = key, wh_state = state, wh_consecutive_failures = 0, wh_completed_cycles = 0,
      wh_last_fencing_token = None, wh_last_success_at = None, wh_last_failure_at = None,
      wh_last_error = None\<rparr>"

definition success_freshness :: "worker_runnable \<Rightarrow> duration" where
  "success_freshness runnable =
     (case runnable of
        RunScheduled schedule _ \<Rightarrow>
          saturating_add duration_max (duration_saturating_mul (ws_interval schedule) 2)
            (ws_maximum_backoff schedule)
      | RunDaemon restart \<Rightarrow> dr_maximum_backoff restart)"

definition health_install ::
  "(worker_id, worker_registration) btree \<Rightarrow> (worker_kind, worker_disabled_reason) btree \<Rightarrow> health_registry" where
  "health_install registrations disabled =
     (let states = fold (\<lambda>(w, r). bt_insert (HealthTask (wr_id r))
            \<lparr>he_snapshot = empty_snapshot (HealthTask (wr_id r)) WrStarting,
             he_success_freshness = success_freshness (wr_runnable r)\<rparr>) registrations []
      in bt_extend states (map (\<lambda>(kind, reason). (HealthDisabled kind,
            \<lparr>he_snapshot = empty_snapshot (HealthDisabled kind) WrDisabled, he_success_freshness = 0\<rparr>)) disabled))"

definition health_update ::
  "worker_id \<Rightarrow> (worker_health_snapshot \<Rightarrow> worker_health_snapshot) \<Rightarrow> health_registry \<Rightarrow> health_registry" where
  "health_update w f states =
     map (\<lambda>(key, e). (key, if key = HealthTask w then e\<lparr>he_snapshot := f (he_snapshot e)\<rparr> else e)) states"

definition health_acquiring :: "worker_id \<Rightarrow> health_registry \<Rightarrow> health_registry" where
  "health_acquiring w = health_update w (\<lambda>s. s\<lparr>wh_state := WrAcquiringLease\<rparr>)"

definition health_standby :: "worker_id \<Rightarrow> health_registry \<Rightarrow> health_registry" where
  "health_standby w =
     health_update w (\<lambda>s. s\<lparr>wh_state := WrStandby, wh_consecutive_failures := 0, wh_last_error := None\<rparr>)"

definition health_running ::
  "worker_id \<Rightarrow> worker_fencing_token option \<Rightarrow> health_registry \<Rightarrow> health_registry" where
  "health_running w token =
     health_update w (\<lambda>s. s\<lparr>wh_state := WrRunning, wh_last_fencing_token := token\<rparr>)"

definition health_succeeded :: "worker_id \<Rightarrow> systime \<Rightarrow> health_registry \<Rightarrow> health_registry" where
  "health_succeeded w now =
     health_update w (\<lambda>s. s\<lparr>wh_state := WrIdle, wh_consecutive_failures := 0,
       wh_completed_cycles := saturating_add u64_max (wh_completed_cycles s) 1,
       wh_last_success_at := Some now, wh_last_error := None\<rparr>)"

definition health_failed :: "worker_id \<Rightarrow> systime \<Rightarrow> string \<Rightarrow> health_registry \<Rightarrow> health_registry" where
  "health_failed w now error =
     health_update w (\<lambda>s. s\<lparr>wh_state := WrBackingOff,
       wh_consecutive_failures := saturating_add u32_max (wh_consecutive_failures s) 1,
       wh_last_failure_at := Some now, wh_last_error := Some error\<rparr>)"

definition health_stopped :: "worker_id \<Rightarrow> health_registry \<Rightarrow> health_registry" where
  "health_stopped w = health_update w (\<lambda>s. s\<lparr>wh_state := WrStopped\<rparr>)"

definition health_stop_all :: "health_registry \<Rightarrow> health_registry" where
  "health_stop_all states =
     map (\<lambda>(key, e). (key,
       if wh_state (he_snapshot e) \<noteq> WrDisabled
       then e\<lparr>he_snapshot := (he_snapshot e)\<lparr>wh_state := WrStopped\<rparr>\<rparr> else e)) states"

definition health_snapshot :: "systime \<Rightarrow> health_registry \<Rightarrow> worker_health_snapshot list" where
  "health_snapshot now states =
     map (\<lambda>(key, e).
       let s = he_snapshot e;
           stale = wh_state s \<in> {WrRunning, WrIdle}
             \<and> opt_any (\<lambda>t. opt_any (\<lambda>age. he_success_freshness e < age) (duration_since now t))
                 (wh_last_success_at s)
       in if stale then s\<lparr>wh_state := WrBackingOff, wh_last_error := Some ''worker success is stale''\<rparr>
          else s) states"

section \<open>One worker\<close>

datatype task_answer = TaskOk | TaskError string | TaskPanicked

datatype scheduled_outcome =
    CycleSucceeded
  | CycleBusy "duration option"
  | CycleFailed string
  | ShuttingDown

fun task_result :: "task_answer \<Rightarrow> scheduled_outcome" where
  "task_result TaskOk = CycleSucceeded"
| "task_result (TaskError e) = CycleFailed e"
| "task_result TaskPanicked = CycleFailed ''worker panicked''"

fun daemon_error :: "task_answer \<Rightarrow> string" where
  "daemon_error TaskOk = ''daemon exited unexpectedly''"
| "daemon_error (TaskError e) = e"
| "daemon_error TaskPanicked = ''daemon panicked''"

text \<open>What \<open>try_acquire\<close> answers; a guard comes with what its \<open>fencing_token\<close> answers, \<open>None\<close> for a panic.\<close>

datatype lease_answer =
    LeaseAcquired "worker_fencing_token option"
  | LeaseBusy "duration option"
  | LeaseError string
  | LeasePanicked

datatype guard_answer = GuardOk | GuardError string | GuardPanicked | GuardTimeout

fun renew_guard :: "guard_answer \<Rightarrow> string + unit" where
  "renew_guard GuardOk = Inr ()"
| "renew_guard (GuardError e) = Inl e"
| "renew_guard GuardPanicked = Inl ''leader lease renewal panicked''"
| "renew_guard GuardTimeout = Inl ''leader lease renewal timed out''"

fun release_guard :: "guard_answer \<Rightarrow> string + unit" where
  "release_guard GuardOk = Inr ()"
| "release_guard (GuardError e) = Inl e"
| "release_guard GuardPanicked = Inl ''leader lease release panicked''"
| "release_guard GuardTimeout = Inl ''leader lease release timed out''"

definition take_backoff :: "duration \<Rightarrow> duration \<Rightarrow> duration \<times> duration" where
  "take_backoff backoff maximum =
     (backoff, min (unwrap_or maximum (checked_mul duration_max backoff 2)) maximum)"

text \<open>
  Where a worker waits: at the head of its loop; for the lease; in the \<open>select\<close> beside its cycle; for a
  renewal; for a cancelled cycle to end, knowing the outcome to report; for the release; asleep. The
  token of a phase is that of the guard it holds.
\<close>

datatype worker_phase =
    WpTop
  | WpAcquiring
  | WpCycle "worker_fencing_token option"
  | WpRenewing worker_fencing_token
  | WpDraining "worker_fencing_token option" scheduled_outcome
  | WpReleasing scheduled_outcome
  | WpSleeping
  | WpStopped
  | WpAborted

datatype worker_effect =
    LgAcquired "worker_fencing_token option"
  | LgCycleStarted "worker_fencing_token option"
  | LgCycleCancelled
  | LgCycleEnded
  | LgRenewed guard_answer
  | LgReleased guard_answer
  | LgOutcome scheduled_outcome duration
  | LgAborted

datatype worker_event =
    EvPoll
  | EvLease lease_answer
  | EvCycle task_answer
  | EvCancelled
  | EvRenewalDue
  | EvGuard guard_answer
  | EvTimer

record supervised =
  sv_id :: worker_id
  sv_runnable :: worker_runnable
  sv_phase :: worker_phase
  sv_backoff :: duration
  sv_log :: "worker_effect list"

definition move :: "worker_phase \<Rightarrow> worker_effect list \<Rightarrow> supervised \<Rightarrow> supervised" where
  "move p es v = v\<lparr>sv_phase := p, sv_log := sv_log v @ es\<rparr>"

definition spawned :: "worker_registration \<Rightarrow> supervised" where
  "spawned r =
     \<lparr>sv_id = wr_id r, sv_runnable = wr_runnable r, sv_phase = WpTop,
      sv_backoff = (case wr_runnable r of
                      RunScheduled schedule _ \<Rightarrow> ws_initial_backoff schedule
                    | RunDaemon restart \<Rightarrow> dr_initial_backoff restart),
      sv_log = []\<rparr>"

text \<open>The body of the loop of \<open>supervise_scheduled\<close> from the outcome of a cycle to the sleep.\<close>

definition settle_cycle ::
  "worker_schedule \<Rightarrow> systime \<Rightarrow> scheduled_outcome \<Rightarrow> supervised \<times> health_registry \<Rightarrow> supervised \<times> health_registry" where
  "settle_cycle schedule now outcome vh =
     (case vh of (v, h) \<Rightarrow>
      (case outcome of
         CycleSucceeded \<Rightarrow>
           (move WpSleeping [LgOutcome outcome (ws_interval schedule)]
              (v\<lparr>sv_backoff := ws_initial_backoff schedule\<rparr>), health_succeeded (sv_id v) now h)
       | CycleBusy retry_after \<Rightarrow>
           let delay = min (unwrap_or (ws_interval schedule) (opt_filter (\<lambda>d. d \<noteq> 0) retry_after))
                 (ws_maximum_backoff schedule)
           in (move WpSleeping [LgOutcome outcome delay] v, health_standby (sv_id v) h)
       | CycleFailed error \<Rightarrow>
           (case take_backoff (sv_backoff v) (ws_maximum_backoff schedule) of (delay, backoff) \<Rightarrow>
              (move WpSleeping [LgOutcome outcome delay] (v\<lparr>sv_backoff := backoff\<rparr>),
               health_failed (sv_id v) now error h))
       | ShuttingDown \<Rightarrow> (move WpStopped [] v, health_stopped (sv_id v) h)))"

definition start_cycle ::
  "worker_fencing_token option \<Rightarrow> supervised \<times> health_registry \<Rightarrow> supervised \<times> health_registry" where
  "start_cycle token vh =
     (case vh of (v, h) \<Rightarrow> (move (WpCycle token) [LgCycleStarted token] v, health_running (sv_id v) token h))"

text \<open>What follows a cycle that has ended: the release of the guard, if there is one.\<close>

definition cycle_over ::
  "worker_schedule \<Rightarrow> systime \<Rightarrow> worker_fencing_token option \<Rightarrow> scheduled_outcome
   \<Rightarrow> supervised \<times> health_registry \<Rightarrow> supervised \<times> health_registry" where
  "cycle_over schedule now token outcome vh =
     (case vh of (v, h) \<Rightarrow>
      (case token of
         None \<Rightarrow> settle_cycle schedule now outcome (move (sv_phase v) [LgCycleEnded] v, h)
       | Some _ \<Rightarrow> (move (WpReleasing outcome) [LgCycleEnded] v, h)))"

definition released :: "guard_answer \<Rightarrow> scheduled_outcome \<Rightarrow> scheduled_outcome" where
  "released answer outcome =
     (case release_guard answer of
        Inr _ \<Rightarrow> outcome
      | Inl error \<Rightarrow> if outcome = ShuttingDown then outcome else CycleFailed error)"

text \<open>
  \<open>supervise_scheduled\<close> with \<open>acquire_and_run\<close>, \<open>run_local_cycle\<close> and \<open>run_leased_cycle\<close>; \<open>None\<close> is an
  event the worker does not wait for. A \<open>select\<close> takes any branch that is ready.
\<close>

definition scheduled_step ::
  "bool \<Rightarrow> systime \<Rightarrow> worker_schedule \<Rightarrow> worker_lease_request option \<Rightarrow> worker_event
   \<Rightarrow> supervised \<Rightarrow> health_registry \<Rightarrow> (supervised \<times> health_registry) option" where
  "scheduled_step cancelled now schedule lease ev v h =
     (case (sv_phase v, ev) of
        (WpTop, EvPoll) \<Rightarrow>
          Some (if cancelled then (move WpStopped [] v, health_stopped (sv_id v) h)
                else case lease of
                  None \<Rightarrow> start_cycle None (v, h)
                | Some _ \<Rightarrow> (move WpAcquiring [] v, health_acquiring (sv_id v) h))
      | (WpAcquiring, EvLease answer) \<Rightarrow>
          Some (case answer of
              LeaseAcquired None \<Rightarrow>
                settle_cycle schedule now (CycleFailed ''leader lease guard panicked'')
                  (move WpAcquiring [LgAcquired None] v, h)
            | LeaseAcquired (Some token) \<Rightarrow>
                start_cycle (Some token) (move WpAcquiring [LgAcquired (Some token)] v, h)
            | LeaseBusy retry_after \<Rightarrow> settle_cycle schedule now (CycleBusy retry_after) (v, h)
            | LeaseError e \<Rightarrow> settle_cycle schedule now (CycleFailed e) (v, h)
            | LeasePanicked \<Rightarrow> settle_cycle schedule now (CycleFailed ''leader lease port panicked'') (v, h))
      | (WpAcquiring, EvCancelled) \<Rightarrow>
          if cancelled then Some (settle_cycle schedule now ShuttingDown (v, h)) else None
      | (WpCycle token, EvCycle answer) \<Rightarrow> Some (cycle_over schedule now token (task_result answer) (v, h))
      | (WpCycle token, EvCancelled) \<Rightarrow>
          if cancelled then Some (move (WpDraining token ShuttingDown) [LgCycleCancelled] v, h) else None
      | (WpCycle (Some token), EvRenewalDue) \<Rightarrow> Some (move (WpRenewing token) [] v, h)
      | (WpRenewing token, EvGuard answer) \<Rightarrow>
          Some (case renew_guard answer of
              Inr _ \<Rightarrow> (move (WpCycle (Some token)) [LgRenewed answer] v, h)
            | Inl error \<Rightarrow>
                (move (WpDraining (Some token) (CycleFailed error)) [LgRenewed answer, LgCycleCancelled] v, h))
      | (WpDraining token outcome, EvCycle answer) \<Rightarrow> Some (cycle_over schedule now token outcome (v, h))
      | (WpReleasing outcome, EvGuard answer) \<Rightarrow>
          Some (settle_cycle schedule now (released answer outcome)
                 (move (WpReleasing outcome) [LgReleased answer] v, h))
      | (WpSleeping, EvTimer) \<Rightarrow> Some (move WpTop [] v, h)
      | (WpSleeping, EvCancelled) \<Rightarrow>
          if cancelled then Some (move WpStopped [] v, health_stopped (sv_id v) h) else None
      | _ \<Rightarrow> None)"

definition daemon_step ::
  "bool \<Rightarrow> systime \<Rightarrow> daemon_restart_policy \<Rightarrow> worker_event
   \<Rightarrow> supervised \<Rightarrow> health_registry \<Rightarrow> (supervised \<times> health_registry) option" where
  "daemon_step cancelled now restart ev v h =
     (case (sv_phase v, ev) of
        (WpTop, EvPoll) \<Rightarrow>
          Some (if cancelled then (move WpStopped [] v, health_stopped (sv_id v) h) else start_cycle None (v, h))
      | (WpCycle token, EvCycle answer) \<Rightarrow>
          (case take_backoff (sv_backoff v) (dr_maximum_backoff restart) of (delay, backoff) \<Rightarrow>
             Some (move WpSleeping [LgCycleEnded, LgOutcome (CycleFailed (daemon_error answer)) delay]
                     (v\<lparr>sv_backoff := backoff\<rparr>),
                   health_failed (sv_id v) now (daemon_error answer) h))
      | (WpCycle token, EvCancelled) \<Rightarrow>
          if cancelled then Some (move (WpDraining token ShuttingDown) [LgCycleCancelled] v, h) else None
      | (WpDraining token outcome, EvCycle answer) \<Rightarrow>
          Some (move WpStopped [LgCycleEnded] v, health_stopped (sv_id v) h)
      | (WpSleeping, EvTimer) \<Rightarrow> Some (move WpTop [] v, h)
      | (WpSleeping, EvCancelled) \<Rightarrow>
          if cancelled then Some (move WpStopped [] v, health_stopped (sv_id v) h) else None
      | _ \<Rightarrow> None)"

definition worker_step ::
  "bool \<Rightarrow> systime \<Rightarrow> worker_event \<Rightarrow> supervised \<Rightarrow> health_registry \<Rightarrow> (supervised \<times> health_registry) option" where
  "worker_step cancelled now ev v h =
     (case sv_runnable v of
        RunScheduled schedule lease \<Rightarrow> scheduled_step cancelled now schedule lease ev v h
      | RunDaemon restart \<Rightarrow> daemon_step cancelled now restart ev v h)"

section \<open>The supervisor\<close>

text \<open>
  \<open>su_joining\<close> holds, per call of \<open>shutdown\<close> that has not returned, the handles it still has to join.
\<close>

record supervisor =
  su_started :: bool
  su_cancelled :: bool
  su_health :: health_registry
  su_workers :: "supervised list"
  su_handles :: "nat list"
  su_joining :: "nat list list"

definition supervisor_new :: "bool \<Rightarrow> supervisor" where
  "supervisor_new cancelled =
     \<lparr>su_started = False, su_cancelled = cancelled, su_health = [], su_workers = [], su_handles = [],
      su_joining = []\<rparr>"

definition start_inner ::
  "bool \<Rightarrow> worker_contribution list \<Rightarrow> supervisor \<Rightarrow> supervisor \<times> (worker_start_error + unit)" where
  "start_inner has_runtime plan s =
     (if \<not> has_runtime then (s, Inl RuntimeUnavailable)
      else case worker_plan_try_from plan of
        Inl e \<Rightarrow> (s, Inl e)
      | Inr p \<Rightarrow>
          let vs = map (spawned \<circ> snd) (pl_registrations p); n = length (su_workers s)
          in (s\<lparr>su_health := health_install (pl_registrations p) (pl_disabled p),
                su_workers := su_workers s @ vs, su_handles := [n ..< n + length vs]\<rparr>, Inr ()))"

definition supervisor_start ::
  "bool \<Rightarrow> worker_contribution list \<Rightarrow> supervisor \<Rightarrow> supervisor \<times> (worker_start_error + unit)" where
  "supervisor_start has_runtime plan s =
     (if su_started s then (s, Inl AlreadyStarted)
      else case start_inner has_runtime plan (s\<lparr>su_started := True\<rparr>) of
        (s', Inl e) \<Rightarrow> (s'\<lparr>su_started := False\<rparr>, Inl e)
      | (s', Inr _) \<Rightarrow> (s', Inr ()))"

definition finished :: "supervised \<Rightarrow> bool" where
  "finished v = (sv_phase v \<in> {WpStopped, WpAborted})"

definition abort :: "supervised \<Rightarrow> supervised" where
  "abort v = (if finished v then v else move WpAborted [LgAborted] v)"

definition shutdown_begin :: "supervisor \<Rightarrow> supervisor" where
  "shutdown_begin s = s\<lparr>su_cancelled := True, su_handles := [], su_joining := su_joining s @ [su_handles s]\<rparr>"

text \<open>One handle of a call: joined when its worker is over, or aborted at the deadline and then joined.\<close>

definition shutdown_join :: "bool \<Rightarrow> nat \<Rightarrow> supervisor \<Rightarrow> supervisor option" where
  "shutdown_join deadline_passed c s =
     (case su_joining s ! c of
        [] \<Rightarrow> None
      | i # rest \<Rightarrow>
          if finished (su_workers s ! i) then Some (s\<lparr>su_joining := (su_joining s)[c := rest]\<rparr>)
          else if deadline_passed then
            Some (s\<lparr>su_workers := (su_workers s)[i := abort (su_workers s ! i)],
                    su_joining := (su_joining s)[c := rest]\<rparr>)
          else None)"

definition shutdown_end :: "nat \<Rightarrow> supervisor \<Rightarrow> supervisor option" where
  "shutdown_end c s =
     (if su_joining s ! c \<noteq> [] then None
      else Some (s\<lparr>su_joining := take c (su_joining s) @ drop (Suc c) (su_joining s),
                   su_health := health_stop_all (su_health s)\<rparr>))"

text \<open>\<open>Drop\<close> of the supervisor, which aborts the handles that no call of \<open>shutdown\<close> has taken.\<close>

definition supervisor_drop :: "supervisor \<Rightarrow> supervisor" where
  "supervisor_drop s =
     s\<lparr>su_cancelled := True,
       su_workers := fold (\<lambda>i vs. vs[i := abort (vs ! i)]) (su_handles s) (su_workers s),
       su_health := health_stop_all (su_health s)\<rparr>"

inductive supervisor_reachable :: "bool \<Rightarrow> supervisor \<Rightarrow> bool" for c0 where
  sr_new: "supervisor_reachable c0 (supervisor_new c0)"
| sr_start: "supervisor_reachable c0 s \<Longrightarrow> supervisor_reachable c0 (fst (supervisor_start has_runtime plan s))"
| sr_cancel: "supervisor_reachable c0 s \<Longrightarrow> supervisor_reachable c0 (s\<lparr>su_cancelled := True\<rparr>)"
| sr_work: "supervisor_reachable c0 s \<Longrightarrow> i < length (su_workers s) \<Longrightarrow>
    worker_step (su_cancelled s) now ev (su_workers s ! i) (su_health s) = Some (v, h) \<Longrightarrow>
    supervisor_reachable c0 (s\<lparr>su_workers := (su_workers s)[i := v], su_health := h\<rparr>)"
| sr_shutdown: "supervisor_reachable c0 s \<Longrightarrow> supervisor_reachable c0 (shutdown_begin s)"
| sr_join: "supervisor_reachable c0 s \<Longrightarrow> c < length (su_joining s) \<Longrightarrow>
    shutdown_join deadline_passed c s = Some t \<Longrightarrow> supervisor_reachable c0 t"
| sr_end: "supervisor_reachable c0 s \<Longrightarrow> c < length (su_joining s) \<Longrightarrow> shutdown_end c s = Some t \<Longrightarrow>
    supervisor_reachable c0 t"
| sr_drop: "supervisor_reachable c0 s \<Longrightarrow> supervisor_reachable c0 (supervisor_drop s)"

end
