(* ===== verification/WorkersProps.thy ===== *)
theory WorkersProps
  imports Workers
begin

text \<open>
  The plan of background work is accepted exactly when it covers every kind of work once; the history
  of every worker follows the lease protocol; its delays are the exponential backoff; and when the
  calls of \<open>shutdown\<close> have returned, nothing runs.
\<close>

section \<open>The plan\<close>

definition registrations_of :: "worker_contribution list \<Rightarrow> worker_registration list" where
  "registrations_of cs = concat (map (\<lambda>c. case c of ContributedRegistration r \<Rightarrow> [r] | _ \<Rightarrow> []) cs)"

definition disabled_of :: "worker_contribution list \<Rightarrow> (worker_kind \<times> worker_disabled_reason) list" where
  "disabled_of cs = concat (map (\<lambda>c. case c of ContributedDisabled k reason \<Rightarrow> [(k, reason)] | _ \<Rightarrow> []) cs)"

definition plan_of :: "worker_contribution list \<Rightarrow> worker_plan" where
  "plan_of cs =
     \<lparr>pl_registrations = fold (\<lambda>r. bt_insert (wr_id r) r) (registrations_of cs) [],
      pl_disabled = fold (\<lambda>d. bt_insert (fst d) (snd d)) (disabled_of cs) []\<rparr>"

definition plan_consistent :: "worker_contribution list \<Rightarrow> bool" where
  "plan_consistent cs \<longleftrightarrow>
     list_all (\<lambda>c. contribution_validate c = Inr ()) cs
     \<and> distinct (map wr_id (registrations_of cs)) \<and> distinct (map fst (disabled_of cs))
     \<and> (wid_kind \<circ> wr_id) ` set (registrations_of cs) \<inter> fst ` set (disabled_of cs) = {}"

lemma contributions_snoc:
  "registrations_of (cs @ [c]) =
     registrations_of cs @ (case c of ContributedRegistration r \<Rightarrow> [r] | _ \<Rightarrow> [])"
  "disabled_of (cs @ [c]) =
     disabled_of cs @ (case c of ContributedDisabled k reason \<Rightarrow> [(k, reason)] | _ \<Rightarrow> [])"
  by (simp_all add: registrations_of_def disabled_of_def)

lemma bt_ok_fold_insert: "bt_ok m \<Longrightarrow> bt_ok (fold (\<lambda>x. bt_insert (f x) (g x)) xs m)"
  by (induction xs arbitrary: m) simp_all

lemma keys_fold_insert:
  "fst ` set (fold (\<lambda>x. bt_insert (f x) (g x)) xs m) = f ` set xs \<union> fst ` set m"
  by (induction xs arbitrary: m) (auto simp: container_simps)

lemma map_of_fold_fresh:
  "distinct (map f xs) \<Longrightarrow>
     map_of (fold (\<lambda>x. bt_insert (f x) (g x)) xs m) = map_of m ++ map_of (map (\<lambda>x. (f x, g x)) xs)"
proof (induction xs arbitrary: m)
  case (Cons x xs)
  have "f x \<notin> dom (map_of (map (\<lambda>x. (f x, g x)) xs))"
    using Cons.prems by (auto simp: dom_map_of_conv_image_fst image_image)
  then show ?case using Cons by (auto simp: map_add_def dom_def fun_eq_iff split: option.splits)
qed simp

lemma bt_ok_ext: "bt_ok m \<Longrightarrow> bt_ok n \<Longrightarrow> map_of m = map_of n \<Longrightarrow> m = n"
proof (rule map_sorted_distinct_set_unique [where f = fst])
  assume "bt_ok m" "bt_ok n" and eq: "map_of m = map_of n"
  then show "set m = set n"
    by (auto simp: bt_lookup_mem [symmetric])
next
  assume "bt_ok m" "bt_ok n"
  then show "inj_on fst (set m \<union> set n)" if "map_of m = map_of n"
    using that bt_lookup_mem [of m] bt_lookup_mem [of n] by (auto simp: inj_on_def) (metis option.inject)+
  show "sorted (map fst m)" "sorted (map fst n)" "distinct (map fst m)" "distinct (map fst n)"
    using \<open>bt_ok m\<close> \<open>bt_ok n\<close> by (auto simp: bt_ok_def bs_ok_def strict_sorted_iff)
qed

lemma plan_of_fields:
  "bt_ok (pl_registrations (plan_of cs))" "bt_ok (pl_disabled (plan_of cs))"
  "fst ` set (pl_registrations (plan_of cs)) = wr_id ` set (registrations_of cs)"
  "fst ` set (pl_disabled (plan_of cs)) = fst ` set (disabled_of cs)"
  by (simp_all add: plan_of_def case_prod_beta bt_ok_fold_insert keys_fold_insert)

lemma plan_of_snoc:
  "plan_of (cs @ [ContributedRegistration r]) =
     plan_of cs\<lparr>pl_registrations := bt_insert (wr_id r) r (pl_registrations (plan_of cs))\<rparr>"
  "plan_of (cs @ [ContributedDisabled k reason]) =
     plan_of cs\<lparr>pl_disabled := bt_insert k reason (pl_disabled (plan_of cs))\<rparr>"
  by (simp_all add: plan_of_def contributions_snoc)

lemma plan_contribution_exact:
  assumes "plan_consistent cs"
  shows "plan_contribution c (plan_of cs) = Inr p \<longleftrightarrow> plan_consistent (cs @ [c]) \<and> p = plan_of (cs @ [c])"
proof (cases c)
  case (ContributedRegistration r)
  have "bt_has (pl_disabled (plan_of cs)) (wid_kind (wr_id r)) \<longleftrightarrow> wid_kind (wr_id r) \<in> fst ` set (disabled_of cs)"
    "bt_has (pl_registrations (plan_of cs)) (wr_id r) \<longleftrightarrow> wr_id r \<in> wr_id ` set (registrations_of cs)"
    by (simp_all add: bt_has_iff plan_of_fields)
  with assms ContributedRegistration show ?thesis
    by (cases "worker_registration_validate r")
       (auto simp: plan_contribution_def plan_of_snoc plan_consistent_def contributions_snoc)
next
  case (ContributedDisabled k reason)
  have "list_ex (\<lambda>(w, r). wid_kind w = k) (pl_registrations (plan_of cs)) \<longleftrightarrow>
      k \<in> wid_kind ` (fst ` set (pl_registrations (plan_of cs)))"
    by (force simp: list_ex_iff)
  then have tasks: "list_ex (\<lambda>(w, r). wid_kind w = k) (pl_registrations (plan_of cs)) \<longleftrightarrow>
      k \<in> (wid_kind \<circ> wr_id) ` set (registrations_of cs)"
    by (simp add: plan_of_fields image_comp)
  have disabled: "bt_has (pl_disabled (plan_of cs)) k \<longleftrightarrow> k \<in> fst ` set (disabled_of cs)"
    by (simp add: bt_has_iff plan_of_fields)
  have consistent: "plan_consistent (cs @ [c]) \<longleftrightarrow> contribution_validate c = Inr ()
      \<and> k \<notin> (wid_kind \<circ> wr_id) ` set (registrations_of cs) \<and> k \<notin> fst ` set (disabled_of cs)"
    using assms ContributedDisabled by (auto simp: plan_consistent_def contributions_snoc)
  show ?thesis
  proof (cases "disabled_reason_kind reason = k")
    case True
    show ?thesis
      unfolding consistent unfolding ContributedDisabled plan_contribution_def plan_of_snoc
      by (simp add: tasks disabled True, blast)
  next
    case False
    then show ?thesis
      unfolding consistent unfolding ContributedDisabled plan_contribution_def by auto
  qed
qed

lemma plan_run:
  "try_fold plan_contribution cs \<lparr>pl_registrations = [], pl_disabled = []\<rparr> = Inr p \<longleftrightarrow>
     plan_consistent cs \<and> p = plan_of cs"
proof (induction cs arbitrary: p rule: rev_induct)
  case Nil
  show ?case by (auto simp: plan_consistent_def plan_of_def registrations_of_def disabled_of_def)
next
  case (snoc c cs)
  have prefix: "plan_consistent (cs @ [c]) \<Longrightarrow> plan_consistent cs"
    by (auto simp: plan_consistent_def contributions_snoc)
  show ?case
  proof (cases "try_fold plan_contribution cs \<lparr>pl_registrations = [], pl_disabled = []\<rparr>")
    case (Inl e)
    then have "\<not> plan_consistent cs" using snoc.IH by (metis Inl_Inr_False)
    with prefix Inl show ?thesis by (auto simp: try_fold_append)
  next
    case (Inr q)
    then have "plan_consistent cs" "q = plan_of cs" using snoc.IH by blast+
    then have "plan_contribution c q = Inr p \<longleftrightarrow> plan_consistent (cs @ [c]) \<and> p = plan_of (cs @ [c])"
      using plan_contribution_exact by simp
    then show ?thesis using Inr by (cases "plan_contribution c q") (simp_all add: try_fold_append)
  qed
qed

lemma worker_plan_accepted:
  "worker_plan_try_from cs = Inr p \<longleftrightarrow>
     list_all (\<lambda>c. contribution_validate c = Inr ()) cs
     \<and> distinct (map wr_id (registrations_of cs)) \<and> distinct (map fst (disabled_of cs))
     \<and> (wid_kind \<circ> wr_id) ` set (registrations_of cs) \<inter> fst ` set (disabled_of cs) = {}
     \<and> (wid_kind \<circ> wr_id) ` set (registrations_of cs) \<union> fst ` set (disabled_of cs) = UNIV
     \<and> bt_ok (pl_registrations p) \<and> bt_ok (pl_disabled p)
     \<and> map_of (pl_registrations p) = map_of (map (\<lambda>r. (wr_id r, r)) (registrations_of cs))
     \<and> map_of (pl_disabled p) = map_of (disabled_of cs)"
proof -
  let ?kinds = "(wid_kind \<circ> wr_id) ` set (registrations_of cs) \<union> fst ` set (disabled_of cs)"
  have maps: "map_of (pl_registrations (plan_of cs)) = map_of (map (\<lambda>r. (wr_id r, r)) (registrations_of cs))"
    "map_of (pl_disabled (plan_of cs)) = map_of (disabled_of cs)" if "plan_consistent cs"
    using that map_of_fold_fresh [where f = fst and g = snd and m = "[]" and xs = "disabled_of cs"]
    by (simp_all add: plan_consistent_def plan_of_def case_prod_unfold map_of_fold_fresh)
  have kinds: "(wid_kind \<circ> fst) ` set (pl_registrations (plan_of cs)) = (wid_kind \<circ> wr_id) ` set (registrations_of cs)"
    by (metis image_comp plan_of_fields(3))
  have covered: "(\<forall>k. k \<in> (wid_kind \<circ> fst) ` set (pl_registrations (plan_of cs))
      \<or> bt_has (pl_disabled (plan_of cs)) k) \<longleftrightarrow> ?kinds = UNIV"
    unfolding kinds bt_has_iff plan_of_fields by blast
  have "worker_plan_try_from cs = Inr p \<longleftrightarrow> plan_consistent cs \<and> p = plan_of cs \<and> ?kinds = UNIV"
  proof (cases "try_fold plan_contribution cs \<lparr>pl_registrations = [], pl_disabled = []\<rparr>")
    case (Inl e)
    then have "\<not> plan_consistent cs" using plan_run [of cs] by (metis Inl_Inr_False)
    with Inl show ?thesis by (simp add: worker_plan_try_from_def)
  next
    case (Inr q)
    then have "plan_consistent cs" "q = plan_of cs" using plan_run by blast+
    with Inr show ?thesis
      unfolding covered [symmetric] by (auto simp: worker_plan_try_from_def Let_def filter_empty_conv)
  qed
  moreover have "p = plan_of cs \<longleftrightarrow> bt_ok (pl_registrations p) \<and> bt_ok (pl_disabled p)
      \<and> map_of (pl_registrations p) = map_of (map (\<lambda>r. (wr_id r, r)) (registrations_of cs))
      \<and> map_of (pl_disabled p) = map_of (disabled_of cs)" if "plan_consistent cs"
    using maps [OF that] plan_of_fields(1,2) [of cs] by (auto intro!: worker_plan.equality bt_ok_ext)
  ultimately show ?thesis by (auto simp: plan_consistent_def)
qed

text \<open>
  The supervisor accepts a plan exactly when every contribution is valid, no worker is registered
  twice, no kind of work is disabled twice or both disabled and registered, and every kind is one or
  the other; the accepted plan then holds exactly the contributed registrations and reasons.
\<close>

theorem worker_plan_exact:
  "worker_plan_try_from cs = Inr p \<longleftrightarrow>
     list_all (\<lambda>c. contribution_validate c = Inr ()) cs
     \<and> distinct (map wr_id (registrations_of cs)) \<and> distinct (map fst (disabled_of cs))
     \<and> (wid_kind \<circ> wr_id) ` set (registrations_of cs) \<inter> fst ` set (disabled_of cs) = {}
     \<and> (wid_kind \<circ> wr_id) ` set (registrations_of cs) \<union> fst ` set (disabled_of cs) = UNIV
     \<and> bt_ok (pl_registrations p) \<and> bt_ok (pl_disabled p)
     \<and> map_of (pl_registrations p) = map_of (map (\<lambda>r. (wr_id r, r)) (registrations_of cs))
     \<and> map_of (pl_disabled p) = map_of (disabled_of cs)"
  by (rule worker_plan_accepted)

section \<open>The lease protocol\<close>

text \<open>What a worker may do with its lease and its cycle, as an automaton over its history.\<close>

datatype lease_use =
    UseIdle
  | UseHolding worker_fencing_token
  | UseRunning "worker_fencing_token option"
  | UseLost worker_fencing_token
  | UseCancelled "worker_fencing_token option"
  | UseEnded worker_fencing_token
  | UseOver

fun cycle_ended :: "worker_fencing_token option \<Rightarrow> lease_use" where
  "cycle_ended None = UseIdle"
| "cycle_ended (Some token) = UseEnded token"

fun lease_protocol :: "bool \<Rightarrow> lease_use \<Rightarrow> worker_effect \<Rightarrow> lease_use option" where
  "lease_protocol leased UseIdle (LgAcquired None) = (if leased then Some UseIdle else None)"
| "lease_protocol leased UseIdle (LgAcquired (Some token)) = (if leased then Some (UseHolding token) else None)"
| "lease_protocol leased UseIdle (LgCycleStarted token) =
     (if \<not> leased \<and> token = None then Some (UseRunning None) else None)"
| "lease_protocol leased (UseHolding token) (LgCycleStarted used) =
     (if used = Some token then Some (UseRunning used) else None)"
| "lease_protocol leased (UseRunning (Some token)) (LgRenewed answer) =
     Some (if answer = GuardOk then UseRunning (Some token) else UseLost token)"
| "lease_protocol leased (UseLost token) LgCycleCancelled = Some (UseCancelled (Some token))"
| "lease_protocol leased (UseRunning token) LgCycleCancelled = Some (UseCancelled token)"
| "lease_protocol leased (UseRunning token) LgCycleEnded = Some (cycle_ended token)"
| "lease_protocol leased (UseCancelled token) LgCycleEnded = Some (cycle_ended token)"
| "lease_protocol leased (UseEnded token) (LgReleased answer) = Some UseIdle"
| "lease_protocol leased UseIdle (LgOutcome outcome delay) = Some UseIdle"
| "lease_protocol leased use LgAborted = Some UseOver"
| "lease_protocol leased use effect = None"

primrec lease_run :: "bool \<Rightarrow> lease_use \<Rightarrow> worker_effect list \<Rightarrow> lease_use option" where
  "lease_run leased use [] = Some use"
| "lease_run leased use (e # es) = Option.bind (lease_protocol leased use e) (\<lambda>u. lease_run leased u es)"

lemma lease_run_append:
  "lease_run leased use (es @ fs) = Option.bind (lease_run leased use es) (\<lambda>u. lease_run leased u fs)"
  by (induction es arbitrary: use) (simp_all add: Option.bind_assoc)

definition leased_worker :: "worker_runnable \<Rightarrow> bool" where
  "leased_worker runnable = (case runnable of RunScheduled schedule (Some lease) \<Rightarrow> True | _ \<Rightarrow> False)"

text \<open>What the phase of a worker says of its lease; a leased worker never runs without a token.\<close>

fun phase_use :: "bool \<Rightarrow> worker_phase \<Rightarrow> lease_use \<Rightarrow> bool" where
  "phase_use leased (WpCycle token) use = (use = UseRunning token \<and> leased = (token \<noteq> None))"
| "phase_use leased (WpRenewing token) use = (use = UseRunning (Some token) \<and> leased)"
| "phase_use leased (WpDraining token outcome) use = (use = UseCancelled token \<and> leased = (token \<noteq> None))"
| "phase_use leased (WpReleasing outcome) use = ((\<exists>token. use = UseEnded token) \<and> leased)"
| "phase_use leased WpAborted use = (use = UseOver)"
| "phase_use leased WpAcquiring use = (use = UseIdle \<and> leased)"
| "phase_use leased WpTop use = (use = UseIdle)"
| "phase_use leased WpSleeping use = (use = UseIdle)"
| "phase_use leased WpStopped use = (use = UseIdle)"

definition follows_protocol :: "supervised \<Rightarrow> bool" where
  "follows_protocol v \<longleftrightarrow>
     (case lease_run (leased_worker (sv_runnable v)) UseIdle (sv_log v) of
        None \<Rightarrow> False
      | Some use \<Rightarrow> phase_use (leased_worker (sv_runnable v)) (sv_phase v) use)"

lemma move_fields [simp]:
  "sv_id (move p es v) = sv_id v" "sv_runnable (move p es v) = sv_runnable v"
  "sv_phase (move p es v) = p" "sv_backoff (move p es v) = sv_backoff v" "sv_log (move p es v) = sv_log v @ es"
  by (simp_all add: move_def)

text \<open>The steps of a worker, with what each adds to its history.\<close>

lemma settle_cycle_cases:
  assumes "settle_cycle schedule now outcome (v, h) = (v', h')"
  shows "sv_runnable v' = sv_runnable v \<and> sv_id v' = sv_id v
    \<and> (if outcome = ShuttingDown then sv_phase v' = WpStopped \<and> sv_log v' = sv_log v
       else sv_phase v' = WpSleeping \<and> (\<exists>delay. sv_log v' = sv_log v @ [LgOutcome outcome delay]))"
  using assms by (cases outcome) (auto simp: settle_cycle_def take_backoff_def Let_def)

lemma follows_settle:
  assumes "lease_run (leased_worker (sv_runnable v)) UseIdle (sv_log v) = Some UseIdle"
    and "settle_cycle schedule now outcome (v, h) = (v', h')"
  shows "follows_protocol v'"
  using settle_cycle_cases [OF assms(2)] assms(1)
  by (auto simp: follows_protocol_def lease_run_append split: if_splits)

lemma follows_move:
  "lease_run (leased_worker (sv_runnable v)) UseIdle (sv_log v @ es) = Some use \<Longrightarrow>
     phase_use (leased_worker (sv_runnable v)) p use \<Longrightarrow> follows_protocol (move p es v)"
  by (simp add: follows_protocol_def)

lemma follows_phase:
  "follows_protocol v \<Longrightarrow> sv_phase v = p \<Longrightarrow>
     \<exists>use. lease_run (leased_worker (sv_runnable v)) UseIdle (sv_log v) = Some use
           \<and> phase_use (leased_worker (sv_runnable v)) p use"
  by (auto simp: follows_protocol_def split: option.splits)

lemma follows_cycle_over:
  assumes "lease_run (leased_worker (sv_runnable v)) UseIdle (sv_log v @ [LgCycleEnded]) = Some (cycle_ended token)"
    and "leased_worker (sv_runnable v) = (token \<noteq> None)"
    and "cycle_over schedule now token outcome (v, h) = (v', h')"
  shows "follows_protocol v'"
proof (cases token)
  case None
  with assms show ?thesis
    by (auto simp: cycle_over_def intro!: follows_settle [of "move (sv_phase v) [LgCycleEnded] v"])
next
  case (Some t)
  with assms show ?thesis by (auto simp: cycle_over_def follows_protocol_def)
qed

lemma scheduled_runnable:
  "scheduled_step cancelled now schedule lease ev v h = Some (v', h') \<Longrightarrow> sv_runnable v' = sv_runnable v \<and> sv_id v' = sv_id v"
  by (auto simp: scheduled_step_def settle_cycle_def start_cycle_def cycle_over_def take_backoff_def Let_def
      split: worker_phase.splits worker_event.splits lease_answer.splits scheduled_outcome.splits option.splits
        sum.splits if_splits)

lemma follows_scheduled:
  assumes v: "follows_protocol v" and r: "sv_runnable v = RunScheduled schedule lease"
    and step: "scheduled_step cancelled now schedule lease ev v h = Some (v', h')"
  shows "follows_protocol v'"
proof -
  note defs = scheduled_step_def start_cycle_def
  obtain use where use: "lease_run (leased_worker (sv_runnable v)) UseIdle (sv_log v) = Some use"
    "phase_use (leased_worker (sv_runnable v)) (sv_phase v) use"
    using follows_phase [OF v refl] by blast
  have leased: "leased_worker (sv_runnable v) = (lease \<noteq> None)"
    by (cases lease) (simp_all add: r leased_worker_def)
  note hist = use(1) leased lease_run_append
  show ?thesis
  proof (cases "sv_phase v")
    case WpTop
    with step use leased show ?thesis
      by (cases ev) (auto simp: defs hist intro!: follows_move split: if_splits option.splits)
  next
    case WpAcquiring
    with step use leased show ?thesis
      by (cases ev; simp add: defs split: lease_answer.splits option.splits if_splits)
        (auto simp: hist intro!: follows_move elim!: follows_settle [rotated])
  next
    case (WpCycle token)
    with step use leased show ?thesis
      by (cases ev; cases token)
        (auto simp: defs hist intro!: follows_move split: if_splits elim!: follows_cycle_over [rotated 2])
  next
    case (WpRenewing token)
    with step use leased show ?thesis
      by (cases ev; simp add: defs split: sum.splits)
        (auto simp: hist intro!: follows_move elim!: renew_guard.elims)
  next
    case (WpDraining token outcome)
    with step use leased show ?thesis
      by (cases ev; cases token) (auto simp: defs hist elim!: follows_cycle_over [rotated 2])
  next
    case (WpReleasing outcome)
    with step use leased show ?thesis
      by (cases ev; simp add: defs) (auto simp: hist elim!: follows_settle [rotated])
  next
    case WpSleeping
    with step use show ?thesis
      by (cases ev) (auto simp: defs hist intro!: follows_move split: if_splits)
  next
    case WpStopped
    with step show ?thesis by (cases ev) (simp_all add: defs)
  next
    case WpAborted
    with step show ?thesis by (cases ev) (simp_all add: defs)
  qed
qed

lemma follows_daemon:
  assumes v: "follows_protocol v" and r: "sv_runnable v = RunDaemon restart"
    and step: "daemon_step cancelled now restart ev v h = Some (v', h')"
  shows "follows_protocol v'"
proof -
  obtain use where use: "lease_run False UseIdle (sv_log v) = Some use" "phase_use False (sv_phase v) use"
    using follows_phase [OF v refl] by (auto simp: r leased_worker_def)
  show ?thesis
    using step use by (cases "sv_phase v"; cases ev)
      (auto simp: daemon_step_def start_cycle_def take_backoff_def follows_protocol_def lease_run_append r
        leased_worker_def split: if_splits)
qed

section \<open>The supervisor\<close>

lemma worker_step_follows:
  "worker_step cancelled now ev v h = Some (v', h') \<Longrightarrow> follows_protocol v \<Longrightarrow> follows_protocol v'"
  by (cases "sv_runnable v") (auto simp: worker_step_def intro: follows_scheduled follows_daemon)

lemma worker_step_finished: "finished v \<Longrightarrow> worker_step cancelled now ev v h = None"
  by (cases "sv_runnable v"; cases ev)
    (auto simp: finished_def worker_step_def scheduled_step_def daemon_step_def)

lemma abort_fields [simp]: "finished (abort v)" "sv_runnable (abort v) = sv_runnable v" "sv_backoff (abort v) = sv_backoff v"
  by (auto simp: abort_def finished_def)

lemma fold_abort:
  "length (fold (\<lambda>i vs. vs[i := abort (vs ! i)]) is vs) = length vs"
  "j < length vs \<Longrightarrow>
     fold (\<lambda>i vs. vs[i := abort (vs ! i)]) is vs ! j = (if j \<in> set is then abort (vs ! j) else vs ! j)"
proof (induction "is" arbitrary: vs)
  case (Cons i js)
  { case 1 then show ?case using Cons.IH(1) by simp }
  { case 2
    have "abort (abort v) = abort v" for v by (simp add: abort_def finished_def)
    with 2 show ?case using Cons.IH(2) [of "vs[i := abort (vs ! i)]"]
      by (cases "i = j") (auto simp: nth_list_update) }
qed simp_all

lemma start_cases:
  obtains e where "supervisor_start has_runtime plan s = (s, Inl e)"
  | p where "worker_plan_try_from plan = Inr p" "\<not> su_started s"
      "supervisor_start has_runtime plan s =
        (let vs = map (spawned \<circ> snd) (pl_registrations p); n = length (su_workers s)
         in (s\<lparr>su_started := True, su_health := health_install (pl_registrations p) (pl_disabled p),
               su_workers := su_workers s @ vs, su_handles := [n ..< n + length vs]\<rparr>, Inr ()))"
proof (cases "su_started s")
  case True
  then show thesis by (intro that(1)) (simp add: supervisor_start_def)
next
  case False
  then have s: "s\<lparr>su_started := False\<rparr> = s" by simp
  show thesis
  proof (cases "if has_runtime then worker_plan_try_from plan else Inl RuntimeUnavailable")
    case (Inl e)
    with False s show thesis
      by (intro that(1) [of e]) (auto simp: supervisor_start_def start_inner_def split: if_splits)
  next
    case (Inr p)
    with False show thesis
      by (intro that(2) [of p]) (auto simp: supervisor_start_def start_inner_def Let_def split: if_splits)
  qed
qed

text \<open>A property of every worker is one of the spawned workers that their steps and \<open>abort\<close> keep.\<close>

lemma workers_invariant:
  assumes spawned: "\<And>r. I (spawned r)"
    and step: "\<And>c now ev v h v' h'. worker_step c now ev v h = Some (v', h') \<Longrightarrow> I v \<Longrightarrow> I v'"
    and abort: "\<And>v. I v \<Longrightarrow> I (abort v)"
    and reach: "supervisor_reachable c0 s"
  shows "i < length (su_workers s) \<Longrightarrow> I (su_workers s ! i)"
  using reach
proof (induction arbitrary: i rule: supervisor_reachable.induct)
  case sr_new
  then show ?case by (simp add: supervisor_new_def)
next
  case (sr_start s has_runtime plan)
  show ?case
    by (rule start_cases [of has_runtime plan s])
      (use sr_start spawned in \<open>auto simp: Let_def nth_append\<close>)
next
  case (sr_work s j now ev v h)
  then show ?case using step by (auto simp: nth_list_update)
next
  case (sr_join s c deadline_passed t)
  then show ?case using abort
    by (cases "i = hd (su_joining s ! c)")
      (auto simp: shutdown_join_def nth_list_update split: list.splits if_splits)
next
  case (sr_drop s)
  then show ?case using abort by (auto simp: supervisor_drop_def fold_abort)
qed (auto simp: shutdown_begin_def shutdown_end_def split: if_splits)

text \<open>
  C12. In any interleaving of workers, cancellation, \<open>shutdown\<close> and \<open>drop\<close>, the history of every worker
  follows the lease protocol: a cycle of a leased worker starts only under a guard and with that
  guard's fencing token, its guard is renewed only while it runs, a renewal that fails cancels the cycle
  before anything else, the guard is released once and only when the cycle has ended, and no next cycle
  starts before that. Only an aborted worker leaves a cycle or a guard behind.
\<close>

theorem worker_lease_protocol:
  assumes "supervisor_reachable c0 s" and "i < length (su_workers s)"
  shows "follows_protocol (su_workers s ! i)"
proof (rule workers_invariant [where I = follows_protocol, OF _ _ _ assms])
  fix r show "follows_protocol (spawned r)" by (simp add: follows_protocol_def spawned_def)
next
  show "worker_step c now ev v h = Some (v', h') \<Longrightarrow> follows_protocol v \<Longrightarrow> follows_protocol v'" for c now ev v h v' h'
    by (rule worker_step_follows)
next
  fix v assume "follows_protocol v"
  moreover have "lease_protocol l use LgAborted = Some UseOver" for l use by (cases "(l, use, LgAborted)" rule: lease_protocol.cases) simp_all
  ultimately show "follows_protocol (abort v)"
    by (auto simp: abort_def follows_protocol_def lease_run_append split: option.splits)
qed

section \<open>Backoff\<close>

definition outcomes :: "worker_effect list \<Rightarrow> (scheduled_outcome \<times> duration) list" where
  "outcomes log = concat (map (\<lambda>e. case e of LgOutcome outcome delay \<Rightarrow> [(outcome, delay)] | _ \<Rightarrow> []) log)"

definition count_failure :: "nat \<Rightarrow> scheduled_outcome \<times> duration \<Rightarrow> nat" where
  "count_failure k od = (case fst od of CycleSucceeded \<Rightarrow> 0 | CycleFailed e \<Rightarrow> Suc k | _ \<Rightarrow> k)"

definition failures_since_success :: "(scheduled_outcome \<times> duration) list \<Rightarrow> nat" where
  "failures_since_success os = foldl count_failure 0 os"

fun backoff_range :: "worker_runnable \<Rightarrow> duration \<times> duration" where
  "backoff_range (RunScheduled schedule lease) = (ws_initial_backoff schedule, ws_maximum_backoff schedule)"
| "backoff_range (RunDaemon restart) = (dr_initial_backoff restart, dr_maximum_backoff restart)"

definition backoff_valid :: "worker_runnable \<Rightarrow> bool" where
  "backoff_valid r \<longleftrightarrow> fst (backoff_range r) \<le> snd (backoff_range r) \<and> snd (backoff_range r) \<le> duration_max"

definition exponential_backoff :: "worker_runnable \<Rightarrow> nat \<Rightarrow> duration" where
  "exponential_backoff r k = min (fst (backoff_range r) * 2 ^ k) (snd (backoff_range r))"

definition expected_delay :: "worker_runnable \<Rightarrow> nat \<Rightarrow> scheduled_outcome \<Rightarrow> duration" where
  "expected_delay r k outcome =
     (case outcome of
        CycleFailed e \<Rightarrow> exponential_backoff r k
      | CycleSucceeded \<Rightarrow> (case r of RunScheduled schedule lease \<Rightarrow> ws_interval schedule | _ \<Rightarrow> 0)
      | CycleBusy retry_after \<Rightarrow>
          (case r of
             RunScheduled schedule lease \<Rightarrow>
               min (case retry_after of None \<Rightarrow> ws_interval schedule
                    | Some d \<Rightarrow> if d = 0 then ws_interval schedule else d) (ws_maximum_backoff schedule)
           | _ \<Rightarrow> 0)
      | ShuttingDown \<Rightarrow> 0)"

definition delays_exact :: "worker_runnable \<Rightarrow> (scheduled_outcome \<times> duration) list \<Rightarrow> bool" where
  "delays_exact r os \<longleftrightarrow>
     (\<forall>n < length os. snd (os ! n) = expected_delay r (failures_since_success (take n os)) (fst (os ! n)))"

lemma delays_exact_snoc:
  "delays_exact r (os @ [od]) \<longleftrightarrow>
     delays_exact r os \<and> snd od = expected_delay r (failures_since_success os) (fst od)"
  by (auto simp: delays_exact_def nth_append less_Suc_eq)

lemma outcomes_simps [simp]:
  "outcomes [] = []" "outcomes (es @ fs) = outcomes es @ outcomes fs"
  "outcomes (LgOutcome outcome delay # es) = (outcome, delay) # outcomes es"
  "outcomes (LgAcquired token # es) = outcomes es" "outcomes (LgCycleStarted t # es) = outcomes es"
  "outcomes (LgCycleCancelled # es) = outcomes es" "outcomes (LgCycleEnded # es) = outcomes es"
  "outcomes (LgRenewed a # es) = outcomes es" "outcomes (LgReleased a # es) = outcomes es"
  "outcomes (LgAborted # es) = outcomes es"
  by (simp_all add: outcomes_def)

lemma failures_snoc [simp]:
  "failures_since_success [] = 0"
  "failures_since_success (os @ [od]) = count_failure (failures_since_success os) od"
  by (simp_all add: failures_since_success_def)

lemma take_backoff_exponential:
  assumes "backoff_valid r"
  shows "take_backoff (exponential_backoff r k) (snd (backoff_range r)) =
    (exponential_backoff r k, exponential_backoff r (Suc k))"
proof -
  obtain i m where r: "backoff_range r = (i, m)" by fastforce
  then have m: "m \<le> duration_max" using assms by (simp add: backoff_valid_def)
  have "min (unwrap_or m (checked_mul duration_max (min (i * 2 ^ k) m) 2)) m = min (i * 2 ^ Suc k) m"
  proof (cases "i * 2 ^ k \<le> m")
    case True
    then show ?thesis using m by (auto simp: checked_mul_def)
  next
    case False
    then show ?thesis using m by (auto simp: checked_mul_def)
  qed
  then show ?thesis by (simp add: take_backoff_def exponential_backoff_def r)
qed

definition backoff_inv :: "supervised \<Rightarrow> bool" where
  "backoff_inv v \<longleftrightarrow> (backoff_valid (sv_runnable v) \<longrightarrow>
     delays_exact (sv_runnable v) (outcomes (sv_log v))
     \<and> sv_backoff v = exponential_backoff (sv_runnable v) (failures_since_success (outcomes (sv_log v))))"

lemma backoff_quiet: "backoff_inv v \<Longrightarrow> outcomes es = [] \<Longrightarrow> backoff_inv (move p es v)"
  by (simp add: backoff_inv_def)

lemma backoff_settle:
  assumes "backoff_inv v" and r: "sv_runnable v = RunScheduled schedule lease"
    and "settle_cycle schedule now outcome (v, h) = (v', h')"
  shows "backoff_inv v'"
proof (cases "backoff_valid (sv_runnable v)")
  case True
  then have inv: "delays_exact (sv_runnable v) (outcomes (sv_log v))"
    "sv_backoff v = exponential_backoff (sv_runnable v) (failures_since_success (outcomes (sv_log v)))"
    using assms(1) by (auto simp: backoff_inv_def)
  have "exponential_backoff (sv_runnable v) 0 = ws_initial_backoff schedule"
    using True by (simp add: exponential_backoff_def backoff_valid_def r)
  moreover note take_backoff_exponential [OF True]
  ultimately show ?thesis using assms(3) inv
    by (cases outcome)
      (auto simp: settle_cycle_def backoff_inv_def r delays_exact_snoc expected_delay_def count_failure_def
        Let_def opt_filter_def split: option.splits if_splits)
next
  case False
  moreover have "sv_runnable v' = sv_runnable v" using settle_cycle_cases [OF assms(3)] by simp
  ultimately show ?thesis by (simp add: backoff_inv_def)
qed


lemma backoff_settle_move:
  "settle_cycle schedule now outcome (move p es v, h) = (v', h') \<Longrightarrow> backoff_inv v \<Longrightarrow>
     sv_runnable v = RunScheduled schedule lease \<Longrightarrow> outcomes es = [] \<Longrightarrow> backoff_inv v'"
  by (rule backoff_settle [of "move p es v" schedule lease]) (auto intro: backoff_quiet)

lemma move_move [simp]: "move p es (move q fs v) = move p (fs @ es) v"
  by (simp add: move_def)

lemma backoff_cycle_over:
  "cycle_over schedule now token outcome (v, h) = (v', h') \<Longrightarrow> backoff_inv v \<Longrightarrow>
     sv_runnable v = RunScheduled schedule lease \<Longrightarrow> backoff_inv v'"
  by (cases token) (auto simp: cycle_over_def intro: backoff_quiet elim: backoff_settle_move)

lemma backoff_scheduled:
  assumes v: "backoff_inv v" and r: "sv_runnable v = RunScheduled schedule lease"
    and step: "scheduled_step cancelled now schedule lease ev v h = Some (v', h')"
  shows "backoff_inv v'"
  using step v r
  by (cases "sv_phase v"; cases ev; simp add: scheduled_step_def start_cycle_def split: if_splits option.splits
        lease_answer.splits sum.splits)
     (auto intro: backoff_quiet elim: backoff_settle_move backoff_settle [rotated 2] backoff_cycle_over)

lemma backoff_daemon:
  assumes v: "backoff_inv v" and r: "sv_runnable v = RunDaemon restart"
    and step: "daemon_step cancelled now restart ev v h = Some (v', h')"
  shows "backoff_inv v'"
proof (cases "\<exists>token answer. sv_phase v = WpCycle token \<and> ev = EvCycle answer")
  case True
  then obtain token answer where ev: "sv_phase v = WpCycle token" "ev = EvCycle answer" by blast
  show ?thesis
  proof (cases "backoff_valid (sv_runnable v)")
    case valid: True
    show ?thesis using step ev take_backoff_exponential [OF valid] v valid
      by (auto simp: daemon_step_def backoff_inv_def r delays_exact_snoc expected_delay_def count_failure_def)
  next
    case False
    with step ev r show ?thesis by (auto simp: daemon_step_def backoff_inv_def take_backoff_def)
  qed
next
  case False
  with step v show ?thesis
    by (cases "sv_phase v"; cases ev; simp add: daemon_step_def start_cycle_def split: if_splits)
      (auto intro: backoff_quiet)
qed

text \<open>
  C33. Every delay of every worker is the exact one: the interval after a success, the hint of the lease
  store after a busy lease, capped by the maximal backoff, and after a failure the initial backoff
  doubled for every failure since the last success, capped by the maximum and without overflow. A busy
  lease does not reset the backoff.
\<close>

theorem worker_delays_exact:
  assumes "supervisor_reachable c0 s" and "i < length (su_workers s)"
    and "backoff_valid (sv_runnable (su_workers s ! i))"
  shows "delays_exact (sv_runnable (su_workers s ! i)) (outcomes (sv_log (su_workers s ! i)))"
proof -
  have "backoff_inv (su_workers s ! i)"
  proof (rule workers_invariant [where I = backoff_inv, OF _ _ _ assms(1,2)])
    fix r show "backoff_inv (spawned r)"
      by (cases "wr_runnable r")
        (auto simp: backoff_inv_def spawned_def delays_exact_def exponential_backoff_def backoff_valid_def)
  next
    show "worker_step c now ev v h = Some (v', h') \<Longrightarrow> backoff_inv v \<Longrightarrow> backoff_inv v'" for c now ev v h v' h'
      by (cases "sv_runnable v") (auto simp: worker_step_def intro: backoff_scheduled backoff_daemon)
  next
    show "backoff_inv v \<Longrightarrow> backoff_inv (abort v)" for v
      by (auto simp: abort_def intro: backoff_quiet)
  qed
  with assms(3) show ?thesis by (simp add: backoff_inv_def)
qed

section \<open>Shutdown\<close>

definition health_over :: "health_registry \<Rightarrow> bool" where
  "health_over h \<longleftrightarrow> list_all (\<lambda>(key, e). wh_state (he_snapshot e) \<in> {WrStopped, WrDisabled}) h"

definition owned :: "supervisor \<Rightarrow> nat set" where
  "owned s = set (su_handles s) \<union> \<Union> (set ` set (su_joining s))"

definition shutdown_inv :: "supervisor \<Rightarrow> bool" where
  "shutdown_inv s \<longleftrightarrow>
     (\<forall>i < length (su_workers s). \<not> finished (su_workers s ! i) \<longrightarrow> i \<in> owned s)
     \<and> (su_handles s = [] \<and> su_joining s = [] \<longrightarrow> health_over (su_health s))
     \<and> (\<not> su_started s \<longrightarrow> su_workers s = [] \<and> su_handles s = [])"

lemma health_over_stop_all: "health_over (health_stop_all h)"
  by (auto simp: health_over_def health_stop_all_def list_all_iff)

lemma health_over_disabled: "health_over (health_install [] disabled)"
proof -
  have "(\<forall>p \<in> set m. wh_state (he_snapshot (snd p)) = WrDisabled) \<Longrightarrow>
      (\<forall>p \<in> set ps. wh_state (he_snapshot (snd p)) = WrDisabled) \<Longrightarrow>
      \<forall>p \<in> set (bt_extend m ps). wh_state (he_snapshot (snd p)) = WrDisabled"
    for m ps :: health_registry
  proof (induction ps arbitrary: m)
    case (Cons p ps)
    have "\<forall>q \<in> set (bt_insert (fst p) (snd p) m). wh_state (he_snapshot (snd q)) = WrDisabled"
      using Cons.prems set_bt_insert_sub [of "fst p" "snd p" m] by auto
    with Cons show ?case by (simp add: bt_extend_def)
  qed (simp add: bt_extend_def)
  from this [of "[]"] show ?thesis
    by (force simp: health_over_def health_install_def list_all_iff empty_snapshot_def)
qed

lemma shutdown_inv_join:
  assumes inv: "shutdown_inv s" and c: "c < length (su_joining s)"
    and join: "shutdown_join deadline_passed c s = Some t"
  shows "shutdown_inv t"
proof -
  obtain i rest where q: "su_joining s ! c = i # rest"
    using join by (auto simp: shutdown_join_def split: list.splits)
  have owned: "owned s \<subseteq> insert i (set (su_handles s) \<union> \<Union> (set ` set ((su_joining s)[c := rest])))"
  proof
    fix j assume j: "j \<in> owned s"
    then have "j \<in> set (su_handles s) \<or> (\<exists>l \<in> set (su_joining s). j \<in> set l)" by (auto simp: owned_def)
    then consider "j \<in> set (su_handles s)" | d where "d < length (su_joining s)" "j \<in> set (su_joining s ! d)"
      by (metis in_set_conv_nth)
    then show "j \<in> insert i (set (su_handles s) \<union> \<Union> (set ` set ((su_joining s)[c := rest])))"
    proof cases
      case (2 d)
      then have "j = i \<or> j \<in> set ((su_joining s)[c := rest] ! d)" using q by (cases "d = c") auto
      moreover have "(su_joining s)[c := rest] ! d \<in> set ((su_joining s)[c := rest])"
        using 2(1) by (intro nth_mem) simp
      ultimately show ?thesis by blast
    qed simp
  qed
  have over: "finished (su_workers t ! i)" if "i < length (su_workers s)"
    using join q that by (auto simp: shutdown_join_def split: if_splits)
  have kept: "su_workers t ! j = su_workers s ! j" if "j \<noteq> i" for j
    using join q that by (auto simp: shutdown_join_def split: if_splits)
  have fields: "su_joining t = (su_joining s)[c := rest]" "su_handles t = su_handles s" "su_health t = su_health s"
    "su_started t = su_started s" "length (su_workers t) = length (su_workers s)"
    using join q by (auto simp: shutdown_join_def split: if_splits)
  have "su_joining t \<noteq> []" using c fields(1) by (cases "su_joining s") (auto split: nat.splits)
  moreover have "j \<in> owned t" if "j < length (su_workers t)" "\<not> finished (su_workers t ! j)" for j
  proof -
    have "j \<noteq> i" using that over fields(5) by auto
    with that kept fields(5) inv have "j \<in> owned s" by (auto simp: shutdown_inv_def)
    with \<open>j \<noteq> i\<close> owned fields show ?thesis by (auto simp: owned_def)
  qed
  moreover have "su_workers t = []" if "su_workers s = []" using fields(5) that by simp
  ultimately show ?thesis using inv fields by (auto simp: shutdown_inv_def)
qed

lemma shutdown_inv_end:
  assumes "shutdown_inv s" and "c < length (su_joining s)" and "shutdown_end c s = Some t"
  shows "shutdown_inv t"
proof -
  have "su_joining s ! c = []" using assms(3) by (auto simp: shutdown_end_def split: if_splits)
  with id_take_nth_drop [OF assms(2)]
  have eq: "su_joining s = take c (su_joining s) @ [] # drop (Suc c) (su_joining s)" by simp
  have "set (su_joining s) = insert [] (set (take c (su_joining s) @ drop (Suc c) (su_joining s)))"
    using arg_cong [OF eq, of set] by simp
  then have "\<Union> (set ` set (su_joining s)) = \<Union> (set ` set (take c (su_joining s) @ drop (Suc c) (su_joining s)))"
    by simp
  with assms show ?thesis
    by (auto simp: shutdown_end_def shutdown_inv_def owned_def health_over_stop_all split: if_splits)
qed

lemma shutdown_inv_work:
  assumes inv: "shutdown_inv s" and i: "i < length (su_workers s)"
    and step: "worker_step (su_cancelled s) now ev (su_workers s ! i) (su_health s) = Some (v, h)"
  shows "shutdown_inv (s\<lparr>su_workers := (su_workers s)[i := v], su_health := h\<rparr>)"
proof -
  have "\<not> finished (su_workers s ! i)" using step worker_step_finished by fastforce
  then have "i \<in> owned s" using inv i by (auto simp: shutdown_inv_def)
  then have "su_handles s \<noteq> [] \<or> su_joining s \<noteq> []" by (auto simp: owned_def)
  moreover have "j \<in> owned s" if "j < length (su_workers s)" "\<not> finished ((su_workers s)[i := v] ! j)" for j
    using that inv \<open>i \<in> owned s\<close> by (cases "j = i") (auto simp: shutdown_inv_def)
  ultimately show ?thesis using inv by (auto simp: shutdown_inv_def owned_def)
qed

lemma shutdown_inv_start:
  assumes inv: "shutdown_inv s"
  shows "shutdown_inv (fst (supervisor_start has_runtime plan s))"
proof (rule start_cases [of has_runtime plan s])
  fix e assume "supervisor_start has_runtime plan s = (s, Inl e)"
  with inv show ?thesis by simp
next
  fix p assume p: "\<not> su_started s"
    "supervisor_start has_runtime plan s =
      (let vs = map (spawned \<circ> snd) (pl_registrations p); n = length (su_workers s)
       in (s\<lparr>su_started := True, su_health := health_install (pl_registrations p) (pl_disabled p),
             su_workers := su_workers s @ vs, su_handles := [n ..< n + length vs]\<rparr>, Inr ()))"
  then have "su_workers s = []" using inv by (simp add: shutdown_inv_def)
  with p(2) show ?thesis
    by (cases "pl_registrations p") (auto simp: shutdown_inv_def owned_def Let_def health_over_disabled)
qed

lemma shutdown_inv_drop:
  assumes inv: "shutdown_inv s"
  shows "shutdown_inv (supervisor_drop s)"
proof -
  have "i \<in> owned s" if "i < length (su_workers s)" "\<not> finished (su_workers (supervisor_drop s) ! i)" for i
  proof -
    have "\<not> finished (su_workers s ! i)"
      using that by (auto simp: supervisor_drop_def fold_abort(2) [OF that(1)] split: if_splits)
    with that(1) inv show ?thesis by (simp add: shutdown_inv_def)
  qed
  moreover have "length (su_workers (supervisor_drop s)) = length (su_workers s)"
    "owned (supervisor_drop s) = owned s" "health_over (su_health (supervisor_drop s))"
    "su_started (supervisor_drop s) = su_started s" "su_handles (supervisor_drop s) = su_handles s"
    by (simp_all add: supervisor_drop_def fold_abort owned_def health_over_stop_all)
  ultimately show ?thesis
    using inv by (auto simp: shutdown_inv_def simp flip: length_0_conv)
qed

lemma shutdown_inv_reachable: "supervisor_reachable c0 s \<Longrightarrow> shutdown_inv s"
proof (induction rule: supervisor_reachable.induct)
  case sr_new
  then show ?case by (simp add: shutdown_inv_def supervisor_new_def health_over_def)
next
  case (sr_start s has_runtime plan)
  show ?case by (rule shutdown_inv_start [OF sr_start.IH])
next
  case (sr_cancel s)
  then show ?case by (simp add: shutdown_inv_def owned_def)
next
  case (sr_work s i now ev v h)
  show ?case by (rule shutdown_inv_work [OF sr_work.IH sr_work.hyps(2,3)])
next
  case (sr_shutdown s)
  then show ?case by (auto simp: shutdown_inv_def shutdown_begin_def owned_def)
next
  case (sr_join s c deadline_passed t)
  show ?case by (rule shutdown_inv_join [OF sr_join.IH sr_join.hyps(2,3)])
next
  case (sr_end s c t)
  show ?case by (rule shutdown_inv_end [OF sr_end.IH sr_end.hyps(2,3)])
next
  case (sr_drop s)
  show ?case by (rule shutdown_inv_drop [OF sr_drop.IH])
qed


section \<open>Witnesses\<close>

definition sample_worker_plan :: "worker_contribution list" where
  "sample_worker_plan =
     ContributedRegistration \<lparr>wr_id = WorkerId OAuthRefresh ''openai'',
       wr_runnable = RunScheduled \<lparr>ws_interval = 60, ws_initial_backoff = 5, ws_maximum_backoff = 8,
           ws_leader_lease_ttl = 30, ws_leader_lease_renewal_interval = 10\<rparr>
         (Some \<lparr>wl_worker = WorkerId OAuthRefresh ''openai'', wl_ttl = 30\<rparr>)\<rparr>
     # map (\<lambda>k. ContributedRegistration \<lparr>wr_id = WorkerId k ''host'',
              wr_runnable = RunDaemon \<lparr>dr_initial_backoff = 1, dr_maximum_backoff = 8\<rparr>\<rparr>)
         [QuotaCatalogHealth, RuntimeSnapshotReconciliation, RuntimeChangeSubscription,
          StaleModelRequestRecovery, Retention, Backup, AccountImport, AccountFreezeRecovery]
     @ [ContributedDisabled OpsFlush NoBufferedOpsEvents,
        ContributedDisabled AccountSlotReconciliation AccountSlotsDisabled]"

definition sample_supervisor :: supervisor where
  "sample_supervisor = fst (supervisor_start True sample_worker_plan (supervisor_new False))"

text \<open>One worker on its own, over a list of events.\<close>

primrec work_run ::
  "bool \<Rightarrow> (systime \<times> worker_event) list \<Rightarrow> supervised \<times> health_registry \<Rightarrow> (supervised \<times> health_registry) option" where
  "work_run c [] vh = Some vh"
| "work_run c (e # es) vh = Option.bind (worker_step c (fst e) (snd e) (fst vh) (snd vh)) (work_run c es)"

lemma work_run_reachable:
  "work_run (su_cancelled s) es (su_workers s ! i, su_health s) = Some (v, h) \<Longrightarrow> supervisor_reachable c0 s \<Longrightarrow>
     i < length (su_workers s) \<Longrightarrow>
     supervisor_reachable c0 (s\<lparr>su_workers := (su_workers s)[i := v], su_health := h\<rparr>)"
proof (induction es arbitrary: s)
  case Nil
  have "s\<lparr>su_workers := (su_workers s)[i := su_workers s ! i], su_health := su_health s\<rparr> = s" by simp
  with Nil show ?case by auto
next
  case (Cons e es)
  from Cons.prems(1) obtain w k where
    step: "worker_step (su_cancelled s) (fst e) (snd e) (su_workers s ! i) (su_health s) = Some (w, k)"
    and run: "work_run (su_cancelled s) es (w, k) = Some (v, h)"
    by (auto simp: bind_eq_Some_conv)
  show ?case
    using Cons.IH [of "s\<lparr>su_workers := (su_workers s)[i := w], su_health := k\<rparr>"] run
      sr_work [OF Cons.prems(2,3) step] Cons.prems(3) by simp
qed

primrec joins :: "nat \<Rightarrow> supervisor \<Rightarrow> supervisor option" where
  "joins 0 s = shutdown_end 0 s"
| "joins (Suc n) s = Option.bind (shutdown_join True 0 s) (joins n)"

lemma joins_reachable:
  "joins n s = Some t \<Longrightarrow> supervisor_reachable c0 s \<Longrightarrow> su_joining s \<noteq> [] \<Longrightarrow> supervisor_reachable c0 t"
proof (induction n arbitrary: s)
  case 0
  then show ?case by (auto intro: sr_end)
next
  case (Suc n)
  from Suc.prems(1) obtain u where u: "shutdown_join True 0 s = Some u" "joins n u = Some t"
    by (auto simp: bind_eq_Some_conv)
  moreover have "supervisor_reachable c0 u" using sr_join [OF Suc.prems(2) _ u(1)] Suc.prems(3) by simp
  moreover have "su_joining u \<noteq> []"
    using u(1) Suc.prems(3) by (auto simp: shutdown_join_def split: list.splits if_splits)
  ultimately show ?case using Suc.IH by blast
qed

definition sample_registrations :: "(worker_id, worker_registration) btree" where
  "sample_registrations = map (\<lambda>r. (wr_id r, r)) (registrations_of sample_worker_plan)"

lemma sample_worker_plan_accepted:
  "worker_plan_try_from sample_worker_plan =
     Inr \<lparr>pl_registrations = sample_registrations, pl_disabled = disabled_of sample_worker_plan\<rparr>"
proof -
  have "k \<in> (wid_kind \<circ> wr_id) ` set (registrations_of sample_worker_plan)
      \<union> fst ` set (disabled_of sample_worker_plan)" for k
    by (cases k) (simp_all add: sample_worker_plan_def registrations_of_def disabled_of_def)
  then have "(wid_kind \<circ> wr_id) ` set (registrations_of sample_worker_plan)
      \<union> fst ` set (disabled_of sample_worker_plan) = UNIV" by blast
  then show ?thesis
    unfolding worker_plan_accepted
    by (simp add: sample_registrations_def)
      (simp add: sample_worker_plan_def registrations_of_def disabled_of_def
        worker_registration_validate_def bt_ok_def bs_ok_def less_worker_id_def less_worker_kind_def)
qed

lemma sample_registrations_facts:
  "length sample_registrations = 9"
  "snd (sample_registrations ! 0) = \<lparr>wr_id = WorkerId OAuthRefresh ''openai'',
       wr_runnable = RunScheduled \<lparr>ws_interval = 60, ws_initial_backoff = 5, ws_maximum_backoff = 8,
           ws_leader_lease_ttl = 30, ws_leader_lease_renewal_interval = 10\<rparr>
         (Some \<lparr>wl_worker = WorkerId OAuthRefresh ''openai'', wl_ttl = 30\<rparr>)\<rparr>"
  by (simp_all add: sample_registrations_def registrations_of_def sample_worker_plan_def)

lemma sample_supervisor_fields:
  "su_workers sample_supervisor = map (spawned \<circ> snd) sample_registrations"
  "su_handles sample_supervisor = [0 ..< 9]" "su_joining sample_supervisor = []" "\<not> su_cancelled sample_supervisor"
  by (simp_all add: sample_supervisor_def supervisor_start_def start_inner_def supervisor_new_def sample_worker_plan_accepted
      sample_registrations_facts Let_def)

lemma sample_supervisor_reachable: "supervisor_reachable False sample_supervisor"
  unfolding sample_supervisor_def by (intro sr_start sr_new)

text \<open>The lease is lost to a failed renewal, and later to a failed cycle: the delays are 5 and 8.\<close>

definition sample_events :: "(systime \<times> worker_event) list" where
  "sample_events = map (Pair 0)
     [EvPoll, EvLease (LeaseAcquired (Some (WorkerFencingToken 7))), EvRenewalDue, EvGuard GuardOk, EvRenewalDue,
      EvGuard GuardTimeout, EvCycle TaskOk, EvGuard GuardOk, EvTimer, EvPoll, EvLease (LeaseBusy None), EvTimer,
      EvPoll, EvLease (LeaseAcquired (Some (WorkerFencingToken 8))), EvCycle (TaskError ''e''), EvGuard GuardOk]"

definition sample_worker :: supervised where
  "sample_worker = fst (the (work_run False sample_events (su_workers sample_supervisor ! 0, su_health sample_supervisor)))"

lemma sample_run:
  assumes "v = spawned (snd (sample_registrations ! 0))"
  shows "\<exists>w k. work_run False sample_events (v, h) = Some (w, k) \<and> sv_runnable w = sv_runnable v
    \<and> outcomes (sv_log w) =
      [(CycleFailed ''leader lease renewal timed out'', 5), (CycleBusy None, 8), (CycleFailed ''e'', 8)]"
  by (simp add: assms sample_events_def sample_registrations_facts spawned_def worker_step_def scheduled_step_def
      start_cycle_def cycle_over_def released_def settle_cycle_def take_backoff_def checked_mul_def)

lemma sample_worker_reached:
  "\<exists>k. supervisor_reachable False
     (sample_supervisor\<lparr>su_workers := (su_workers sample_supervisor)[0 := sample_worker], su_health := k\<rparr>)"
  "backoff_valid (sv_runnable sample_worker)" "map snd (outcomes (sv_log sample_worker)) = [5, 8, 8]"
proof -
  have first: "su_workers sample_supervisor ! 0 = spawned (snd (sample_registrations ! 0))"
    by (simp add: sample_supervisor_fields sample_registrations_facts(1))
  obtain w k where w: "work_run False sample_events (su_workers sample_supervisor ! 0, su_health sample_supervisor)
      = Some (w, k)" "sv_runnable w = sv_runnable (su_workers sample_supervisor ! 0)"
      "map snd (outcomes (sv_log w)) = [5, 8, 8]"
    using sample_run [OF first, of "su_health sample_supervisor"] by auto
  then have "sample_worker = w" by (simp add: sample_worker_def)
  moreover have "backoff_valid (sv_runnable w)"
    by (simp add: w(2) first sample_registrations_facts(2) spawned_def backoff_valid_def)
  ultimately show "\<exists>k. supervisor_reachable False
     (sample_supervisor\<lparr>su_workers := (su_workers sample_supervisor)[0 := sample_worker], su_health := k\<rparr>)"
    "backoff_valid (sv_runnable sample_worker)" "map snd (outcomes (sv_log sample_worker)) = [5, 8, 8]"
    using w work_run_reachable [of sample_supervisor sample_events 0 w k, OF _ sample_supervisor_reachable]
    by (auto simp: sample_supervisor_fields(1,4) sample_registrations_facts(1))
qed

theorem worker_lease_protocol_witness: "follows_protocol sample_worker"
proof -
  obtain k where "supervisor_reachable False
     (sample_supervisor\<lparr>su_workers := (su_workers sample_supervisor)[0 := sample_worker], su_health := k\<rparr>)"
    using sample_worker_reached(1) by blast
  from worker_lease_protocol [OF this, of 0] show ?thesis
    by (simp add: sample_supervisor_fields(1) sample_registrations_facts(1))
qed

theorem worker_delays_exact_witness:
  "delays_exact (sv_runnable sample_worker) (outcomes (sv_log sample_worker))
   \<and> map snd (outcomes (sv_log sample_worker)) = [5, 8, 8]"
proof -
  obtain k where "supervisor_reachable False
     (sample_supervisor\<lparr>su_workers := (su_workers sample_supervisor)[0 := sample_worker], su_health := k\<rparr>)"
    using sample_worker_reached(1) by blast
  from worker_delays_exact [OF this, of 0] show ?thesis
    by (simp add: sample_supervisor_fields(1) sample_registrations_facts(1) sample_worker_reached)
qed

definition sample_shutdown :: "supervisor option" where
  "sample_shutdown = joins 9 (shutdown_begin sample_supervisor)"

lemma sample_shutdown_fields:
  "map_option (\<lambda>s. (su_handles s, su_joining s, length (su_workers s))) sample_shutdown = Some ([], [], 9)"
proof -
  have "map_option (\<lambda>t. (su_handles t, su_joining t, length (su_workers t))) (joins (length l) s)
      = Some (su_handles s, [], length (su_workers s))" if "su_joining s = [l]" for l s
    using that
  proof (induction l arbitrary: s)
    case Nil
    then show ?case by (simp add: shutdown_end_def)
  next
    case (Cons i l)
    then show ?case
      using Cons.IH [of "s\<lparr>su_joining := [l]\<rparr>"]
        Cons.IH [of "s\<lparr>su_workers := (su_workers s)[i := abort (su_workers s ! i)], su_joining := [l]\<rparr>"]
      by (simp add: shutdown_join_def)
  qed
  from this [of "shutdown_begin sample_supervisor" "[0 ..< 9]"] show ?thesis
    by (simp add: sample_shutdown_def shutdown_begin_def sample_supervisor_fields sample_registrations_facts(1))
qed


end
