(* ===== verification/Sni.thy ===== *)
theory Sni
  imports Sse Tasks
begin

text \<open>
  \<open>gateway-host/src/slots/egress/sni.rs\<close>: how the transparent entry of an account slot finds the host
  a connection wants, from the server name of a TLS ClientHello or from a plain HTTP head. Buffers are
  byte lists; a cursor is the bytes it has not consumed.
\<close>

section \<open>Texts\<close>

text \<open>\<open>str::split_whitespace\<close> over code points.\<close>

fun words_from :: "nat list \<Rightarrow> nat list \<Rightarrow> nat list list" where
  "words_from acc [] = (if acc = [] then [] else [acc])"
| "words_from acc (c # cs) =
     (if is_whitespace c then (if acc = [] then words_from [] cs else acc # words_from [] cs)
      else words_from (acc @ [c]) cs)"

definition split_whitespace :: "string \<Rightarrow> string list" where
  "split_whitespace s = map utf8_encode (words_from [] (utf8_chars s))"

definition trim_end_dots :: "string \<Rightarrow> string" where
  "trim_end_dots s = rev (dropWhile (\<lambda>c. c = CHR ''.'') (rev s))"

definition ascii_lower :: "char \<Rightarrow> char" where
  "ascii_lower c = (if is_ascii_uppercase c then char_of (of_char c + 32 :: nat) else c)"

definition to_ascii_lowercase :: "string \<Rightarrow> string" where
  "to_ascii_lowercase s = map ascii_lower s"

definition eq_ignore_ascii_case :: "string \<Rightarrow> string \<Rightarrow> bool" where
  "eq_ignore_ascii_case s t = (to_ascii_lowercase s = to_ascii_lowercase t)"

fun has_infix :: "string \<Rightarrow> string \<Rightarrow> bool" where
  "has_infix pat [] = (pat = [])"
| "has_infix pat (c # cs) = (starts_with pat (c # cs) \<or> has_infix pat cs)"

section \<open>Cursor\<close>

text \<open>Every reader takes the bytes not consumed yet and returns what it read with the bytes left.\<close>

definition be16 :: "string \<Rightarrow> nat" where
  "be16 bs = of_char (bs ! 0) * 256 + of_char (bs ! 1)"

definition be24 :: "string \<Rightarrow> nat" where
  "be24 bs = of_char (bs ! 0) * 65536 + of_char (bs ! 1) * 256 + of_char (bs ! 2)"

definition cursor_rest :: "nat \<Rightarrow> string \<Rightarrow> (string \<times> string) option" where
  "cursor_rest count c = (if count \<le> length c then Some (take count c, drop count c) else None)"

definition cursor_skip :: "nat \<Rightarrow> string \<Rightarrow> string option" where
  "cursor_skip count c = map_option snd (cursor_rest count c)"

definition take_u8 :: "string \<Rightarrow> (nat \<times> string) option" where
  "take_u8 c = (case c of [] \<Rightarrow> None | b # r \<Rightarrow> Some (of_char b, r))"

definition take_u16 :: "string \<Rightarrow> (nat \<times> string) option" where
  "take_u16 c = map_option (\<lambda>(bs, r). (be16 bs, r)) (cursor_rest 2 c)"

lemma cursor_rest_shorter: "cursor_rest n c = Some (x, r) \<Longrightarrow> length r + n = length c"
  by (auto simp: cursor_rest_def split: if_splits)

lemma take_u8_shorter: "take_u8 c = Some (x, r) \<Longrightarrow> length r < length c"
  by (auto simp: take_u8_def split: list.splits)

lemma take_u16_shorter: "take_u16 c = Some (x, r) \<Longrightarrow> length r < length c"
  by (auto simp: take_u16_def dest!: cursor_rest_shorter)

section \<open>Hosts\<close>

definition max_host_len :: nat where "max_host_len = 255"
definition max_record_len :: nat where "max_record_len = 16 * 1024 + 5"
definition max_handshake_bytes :: nat where "max_handshake_bytes = 64 * 1024"

datatype handshake_progress = HandshakeComplete "string option" | HandshakeIncomplete

definition host_char :: "char \<Rightarrow> bool" where
  "host_char b = (is_ascii_alphanumeric b \<or> b \<in> set ''.-_:'')"

definition sanitize_host :: "string \<Rightarrow> string option" where
  "sanitize_host value =
     (let value = trim_end_dots (str_trim value)
      in if value = [] \<or> max_host_len < length value then None
         else if \<not> list_all host_char value \<or> starts_with ''.'' value \<or> has_infix ''..'' value then None
         else Some (to_ascii_lowercase value))"

definition strip_port :: "string \<Rightarrow> string" where
  "strip_port authority =
     (case strip_prefix ''['' authority of
        Some rest \<Rightarrow> hd (split_on (CHR '']'') rest)
      | None \<Rightarrow>
          (case split_once (CHR '':'') authority of
             Some (host, port) \<Rightarrow> if list_all is_ascii_digit port then host else authority
           | None \<Rightarrow> authority))"

section \<open>The ClientHello\<close>

fun first_name :: "string \<Rightarrow> string option" where
  "first_name c =
     (if length c < 3 then None
      else case take_u8 c of
        None \<Rightarrow> None
      | Some (name_type, c1) \<Rightarrow>
          (case take_u16 c1 of
             None \<Rightarrow> None
           | Some (len, c2) \<Rightarrow>
               (case cursor_rest len c2 of
                  None \<Rightarrow> None
                | Some (name, c3) \<Rightarrow>
                    if name_type = 0 then (if utf8_valid name then sanitize_host name else None)
                    else first_name (drop (3 + len) c))))"

definition server_name :: "string \<Rightarrow> string option" where
  "server_name extension =
     do { (list_len, c) \<leftarrow> take_u16 extension;
          (list, c) \<leftarrow> cursor_rest list_len c;
          first_name list }"

fun find_server_name :: "string \<Rightarrow> string option" where
  "find_server_name c =
     (if length c < 4 then None
      else case take_u16 c of
        None \<Rightarrow> None
      | Some (kind, c1) \<Rightarrow>
          (case take_u16 c1 of
             None \<Rightarrow> None
           | Some (len, c2) \<Rightarrow>
               (case cursor_rest len c2 of
                  None \<Rightarrow> None
                | Some (extension, c3) \<Rightarrow>
                    if kind = 0 then server_name extension else find_server_name (drop (4 + len) c))))"

definition parse_body :: "string \<Rightarrow> string option" where
  "parse_body body =
     do { c \<leftarrow> cursor_skip (2 + 32) body;
          (session_id, c) \<leftarrow> take_u8 c;
          c \<leftarrow> cursor_skip session_id c;
          (cipher_suites, c) \<leftarrow> take_u16 c;
          c \<leftarrow> cursor_skip cipher_suites c;
          (compression, c) \<leftarrow> take_u8 c;
          c \<leftarrow> cursor_skip compression c;
          (extensions_len, c) \<leftarrow> take_u16 c;
          (extensions, c) \<leftarrow> cursor_rest extensions_len c;
          find_server_name extensions }"

text \<open>
  The loop of \<open>handshake_payload\<close>: the payload starts behind the header of the first record and ends
  with the current record, so the headers of later records stay in it.
\<close>

function handshake_payload_from :: "string \<Rightarrow> nat \<Rightarrow> nat option \<Rightarrow> string option" where
  "handshake_payload_from buffer offset start =
     (if length buffer < offset + 5 then None
      else if buffer ! offset \<noteq> CHR 0x16 then None
      else
        let len = be16 (drop (offset + 3) buffer);
            first = (case start of None \<Rightarrow> offset + 5 | Some b \<Rightarrow> b);
            stop = offset + 5 + len
        in if max_record_len < len then None
           else if length buffer < stop then None
           else
             let payload = slice first stop buffer
             in if 4 \<le> length payload \<and> 4 + be24 (drop 1 payload) \<le> length payload then Some payload
                else handshake_payload_from buffer stop (Some first))"
  by pat_completeness auto

termination
  by (relation "measure (\<lambda>(buffer, offset, start). length buffer - offset)") auto

declare handshake_payload_from.simps [simp del] first_name.simps [simp del] find_server_name.simps [simp del]

definition handshake_payload :: "string \<Rightarrow> string option" where
  "handshake_payload buffer = handshake_payload_from buffer 0 None"

definition parse_client_hello :: "string \<Rightarrow> handshake_progress" where
  "parse_client_hello buffer =
     (case handshake_payload buffer of
        None \<Rightarrow> HandshakeIncomplete
      | Some payload \<Rightarrow>
          if length payload < 4 then HandshakeIncomplete
          else if payload ! 0 \<noteq> CHR 0x01 then HandshakeComplete None
          else
            let declared = be24 (drop 1 payload); payload = drop 4 payload
            in if length payload < declared then HandshakeIncomplete
               else HandshakeComplete (parse_body (take declared payload)))"

section \<open>The HTTP head\<close>

definition crlf :: string where "crlf = [CHR 0x0D, CHR 0x0A]"

definition find_header_end :: "string \<Rightarrow> nat option" where
  "find_header_end buffer = map_option (\<lambda>i. i + 2) (window_position crlf_crlf buffer)"

fun host_header :: "string list \<Rightarrow> string option" where
  "host_header [] = None"
| "host_header (h # hs) =
     (case split_once (CHR '':'') h of
        None \<Rightarrow> host_header hs
      | Some (name, value) \<Rightarrow>
          if eq_ignore_ascii_case (str_trim name) ''host'' then sanitize_host (strip_port (str_trim value))
          else host_header hs)"

definition parse_http_head :: "string \<Rightarrow> string option" where
  "parse_http_head head =
     (if \<not> utf8_valid head then None
      else case str_lines head of
        [] \<Rightarrow> None
      | line # _ \<Rightarrow>
          (case split_whitespace line of
             [] \<Rightarrow> None
           | method # parts \<Rightarrow>
               if eq_ignore_ascii_case method ''CONNECT'' then
                 (case parts of [] \<Rightarrow> None | authority # _ \<Rightarrow> sanitize_host (strip_port authority))
               else host_header (str_lines (drop (length line) head))))"

definition parse_http_host :: "string \<Rightarrow> handshake_progress" where
  "parse_http_host buffer =
     (case find_header_end buffer of
        None \<Rightarrow> if max_handshake_bytes \<le> length buffer then HandshakeComplete None else HandshakeIncomplete
      | Some e \<Rightarrow> HandshakeComplete (parse_http_head (take e buffer)))"

end
