(* ===== verification/Dial.thy ===== *)
theory Dial
  imports Sni
begin

text \<open>
  \<open>gateway-host/src/slots/egress/dial.rs\<close> and \<open>transport.rs\<close>: the connection of an account slot through
  its outbound proxy. A connection to the proxy is what was written to it, what it will still send and,
  per operation that may wait, whether that operation succeeds, fails or runs into the deadline, after
  how many bytes. Reads from the client are a list of their results. The \<open>url\<close> crate and the name
  resolution of the host are arguments.
\<close>

section \<open>The connection to the proxy\<close>

datatype ip_addr = IpV4 string | IpV6 string

record dial_target =
  dt_host :: string
  dt_port :: nat

datatype dial_error =
    DialInvalidProxy
  | DialTlsProxyUnsupported
  | DialInvalidTarget
  | DialResolveFailed
  | DialProxyRejected
  | DialTimeout
  | DialIo

text \<open>The URL of the proxy as \<open>Url\<close> reports it; the host of an IPv6 address has its brackets.\<close>

record proxy_endpoint =
  pe_scheme :: string
  pe_host :: "string option"
  pe_port :: "nat option"
  pe_username :: string
  pe_password :: "string option"

datatype io_answer = IoOk | IoFails nat | IoDeadline nat

record connection =
  cn_written :: string
  cn_incoming :: string
  cn_script :: "io_answer list"

type_synonym 'a io = "connection \<Rightarrow> connection \<times> (dial_error + 'a)"

definition io_return :: "'a \<Rightarrow> 'a io" where
  "io_return x c = (c, Inr x)"

definition io_error :: "dial_error \<Rightarrow> 'a io" where
  "io_error e c = (c, Inl e)"

definition io_bind :: "'a io \<Rightarrow> ('a \<Rightarrow> 'b io) \<Rightarrow> 'b io" where
  "io_bind m f c = (case m c of (c, Inl e) \<Rightarrow> (c, Inl e) | (c, Inr x) \<Rightarrow> f x c)"

text \<open>An operation that writes \<open>bs\<close>, of which a failure or the deadline may cut off the end.\<close>

definition write_all :: "string \<Rightarrow> unit io" where
  "write_all bs c =
     (case cn_script c of
        [] \<Rightarrow> (c, Inl DialTimeout)
      | IoOk # s \<Rightarrow> (c\<lparr>cn_script := s, cn_written := cn_written c @ bs\<rparr>, Inr ())
      | IoFails n # s \<Rightarrow> (c\<lparr>cn_script := s, cn_written := cn_written c @ take n bs\<rparr>, Inl DialIo)
      | IoDeadline n # s \<Rightarrow> (c\<lparr>cn_script := s, cn_written := cn_written c @ take n bs\<rparr>, Inl DialTimeout))"

definition read_exact :: "nat \<Rightarrow> string io" where
  "read_exact n c =
     (case cn_script c of
        [] \<Rightarrow> (c, Inl DialTimeout)
      | IoOk # s \<Rightarrow>
          if n \<le> length (cn_incoming c)
          then (c\<lparr>cn_script := s, cn_incoming := drop n (cn_incoming c)\<rparr>, Inr (take n (cn_incoming c)))
          else (c\<lparr>cn_script := s, cn_incoming := []\<rparr>, Inl DialIo)
      | IoFails _ # s \<Rightarrow> (c\<lparr>cn_script := s\<rparr>, Inl DialIo)
      | IoDeadline _ # s \<Rightarrow> (c\<lparr>cn_script := s\<rparr>, Inl DialTimeout))"

definition io_wait :: "unit io" where
  "io_wait = write_all []"

section \<open>Requests to the proxy\<close>

definition validate_scheme :: "string \<Rightarrow> dial_error + unit" where
  "validate_scheme scheme =
     (if scheme \<in> {''socks5'', ''socks5h'', ''http''} then Inr ()
      else if scheme = ''https'' then Inl DialTlsProxyUnsupported
      else Inl DialInvalidProxy)"

definition endpoint_authority :: "proxy_endpoint \<Rightarrow> dial_error + string" where
  "endpoint_authority url =
     (case (pe_host url, pe_port url) of
        (Some host, Some port) \<Rightarrow> Inr (host @ '':'' @ nat_str port)
      | _ \<Rightarrow> Inl DialInvalidProxy)"

definition credentials :: "proxy_endpoint \<Rightarrow> string option \<times> string option" where
  "credentials url = (if pe_username url = [] then None else Some (pe_username url), pe_password url)"

definition base64_alphabet :: string where
  "base64_alphabet = ''ABCDEFGHIJKLMNOPQRSTUVWXYZabcdefghijklmnopqrstuvwxyz0123456789+/''"

definition base64_char :: "nat \<Rightarrow> char" where
  "base64_char n = base64_alphabet ! (n mod 64)"

definition base64_block :: "nat \<Rightarrow> nat \<Rightarrow> nat \<Rightarrow> nat" where
  "base64_block a b c = a * 65536 + b * 256 + c"

fun base64_bytes :: "string \<Rightarrow> string" where
  "base64_bytes [] = []"
| "base64_bytes [a] =
     (let bits = base64_block (of_char a) 0 0
      in [base64_char (bits div 262144), base64_char (bits div 4096), CHR ''='', CHR ''=''])"
| "base64_bytes [a, b] =
     (let bits = base64_block (of_char a) (of_char b) 0
      in [base64_char (bits div 262144), base64_char (bits div 4096), base64_char (bits div 64), CHR ''=''])"
| "base64_bytes (a # b # c # r) =
     (let bits = base64_block (of_char a) (of_char b) (of_char c)
      in [base64_char (bits div 262144), base64_char (bits div 4096), base64_char (bits div 64), base64_char bits]
         @ base64_bytes r)"

definition base64 :: "string \<Rightarrow> string \<Rightarrow> string" where
  "base64 user password = base64_bytes (user @ '':'' @ password)"

definition connect_authority :: "dial_target \<Rightarrow> string" where
  "connect_authority target =
     (if CHR '':'' \<in> set (dt_host target) then ''['' @ dt_host target @ '']:'' @ nat_str (dt_port target)
      else dt_host target @ '':'' @ nat_str (dt_port target))"

definition connect_request :: "dial_target \<Rightarrow> proxy_endpoint \<Rightarrow> string" where
  "connect_request target url =
     ''CONNECT '' @ connect_authority target @ '' HTTP/1.1'' @ crlf @ ''Host: '' @ connect_authority target @ crlf
     @ ''Proxy-Connection: keep-alive'' @ crlf
     @ (case credentials url of
          (Some user, Some password) \<Rightarrow> ''Proxy-Authorization: Basic '' @ base64 user password @ crlf
        | _ \<Rightarrow> [])
     @ crlf"

definition max_handshake_reply :: nat where "max_handshake_reply = 8 * 1024"

primrec read_head :: "nat \<Rightarrow> string \<Rightarrow> string io" where
  "read_head 0 buffer = io_error DialProxyRejected"
| "read_head (Suc n) buffer =
     io_bind (read_exact 1) (\<lambda>byte.
       let buffer = buffer @ byte
       in if drop (length buffer - 4) buffer = crlf_crlf then io_return buffer else read_head n buffer)"

definition read_until_headers_end :: "string io" where
  "read_until_headers_end = read_head max_handshake_reply []"

definition parse_u16 :: "string \<Rightarrow> nat option" where
  "parse_u16 s = opt_filter (\<lambda>n. n \<le> u16_max) (parse_u64 s)"

definition reply_status :: "string \<Rightarrow> nat option" where
  "reply_status reply =
     (if \<not> utf8_valid reply then None
      else case split_whitespace reply of _ # code # _ \<Rightarrow> parse_u16 code | _ \<Rightarrow> None)"

definition http_connect :: "dial_target \<Rightarrow> proxy_endpoint \<Rightarrow> unit io" where
  "http_connect target url =
     io_bind (write_all (connect_request target url)) (\<lambda>_.
     io_bind read_until_headers_end (\<lambda>reply.
     if reply_status reply = Some 200 then io_return () else io_error DialProxyRejected))"

section \<open>SOCKS5\<close>

definition u16_bytes :: "nat \<Rightarrow> string" where
  "u16_bytes n = [char_of (n div 256), char_of n]"

definition socks5_authenticate :: "string option \<Rightarrow> string option \<Rightarrow> unit io" where
  "socks5_authenticate user password =
     (case (user, password) of
        (Some user, Some password) \<Rightarrow>
          if 255 < length user \<or> 255 < length password then io_error DialInvalidProxy
          else
            io_bind (write_all ([CHR 0x01, char_of (length user)] @ user @ [char_of (length password)] @ password)) (\<lambda>_.
            io_bind (read_exact 2) (\<lambda>reply.
            if reply ! 1 \<noteq> CHR 0x00 then io_error DialProxyRejected else io_return ()))
      | _ \<Rightarrow> io_error DialProxyRejected)"

definition socks5_address :: "ip_addr list option \<Rightarrow> bool \<Rightarrow> string \<Rightarrow> string io" where
  "socks5_address resolved remote_dns host =
     (if remote_dns then
        if 255 < length host then io_error DialInvalidTarget
        else io_return ([CHR 0x03, char_of (length host)] @ host)
      else
        io_bind io_wait (\<lambda>_.
        case resolved of
          None \<Rightarrow> io_error DialResolveFailed
        | Some addresses \<Rightarrow>
            (case find (\<lambda>a. case a of IpV4 _ \<Rightarrow> True | IpV6 _ \<Rightarrow> False) addresses of
               Some (IpV4 octets) \<Rightarrow> io_return (CHR 0x01 # octets)
             | _ \<Rightarrow> io_error DialResolveFailed)))"

definition socks5_bound :: "string \<Rightarrow> unit io" where
  "socks5_bound header =
     (if header ! 3 = CHR 0x01 then io_bind (read_exact 6) (\<lambda>_. io_return ())
      else if header ! 3 = CHR 0x04 then io_bind (read_exact 18) (\<lambda>_. io_return ())
      else if header ! 3 = CHR 0x03 then
        io_bind (read_exact 1) (\<lambda>len. io_bind (read_exact (of_char (len ! 0) + 2)) (\<lambda>_. io_return ()))
      else io_error DialProxyRejected)"

definition socks5 ::
  "ip_addr list option \<Rightarrow> dial_target \<Rightarrow> bool \<Rightarrow> proxy_endpoint \<Rightarrow> unit io" where
  "socks5 resolved target remote_dns url =
     (case credentials url of (user, password) \<Rightarrow>
      let methods = (if user \<noteq> None \<and> password \<noteq> None then [CHR 0x00, CHR 0x02] else [CHR 0x00])
      in
      io_bind (write_all ([CHR 0x05, char_of (length methods)] @ methods)) (\<lambda>_.
      io_bind (read_exact 2) (\<lambda>choice.
      if choice ! 0 \<noteq> CHR 0x05 \<or> choice ! 1 = CHR 0xFF then io_error DialProxyRejected
      else
        io_bind (if choice ! 1 = CHR 0x00 then io_return ()
                 else if choice ! 1 = CHR 0x02 then socks5_authenticate user password
                 else io_error DialProxyRejected) (\<lambda>_.
        io_bind (socks5_address resolved remote_dns (dt_host target)) (\<lambda>address.
        io_bind (write_all ([CHR 0x05, CHR 0x01, CHR 0x00] @ address @ u16_bytes (dt_port target))) (\<lambda>_.
        io_bind (read_exact 4) (\<lambda>header.
        if header ! 1 \<noteq> CHR 0x00 then io_error DialProxyRejected else socks5_bound header)))))))"

text \<open>
  What the world answers while a target is dialled: the addresses of the proxy's peer are those of
  \<open>authority\<close>, so the connection is opened to it and to nothing else.
\<close>

record dial_world =
  dw_url :: "string \<Rightarrow> proxy_endpoint option"
  dw_resolved :: "dial_target \<Rightarrow> ip_addr list option"
  dw_incoming :: string
  dw_script :: "io_answer list"

definition fresh_connection :: "dial_world \<Rightarrow> connection" where
  "fresh_connection w = \<lparr>cn_written = [], cn_incoming = dw_incoming w, cn_script = dw_script w\<rparr>"

text \<open>The result carries the peer and the connection, if one was opened.\<close>

definition connect_via ::
  "dial_world \<Rightarrow> outbound_proxy \<Rightarrow> dial_target \<Rightarrow> (string \<times> connection) option \<times> (dial_error + unit)" where
  "connect_via w proxy target =
     (case dw_url w (url_text (proxy_url proxy)) of
        None \<Rightarrow> (None, Inl DialInvalidProxy)
      | Some url \<Rightarrow>
          (case validate_scheme (pe_scheme url) of
             Inl e \<Rightarrow> (None, Inl e)
           | Inr _ \<Rightarrow>
               (case endpoint_authority url of
                  Inl e \<Rightarrow> (None, Inl e)
                | Inr authority \<Rightarrow>
                    let handshake =
                      (if pe_scheme url = ''http'' then http_connect target url
                       else socks5 (dw_resolved w target) target (pe_scheme url = ''socks5h'') url);
                      (c, result) = io_bind io_wait (\<lambda>_. io_bind io_wait (\<lambda>_. handshake)) (fresh_connection w)
                    in (Some (authority, c), result))))"

section \<open>The transparent entry\<close>

datatype protocol = ProtoTls | ProtoHttp

record slot_egress_config =
  sec_proxy :: "outbound_proxy option"

text \<open>One read of up to 4096 bytes from the client within the handshake deadline.\<close>

datatype client_read = ReadBytes string | ReadEof | ReadFails | ReadDeadline

definition recover_progress :: "protocol \<Rightarrow> string \<Rightarrow> handshake_progress" where
  "recover_progress p buffer = (case p of ProtoTls \<Rightarrow> parse_client_hello buffer | ProtoHttp \<Rightarrow> parse_http_host buffer)"

text \<open>\<open>Inl\<close> is the I/O error; a list of reads that ends is a client that never sends more.\<close>

fun recover_host :: "protocol \<Rightarrow> string \<Rightarrow> client_read list \<Rightarrow> unit + (string \<times> string) option" where
  "recover_host p buffer [] = Inr None"
| "recover_host p buffer (r # rs) =
     (case r of
        ReadDeadline \<Rightarrow> Inr None
      | ReadEof \<Rightarrow> Inr None
      | ReadFails \<Rightarrow> Inl ()
      | ReadBytes bs \<Rightarrow>
          let buffer = buffer @ bs
          in case recover_progress p buffer of
               HandshakeComplete (Some host) \<Rightarrow> Inr (Some (host, buffer))
             | HandshakeComplete None \<Rightarrow> Inr None
             | HandshakeIncomplete \<Rightarrow>
                 if max_handshake_bytes \<le> length buffer then Inr None else recover_host p buffer rs)"

text \<open>
  \<open>handle_connection\<close>: what was dialled, how the connection to the proxy stands when both sides are
  joined or the client is dropped, and whether they were joined. Joining copies the bytes of either
  side to the other.
\<close>

record handled =
  hd_target :: "dial_target option"
  hd_upstream :: "(string \<times> connection) option"
  hd_relayed :: bool

definition handled_none :: handled where
  "handled_none = \<lparr>hd_target = None, hd_upstream = None, hd_relayed = False\<rparr>"

definition handle_connection ::
  "dial_world \<Rightarrow> client_read list \<Rightarrow> protocol \<Rightarrow> nat \<Rightarrow> slot_egress_config \<Rightarrow> handled \<times> (unit + unit)" where
  "handle_connection w reads p port config =
     (case sec_proxy config of
        None \<Rightarrow> (handled_none, Inr ())
      | Some proxy \<Rightarrow>
          (case recover_host p [] reads of
             Inl _ \<Rightarrow> (handled_none, Inl ())
           | Inr None \<Rightarrow> (handled_none, Inr ())
           | Inr (Some (host, pending)) \<Rightarrow>
               let target = \<lparr>dt_host = host, dt_port = port\<rparr>
               in case connect_via w proxy target of
                    (up, Inl _) \<Rightarrow> (\<lparr>hd_target = Some target, hd_upstream = up, hd_relayed = False\<rparr>, Inr ())
                  | (None, Inr _) \<Rightarrow> (handled_none, Inr ())
                  | (Some (authority, c), Inr _) \<Rightarrow>
                      (case io_bind (write_all pending) (\<lambda>_. io_wait) c of
                         (c, Inl _) \<Rightarrow>
                           (\<lparr>hd_target = Some target, hd_upstream = Some (authority, c), hd_relayed = False\<rparr>, Inl ())
                       | (c, Inr _) \<Rightarrow>
                           (\<lparr>hd_target = Some target, hd_upstream = Some (authority, c), hd_relayed = True\<rparr>, Inr ()))))"

end
