(* ===== verification/Dns.thy ===== *)
theory Dns
  imports Dial "HOL-Library.Word"
begin

text \<open>
  \<open>gateway-host/src/slots/egress/dns.rs\<close> and the DNS entry of \<open>transport.rs\<close>: the view of the names an
  account slot has. A message is a byte list; the answer of the upstream resolver is an argument.
\<close>

section \<open>Names\<close>

text \<open>\<open>[T]::join\<close> with a separator text.\<close>

fun join_with :: "string \<Rightarrow> string list \<Rightarrow> string" where
  "join_with sep [] = []"
| "join_with sep [s] = s"
| "join_with sep (s # t # ss) = s @ sep @ join_with sep (t # ss)"

definition ends_with :: "string \<Rightarrow> string \<Rightarrow> bool" where
  "ends_with suffix s = starts_with (rev suffix) (rev s)"

definition intercept_suffixes :: "string list" where
  "intercept_suffixes = [''openai.com'', ''chatgpt.com'', ''oaistatic.com'', ''oaiusercontent.com'']"

definition synthetic_ttl :: nat where "synthetic_ttl = 60"
definition max_message :: nat where "max_message = 512"

record dns_question =
  dq_name :: string
  dq_qtype :: nat
  dq_qclass :: nat
  dq_end :: nat

datatype dns_error = DnsMalformed | DnsUnsupported

definition canonical_name :: "string \<Rightarrow> string" where
  "canonical_name name = to_ascii_lowercase (trim_end_dots name)"

definition intercepts :: "string \<Rightarrow> bool" where
  "intercepts name =
     (let name = canonical_name name
      in list_ex (\<lambda>suffix. name = suffix \<or> ends_with (''.'' @ suffix) name) intercept_suffixes)"

text \<open>FNV-1a over 64-bit words, which wrap.\<close>

definition fnv_step :: "64 word \<Rightarrow> char \<Rightarrow> 64 word" where
  "fnv_step hash b = Bit_Operations.xor hash (of_nat (of_char b)) * 0x100000001b3"

definition fnv1a :: "string \<Rightarrow> 64 word" where
  "fnv1a s = foldl fnv_step 0xcbf29ce484222325 s"

definition synthetic_range :: string where
  "synthetic_range = [char_of (203 :: nat), char_of (0 :: nat), char_of (113 :: nat), char_of (0 :: nat)]"

definition synthetic_address :: "string \<Rightarrow> string" where
  "synthetic_address name =
     take 3 synthetic_range @ [char_of (unat (fnv1a (canonical_name name)) mod 254 + 1)]"

section \<open>Questions\<close>

function parse_labels :: "string \<Rightarrow> nat \<Rightarrow> string list \<Rightarrow> dns_error + string list \<times> nat" where
  "parse_labels message offset labels =
     (if length message \<le> offset then Inl DnsMalformed
      else
        let len = of_char (message ! offset)
        in if len = (0 :: nat) then Inr (labels, offset + 1)
           else if Bit_Operations.and len 0xC0 \<noteq> 0 then Inl DnsMalformed
           else if length message < offset + 1 + len then Inl DnsMalformed
           else
             let label = take len (drop (offset + 1) message)
             in if \<not> utf8_valid label then Inl DnsMalformed
                else if 32 < length labels + 1 then Inl DnsMalformed
                else parse_labels message (offset + 1 + len) (labels @ [label]))"
  by pat_completeness auto

termination
  by (relation "measure (\<lambda>(message, offset, labels). length message - offset)") auto

declare parse_labels.simps [simp del]

definition parse_question :: "string \<Rightarrow> dns_error + dns_question" where
  "parse_question message =
     (if length message < 12 then Inl DnsMalformed
      else
        let flags = be16 (drop 2 message); questions = be16 (drop 4 message); answers = be16 (drop 6 message)
        in if Bit_Operations.and flags 0x8000 \<noteq> 0 \<or> questions \<noteq> 1 \<or> answers \<noteq> 0
              \<or> Bit_Operations.and flags 0x7800 \<noteq> 0
           then Inl DnsUnsupported
           else case parse_labels message 12 [] of
             Inl e \<Rightarrow> Inl e
           | Inr (labels, offset) \<Rightarrow>
               if length message < offset + 4 then Inl DnsMalformed
               else Inr \<lparr>dq_name = join_with ''.'' labels, dq_qtype = be16 (drop offset message),
                         dq_qclass = be16 (drop (offset + 2) message), dq_end = offset + 4\<rparr>)"

section \<open>Answers\<close>

definition byte_or :: "char \<Rightarrow> nat \<Rightarrow> char" where
  "byte_or b n = char_of (Bit_Operations.or (of_char b) n)"

definition byte_and :: "char \<Rightarrow> nat \<Rightarrow> char" where
  "byte_and b n = char_of (Bit_Operations.and (of_char b) n)"

definition u32_bytes :: "nat \<Rightarrow> string" where
  "u32_bytes n = [char_of (n div 16777216), char_of (n div 65536), char_of (n div 256), char_of n]"

fun address_record :: "ip_addr \<Rightarrow> nat \<times> string" where
  "address_record (IpV4 octets) = (1, octets)"
| "address_record (IpV6 octets) = (28, octets)"

definition answer_record :: "nat \<Rightarrow> nat \<Rightarrow> string \<Rightarrow> string" where
  "answer_record kind ttl octets =
     [CHR 0xC0, CHR 0x0C] @ u16_bytes kind @ u16_bytes 1 @ u32_bytes ttl
     @ u16_bytes (if length octets \<le> u16_max then length octets else 4) @ octets"

text \<open>The loop over the addresses: others than asked for are skipped, and a full message ends it.\<close>

fun add_answers :: "nat \<Rightarrow> nat \<Rightarrow> ip_addr list \<Rightarrow> string \<times> nat \<Rightarrow> string \<times> nat" where
  "add_answers qtype ttl [] acc = acc"
| "add_answers qtype ttl (a # as) acc =
     (case (address_record a, acc) of ((kind, octets), (response, written)) \<Rightarrow>
        if qtype \<noteq> 255 \<and> qtype \<noteq> kind then add_answers qtype ttl as acc
        else if max_message < length response + 16 + length octets then acc
        else add_answers qtype ttl as (response @ answer_record kind ttl octets, written + 1))"

definition truncate_to_question :: "string \<Rightarrow> dns_question \<Rightarrow> string" where
  "truncate_to_question request q =
     (if 12 \<le> dq_end q \<and> dq_end q \<le> length request then take (dq_end q - 12) (drop 12 request) else [])"

definition build_response :: "string \<Rightarrow> dns_question \<Rightarrow> ip_addr list \<Rightarrow> nat \<Rightarrow> string" where
  "build_response request q answers ttl =
     (let header = (if length request < 12 then (replicate 12 (CHR 0x00))[5 := CHR 0x01] else take 12 request);
          header = header[2 := byte_or (byte_or (header ! 2) 0x80) 0x04];
          header = header[3 := byte_and (header ! 3) 0xF0];
          header = header[6 := CHR 0x00, 7 := CHR 0x00, 8 := CHR 0x00, 9 := CHR 0x00, 10 := CHR 0x00, 11 := CHR 0x00];
          response = header @ truncate_to_question request q;
          (response, written) = (if u16_max < length answers then (response, 0)
                                 else add_answers (dq_qtype q) ttl (take 8 answers) (response, 0))
      in response[6 := char_of (written div 256), 7 := char_of written])"

definition servfail :: "string \<Rightarrow> string" where
  "servfail request =
     (if length request < 12
      then [CHR 0x00, CHR 0x00, CHR 0x80, CHR 0x02] @ replicate 8 (CHR 0x00)
      else request[2 := byte_or (request ! 2) 0x80, 3 := byte_or (byte_and (request ! 3) 0xF0) 0x02,
             6 := CHR 0x00, 7 := CHR 0x00, 8 := CHR 0x00, 9 := CHR 0x00, 10 := CHR 0x00, 11 := CHR 0x00])"

datatype dns_resolution = Synthetic "ip_addr list" | ForwardQuery

definition resolve_question :: "dns_question \<Rightarrow> dns_resolution" where
  "resolve_question q =
     (if dq_qtype q \<notin> {1, 28, 255} \<or> dq_qclass q \<noteq> 1 then Synthetic []
      else if \<not> intercepts (dq_name q) then ForwardQuery
      else if dq_qtype q = 28 then Synthetic []
      else Synthetic [IpV4 (synthetic_address (dq_name q))])"

text \<open>
  \<open>answer_query\<close>: what is sent to the upstream resolver and what the slot is answered; the upstream's
  answer is \<open>None\<close> when it failed or was late.
\<close>

definition answer_query :: "(string \<Rightarrow> string option) \<Rightarrow> string \<Rightarrow> string option \<times> string option" where
  "answer_query upstream request =
     (case parse_question request of
        Inl DnsUnsupported \<Rightarrow> (None, Some (servfail request))
      | Inl DnsMalformed \<Rightarrow> (None, None)
      | Inr q \<Rightarrow>
          (case resolve_question q of
             Synthetic addresses \<Rightarrow> (None, Some (build_response request q addresses synthetic_ttl))
           | ForwardQuery \<Rightarrow>
               (Some request, Some (case upstream request of Some response \<Rightarrow> response | None \<Rightarrow> servfail request))))"

end
