(* ===== verification/SlotNet.thy ===== *)
theory SlotNet
  imports Dns
begin

text \<open>
  \<open>gateway-host/src/slots/egress/net.rs\<close>, \<open>plan.rs\<close>, \<open>iptables.rs\<close> and \<open>manager.rs\<close>: the addresses of the
  network of an account slot, the rules that redirect its traffic, the commands that install and remove
  them, and the registry of running entries. The \<open>iptables\<close> program is an argument: a kernel state and
  what the program answers to a list of arguments in it.
\<close>

section \<open>Names and addresses\<close>

definition hex_digit :: "nat \<Rightarrow> char" where
  "hex_digit n = ''0123456789abcdef'' ! (n mod 16)"

primrec hex_fixed :: "nat \<Rightarrow> nat \<Rightarrow> string" where
  "hex_fixed 0 n = []"
| "hex_fixed (Suc w) n = hex_fixed w (n div 16) @ [hex_digit n]"

text \<open>\<open>{:0width$x}\<close> of the top \<open>digits\<close> digits, which always fit the width.\<close>

definition hex_prefix :: "64 word \<Rightarrow> nat \<Rightarrow> string" where
  "hex_prefix hash digits = hex_fixed digits (unat (drop_bit (64 - digits * 4) hash))"

definition bridge_prefix :: string where "bridge_prefix = ''cpr''"

definition bridge_name :: "string \<Rightarrow> string" where
  "bridge_name instance_id = bridge_prefix @ hex_prefix (fnv1a instance_id) 8"

type_synonym ipv4 = nat

definition octets :: "ipv4 \<Rightarrow> nat list" where
  "octets a = [a div 16777216 mod 256, a div 65536 mod 256, a div 256 mod 256, a mod 256]"

definition ipv4_new :: "nat \<Rightarrow> nat \<Rightarrow> nat \<Rightarrow> nat \<Rightarrow> ipv4" where
  "ipv4_new a b c d = a * 16777216 + b * 65536 + c * 256 + d"

definition subnet_pool :: ipv4 where "subnet_pool = ipv4_new 172 24 0 0"
definition subnet_pool_size :: nat where "subnet_pool_size = 256"

definition subnet_for :: "string \<Rightarrow> string" where
  "subnet_for instance_id =
     nat_str (octets subnet_pool ! 0) @ ''.'' @ nat_str (octets subnet_pool ! 1) @ ''.''
     @ nat_str (unat (fnv1a instance_id) mod subnet_pool_size) @ ''.0/24''"

text \<open>\<open>Ipv4Addr::from_str\<close>: four decimal octets of at most three digits without a leading zero.\<close>

definition parse_octet :: "string \<Rightarrow> nat option" where
  "parse_octet s =
     (if s = [] \<or> 3 < length s \<or> \<not> list_all is_ascii_digit s \<or> (hd s = CHR ''0'' \<and> length s \<noteq> 1)
         \<or> 255 < digits_value s
      then None else Some (digits_value s))"

definition ipv4_from_str :: "string \<Rightarrow> ipv4 option" where
  "ipv4_from_str s =
     (case map parse_octet (split_on (CHR ''.'') s) of
        [Some a, Some b, Some c, Some d] \<Rightarrow> Some (ipv4_new a b c d)
      | _ \<Rightarrow> None)"

definition parse_ipv4 :: "string \<Rightarrow> ipv4 option" where
  "parse_ipv4 value = ipv4_from_str (str_trim value)"

definition parse_ipv4_subnet :: "string \<Rightarrow> (ipv4 \<times> nat) option" where
  "parse_ipv4_subnet value =
     do { (address, prefix) \<leftarrow> split_once (CHR ''/'') value;
          address \<leftarrow> parse_ipv4 address;
          prefix \<leftarrow> opt_filter (\<lambda>n. n \<le> 255) (parse_u64 (str_trim prefix));
          (if prefix \<le> 32 then Some (address, prefix) else None) }"

definition subnet_mask :: "nat \<Rightarrow> ipv4" where
  "subnet_mask prefix =
     (if 32 \<le> prefix then u32_max else if prefix = 0 then 0 else u32_max - (2 ^ (32 - prefix) - 1))"

definition gateway_of :: "string \<Rightarrow> ipv4 option" where
  "gateway_of subnet =
     do { (address, prefix) \<leftarrow> parse_ipv4_subnet subnet;
          let mask = subnet_mask prefix;
          let network = Bit_Operations.and address mask;
          gateway \<leftarrow> checked_add u32_max network 1;
          (if Bit_Operations.and address mask = network \<and> prefix \<le> 30 then Some gateway else None) }"

section \<open>The rules of a slot\<close>

record redirect_ports =
  rp_dns :: nat
  rp_tls :: nat
  rp_http :: nat

record egress_target =
  et_bridge :: string
  et_subnet :: string
  et_ports :: redirect_ports

definition chain_digits :: nat where "chain_digits = 12"

definition target_chain :: "string \<Rightarrow> string" where
  "target_chain instance_id = ''CPR-'' @ hex_prefix (fnv1a instance_id) chain_digits"

datatype forward_parent = DockerUser | ForwardChain

fun parent_chain :: "forward_parent \<Rightarrow> string" where
  "parent_chain DockerUser = ''DOCKER-USER''"
| "parent_chain ForwardChain = ''FORWARD''"

type_synonym rule = "string list"

record rule_plan =
  rp_apply :: "rule list"
  rp_teardown :: "rule list"

definition nat_rule :: "string list \<Rightarrow> rule" where "nat_rule args = ''-t'' # ''nat'' # args"
definition filter_rule :: "string list \<Rightarrow> rule" where "filter_rule args = ''-t'' # ''filter'' # args"

definition redirect_rule :: "string \<Rightarrow> string \<Rightarrow> string \<Rightarrow> nat \<Rightarrow> rule" where
  "redirect_rule chain proto dport port =
     nat_rule [''-A'', chain, ''-p'', proto, ''--dport'', dport, ''-j'', ''REDIRECT'', ''--to-ports'', nat_str port]"

definition slot_plan :: "egress_target \<Rightarrow> string \<Rightarrow> forward_parent \<Rightarrow> rule_plan" where
  "slot_plan target chain parent =
     (let bridge = et_bridge target; subnet = et_subnet target; ports = et_ports target
      in \<lparr>rp_apply =
            [nat_rule [''-N'', chain],
             nat_rule [''-F'', chain],
             nat_rule [''-A'', chain, ''-d'', subnet, ''-j'', ''RETURN''],
             redirect_rule chain ''udp'' ''53'' (rp_dns ports),
             redirect_rule chain ''tcp'' ''443'' (rp_tls ports),
             redirect_rule chain ''tcp'' ''80'' (rp_http ports),
             nat_rule [''-I'', ''PREROUTING'', ''1'', ''-i'', bridge, ''-j'', chain],
             filter_rule [''-N'', chain],
             filter_rule [''-F'', chain],
             filter_rule [''-A'', chain, ''-d'', subnet, ''-j'', ''RETURN''],
             filter_rule [''-A'', chain, ''-i'', bridge, ''-o'', bridge, ''-j'', ''DROP''],
             filter_rule [''-A'', chain, ''-i'', bridge, ''-j'', ''DROP''],
             filter_rule [''-I'', parent_chain parent, ''1'', ''-i'', bridge, ''-j'', chain]],
          rp_teardown =
            [nat_rule [''-D'', ''PREROUTING'', ''-i'', bridge, ''-j'', chain],
             filter_rule [''-D'', parent_chain parent, ''-i'', bridge, ''-j'', chain],
             nat_rule [''-F'', chain],
             nat_rule [''-X'', chain],
             filter_rule [''-F'', chain],
             filter_rule [''-X'', chain]]\<rparr>)"

section \<open>Running the program\<close>

datatype iptables_error = IptUnavailable | IptRejected

record command_output =
  co_success :: bool
  co_stdout :: string
  co_stderr :: string

text \<open>The program: the kernel state after a command, and its output unless it could not be started.\<close>

type_synonym 'k iptables_program = "string list \<Rightarrow> 'k \<Rightarrow> 'k \<times> command_output option"

definition run_checked :: "'k iptables_program \<Rightarrow> rule \<Rightarrow> 'k \<Rightarrow> 'k \<times> (iptables_error + unit)" where
  "run_checked prog args k =
     (case prog args k of
        (k, None) \<Rightarrow> (k, Inl IptUnavailable)
      | (k, Some out) \<Rightarrow> (k, if co_success out then Inr () else Inl IptRejected))"

definition stderr_contains :: "string \<Rightarrow> string list \<Rightarrow> bool" where
  "stderr_contains stderr fragments = list_all (\<lambda>f. has_infix f (to_ascii_lowercase stderr)) fragments"

definition is_missing_chain_error :: "string \<Rightarrow> bool" where
  "is_missing_chain_error stderr =
     (stderr_contains stderr [''chain'']
      \<and> list_ex (\<lambda>f. stderr_contains stderr [f]) [''not found'', ''does not exist'', ''no chain'', ''unknown chain''])"

fun is_chain_create :: "string list \<Rightarrow> bool" where
  "is_chain_create (a # b # r) = (a = ''-N'' \<and> b \<noteq> [] \<or> is_chain_create (b # r))"
| "is_chain_create _ = False"

definition is_existing_chain_error :: "rule \<Rightarrow> string \<Rightarrow> bool" where
  "is_existing_chain_error args stderr =
     (is_chain_create args \<and> stderr_contains stderr [''chain'']
      \<and> list_ex (\<lambda>f. stderr_contains stderr [f]) [''already exists'', ''file exists'', ''exists''])"

definition is_hex_digit :: "char \<Rightarrow> bool" where
  "is_hex_digit c =
     (is_ascii_digit c \<or> (65 \<le> (of_char c :: nat) \<and> (of_char c :: nat) \<le> 70)
      \<or> (97 \<le> (of_char c :: nat) \<and> (of_char c :: nat) \<le> 102))"

definition is_managed_chain :: "string \<Rightarrow> bool" where
  "is_managed_chain chain =
     (case strip_prefix ''CPR-'' chain of
        None \<Rightarrow> False
      | Some suffix \<Rightarrow> length suffix = 12 \<and> list_all is_hex_digit suffix)"

definition chain_exists ::
  "'k iptables_program \<Rightarrow> string \<Rightarrow> string \<Rightarrow> 'k \<Rightarrow> 'k \<times> (iptables_error + bool)" where
  "chain_exists prog table chain k =
     (case prog [''-t'', table, ''-S'', chain] k of
        (k, None) \<Rightarrow> (k, Inl IptUnavailable)
      | (k, Some out) \<Rightarrow>
          (k, if co_success out then Inr True
              else if is_missing_chain_error (co_stderr out) then Inr False else Inl IptRejected))"

definition iptables_run :: "'k iptables_program \<Rightarrow> rule \<Rightarrow> 'k \<Rightarrow> 'k \<times> (iptables_error + unit)" where
  "iptables_run prog args k =
     (case prog args k of
        (k, None) \<Rightarrow> (k, Inl IptUnavailable)
      | (k, Some out) \<Rightarrow>
          (k, if co_success out \<or> is_existing_chain_error args (co_stderr out) then Inr () else Inl IptRejected))"

fun run_rules ::
  "(rule \<Rightarrow> 'k \<Rightarrow> 'k \<times> (iptables_error + unit)) \<Rightarrow> rule list \<Rightarrow> 'k \<Rightarrow> 'k \<times> (iptables_error + unit)" where
  "run_rules run [] k = (k, Inr ())"
| "run_rules run (r # rs) k =
     (case run r k of (k, Inl e) \<Rightarrow> (k, Inl e) | (k, Inr _) \<Rightarrow> run_rules run rs k)"

definition list_rules :: "'k iptables_program \<Rightarrow> string \<Rightarrow> 'k \<Rightarrow> 'k \<times> (iptables_error + rule list)" where
  "list_rules prog table k =
     (case prog [''-t'', table, ''-S''] k of
        (k, None) \<Rightarrow> (k, Inl IptUnavailable)
      | (k, Some out) \<Rightarrow>
          (k, if \<not> co_success out \<or> \<not> utf8_valid (co_stdout out) then Inl IptRejected
              else Inr (filter (\<lambda>r. r \<noteq> []) (map split_whitespace (str_lines (co_stdout out))))))"

fun jumps_to :: "string list \<Rightarrow> rule \<Rightarrow> bool" where
  "jumps_to managed (a # b # r) = (a = ''-j'' \<and> b \<in> set managed \<or> jumps_to managed (b # r))"
| "jumps_to managed _ = False"

definition stale_chains :: "rule list \<Rightarrow> string list" where
  "stale_chains rules =
     bs_of_list (filter is_managed_chain
       (concat (map (\<lambda>r. case r of a # b # _ \<Rightarrow> if a = ''-N'' then [b] else [] | _ \<Rightarrow> []) rules)))"

definition cleanup_commands :: "string \<Rightarrow> rule list \<Rightarrow> rule list" where
  "cleanup_commands table rules =
     (let managed = stale_chains rules
      in map (\<lambda>r. [''-t'', table] @ r[0 := ''-D''])
           (filter (\<lambda>r. hd r = ''-A'' \<and> jumps_to managed r) rules)
         @ concat (map (\<lambda>c. [[''-t'', table, ''-F'', c], [''-t'', table, ''-X'', c]]) managed))"

definition cleanup_table :: "'k iptables_program \<Rightarrow> string \<Rightarrow> 'k \<Rightarrow> 'k \<times> (iptables_error + nat)" where
  "cleanup_table prog table k =
     (case list_rules prog table k of
        (k, Inl e) \<Rightarrow> (k, Inl e)
      | (k, Inr rules) \<Rightarrow>
          if stale_chains rules = [] then (k, Inr 0)
          else case run_rules (run_checked prog) (cleanup_commands table rules) k of
            (k, Inl e) \<Rightarrow> (k, Inl e)
          | (k, Inr _) \<Rightarrow> (k, Inr (length (stale_chains rules))))"

definition cleanup_stale_chains :: "'k iptables_program \<Rightarrow> 'k \<Rightarrow> 'k \<times> (iptables_error + nat)" where
  "cleanup_stale_chains prog k =
     (case cleanup_table prog ''nat'' k of
        (k, Inl e) \<Rightarrow> (k, Inl e)
      | (k, Inr n) \<Rightarrow>
          (case cleanup_table prog ''filter'' k of
             (k, Inl e) \<Rightarrow> (k, Inl e)
           | (k, Inr m) \<Rightarrow> (k, Inr (n + m))))"

definition forward_parent_of :: "'k iptables_program \<Rightarrow> 'k \<Rightarrow> 'k \<times> (iptables_error + forward_parent)" where
  "forward_parent_of prog k =
     (case chain_exists prog ''filter'' ''DOCKER-USER'' k of
        (k, Inl e) \<Rightarrow> (k, Inl e)
      | (k, Inr found) \<Rightarrow> (k, Inr (if found then DockerUser else ForwardChain)))"

section \<open>The registry of running entries\<close>

datatype egress_error = EgressIptables | EgressNetwork | EgressPorts

record running_egress =
  re_ports :: redirect_ports
  re_config :: slot_egress_config

record 'k egress_manager =
  em_running :: "string \<rightharpoonup> running_egress"
  em_kernel :: 'k

definition manager_target :: "string \<Rightarrow> egress_target" where
  "manager_target instance_id =
     \<lparr>et_bridge = bridge_name instance_id, et_subnet = subnet_for instance_id,
      et_ports = \<lparr>rp_dns = 0, rp_tls = 0, rp_http = 0\<rparr>\<rparr>"

text \<open>The ports the kernel gives the listeners at a gateway address, unless they cannot be bound.\<close>

definition manager_ensure ::
  "(ipv4 \<Rightarrow> redirect_ports option) \<Rightarrow> string \<Rightarrow> outbound_proxy \<Rightarrow> 'k egress_manager
   \<Rightarrow> 'k egress_manager \<times> (egress_error + unit)" where
  "manager_ensure bind_ports instance_id proxy m =
     (let config = \<lparr>sec_proxy = Some proxy\<rparr>
      in case em_running m instance_id of
        Some running \<Rightarrow>
          (m\<lparr>em_running := (em_running m)(instance_id \<mapsto> running\<lparr>re_config := config\<rparr>)\<rparr>, Inr ())
      | None \<Rightarrow>
          (case gateway_of (et_subnet (manager_target instance_id)) of
             None \<Rightarrow> (m, Inl EgressNetwork)
           | Some gateway \<Rightarrow>
               (case bind_ports gateway of
                  None \<Rightarrow> (m, Inl EgressPorts)
                | Some ports \<Rightarrow>
                    (m\<lparr>em_running := (em_running m)(instance_id \<mapsto> \<lparr>re_ports = ports, re_config = config\<rparr>)\<rparr>,
                     Inr ()))))"

primrec drain_rule ::
  "(rule \<Rightarrow> 'k \<Rightarrow> 'k \<times> (iptables_error + unit)) \<Rightarrow> rule \<Rightarrow> nat \<Rightarrow> 'k \<Rightarrow> 'k" where
  "drain_rule run r 0 k = k"
| "drain_rule run r (Suc n) k = (case run r k of (k, Inl _) \<Rightarrow> k | (k, Inr _) \<Rightarrow> drain_rule run r n k)"

definition slot_rules :: "string \<Rightarrow> redirect_ports \<Rightarrow> forward_parent \<Rightarrow> rule_plan" where
  "slot_rules instance_id ports parent =
     slot_plan ((manager_target instance_id)\<lparr>et_ports := ports\<rparr>) (target_chain instance_id) parent"

definition apply_rules ::
  "'k iptables_program \<Rightarrow> string \<Rightarrow> 'k egress_manager \<Rightarrow> 'k egress_manager \<times> (egress_error + unit)" where
  "apply_rules prog instance_id m =
     (case em_running m instance_id of
        None \<Rightarrow> (m, Inl EgressPorts)
      | Some running \<Rightarrow>
          (case forward_parent_of prog (em_kernel m) of
             (k, Inl _) \<Rightarrow> (m\<lparr>em_kernel := k\<rparr>, Inl EgressIptables)
           | (k, Inr parent) \<Rightarrow>
               let p = slot_rules instance_id (re_ports running) parent;
                   k = fold (\<lambda>r. drain_rule (iptables_run prog) r 64) (take 2 (rp_teardown p)) k
               in case run_rules (iptables_run prog) (rp_apply p) k of
                    (k, Inl _) \<Rightarrow> (m\<lparr>em_kernel := k\<rparr>, Inl EgressIptables)
                  | (k, Inr _) \<Rightarrow> (m\<lparr>em_kernel := k\<rparr>, Inr ())))"

definition manager_remove ::
  "'k iptables_program \<Rightarrow> string \<Rightarrow> 'k egress_manager \<Rightarrow> 'k egress_manager \<times> (egress_error + unit)" where
  "manager_remove prog instance_id m =
     (case em_running m instance_id of
        None \<Rightarrow> (m, Inr ())
      | Some running \<Rightarrow>
          (case forward_parent_of prog (em_kernel m) of
             (k, Inl _) \<Rightarrow> (m\<lparr>em_kernel := k\<rparr>, Inl EgressIptables)
           | (k, Inr parent) \<Rightarrow>
               (case run_rules (iptables_run prog)
                      (rp_teardown (slot_rules instance_id (re_ports running) parent)) k of
                  (k, Inl _) \<Rightarrow> (m\<lparr>em_kernel := k\<rparr>, Inl EgressIptables)
                | (k, Inr _) \<Rightarrow>
                    (m\<lparr>em_kernel := k, em_running := (em_running m)(instance_id := None)\<rparr>, Inr ()))))"

definition manager_cleanup ::
  "'k iptables_program \<Rightarrow> 'k egress_manager \<Rightarrow> 'k egress_manager \<times> (iptables_error + nat)" where
  "manager_cleanup prog m =
     (case cleanup_stale_chains prog (em_kernel m) of (k, r) \<Rightarrow> (m\<lparr>em_kernel := k\<rparr>, r))"

section \<open>The lifecycle seen by the container engine\<close>

record 'k managed_egress =
  mge_manager :: "'k egress_manager"
  mge_cleanup_done :: bool

definition managed_cleanup ::
  "'k iptables_program \<Rightarrow> 'k managed_egress \<Rightarrow> 'k managed_egress \<times> (egress_error + unit)" where
  "managed_cleanup prog g =
     (if mge_cleanup_done g then (g, Inr ())
      else case manager_cleanup prog (mge_manager g) of
        (m, Inl _) \<Rightarrow> (g\<lparr>mge_manager := m\<rparr>, Inl EgressIptables)
      | (m, Inr _) \<Rightarrow> (\<lparr>mge_manager = m, mge_cleanup_done = True\<rparr>, Inr ()))"

definition managed_call ::
  "('k egress_manager \<Rightarrow> 'k egress_manager \<times> (egress_error + unit))
   \<Rightarrow> 'k managed_egress \<Rightarrow> 'k managed_egress \<times> (egress_error + unit)" where
  "managed_call f g = (case f (mge_manager g) of (m, r) \<Rightarrow> (g\<lparr>mge_manager := m\<rparr>, r))"

definition managed_ensure ::
  "'k iptables_program \<Rightarrow> (ipv4 \<Rightarrow> redirect_ports option) \<Rightarrow> string \<Rightarrow> outbound_proxy
   \<Rightarrow> 'k managed_egress \<Rightarrow> 'k managed_egress \<times> (egress_error + unit)" where
  "managed_ensure prog bind_ports instance_id proxy g =
     (case managed_cleanup prog g of
        (g, Inl e) \<Rightarrow> (g, Inl e)
      | (g, Inr _) \<Rightarrow> managed_call (manager_ensure bind_ports instance_id proxy) g)"

definition managed_apply_rules ::
  "'k iptables_program \<Rightarrow> string \<Rightarrow> 'k managed_egress \<Rightarrow> 'k managed_egress \<times> (egress_error + unit)" where
  "managed_apply_rules prog instance_id g = managed_call (apply_rules prog instance_id) g"

definition managed_remove ::
  "'k iptables_program \<Rightarrow> string \<Rightarrow> 'k managed_egress \<Rightarrow> 'k managed_egress \<times> (egress_error + unit)" where
  "managed_remove prog instance_id g =
     (case managed_cleanup prog g of
        (g, Inl e) \<Rightarrow> (g, Inl e)
      | (g, Inr _) \<Rightarrow> managed_call (manager_remove prog instance_id) g)"

end
