(* ===== verification/EgressProps.thy ===== *)
theory EgressProps
  imports SlotNet SseProps
begin

text \<open>
  What the transparent entries of account slots guarantee: the host of a connection is found from its
  bytes alone, however they arrive; a connection is joined with nothing but the handshake with its proxy
  in front of it; and the names of the provider never reach the upstream resolver.
\<close>

section \<open>Hosts\<close>

lemma ascii_utf8_chars: "list_all (\<lambda>c. of_char c < (128 :: nat)) s \<Longrightarrow> utf8_chars s = map of_char s"
  by (induction s) auto

lemma ascii_utf8_encode: "list_all (\<lambda>c. of_char c < (128 :: nat)) s \<Longrightarrow> utf8_encode (map of_char s) = s"
  by (induction s) (auto simp: utf8_encode_def utf8_char_def)

lemma host_char_code: "host_char c \<Longrightarrow> of_char c < (128 :: nat) \<and> \<not> is_whitespace (of_char c)"
  by (auto simp: host_char_def is_ascii_alphanumeric_def is_ascii_lowercase_def is_ascii_uppercase_def
      is_ascii_digit_def is_whitespace_def)

lemma dropWhile_none: "list_all (\<lambda>x. \<not> P x) xs \<Longrightarrow> dropWhile P xs = xs"
  by (cases xs) auto

lemma host_trim: "list_all host_char s \<Longrightarrow> str_trim s = s"
proof -
  assume s: "list_all host_char s"
  then have ascii: "list_all (\<lambda>c. of_char c < (128 :: nat)) s" using host_char_code by (auto simp: list_all_iff)
  have "list_all (\<lambda>n. \<not> is_whitespace n) (map of_char s)" using s host_char_code by (auto simp: list_all_iff)
  then have "trim_chars (map of_char s) = map of_char s"
    by (simp add: trim_chars_def dropWhile_none list_all_iff)
  then show ?thesis by (simp add: str_trim_def ascii_utf8_chars [OF ascii] ascii_utf8_encode [OF ascii])
qed

lemma lower_code:
  "of_char (ascii_lower c) = (if is_ascii_uppercase c then of_char c + 32 else of_char c :: nat)"
  by (auto simp: ascii_lower_def is_ascii_uppercase_def)

lemma host_char_lower: "host_char c \<Longrightarrow> host_char (ascii_lower c) \<and> \<not> is_ascii_uppercase (ascii_lower c)"
  by (auto simp: host_char_def is_ascii_alphanumeric_def is_ascii_lowercase_def is_ascii_uppercase_def
      is_ascii_digit_def lower_code ascii_lower_def)

lemma lower_dot: "ascii_lower c = CHR ''.'' \<longleftrightarrow> c = CHR ''.''"
proof (cases "is_ascii_uppercase c")
  case True
  then have "97 \<le> (of_char (ascii_lower c) :: nat)" "65 \<le> (of_char c :: nat)"
    using lower_code [of c] by (auto simp: is_ascii_uppercase_def)
  then have "ascii_lower c \<noteq> CHR ''.''" "c \<noteq> CHR ''.''" by auto
  then show ?thesis by simp
qed (simp add: ascii_lower_def)

lemma trim_end_dots_last: "trim_end_dots s = [] \<or> last (trim_end_dots s) \<noteq> CHR ''.''"
proof (cases "dropWhile (\<lambda>c. c = CHR ''.'') (rev s)")
  case (Cons c cs)
  then have "c \<noteq> CHR ''.''" using hd_dropWhile_not [of "\<lambda>c. c = CHR ''.''" "rev s"] by simp
  then show ?thesis using Cons by (simp add: trim_end_dots_def)
qed (simp add: trim_end_dots_def)

lemma trim_end_dots_id: "s = [] \<or> last s \<noteq> CHR ''.'' \<Longrightarrow> trim_end_dots s = s"
  by (cases s rule: rev_cases) (auto simp: trim_end_dots_def)

lemma starts_with_map_lower:
  "list_all (\<lambda>c. c = CHR ''.'') pat \<Longrightarrow> starts_with pat (map ascii_lower s) \<longleftrightarrow> starts_with pat s"
proof (induction pat arbitrary: s)
  case (Cons p pat)
  then show ?case by (cases s) (auto simp: starts_with_def lower_dot)
qed (simp add: starts_with_def)

lemma has_infix_map_lower:
  "list_all (\<lambda>c. c = CHR ''.'') pat \<Longrightarrow> has_infix pat (map ascii_lower s) \<longleftrightarrow> has_infix pat s"
proof (induction s)
  case (Cons c s)
  then show ?case using starts_with_map_lower [OF Cons.prems, of "c # s"] by simp
qed simp

lemma sanitize_host_facts:
  assumes "sanitize_host v = Some h"
  shows "h \<noteq> []" "length h \<le> 255" "list_all (\<lambda>c. host_char c \<and> \<not> is_ascii_uppercase c) h"
    "\<not> starts_with ''.'' h" "last h \<noteq> CHR ''.''" "\<not> has_infix ''..'' h"
proof -
  define t where "t = trim_end_dots (str_trim v)"
  from assms have t: "t \<noteq> []" "length t \<le> 255" "list_all host_char t" "\<not> starts_with ''.'' t"
      "\<not> has_infix ''..'' t" "h = map ascii_lower t"
    by (auto simp: sanitize_host_def Let_def t_def max_host_len_def to_ascii_lowercase_def split: if_splits)
  then show "h \<noteq> []" "length h \<le> 255" "\<not> starts_with ''.'' h" "\<not> has_infix ''..'' h"
    using starts_with_map_lower [of "''.''" t] has_infix_map_lower [of "''..''" t] by simp_all
  show "list_all (\<lambda>c. host_char c \<and> \<not> is_ascii_uppercase c) h"
    using t(3,6) host_char_lower by (auto simp: list_all_iff)
  show "last h \<noteq> CHR ''.''"
    using trim_end_dots_last [of "str_trim v"] t(1,6) by (simp add: t_def last_map lower_dot)
qed


section \<open>Finding the host\<close>

lemma be_append:
  "2 \<le> length a \<Longrightarrow> be16 (a @ b) = be16 a" "3 \<le> length a \<Longrightarrow> be24 (a @ b) = be24 a"
  by (auto simp: be16_def be24_def nth_append)

lemma slice_append: "j \<le> length a \<Longrightarrow> Sse.slice i j (a @ b) = Sse.slice i j a"
  by (cases "i \<le> length a") (simp_all add: Sse.slice_def)

lemma handshake_payload_append:
  "handshake_payload_from a offset start = Some p \<Longrightarrow> handshake_payload_from (a @ b) offset start = Some p"
proof (induction a offset start rule: handshake_payload_from.induct)
  case (1 a offset start)
  let ?len = "be16 (drop (offset + 3) a)"
  let ?from = "case start of None \<Rightarrow> offset + 5 | Some b \<Rightarrow> b"
  from 1(2) have ok: "offset + 5 \<le> length a" "a ! offset = CHR 0x16" "?len \<le> max_record_len"
      "offset + 5 + ?len \<le> length a"
    by (auto simp: handshake_payload_from.simps [of a offset start] Let_def split: if_splits)
  have len: "be16 (drop (offset + 3) (a @ b)) = ?len"
    using ok(1) by (simp add: be_append)
  have at: "(a @ b) ! offset = CHR 0x16" using ok(1,2) by (simp add: nth_append)
  have cut: "Sse.slice ?from (offset + 5 + ?len) (a @ b) = Sse.slice ?from (offset + 5 + ?len) a"
    using ok(4) by (rule slice_append)
  show ?case
  proof (cases "4 \<le> length (Sse.slice ?from (offset + 5 + ?len) a)
      \<and> 4 + be24 (drop 1 (Sse.slice ?from (offset + 5 + ?len) a)) \<le> length (Sse.slice ?from (offset + 5 + ?len) a)")
    case True
    then show ?thesis using 1(2) ok len at cut
      by (subst handshake_payload_from.simps) (simp add: handshake_payload_from.simps [of a offset start] Let_def)
  next
    case False
    then have rec: "handshake_payload_from a (offset + 5 + ?len) (Some ?from) = Some p"
      using 1(2) ok by (simp add: handshake_payload_from.simps [of a offset start] Let_def split: if_splits)
    have "handshake_payload_from (a @ b) (offset + 5 + ?len) (Some ?from) = Some p"
      by (rule 1(1) [OF _ _ refl refl refl _ _ refl False rec]) (use ok in simp_all)
    then show ?thesis using False ok len at cut
      by (subst handshake_payload_from.simps) (auto simp: Let_def)
  qed
qed

lemma client_hello_append:
  "parse_client_hello a = HandshakeComplete r \<Longrightarrow> parse_client_hello (a @ b) = HandshakeComplete r"
  by (auto simp: parse_client_hello_def handshake_payload_def handshake_payload_append split: option.splits)

lemma starts_with_fits: "starts_with pat a \<Longrightarrow> length pat \<le> length a"
  by (auto simp: starts_with_iff)

lemma starts_with_append: "length pat \<le> length a \<Longrightarrow> starts_with pat (a @ b) \<longleftrightarrow> starts_with pat a"
  by (simp add: starts_with_def)

lemma window_fits: "window_position pat a = Some i \<Longrightarrow> i + length pat \<le> length a"
proof (induction a arbitrary: i)
  case (Cons c a)
  then show ?case using starts_with_fits [of pat "c # a"] by (fastforce split: if_splits)
qed simp

lemma window_append: "window_position pat a = Some i \<Longrightarrow> window_position pat (a @ b) = Some i"
proof (induction a arbitrary: i)
  case (Cons c a)
  have "starts_with pat ((c # a) @ b) \<longleftrightarrow> starts_with pat (c # a)"
    using window_fits [OF Cons.prems] by (intro starts_with_append) simp
  with Cons show ?case by (auto split: if_splits)
qed simp

lemma http_host_append:
  assumes "parse_http_host a = HandshakeComplete r" and "length a < max_handshake_bytes"
  shows "parse_http_host (a @ b) = HandshakeComplete r"
proof -
  from assms obtain e where e: "find_header_end a = Some e"
    by (auto simp: parse_http_host_def split: option.splits if_splits)
  then have "find_header_end (a @ b) = Some e" "e \<le> length a"
    using window_append window_fits by (fastforce simp: find_header_end_def)+
  with e assms(1) show ?thesis by (simp add: parse_http_host_def)
qed

lemma recover_progress_append:
  "recover_progress p a = HandshakeComplete r \<Longrightarrow> length a < max_handshake_bytes \<Longrightarrow>
     recover_progress p (a @ b) = HandshakeComplete r"
  by (cases p) (simp_all add: recover_progress_def client_hello_append http_host_append)

lemma recover_host_run:
  "length (buffer @ concat cs) < max_handshake_bytes \<Longrightarrow> recover_progress p buffer = HandshakeIncomplete \<Longrightarrow>
     map_sum id (map_option fst) (recover_host p buffer (map ReadBytes cs)) =
       Inr (case recover_progress p (buffer @ concat cs) of HandshakeComplete r \<Rightarrow> r | HandshakeIncomplete \<Rightarrow> None)"
proof (induction cs arbitrary: buffer)
  case (Cons c cs)
  show ?case
  proof (cases "recover_progress p (buffer @ c)")
    case (HandshakeComplete r)
    then have "recover_progress p ((buffer @ c) @ concat cs) = HandshakeComplete r"
      by (rule recover_progress_append) (use Cons.prems(1) in simp)
    with HandshakeComplete show ?thesis by (cases r) simp_all
  next
    case HandshakeIncomplete
    then show ?thesis using Cons.IH [of "buffer @ c"] Cons.prems(1) by (simp add: not_le)
  qed
qed simp

text \<open>
  C31. For a client that sends fewer than 64 KiB, the host found for its connection, or the decision that
  there is none, is that of its bytes as a whole: it does not depend on how they are cut into reads.
\<close>

theorem host_found_from_bytes:
  assumes "length (concat cs) < max_handshake_bytes"
  shows "map_sum id (map_option fst) (recover_host p [] (map ReadBytes cs)) =
    Inr (case recover_progress p (concat cs) of HandshakeComplete r \<Rightarrow> r | HandshakeIncomplete \<Rightarrow> None)"
proof -
  have "recover_progress p [] = HandshakeIncomplete"
    by (cases p) (simp_all add: recover_progress_def parse_client_hello_def handshake_payload_def
        handshake_payload_from.simps parse_http_host_def find_header_end_def max_handshake_bytes_def)
  then show ?thesis using recover_host_run [of "[]" cs p] assms by simp
qed

section \<open>The server name of a ClientHello\<close>

text \<open>A ClientHello as RFC 8446 and RFC 6066 lay it out, in one record.\<close>

record hello =
  hl_random :: string
  hl_session :: string
  hl_ciphers :: string
  hl_compression :: string
  hl_before :: "(nat \<times> string) list"
  hl_name :: string
  hl_after :: string

definition u24_bytes :: "nat \<Rightarrow> string" where
  "u24_bytes n = [char_of (n div 65536), char_of (n div 256), char_of n]"

definition extension_bytes :: "nat \<times> string \<Rightarrow> string" where
  "extension_bytes e = u16_bytes (fst e) @ u16_bytes (length (snd e)) @ snd e"

definition server_name_body :: "string \<Rightarrow> string" where
  "server_name_body name = u16_bytes (length name + 3) @ [CHR 0x00] @ u16_bytes (length name) @ name"

definition hello_extensions :: "hello \<Rightarrow> string" where
  "hello_extensions h =
     concat (map extension_bytes (hl_before h)) @ extension_bytes (0, server_name_body (hl_name h)) @ hl_after h"

definition hello_body :: "hello \<Rightarrow> string" where
  "hello_body h =
     hl_random h @ [char_of (length (hl_session h))] @ hl_session h @ u16_bytes (length (hl_ciphers h)) @ hl_ciphers h
     @ [char_of (length (hl_compression h))] @ hl_compression h
     @ u16_bytes (length (hello_extensions h)) @ hello_extensions h"

definition hello_message :: "hello \<Rightarrow> string" where
  "hello_message h = [CHR 0x01] @ u24_bytes (length (hello_body h)) @ hello_body h"

definition tls_record :: "string \<Rightarrow> string" where
  "tls_record fragment = [CHR 0x16, CHR 0x03, CHR 0x01] @ u16_bytes (length fragment) @ fragment"

definition hello_ok :: "hello \<Rightarrow> bool" where
  "hello_ok h \<longleftrightarrow>
     length (hl_random h) = 34 \<and> length (hl_session h) < 256 \<and> length (hl_compression h) < 256
     \<and> list_all (\<lambda>(kind, body). 0 < kind \<and> kind \<le> u16_max) (hl_before h)
     \<and> length (hello_message h) \<le> max_record_len"

lemma u16_bytes_length [simp]: "length (u16_bytes n) = 2"
  by (simp add: u16_bytes_def)

lemma be16_u16 [simp]: "n \<le> u16_max \<Longrightarrow> be16 (u16_bytes n @ r) = n"
  using div_mult_mod_eq [of n 256] by (simp add: be16_def u16_bytes_def)

lemma be24_u24 [simp]: "n < 16777216 \<Longrightarrow> be24 (u24_bytes n @ r) = n"
proof -
  assume n: "n < 16777216"
  have "n div 65536 = n div 256 div 256" using div_mult2_eq [of n 256 256] by simp
  then have "n = n div 65536 * 65536 + n div 256 mod 256 * 256 + n mod 256"
    using div_mult_mod_eq [of n 256] div_mult_mod_eq [of "n div 256" 256] by linarith
  moreover have "n div 65536 < 256" using n by simp
  ultimately show ?thesis by (simp add: be24_def u24_bytes_def)
qed

lemma take_u16_u16 [simp]: "n \<le> u16_max \<Longrightarrow> take_u16 (u16_bytes n @ r) = Some (n, r)"
  using be16_u16 [of n "[]"] by (simp add: take_u16_def cursor_rest_def)

lemma take_u8_char [simp]: "n < 256 \<Longrightarrow> take_u8 (char_of n # r) = Some (n, r)"
  by (simp add: take_u8_def)

lemma cursor_rest_append [simp]: "n = length x \<Longrightarrow> cursor_rest n (x @ r) = Some (x, r)"
  by (simp add: cursor_rest_def)

lemma cursor_rest_all [simp]: "cursor_rest (length x) x = Some (x, [])"
  by (simp add: cursor_rest_def)

lemma cursor_skip_append [simp]: "n = length x \<Longrightarrow> cursor_skip n (x @ r) = Some r"
  by (simp add: cursor_skip_def)

lemma find_server_name_step:
  assumes "fst e \<le> u16_max" and "length (snd e) \<le> u16_max"
  shows "find_server_name (extension_bytes e @ r) =
    (if fst e = 0 then server_name (snd e) else find_server_name r)"
proof -
  have "drop (4 + length (snd e)) (extension_bytes e @ r) = r" by (simp add: extension_bytes_def)
  then show ?thesis
    using assms by (subst find_server_name.simps) (simp add: extension_bytes_def)
qed

lemma server_name_body_found:
  assumes "length name + 3 \<le> u16_max"
  shows "server_name (server_name_body name) = (if utf8_valid name then sanitize_host name else None)"
proof -
  let ?list = "[CHR 0x00] @ u16_bytes (length name) @ name"
  have "first_name ?list = (if utf8_valid name then sanitize_host name else None)"
    using assms by (subst first_name.simps) (simp add: take_u8_def)
  moreover have "cursor_rest (length name + 3) ?list = Some (?list, [])"
    by (simp add: cursor_rest_def)
  ultimately show ?thesis
    using assms by (simp add: server_name_def server_name_body_def del: append.simps)
qed

lemma find_server_name_hello:
  assumes "list_all (\<lambda>(kind, body). 0 < kind \<and> kind \<le> u16_max) before"
    and "list_all (\<lambda>(kind, body). length body \<le> u16_max) before" and "length name + 5 \<le> u16_max"
  shows "find_server_name (concat (map extension_bytes before) @ extension_bytes (0, server_name_body name) @ after)
    = (if utf8_valid name then sanitize_host name else None)"
  using assms(1,2)
proof (induction before)
  case Nil
  have "length (server_name_body name) = length name + 5" by (simp add: server_name_body_def)
  then show ?case using assms(3) server_name_body_found [of name]
    by (simp add: find_server_name_step [of "(0, server_name_body name)"])
next
  case (Cons e before)
  then show ?case by (cases e) (simp add: find_server_name_step)
qed

lemma hello_sizes:
  assumes "hello_ok h"
  shows "length (hello_body h) < 16777216" "length (hello_extensions h) \<le> u16_max" "length (hl_ciphers h) \<le> u16_max"
    "length (hl_name h) + 5 \<le> u16_max" "list_all (\<lambda>(kind, body). length body \<le> u16_max) (hl_before h)"
    "length (hello_message h) \<le> u16_max"
proof -
  have part: "x \<in> set (hl_before h) \<Longrightarrow> length (snd x) \<le> length (concat (map extension_bytes (hl_before h)))" for x
  proof -
    assume x: "x \<in> set (hl_before h)"
    have "length (snd x) \<le> length (extension_bytes x)" by (simp add: extension_bytes_def)
    also have "\<dots> \<le> length (concat (map extension_bytes (hl_before h)))"
      using x by (auto simp: length_concat intro: member_le_sum_list)
    finally show ?thesis .
  qed
  have total: "length (hello_message h) \<le> 16389" using assms by (simp add: hello_ok_def max_record_len_def)
  then have body: "length (hello_body h) \<le> 16389" by (simp add: hello_message_def)
  then have ext: "length (hello_extensions h) \<le> 16389" "length (hl_ciphers h) \<le> 16389"
    by (simp_all add: hello_body_def)
  then have "length (concat (map extension_bytes (hl_before h))) \<le> 16389" "length (hl_name h) + 5 \<le> 16389"
    by (simp_all add: hello_extensions_def extension_bytes_def server_name_body_def)
  with total body ext part show "length (hello_body h) < 16777216" "length (hello_extensions h) \<le> u16_max"
    "length (hl_ciphers h) \<le> u16_max" "length (hl_name h) + 5 \<le> u16_max"
    "list_all (\<lambda>(kind, body). length body \<le> u16_max) (hl_before h)" "length (hello_message h) \<le> u16_max"
    by (auto simp: list_all_iff) fastforce+
qed

lemma parse_body_hello:
  assumes "hello_ok h"
  shows "parse_body (hello_body h) = (if utf8_valid (hl_name h) then sanitize_host (hl_name h) else None)"
proof -
  note sizes = hello_sizes [OF assms]
  have fixed: "length (hl_random h) = 34" "length (hl_session h) < 256" "length (hl_compression h) < 256"
    using assms by (simp_all add: hello_ok_def)
  have ext: "find_server_name (hello_extensions h) = (if utf8_valid (hl_name h) then sanitize_host (hl_name h) else None)"
    unfolding hello_extensions_def
    by (rule find_server_name_hello) (use assms sizes in \<open>simp_all add: hello_ok_def\<close>)
  have last: "cursor_rest (length (hello_extensions h)) (hello_extensions h) = Some (hello_extensions h, [])"
    using cursor_rest_append [OF refl, of "hello_extensions h" "[]"] by simp
  show ?thesis
    using fixed sizes by (simp add: parse_body_def hello_body_def last ext)
qed

lemma client_hello_read:
  assumes "hello_ok h"
  shows "parse_client_hello (tls_record (hello_message h) @ tail_bytes) =
    HandshakeComplete (if utf8_valid (hl_name h) then sanitize_host (hl_name h) else None)"
proof -
  note sizes = hello_sizes [OF assms]
  let ?m = "hello_message h"
  have len: "length ?m = 4 + length (hello_body h)" by (simp add: hello_message_def u24_bytes_def)
  have declared: "be24 (drop 1 ?m) = length (hello_body h)"
    using sizes(1) by (simp add: hello_message_def)
  have "be16 (drop 3 (tls_record ?m @ tail_bytes)) = length ?m"
    using sizes(6) by (simp add: tls_record_def)
  moreover have "Sse.slice 5 (5 + length ?m) (tls_record ?m @ tail_bytes) = ?m"
    by (simp add: Sse.slice_def tls_record_def u16_bytes_def)
  moreover have "length ?m \<le> max_record_len" using assms by (simp add: hello_ok_def)
  moreover have "(tls_record ?m @ tail_bytes) ! 0 = CHR 0x16" "5 + length ?m \<le> length (tls_record ?m @ tail_bytes)"
    by (simp_all add: tls_record_def)
  ultimately have "handshake_payload (tls_record ?m @ tail_bytes) = Some ?m"
    unfolding handshake_payload_def
    by (subst handshake_payload_from.simps) (simp add: len declared [simplified] Let_def)
  moreover have "?m ! 0 = CHR 0x01" "take (length (hello_body h)) (drop 4 ?m) = hello_body h"
    by (simp_all add: hello_message_def u24_bytes_def)
  ultimately show ?thesis
    by (simp add: parse_client_hello_def len declared [simplified] parse_body_hello [OF assms])
qed


definition sample_hello :: hello where
  "sample_hello =
     \<lparr>hl_random = [CHR 0x03, CHR 0x03] @ replicate 32 (CHR 0x00), hl_session = [],
      hl_ciphers = [CHR 0x13, CHR 0x01], hl_compression = [CHR 0x00], hl_before = [],
      hl_name = ''ChatGPT.com'', hl_after = []\<rparr>"

lemma sample_hello_ok: "hello_ok sample_hello"
  by (simp add: hello_ok_def sample_hello_def hello_message_def hello_body_def hello_extensions_def
      extension_bytes_def server_name_body_def u24_bytes_def max_record_len_def)

lemma sample_name: "utf8_valid ''ChatGPT.com'' \<and> sanitize_host ''ChatGPT.com'' = Some ''chatgpt.com''"
proof -
  have "list_all host_char ''ChatGPT.com''"
    by (simp add: host_char_def is_ascii_alphanumeric_def is_ascii_lowercase_def is_ascii_uppercase_def)
  moreover have "to_ascii_lowercase ''ChatGPT.com'' = ''chatgpt.com''" by code_simp
  ultimately show ?thesis
    by (simp add: utf8_valid_ascii sanitize_host_def Let_def host_trim trim_end_dots_id max_host_len_def starts_with_def)
qed

lemma sample_hello_read:
  "recover_progress ProtoTls (tls_record (hello_message sample_hello)) = HandshakeComplete (Some ''chatgpt.com'')"
  using client_hello_read [OF sample_hello_ok, of "[]"] sample_name
  by (simp add: sample_hello_def recover_progress_def)


theorem host_found_from_bytes_witness:
  "map_sum id (map_option fst) (recover_host ProtoTls []
      (map ReadBytes [take 3 (tls_record (hello_message sample_hello)), drop 3 (tls_record (hello_message sample_hello))]))
    = Inr (Some ''chatgpt.com'')"
proof -
  let ?r = "tls_record (hello_message sample_hello)"
  have "length ?r < max_handshake_bytes"
    using sample_hello_ok by (simp add: hello_ok_def tls_record_def max_record_len_def max_handshake_bytes_def)
  then show ?thesis
    using host_found_from_bytes [of "[take 3 ?r, drop 3 ?r]" ProtoTls] sample_hello_read by simp
qed

text \<open>Two records: the header of the second stays between their fragments.\<close>

lemma two_records:
  assumes "4 \<le> length a" and "length a < 4 + be24 (drop 1 a)" and "4 + be24 (drop 1 a) \<le> length a + 5 + length b"
    and "length a \<le> max_record_len" and "length b \<le> max_record_len"
  shows "handshake_payload (tls_record a @ tls_record b) = Some (a @ tls_record b)"
proof -
  let ?R = "tls_record a @ tls_record b"
  have len: "length (tls_record x) = 5 + length x" for x by (simp add: tls_record_def)
  have fits: "length a \<le> u16_max" "length b \<le> u16_max" using assms(4,5) by (simp_all add: max_record_len_def)
  have head: "?R ! 0 = CHR 0x16" "be16 (drop 3 ?R) = length a" "Sse.slice 5 (5 + length a) ?R = a"
    using fits by (simp_all add: tls_record_def Sse.slice_def u16_bytes_def [of "length a"] be16_def)
      (simp add: be16_def u16_bytes_def)?
  have later: "drop (5 + length a) ?R = tls_record b" using len [of a] by simp
  have "?R ! (5 + length a) = tls_record b ! 0" using len [of a] by (simp add: nth_append)
  then have next_record: "?R ! (5 + length a) = CHR 0x16" by (simp add: tls_record_def)
  have "drop (5 + length a + 3) ?R = drop 3 (tls_record b)" using later by (metis add.commute drop_drop)
  then have second: "be16 (drop (5 + length a + 3) ?R) = length b"
    using fits(2) by (simp add: tls_record_def)
  have whole: "Sse.slice 5 (5 + length a + 5 + length b) ?R = a @ tls_record b"
    by (simp add: Sse.slice_def len) (simp add: tls_record_def u16_bytes_def)
  have declared: "be24 (drop (Suc 0) (a @ tls_record b)) = be24 (drop (Suc 0) a)"
    using assms(1) be_append(2) [of "drop (Suc 0) a" "tls_record b"] by simp
  have "handshake_payload_from ?R (5 + length a) (Some 5) = Some (a @ tls_record b)"
    using assms next_record second whole declared len
    by (subst handshake_payload_from.simps) (simp add: Let_def)
  then show ?thesis
    using assms head len unfolding handshake_payload_def
    by (subst handshake_payload_from.simps) (simp add: Let_def)
qed

text \<open>
  The comment of \<open>parse_client_hello\<close> says that it ignores record borders and tolerates a ClientHello cut
  into several records. It does not: the headers of the later records stay in the message, and the same
  ClientHello that names its host in one record does not in two.
\<close>

definition misread_name :: string where
  "misread_name = ''Chat'' @ [CHR 0x16, CHR 0x03, CHR 0x01, CHR 0x00, CHR 0x07] @ ''GP''"

lemma misread_name: "sanitize_host misread_name = None"
proof -
  have ascii: "list_all (\<lambda>c. of_char c < (128 :: nat)) misread_name" by (simp add: misread_name_def)
  have "trim_chars (map of_char misread_name) = map of_char misread_name"
    by (simp add: misread_name_def trim_chars_def is_whitespace_def)
  then have "str_trim misread_name = misread_name"
    by (simp add: str_trim_def ascii_utf8_chars [OF ascii] ascii_utf8_encode [OF ascii])
  moreover have "trim_end_dots misread_name = misread_name" by (simp add: misread_name_def trim_end_dots_def)
  moreover have "\<not> list_all host_char misread_name"
    by (simp add: misread_name_def host_char_def is_ascii_alphanumeric_def is_ascii_lowercase_def
        is_ascii_uppercase_def is_ascii_digit_def)
  ultimately show ?thesis by (simp add: sanitize_host_def Let_def)
qed

definition sample_head :: string where
  "sample_head =
     [CHR 0x03, CHR 0x03] @ replicate 32 (CHR 0x00) @ [char_of (0 :: nat)] @ u16_bytes 2 @ [CHR 0x13, CHR 0x01]
     @ [char_of (1 :: nat), CHR 0x00] @ u16_bytes 20 @ u16_bytes 0 @ u16_bytes 16 @ u16_bytes 14 @ [CHR 0x00] @ u16_bytes 11"

lemma sample_body: "length x = 11 \<Longrightarrow> hello_body (sample_hello\<lparr>hl_name := x\<rparr>) = sample_head @ x"
  by (simp add: hello_body_def sample_hello_def hello_extensions_def extension_bytes_def server_name_body_def
      sample_head_def numeral_2_eq_2)

lemma sample_head_length: "length sample_head = 52"
  by (simp add: sample_head_def)

lemma fragmented_hello_misread:
  "parse_client_hello (tls_record (take 60 (hello_message sample_hello))
      @ tls_record (drop 60 (hello_message sample_hello))) = HandshakeComplete None"
proof -
  have same: "sample_hello\<lparr>hl_name := ''ChatGPT.com''\<rparr> = sample_hello" by (simp add: sample_hello_def)
  have m: "hello_message sample_hello = ([CHR 0x01] @ u24_bytes 63 @ sample_head @ ''Chat'') @ ''GPT.com''"
    using sample_body [of "''ChatGPT.com''"] by (simp add: hello_message_def same sample_head_length)
  have first_len: "length ([CHR 0x01] @ u24_bytes 63 @ sample_head @ ''Chat'') = 60"
    by (simp add: u24_bytes_def sample_head_length)
  define a where "a = [CHR 0x01] @ u24_bytes 63 @ sample_head @ ''Chat''"
  have cut: "take 60 (hello_message sample_hello) = a" "drop 60 (hello_message sample_hello) = ''GPT.com''"
    using first_len by (simp_all only: m a_def) simp_all
  have d: "be24 (drop (Suc 0) (a @ x)) = 63" for x by (simp add: a_def)
  have payload: "handshake_payload (tls_record a @ tls_record ''GPT.com'') = Some (a @ tls_record ''GPT.com'')"
    by (rule two_records) (use first_len d [of "[]"] in \<open>simp_all add: a_def max_record_len_def\<close>)
  have second: "tls_record ''GPT.com'' = [CHR 0x16, CHR 0x03, CHR 0x01, CHR 0x00, CHR 0x07] @ ''GPT.com''"
    by (simp add: tls_record_def u16_bytes_def) code_simp
  have "take 63 (drop 4 (a @ tls_record ''GPT.com'')) = sample_head @ misread_name"
    by (simp add: second a_def u24_bytes_def sample_head_length misread_name_def)
  also have "\<dots> = hello_body (sample_hello\<lparr>hl_name := misread_name\<rparr>)"
    by (rule sample_body [symmetric]) (simp add: misread_name_def)
  finally have body: "take 63 (drop 4 (a @ tls_record ''GPT.com'')) = \<dots>" .
  have "length (hello_body (sample_hello\<lparr>hl_name := misread_name\<rparr>)) = 63"
    by (subst sample_body) (simp_all add: misread_name_def sample_head_length)
  then have "hello_ok (sample_hello\<lparr>hl_name := misread_name\<rparr>)"
    by (simp add: hello_ok_def hello_message_def u24_bytes_def max_record_len_def) (simp add: sample_hello_def)
  then have "parse_body (hello_body (sample_hello\<lparr>hl_name := misread_name\<rparr>)) = None"
    using misread_name by (simp add: parse_body_hello)
  moreover have "(a @ x) ! 0 = CHR 0x01" "length a = 60" for x using first_len by (simp_all add: a_def)
  moreover have "length (tls_record ''GPT.com'') = 12" by (simp add: second)
  ultimately show ?thesis
    unfolding cut parse_client_hello_def payload by (simp add: d body Let_def del: drop_append)
qed

section \<open>Behind the proxy\<close>

lemma io_bind_Inr: "io_bind m f c = (c', Inr y) \<longleftrightarrow> (\<exists>d x. m c = (d, Inr x) \<and> f x d = (c', Inr y))"
  by (auto simp: io_bind_def split: prod.splits sum.splits)

lemma io_return_Inr: "io_return x c = (c', Inr y) \<longleftrightarrow> c' = c \<and> y = x"
  by (auto simp: io_return_def)

lemma io_error_Inr [simp]: "io_error e c \<noteq> (c', Inr y)"
  by (simp add: io_error_def)

lemma write_all_Inr: "write_all bs c = (c', Inr u) \<Longrightarrow> cn_written c' = cn_written c @ bs"
  by (auto simp: write_all_def split: list.splits io_answer.splits)

lemma io_wait_Inr: "io_wait c = (c', Inr u) \<Longrightarrow> cn_written c' = cn_written c"
  using write_all_Inr [of "[]"] by (simp add: io_wait_def)

lemma read_exact_Inr: "read_exact n c = (c', Inr x) \<Longrightarrow> cn_written c' = cn_written c"
  by (auto simp: read_exact_def split: list.splits io_answer.splits if_splits)

lemma read_head_Inr: "read_head n buffer c = (c', Inr x) \<Longrightarrow> cn_written c' = cn_written c"
proof (induction n arbitrary: buffer c)
  case (Suc n)
  then obtain d b where d: "read_exact 1 c = (d, Inr b)"
    and rest: "(if drop (length (buffer @ b) - 4) (buffer @ b) = crlf_crlf then io_return (buffer @ b)
        else read_head n (buffer @ b)) d = (c', Inr x)"
    by (auto simp: io_bind_Inr Let_def)
  then show ?case using Suc.IH read_exact_Inr [OF d] by (auto simp: io_return_Inr split: if_splits)
qed simp

lemma http_connect_Inr:
  "http_connect target url c = (c', Inr u) \<Longrightarrow> cn_written c' = cn_written c @ connect_request target url"
  by (auto simp: http_connect_def io_bind_Inr read_until_headers_end_def io_return_Inr
      dest!: write_all_Inr read_head_Inr split: if_splits)

lemma socks5_authenticate_Inr:
  "socks5_authenticate user password c = (c', Inr u) \<Longrightarrow> \<exists>auth. cn_written c' = cn_written c @ auth"
  by (auto simp: socks5_authenticate_def io_bind_Inr io_return_Inr dest!: write_all_Inr read_exact_Inr
      split: option.splits if_splits)

lemma socks5_address_Inr:
  "socks5_address resolved remote host c = (c', Inr address) \<Longrightarrow> cn_written c' = cn_written c
     \<and> (remote \<longrightarrow> length host \<le> 255 \<and> address = [CHR 0x03, char_of (length host)] @ host)"
  by (auto simp: socks5_address_def io_bind_Inr io_return_Inr dest!: io_wait_Inr
      split: option.splits ip_addr.splits if_splits)

lemma socks5_bound_Inr: "socks5_bound header c = (c', Inr u) \<Longrightarrow> cn_written c' = cn_written c"
  by (auto simp: socks5_bound_def io_bind_Inr io_return_Inr dest!: read_exact_Inr split: if_splits)

definition socks5_greeting :: "proxy_endpoint \<Rightarrow> string" where
  "socks5_greeting url =
     (if pe_username url \<noteq> [] \<and> pe_password url \<noteq> None then [CHR 0x05, char_of (2 :: nat), CHR 0x00, CHR 0x02]
      else [CHR 0x05, char_of (1 :: nat), CHR 0x00])"

definition socks5_request :: "dial_target \<Rightarrow> string \<Rightarrow> string" where
  "socks5_request target address = [CHR 0x05, CHR 0x01, CHR 0x00] @ address @ u16_bytes (dt_port target)"

lemma socks5_Inr:
  assumes "socks5 resolved target remote url c = (c', Inr u)"
  shows "\<exists>auth address. cn_written c' = cn_written c @ socks5_greeting url @ auth @ socks5_request target address
    \<and> (remote \<longrightarrow> length (dt_host target) \<le> 255
         \<and> address = [CHR 0x03, char_of (length (dt_host target))] @ dt_host target)"
proof -
  obtain user password where cred: "credentials url = (user, password)" by fastforce
  let ?methods = "if user \<noteq> None \<and> password \<noteq> None then [CHR 0x00, CHR 0x02] else [CHR 0x00]"
  have greeting: "[CHR 0x05, char_of (length ?methods)] @ ?methods = socks5_greeting url"
    using cred by (auto simp: credentials_def socks5_greeting_def numeral_2_eq_2 split: if_splits)
  from assms obtain c1 c2 choice c3 address c4 c5 c6 header where
    steps: "write_all ([CHR 0x05, char_of (length ?methods)] @ ?methods) c = (c1, Inr ())"
      "read_exact 2 c1 = (c2, Inr choice)"
      "(if choice ! 1 = CHR 0x00 then io_return () else if choice ! 1 = CHR 0x02 then socks5_authenticate user password
        else io_error DialProxyRejected) c2 = (c3, Inr ())"
      "socks5_address resolved remote (dt_host target) c3 = (c4, Inr address)"
      "write_all ([CHR 0x05, CHR 0x01, CHR 0x00] @ address @ u16_bytes (dt_port target)) c4 = (c5, Inr ())"
      "read_exact 4 c5 = (c6, Inr header)" "socks5_bound header c6 = (c', Inr u)"
    unfolding socks5_def cred prod.case Let_def
    by (auto simp: io_bind_Inr split: if_splits)
  obtain auth where "cn_written c3 = cn_written c2 @ auth"
    using steps(3) socks5_authenticate_Inr by (fastforce simp: io_return_Inr split: if_splits)
  then have "cn_written c' = cn_written c @ socks5_greeting url @ auth @ socks5_request target address"
    using write_all_Inr [OF steps(1)] read_exact_Inr [OF steps(2)] socks5_address_Inr [OF steps(4)]
      write_all_Inr [OF steps(5)] read_exact_Inr [OF steps(6)] socks5_bound_Inr [OF steps(7)]
    unfolding greeting by (simp add: socks5_request_def)
  then show ?thesis using socks5_address_Inr [OF steps(4)] by blast
qed

text \<open>What a proxy has been sent when its handshake is complete.\<close>

definition handshake_sent :: "dial_target \<Rightarrow> proxy_endpoint \<Rightarrow> string \<Rightarrow> bool" where
  "handshake_sent target url sent \<longleftrightarrow>
     (if pe_scheme url = ''http'' then sent = connect_request target url
      else (\<exists>auth address. sent = socks5_greeting url @ auth @ socks5_request target address
        \<and> (pe_scheme url = ''socks5h'' \<longrightarrow> length (dt_host target) \<le> 255
             \<and> address = [CHR 0x03, char_of (length (dt_host target))] @ dt_host target)))"

lemma connect_via_opened:
  assumes "connect_via w proxy target = (Some (authority, c), r)"
  shows "\<exists>url. dw_url w (url_text (proxy_url proxy)) = Some url \<and> endpoint_authority url = Inr authority
    \<and> pe_scheme url \<in> {''http'', ''socks5'', ''socks5h''}
    \<and> (r = Inr () \<longrightarrow> handshake_sent target url (cn_written c))"
proof -
  obtain url where url: "dw_url w (url_text (proxy_url proxy)) = Some url" "endpoint_authority url = Inr authority"
    "validate_scheme (pe_scheme url) = Inr ()"
    and run: "io_bind io_wait (\<lambda>_. io_bind io_wait (\<lambda>_.
       if pe_scheme url = ''http'' then http_connect target url
       else socks5 (dw_resolved w target) target (pe_scheme url = ''socks5h'') url)) (fresh_connection w) = (c, r)"
    using assms by (auto simp: connect_via_def split: option.splits sum.splits prod.splits)
  have scheme: "pe_scheme url \<in> {''http'', ''socks5'', ''socks5h''}"
    using url(3) by (auto simp: validate_scheme_def split: if_splits)
  have "handshake_sent target url (cn_written c)" if "r = Inr ()"
  proof -
    from run [unfolded that io_bind_Inr] obtain d e where
      "io_wait (fresh_connection w) = (d, Inr ())" "io_wait d = (e, Inr ())"
      and shake: "(if pe_scheme url = ''http'' then http_connect target url
         else socks5 (dw_resolved w target) target (pe_scheme url = ''socks5h'') url) e = (c, Inr ())"
      by auto
    then have "cn_written e = []" using io_wait_Inr by (metis fresh_connection_def connection.simps(1))
    then show ?thesis
      using shake http_connect_Inr [of target url e c "()"] socks5_Inr [of _ target _ url e c "()"]
      by (fastforce simp: handshake_sent_def split: if_splits)
  qed
  with url scheme show ?thesis by blast
qed

lemma recover_host_pending:
  "recover_host p buffer reads = Inr (Some (host, pending)) \<Longrightarrow>
     \<exists>cs rest. reads = map ReadBytes cs @ rest \<and> pending = buffer @ concat cs
       \<and> recover_progress p pending = HandshakeComplete (Some host)"
proof (induction reads arbitrary: buffer)
  case (Cons r rs)
  then obtain bs where r: "r = ReadBytes bs" by (cases r) simp_all
  show ?case
  proof (cases "recover_progress p (buffer @ bs)")
    case (HandshakeComplete x)
    then have "x = Some host" "pending = buffer @ bs" using Cons.prems by (auto simp: r split: option.splits)
    with HandshakeComplete show ?thesis
      by (intro exI [of _ "[bs]"] exI [of _ rs]) (simp add: r)
  next
    case HandshakeIncomplete
    then have "recover_host p (buffer @ bs) rs = Inr (Some (host, pending))"
      using Cons.prems by (auto simp: r Let_def split: if_splits)
    from Cons.IH [OF this] obtain cs rest where "rs = map ReadBytes cs @ rest" "pending = (buffer @ bs) @ concat cs"
      "recover_progress p pending = HandshakeComplete (Some host)" by blast
    then show ?thesis by (intro exI [of _ "bs # cs"] exI [of _ rest]) (simp add: r)
  qed
qed simp



text \<open>A slot configured with a SOCKS5 proxy that grants every request, and a client that sends one request.\<close>

definition sample_dial_world :: dial_world where
  "sample_dial_world =
     \<lparr>dw_url = (\<lambda>_. Some \<lparr>pe_scheme = ''socks5h'', pe_host = Some ''p'', pe_port = Some 80,
                             pe_username = [], pe_password = None\<rparr>),
      dw_resolved = (\<lambda>_. None),
      dw_incoming = [CHR 0x05, CHR 0x00, CHR 0x05, CHR 0x00, CHR 0x00, CHR 0x01, CHR 0x00, CHR 0x00, CHR 0x00, CHR 0x00,
                     CHR 0x00, CHR 0x00],
      dw_script = replicate 12 IoOk\<rparr>"

definition sample_slot_config :: slot_egress_config where
  "sample_slot_config =
     \<lparr>sec_proxy = Some (OutboundProxy
        \<lparr>url_scheme = ''socks5h'', url_host = Some ''p'', url_port = Some 80, url_path = [], url_query = None,
         url_fragment = None, url_text = ''socks5h://p:80''\<rparr>)\<rparr>"

abbreviation sample_hello_bytes :: string where
  "sample_hello_bytes \<equiv> tls_record (hello_message sample_hello)"

lemma sample_handled:
  "case handle_connection sample_dial_world [ReadBytes sample_hello_bytes] ProtoTls 443 sample_slot_config of
     (h, r) \<Rightarrow> hd_relayed h \<and> map_option fst (hd_upstream h) = Some ''p:80''"
proof -
  have "recover_host ProtoTls [] [ReadBytes sample_hello_bytes] = Inr (Some (''chatgpt.com'', sample_hello_bytes))"
    by (simp add: sample_hello_read)
  moreover have "case connect_via sample_dial_world (the (sec_proxy sample_slot_config))
      \<lparr>dt_host = ''chatgpt.com'', dt_port = 443\<rparr> of
      (up, result) \<Rightarrow> result = Inr () \<and> (case up of None \<Rightarrow> False
        | Some (authority, c) \<Rightarrow> authority = ''p:80'' \<and> take 2 (cn_script c) = [IoOk, IoOk])"
    by code_simp
  moreover have "sec_proxy sample_slot_config = Some (the (sec_proxy sample_slot_config))"
    by (simp add: sample_slot_config_def)
  moreover have "io_bind (write_all bs) (\<lambda>_. io_wait) c \<noteq> (d, Inl e)"
    if "take 2 (cn_script c) = [IoOk, IoOk]" for bs c d e
    using that by (cases "cn_script c"; cases "tl (cn_script c)") (auto simp: io_bind_def io_wait_def write_all_def)
  ultimately show ?thesis
    by (auto simp: handle_connection_def Let_def split: option.splits sum.splits prod.splits)
qed



section \<open>The names a slot sees\<close>

text \<open>A query for the labels \<open>ls\<close>: its header, one question, and the counts of records that may follow.\<close>

definition label_bytes :: "string \<Rightarrow> string" where
  "label_bytes l = char_of (length l) # l"

definition question_bytes :: "string list \<Rightarrow> nat \<Rightarrow> string" where
  "question_bytes ls qtype = concat (map label_bytes ls) @ [CHR 0x00] @ u16_bytes qtype @ u16_bytes 1"

definition query_bytes :: "string \<Rightarrow> nat \<Rightarrow> string \<Rightarrow> string list \<Rightarrow> nat \<Rightarrow> string" where
  "query_bytes qid flags counts ls qtype =
     qid @ u16_bytes flags @ [CHR 0x00, CHR 0x01, CHR 0x00, CHR 0x00] @ counts @ question_bytes ls qtype"

definition labels_ok :: "string list \<Rightarrow> bool" where
  "labels_ok ls = (length ls \<le> 32 \<and> list_all (\<lambda>l. l \<noteq> [] \<and> length l < 64 \<and> utf8_valid l) ls)"

lemma and_small: "n < 2 ^ k \<Longrightarrow> take_bit k b = 0 \<Longrightarrow> Bit_Operations.and n (b :: nat) = 0"
  by (metis and.assoc and.commute and_zero_eq take_bit_eq_mask take_bit_nat_eq_self_iff)

lemma parse_labels_read:
  assumes "list_all (\<lambda>l. l \<noteq> [] \<and> length l < 64 \<and> utf8_valid l) ls" "length acc + length ls \<le> 32"
  shows "parse_labels (pre @ concat (map label_bytes ls) @ [CHR 0x00] @ rest) (length pre) acc
    = Inr (acc @ ls, length pre + length (concat (map label_bytes ls)) + 1)"
  using assms
proof (induction ls arbitrary: pre acc)
  case Nil
  then show ?case by (subst parse_labels.simps) simp
next
  case (Cons l ls)
  have "Bit_Operations.and (length l) 192 = 0"
    using Cons.prems(1) by (intro and_small [of _ 6]) (simp_all add: take_bit_eq_mod)
  moreover from Cons.prems have "l \<noteq> []" "length l < 256" "utf8_valid l" "length acc + 1 + length ls \<le> 32" by auto
  moreover have "parse_labels ((pre @ label_bytes l) @ concat (map label_bytes ls) @ [CHR 0x00] @ rest)
      (length (pre @ label_bytes l)) (acc @ [l])
      = Inr ((acc @ [l]) @ ls, length (pre @ label_bytes l) + length (concat (map label_bytes ls)) + 1)"
    using Cons.prems by (intro Cons.IH) auto
  ultimately show ?case
    by (subst parse_labels.simps) (simp add: label_bytes_def nth_append Let_def)
qed

lemma parse_question_read:
  assumes "labels_ok ls" "length qid = 2" "length counts = 4" "flags < 0x800" "qtype \<le> u16_max"
  shows "parse_question (query_bytes qid flags counts ls qtype @ rest)
    = Inr \<lparr>dq_name = join_with ''.'' ls, dq_qtype = qtype, dq_qclass = 1,
           dq_end = 12 + length (question_bytes ls qtype)\<rparr>"
proof -
  let ?pre = "qid @ u16_bytes flags @ [CHR 0x00, CHR 0x01, CHR 0x00, CHR 0x00] @ counts"
  let ?m = "query_bytes qid flags counts ls qtype @ rest"
  have m: "?m = ?pre @ concat (map label_bytes ls) @ [CHR 0x00] @ u16_bytes qtype @ u16_bytes 1 @ rest"
    by (simp add: query_bytes_def question_bytes_def)
  have pre: "length ?pre = 12" using assms by simp
  have labels: "parse_labels ?m 12 [] = Inr (ls, 12 + length (concat (map label_bytes ls)) + 1)"
    using parse_labels_read [of ls "[]" ?pre] assms(1) unfolding m pre [symmetric]
    by (simp add: labels_ok_def)
  have "Bit_Operations.and flags 0x8000 = 0" "Bit_Operations.and flags 0x7800 = 0"
    using assms(4) by (auto intro!: and_small [of _ 11] simp: take_bit_eq_mod)
  moreover have "be16 (drop 2 ?m) = flags" using assms by (simp add: query_bytes_def)
  moreover have "be16 (drop 4 ?m) = 1" "be16 (drop 6 ?m) = 0"
    using assms by (simp_all add: query_bytes_def be16_def)
  moreover have "drop (12 + length (concat (map label_bytes ls)) + 1) ?m = u16_bytes qtype @ u16_bytes 1 @ rest"
  proof -
    let ?q = "?pre @ concat (map label_bytes ls) @ [CHR 0x00]"
    have "?m = ?q @ u16_bytes qtype @ u16_bytes 1 @ rest" by (simp add: m)
    moreover have "length ?q = 12 + length (concat (map label_bytes ls)) + 1" using pre by simp
    ultimately show ?thesis by (metis append_eq_conv_conj)
  qed
  note tail = this
  have "drop (12 + length (concat (map label_bytes ls)) + 1 + 2) ?m
      = drop 2 (drop (12 + length (concat (map label_bytes ls)) + 1) ?m)"
    by (simp only: drop_drop add.commute)
  with tail have "be16 (drop (12 + length (concat (map label_bytes ls)) + 1) ?m) = qtype"
    "be16 (drop (12 + length (concat (map label_bytes ls)) + 1 + 2) ?m) = 1"
    using assms(5) by (simp_all only: be16_u16) simp
  moreover have "length ?m = 12 + length (concat (map label_bytes ls)) + 5 + length rest"
    unfolding m using pre by simp
  ultimately show ?thesis
    by (simp add: parse_question_def labels question_bytes_def)
qed


text \<open>The header of an answer: the query's id, the response and authoritative bits, its opcode and recursion
  wish, no error, one question and \<open>n\<close> answers.\<close>

definition reply_header :: "string \<Rightarrow> nat \<Rightarrow> nat \<Rightarrow> string" where
  "reply_header qid flags n =
     qid @ [byte_or (byte_or (char_of (flags div 256)) 0x80) 0x04, byte_and (char_of flags) 0xF0]
     @ [CHR 0x00, CHR 0x01] @ [char_of (n div 256), char_of n] @ [CHR 0x00, CHR 0x00, CHR 0x00, CHR 0x00]"

lemma synthetic_address_length [simp]: "length (synthetic_address name) = 4"
  by (simp add: synthetic_address_def synthetic_range_def)

lemma two_bytes: "length s = 2 \<longleftrightarrow> (\<exists>a b. s = [a, b])"
  by (auto simp: length_Suc_conv numeral_2_eq_2)

lemma four_bytes: "length s = 4 \<longleftrightarrow> (\<exists>a b c d. s = [a, b, c, d])"
  by (auto simp: length_Suc_conv numeral_eq_Suc)

lemma list_update_numeral: "(x # xs)[numeral k := v] = x # xs[pred_numeral k := v]"
  by (simp add: numeral_eq_Suc)

lemma build_response_read:
  assumes "length qid = 2" "length counts = 4"
    and "dq_end q = 12 + length (question_bytes ls qtype)" "length answers \<le> 8"
    and "add_answers (dq_qtype q) ttl answers
      (reply_header qid flags 0 @ question_bytes ls qtype, 0) = (reply_header qid flags 0 @ body, n)"
  shows "build_response (query_bytes qid flags counts ls qtype @ rest) q answers ttl = reply_header qid flags n @ body"
proof -
  obtain a b c d e f where [simp]: "qid = [a, b]" "counts = [c, d, e, f]"
    using assms(1, 2) unfolding two_bytes four_bytes by blast
  let ?m = "query_bytes qid flags counts ls qtype @ rest"
  have "truncate_to_question ?m q = question_bytes ls qtype"
    using assms(3) by (simp add: truncate_to_question_def query_bytes_def u16_bytes_def)
  moreover have "take 12 ?m = qid @ u16_bytes flags @ [CHR 0x00, CHR 0x01, CHR 0x00, CHR 0x00] @ counts"
    by (simp add: query_bytes_def u16_bytes_def)
  moreover have "(reply_header qid flags 0 @ body)[6 := char_of (n div 256), 7 := char_of n]
    = reply_header qid flags n @ body"
    by (simp add: reply_header_def list_update_numeral)
  moreover have "\<not> length ?m < 12" by (simp add: query_bytes_def u16_bytes_def)
  moreover have "\<not> u16_max < length answers" using assms(4) by simp
  moreover have "char_of (0 :: nat) = CHR 0x00" by (simp add: char_of_def)
  ultimately show ?thesis
    using assms(4, 5) by (simp add: build_response_def Let_def u16_bytes_def reply_header_def list_update_numeral)
qed

text \<open>
  C29. The names a slot sees: a query for addresses of a name outside the provider's domains goes to the
  upstream resolver as it is and is answered by it (or by a server failure); everything else is answered
  without it: the provider's names by exactly one synthetic IPv4 address (none for IPv6, or if the message
  would exceed 512 bytes), and other kinds of records by no records, each with the question repeated.
\<close>

theorem slot_names_seen:
  assumes "labels_ok ls" "length qid = 2" "length counts = 4" "flags < 0x800" "qtype \<le> u16_max"
  shows "answer_query upstream (query_bytes qid flags counts ls qtype @ rest) =
    (let request = query_bytes qid flags counts ls qtype @ rest; name = join_with ''.'' ls;
         question = question_bytes ls qtype
     in if qtype \<notin> {1, 28, 255} then (None, Some (reply_header qid flags 0 @ question))
        else if \<not> intercepts name
        then (Some request, Some (case upstream request of Some reply \<Rightarrow> reply | None \<Rightarrow> servfail request))
        else if qtype = 28 \<or> 480 < length question then (None, Some (reply_header qid flags 0 @ question))
        else (None, Some (reply_header qid flags 1 @ question
                          @ answer_record 1 synthetic_ttl (synthetic_address name))))"
proof -
  note question = parse_question_read [OF assms, of rest]
  have length: "length (reply_header qid flags 0) = 12" using assms(2) by (simp add: reply_header_def)
  let ?q = "\<lparr>dq_name = join_with ''.'' ls, dq_qtype = qtype, dq_qclass = 1,
                dq_end = 12 + length (question_bytes ls qtype)\<rparr>"
  let ?a = "IpV4 (synthetic_address (join_with ''.'' ls))"
  note build = build_response_read [OF assms(2, 3), where flags = flags and ls = ls and qtype = qtype and rest = rest
      and q = ?q and ttl = synthetic_ttl]
  have none: "build_response (query_bytes qid flags counts ls qtype @ rest) ?q [] synthetic_ttl
      = reply_header qid flags 0 @ question_bytes ls qtype"
    by (rule build) simp_all
  have one: "build_response (query_bytes qid flags counts ls qtype @ rest) ?q [?a] synthetic_ttl
      = (if 480 < length (question_bytes ls qtype) then reply_header qid flags 0 @ question_bytes ls qtype
         else reply_header qid flags 1 @ question_bytes ls qtype
           @ answer_record 1 synthetic_ttl (synthetic_address (join_with ''.'' ls)))"
    if "qtype = 1 \<or> qtype = 255"
  proof (cases "480 < length (question_bytes ls qtype)")
    case True
    then show ?thesis
      using that length by (subst build [where n = 0 and body = "question_bytes ls qtype"]) (auto simp: max_message_def)
  next
    case False
    then show ?thesis
      using that length
      by (subst build [where n = 1 and body = "question_bytes ls qtype
          @ answer_record 1 synthetic_ttl (synthetic_address (join_with ''.'' ls))"])
        (auto simp: max_message_def)
  qed
  show ?thesis
    using none one by (auto simp: answer_query_def question resolve_question_def Let_def)
qed

lemma synthetic_address_range:
  "\<exists>n. 1 \<le> n \<and> n \<le> 254 \<and> synthetic_address name = map char_of [203, 0, 113, n :: nat]"
proof (intro exI conjI)
  let ?n = "unat (fnv1a (canonical_name name)) mod 254 + 1"
  show "1 \<le> ?n" by simp
  have "unat (fnv1a (canonical_name name)) mod 254 < 254" by simp
  then show "?n \<le> 254" by linarith
  show "synthetic_address name = map char_of [203, 0, 113, ?n]"
    by (simp add: synthetic_address_def synthetic_range_def)
qed

text \<open>The query for \<open>chatgpt.com\<close> that a resolver sends.\<close>

theorem slot_names_seen_witness:
  "answer_query (\<lambda>_. None) (query_bytes [CHR 0x12, CHR 0x34] 0x100 (replicate 4 (CHR 0x00)) [''chatgpt'', ''com''] 1 @ [])
    = (None, Some (reply_header [CHR 0x12, CHR 0x34] 0x100 1 @ question_bytes [''chatgpt'', ''com''] 1
                   @ answer_record 1 synthetic_ttl (synthetic_address ''chatgpt.com'')))"
proof -
  have "canonical_name ''chatgpt.com'' = ''chatgpt.com''" by code_simp
  then have "intercepts ''chatgpt.com''" by (simp add: intercepts_def intercept_suffixes_def)
  moreover have "labels_ok [''chatgpt'', ''com'']" by (simp add: labels_ok_def utf8_valid_ascii)
  moreover have "length (question_bytes [''chatgpt'', ''com''] 1) \<le> 480"
    by (simp add: question_bytes_def label_bytes_def)
  ultimately show ?thesis
    using slot_names_seen [where ls = "[''chatgpt'', ''com'']" and qid = "[CHR 0x12, CHR 0x34]"
        and counts = "replicate 4 (CHR 0x00)" and flags = "0x100" and qtype = 1 and upstream = "\<lambda>_. None" and rest = "[]"]
    by simp
qed

end
