(* ===== verification/SlotNetProps.thy ===== *)
theory SlotNetProps
  imports EgressProps
begin

text \<open>
  What the redirection of an account slot's traffic leaves in the kernel: the rules an applied plan
  installs, and what taking them down removes. The \<open>iptables\<close> program is any program that keeps to the
  documented effect of the commands the gateway gives it.
\<close>

section \<open>Names of a slot\<close>

lemma hex_fixed_length [simp]: "length (hex_fixed w n) = w"
  by (induction w arbitrary: n) simp_all

lemma hex_digit_is_hex [simp]: "is_hex_digit (hex_digit n)"
proof -
  have "list_all is_hex_digit ''0123456789abcdef''" by code_simp
  then show ?thesis by (simp add: hex_digit_def list_all_length)
qed

lemma hex_fixed_is_hex [simp]: "list_all is_hex_digit (hex_fixed w n)"
  by (induction w arbitrary: n) simp_all

lemma strip_prefix_append: "strip_prefix p (p @ s) = Some s"
  by (simp add: strip_prefix_def starts_with_def)

lemma target_chain_managed: "is_managed_chain (target_chain instance_id)"
  by (simp add: is_managed_chain_def target_chain_def hex_prefix_def chain_digits_def strip_prefix_append
      del: append_Cons)

lemma target_chain_neq [simp]:
  "target_chain i \<noteq> ''PREROUTING''" "target_chain i \<noteq> parent_chain p" "target_chain i \<noteq> ''-N''"
  by (cases p; simp add: target_chain_def)+

lemma bridge_neq [simp]: "bridge_name i \<noteq> ''-N''"
  by (simp add: bridge_name_def bridge_prefix_def)

lemma subnet_starts: "\<exists>s. subnet_for i = ''172.24.'' @ s"
proof -
  have "nat_str (octets subnet_pool ! 0) = ''172''" "nat_str (octets subnet_pool ! 1) = ''24''"
    by (simp_all add: octets_def subnet_pool_def ipv4_new_def nat_str.simps digit_char_def) code_simp+
  then show ?thesis by (simp add: subnet_for_def)
qed

lemma subnet_neq [simp]: "subnet_for i \<noteq> ''-N''"
  using subnet_starts [of i] by auto

section \<open>What the program does\<close>

type_synonym chains = "string \<times> string \<Rightarrow> rule list"

text \<open>The rules of the chains after a command of the gateway was accepted; \<open>None\<close> where it has to be refused.\<close>

definition command_effect :: "rule \<Rightarrow> chains \<Rightarrow> chains option" where
  "command_effect args f =
     (case args of
        _ # t # command # c # spec \<Rightarrow>
          if command = ''-A'' then Some (f((t, c) := f (t, c) @ [spec]))
          else if command = ''-I'' then Some (f((t, c) := tl spec # f (t, c)))
          else if command = ''-D'' then
            (if spec \<in> set (f (t, c)) then Some (f((t, c) := remove1 spec (f (t, c)))) else None)
          else if command \<in> {''-N'', ''-F'', ''-X''} then Some (f((t, c) := []))
          else Some f
      | _ \<Rightarrow> Some f)"

text \<open>Accepted commands have their effect and refused ones none.\<close>

definition iptables_laws :: "'k iptables_program \<Rightarrow> ('k \<Rightarrow> chains) \<Rightarrow> bool" where
  "iptables_laws prog rules =
     (\<forall>args k. case prog args k of
        (k', None) \<Rightarrow> rules k' = rules k
      | (k', Some out) \<Rightarrow>
          if co_success out then command_effect args (rules k) = Some (rules k') else rules k' = rules k)"

text \<open>A rule that is there can be deleted.\<close>

definition deletes_present :: "'k iptables_program \<Rightarrow> ('k \<Rightarrow> chains) \<Rightarrow> bool" where
  "deletes_present prog rules =
     (\<forall>t c spec k. spec \<in> set (rules k (t, c)) \<longrightarrow>
        (case snd (prog ([''-t'', t, ''-D'', c] @ spec) k) of Some out \<Rightarrow> co_success out | None \<Rightarrow> False))"

lemma laws_at:
  assumes "iptables_laws prog rules"
  shows "case prog args k of
      (k', None) \<Rightarrow> rules k' = rules k
    | (k', Some out) \<Rightarrow>
        if co_success out then command_effect args (rules k) = Some (rules k') else rules k' = rules k"
  using assms unfolding iptables_laws_def by (elim allE [of _ args] allE [of _ k])

lemma iptables_run_ok:
  assumes "iptables_laws prog rules" "iptables_run prog args k = (k', Inr u)"
  shows "command_effect args (rules k) = Some (rules k') \<or> is_chain_create args \<and> rules k' = rules k"
proof -
  obtain out where p: "prog args k = (k', Some out)" "co_success out \<or> is_existing_chain_error args (co_stderr out)"
    using assms(2) by (auto simp: iptables_run_def split: prod.splits option.splits if_splits)
  from laws_at [OF assms(1), where args = args and k = k] p(1)
  have "if co_success out then command_effect args (rules k) = Some (rules k') else rules k' = rules k" by simp
  with p(2) show ?thesis by (auto simp: is_existing_chain_error_def split: if_splits)
qed

lemma iptables_run_refused:
  assumes "iptables_laws prog rules" "iptables_run prog args k = (k', Inl e)"
  shows "rules k' = rules k"
proof -
  obtain out where p: "prog args k = (k', out)" "case out of Some x \<Rightarrow> \<not> co_success x | None \<Rightarrow> True"
    using assms(2) by (auto simp: iptables_run_def split: prod.splits option.splits if_splits)
  with laws_at [OF assms(1), where args = args and k = k] show ?thesis by (auto split: option.splits)
qed

lemma iptables_run_exact:
  assumes "iptables_laws prog rules" "\<not> is_chain_create args" "iptables_run prog args k = (k', Inr u)"
  shows "command_effect args (rules k) = Some (rules k')"
  using iptables_run_ok [OF assms(1, 3)] assms(2) by simp

lemma run_rules_Cons:
  "run_rules run (r # rs) k = (k', Inr u) \<longleftrightarrow> (\<exists>d v. run r k = (d, Inr v) \<and> run_rules run rs d = (k', Inr u))"
  by (auto split: prod.splits sum.splits)

lemma probe_keeps:
  assumes "iptables_laws prog rules" "forward_parent_of prog k = (k', r)"
  shows "rules k' = rules k"
proof -
  obtain out where p: "prog [''-t'', ''filter'', ''-S'', ''DOCKER-USER''] k = (k', out)"
    using assms(2) by (auto simp: forward_parent_of_def chain_exists_def split: prod.splits option.splits sum.splits)
  have "command_effect [''-t'', ''filter'', ''-S'', ''DOCKER-USER''] (rules k) = Some (rules k)"
    by (simp add: command_effect_def)
  with laws_at [OF assms(1), where k = k and args = "[''-t'', ''filter'', ''-S'', ''DOCKER-USER'']"] p show ?thesis
    by (cases out) (auto split: if_splits)
qed


lemma count_list_remove1: "x \<in> set xs \<Longrightarrow> count_list (remove1 x xs) x = count_list xs x - 1"
  by (induction xs) (auto simp: count_list_0_iff)

lemma removeAll_remove1: "removeAll x (remove1 x xs) = removeAll x xs"
  by (induction xs) auto

lemma drain_rule_deletes:
  assumes "iptables_laws prog rules" "deletes_present prog rules"
    and "t \<noteq> ''-N''" "c \<noteq> ''-N''" "\<not> is_chain_create body" "count_list (rules k (t, c)) body \<le> n"
  shows "rules (drain_rule (iptables_run prog) ([''-t'', t, ''-D'', c] @ body) n k)
    = (rules k)((t, c) := removeAll body (rules k (t, c)))"
  using assms(6)
proof (induction n arbitrary: k)
  case 0
  then show ?case by (simp add: count_list_0_iff)
next
  case (Suc n)
  let ?r = "[''-t'', t, ''-D'', c] @ body"
  have plain: "\<not> is_chain_create ?r" using assms(3-5) by (cases body) auto
  obtain d x where run: "iptables_run prog ?r k = (d, x)" by fastforce
  show ?case
  proof (cases "body \<in> set (rules k (t, c))")
    case True
    with assms(2) have "case snd (prog ?r k) of Some out \<Rightarrow> co_success out | None \<Rightarrow> False"
      unfolding deletes_present_def by blast
    with run have x: "x = Inr ()" by (auto simp: iptables_run_def split: prod.splits option.splits)
    from iptables_run_exact [OF assms(1) plain run [unfolded x]] True
    have d: "rules d = (rules k)((t, c) := remove1 body (rules k (t, c)))" by (simp add: command_effect_def)
    have "count_list (rules d (t, c)) body \<le> n"
      using Suc.prems True by (simp add: d count_list_remove1)
    from Suc.IH [OF this] show ?thesis by (auto simp: run [simplified] x d removeAll_remove1 fun_eq_iff)
  next
    case False
    have "command_effect ?r (rules k) = None" using False by (simp add: command_effect_def)
    with iptables_run_exact [OF assms(1) plain] run obtain e where x: "x = Inl e" by (cases x) auto
    from iptables_run_refused [OF assms(1)] run x have "rules d = rules k" by blast
    with False show ?thesis by (simp add: run [simplified] x)
  qed
qed

section \<open>Installing the rules\<close>

abbreviation jump_of :: "string \<Rightarrow> rule" where
  "jump_of i \<equiv> [''-i'', bridge_name i, ''-j'', target_chain i]"

definition redirections :: "string \<Rightarrow> redirect_ports \<Rightarrow> rule list" where
  "redirections i ports =
     [[''-d'', subnet_for i, ''-j'', ''RETURN''],
      [''-p'', ''udp'', ''--dport'', ''53'', ''-j'', ''REDIRECT'', ''--to-ports'', nat_str (rp_dns ports)],
      [''-p'', ''tcp'', ''--dport'', ''443'', ''-j'', ''REDIRECT'', ''--to-ports'', nat_str (rp_tls ports)],
      [''-p'', ''tcp'', ''--dport'', ''80'', ''-j'', ''REDIRECT'', ''--to-ports'', nat_str (rp_http ports)]]"

definition drops :: "string \<Rightarrow> rule list" where
  "drops i =
     [[''-d'', subnet_for i, ''-j'', ''RETURN''],
      [''-i'', bridge_name i, ''-o'', bridge_name i, ''-j'', ''DROP''],
      [''-i'', bridge_name i, ''-j'', ''DROP'']]"

definition installed :: "string \<Rightarrow> redirect_ports \<Rightarrow> forward_parent \<Rightarrow> chains \<Rightarrow> chains" where
  "installed i ports parent f =
     f((''nat'', ''PREROUTING'') := jump_of i # removeAll (jump_of i) (f (''nat'', ''PREROUTING'')),
       (''filter'', parent_chain parent) := jump_of i # removeAll (jump_of i) (f (''filter'', parent_chain parent)),
       (''nat'', target_chain i) := redirections i ports,
       (''filter'', target_chain i) := drops i)"

lemma nat_str_neq [simp]: "nat_str n \<noteq> ''-N''"
  using digits_nat_str [of n] by (auto simp: is_ascii_digit_def)

lemma run_create_flush:
  assumes "iptables_laws prog rules" "c \<noteq> ''-N''" "c \<noteq> []" "t \<noteq> ''-N''"
    and "run_rules (iptables_run prog) ([''-t'', t, ''-N'', c] # [''-t'', t, ''-F'', c] # rs) k = (k', Inr u)"
  shows "\<exists>d. rules d = (rules k)((t, c) := []) \<and> run_rules (iptables_run prog) rs d = (k', Inr u)"
proof -
  obtain a v b w where run: "iptables_run prog [''-t'', t, ''-N'', c] k = (a, Inr v)"
      "iptables_run prog [''-t'', t, ''-F'', c] a = (b, Inr w)" "run_rules (iptables_run prog) rs b = (k', Inr u)"
    using assms(5) unfolding run_rules_Cons by blast
  have "rules b = (rules a)((t, c) := [])"
    using iptables_run_exact [OF assms(1) _ run(2)] assms(2-4) by (simp add: command_effect_def)
  moreover have "rules a = (rules k)((t, c) := []) \<or> rules a = rules k"
    using iptables_run_ok [OF assms(1) run(1)] by (auto simp: command_effect_def)
  ultimately have "rules b = (rules k)((t, c) := [])" by (elim disjE) simp_all
  with run(3) show ?thesis by blast
qed

primrec run_effects :: "rule list \<Rightarrow> chains \<Rightarrow> chains option" where
  "run_effects [] f = Some f"
| "run_effects (r # rs) f = Option.bind (command_effect r f) (run_effects rs)"

lemma run_exact:
  assumes "iptables_laws prog rules" "list_all (\<lambda>r. \<not> is_chain_create r) rs"
    and "run_rules (iptables_run prog) rs k = (k', Inr u)"
  shows "run_effects rs (rules k) = Some (rules k')"
  using assms(2, 3)
proof (induction rs arbitrary: k)
  case (Cons r rs)
  then obtain d v where "iptables_run prog r k = (d, Inr v)" "run_rules (iptables_run prog) rs d = (k', Inr u)"
    unfolding run_rules_Cons by blast
  with Cons iptables_run_exact [OF assms(1)] show ?case by simp
qed simp

lemma run_rules_append:
  "run_rules run (rs @ qs) k = (k', Inr u) \<longleftrightarrow>
     (\<exists>d v. run_rules run rs k = (d, Inr v) \<and> run_rules run qs d = (k', Inr u))"
  by (induction rs arbitrary: k) (auto simp: run_rules_Cons simp del: run_rules.simps(2) split: prod.splits sum.splits)

lemma apply_installs:
  assumes laws: "iptables_laws prog rules"
    and "run_rules (iptables_run prog) (rp_apply (slot_rules i ports parent)) k = (k', Inr u)"
  shows "rules k' = (rules k)
     ((''nat'', ''PREROUTING'') := jump_of i # rules k (''nat'', ''PREROUTING''),
      (''filter'', parent_chain parent) := jump_of i # rules k (''filter'', parent_chain parent),
      (''nat'', target_chain i) := redirections i ports, (''filter'', target_chain i) := drops i)"
proof -
  let ?c = "target_chain i"
  define nat_part where "nat_part = map ((@) [''-t'', ''nat'', ''-A'', ?c]) (redirections i ports)
    @ [[''-t'', ''nat'', ''-I'', ''PREROUTING'', ''1''] @ jump_of i]"
  define filter_part where "filter_part = map ((@) [''-t'', ''filter'', ''-A'', ?c]) (drops i)
    @ [[''-t'', ''filter'', ''-I'', parent_chain parent, ''1''] @ jump_of i]"
  have plan: "rp_apply (slot_rules i ports parent) =
      ([''-t'', ''nat'', ''-N'', ?c] # [''-t'', ''nat'', ''-F'', ?c] # nat_part)
      @ ([''-t'', ''filter'', ''-N'', ?c] # [''-t'', ''filter'', ''-F'', ?c] # filter_part)"
    by (simp add: slot_rules_def slot_plan_def Let_def nat_rule_def filter_rule_def redirect_rule_def
        manager_target_def nat_part_def filter_part_def redirections_def drops_def)
  have plain: "list_all (\<lambda>r. \<not> is_chain_create r) nat_part" "list_all (\<lambda>r. \<not> is_chain_create r) filter_part"
    by (simp_all add: nat_part_def filter_part_def redirections_def drops_def) (cases parent; simp)
  have c: "?c \<noteq> []" by (simp add: target_chain_def)
  obtain d v where d: "run_rules (iptables_run prog) ([''-t'', ''nat'', ''-N'', ?c] # [''-t'', ''nat'', ''-F'', ?c] # nat_part) k
      = (d, Inr v)"
    "run_rules (iptables_run prog) ([''-t'', ''filter'', ''-N'', ?c] # [''-t'', ''filter'', ''-F'', ?c] # filter_part) d
      = (k', Inr u)"
    using assms(2) unfolding plan run_rules_append by blast
  from run_create_flush [OF laws _ c _ d(1)] obtain k1 where k1: "rules k1 = (rules k)((''nat'', ?c) := [])"
    "run_rules (iptables_run prog) nat_part k1 = (d, Inr v)" by auto
  from run_create_flush [OF laws _ c _ d(2)] obtain k2 where k2: "rules k2 = (rules d)((''filter'', ?c) := [])"
    "run_rules (iptables_run prog) filter_part k2 = (k', Inr u)" by auto
  have "rules d = (rules k)((''nat'', ''PREROUTING'') := jump_of i # rules k (''nat'', ''PREROUTING''),
      (''nat'', ?c) := redirections i ports)"
    using run_exact [OF laws plain(1) k1(2)]
    by (simp add: k1(1) nat_part_def redirections_def command_effect_def target_chain_neq [symmetric] fun_upd_twist)
  moreover have "rules k' = (rules d)((''filter'', parent_chain parent) := jump_of i # rules d (''filter'', parent_chain parent),
      (''filter'', ?c) := drops i)"
    using run_exact [OF laws plain(2) k2(2)]
    by (simp add: k2(1) filter_part_def drops_def command_effect_def target_chain_neq [symmetric] fun_upd_twist)
  ultimately show ?thesis by (simp add: target_chain_neq [symmetric] fun_upd_twist)
qed



section \<open>Taking them down\<close>



text \<open>
  Where the first rule is already gone, no later removal succeeds: the program refuses to delete a rule
  that is not there, and the removal stops at the first refusal.
\<close>

primrec remove_again :: "'k iptables_program \<Rightarrow> string \<Rightarrow> nat \<Rightarrow> 'k egress_manager \<Rightarrow> 'k egress_manager" where
  "remove_again prog i 0 m = m"
| "remove_again prog i (Suc n) m = remove_again prog i n (fst (manager_remove prog i m))"

lemma remove_refused:
  assumes "iptables_laws prog rules" "em_running m i = Some running"
    and "jump_of i \<notin> set (rules (em_kernel m) (''nat'', ''PREROUTING''))"
  shows "\<exists>k. manager_remove prog i m = (m\<lparr>em_kernel := k\<rparr>, Inl EgressIptables) \<and> rules k = rules (em_kernel m)"
proof -
  note laws = assms(1)
  obtain k r where probe: "forward_parent_of prog (em_kernel m) = (k, r)" by fastforce
  have same: "rules k = rules (em_kernel m)" by (rule probe_keeps [OF laws probe])
  show ?thesis
  proof (cases r)
    case (Inl e)
    with probe assms(2) same show ?thesis by (auto simp: manager_remove_def)
  next
    case (Inr parent)
    let ?r = "[''-t'', ''nat'', ''-D'', ''PREROUTING'', ''-i'', bridge_name i, ''-j'', target_chain i]"
    obtain d x where first: "iptables_run prog ?r k = (d, x)" by fastforce
    have "command_effect ?r (rules k) = None" using assms(3) same by (simp add: command_effect_def)
    moreover have "\<not> is_chain_create ?r" by simp
    ultimately obtain e where x: "x = Inl e"
      using first iptables_run_exact [OF laws, where args = ?r and k = k and k' = d] by (cases x) auto
    have "rules d = rules k" using iptables_run_refused [OF laws] first x by blast
    with first x probe Inr assms(2) same show ?thesis
      by (auto simp: manager_remove_def Let_def slot_rules_def slot_plan_def nat_rule_def manager_target_def)
  qed
qed

lemma removal_not_retryable:
  assumes "iptables_laws prog rules" "em_running m i = Some running"
    and "jump_of i \<notin> set (rules (em_kernel m) (''nat'', ''PREROUTING''))"
  shows "em_running (remove_again prog i n m) = em_running m
    \<and> rules (em_kernel (remove_again prog i n m)) = rules (em_kernel m)
    \<and> snd (manager_remove prog i (remove_again prog i n m)) = Inl EgressIptables"
  using assms(2, 3)
proof (induction n arbitrary: m)
  case 0
  then show ?case using remove_refused [OF assms(1)] by fastforce
next
  case (Suc n)
  from remove_refused [OF assms(1) Suc.prems] obtain k where
    "manager_remove prog i m = (m\<lparr>em_kernel := k\<rparr>, Inl EgressIptables)" "rules k = rules (em_kernel m)" by blast
  with Suc.IH [of "m\<lparr>em_kernel := k\<rparr>"] Suc.prems show ?case by simp
qed

section \<open>Concrete programs\<close>

text \<open>A program that accepts every command that has an effect, and one whose \<open>n\<close>-th command finds the lock held.\<close>

definition accepted :: command_output where "accepted = \<lparr>co_success = True, co_stdout = [], co_stderr = []\<rparr>"
definition refused :: command_output where "refused = \<lparr>co_success = False, co_stdout = [], co_stderr = ''refused''\<rparr>"

definition ideal_iptables :: "chains iptables_program" where
  "ideal_iptables args f = (case command_effect args f of Some g \<Rightarrow> (g, Some accepted) | None \<Rightarrow> (f, Some refused))"

definition busy_iptables :: "(chains \<times> nat) iptables_program" where
  "busy_iptables args = (\<lambda>(f, n).
     if n = 1 then ((f, 0), Some refused)
     else case ideal_iptables args f of (g, out) \<Rightarrow> ((g, n - 1), out))"

lemma ideal_laws: "iptables_laws ideal_iptables id"
  by (auto simp: iptables_laws_def ideal_iptables_def accepted_def refused_def split: option.splits)

lemma ideal_deletes: "deletes_present ideal_iptables id"
  by (auto simp: deletes_present_def ideal_iptables_def command_effect_def accepted_def)

lemma busy_laws: "iptables_laws busy_iptables fst"
  by (auto simp: iptables_laws_def busy_iptables_def ideal_iptables_def accepted_def refused_def split: option.splits)

lemma ideal_run: "iptables_run ideal_iptables args f = (case command_effect args f of
    Some g \<Rightarrow> (g, Inr ()) | None \<Rightarrow> (f, if is_existing_chain_error args ''refused'' then Inr () else Inl IptRejected))"
  by (simp add: iptables_run_def ideal_iptables_def accepted_def refused_def split: option.splits)

lemma ideal_parent: "forward_parent_of ideal_iptables f = (f, Inr DockerUser)"
  by (simp add: forward_parent_of_def chain_exists_def ideal_iptables_def command_effect_def accepted_def)

text \<open>A running entry of the slot \<open>a\<close>, with two stale copies of its jump behind another rule.\<close>

definition sample_ports :: redirect_ports where
  "sample_ports = \<lparr>rp_dns = 5353, rp_tls = 8443, rp_http = 8080\<rparr>"

definition sample_manager :: "'k \<Rightarrow> 'k egress_manager" where
  "sample_manager k =
     \<lparr>em_running = [''a'' \<mapsto> \<lparr>re_ports = sample_ports, re_config = sample_slot_config\<rparr>], em_kernel = k\<rparr>"

definition sample_chains :: chains where
  "sample_chains = (\<lambda>_. [])((''nat'', ''PREROUTING'') := [[''-j'', ''DOCKER''], jump_of ''a'', jump_of ''a''],
     (''filter'', ''DOCKER-USER'') := [jump_of ''a''])"

lemma ideal_accepts:
  assumes "list_all (\<lambda>r. case r of _ # _ # command # _ \<Rightarrow> command \<noteq> ''-D'' | _ \<Rightarrow> True) rs"
  shows "\<exists>g. run_rules (iptables_run ideal_iptables) rs f = (g, Inr ())"
  using assms
proof (induction rs arbitrary: f)
  case (Cons r rs)
  then have "\<exists>g. command_effect r f = Some g" by (auto simp: command_effect_def split: list.splits)
  then obtain g where "command_effect r f = Some g" by blast
  with Cons.IH [of g] Cons.prems show ?case by (simp add: ideal_run)
qed simp

lemma apply_accepted: "\<exists>g. run_rules (iptables_run ideal_iptables) (rp_apply (slot_rules i ports parent)) f = (g, Inr ())"
  by (rule ideal_accepts) (simp add: slot_rules_def slot_plan_def Let_def nat_rule_def filter_rule_def redirect_rule_def)



text \<open>The lock is held when the second rule is deleted: the entry can never be removed again.\<close>

definition sample_busy :: "(chains \<times> nat) egress_manager" where
  "sample_busy = fst (manager_remove busy_iptables ''a''
     (sample_manager ((\<lambda>_. [])((''nat'', ''PREROUTING'') := [jump_of ''a''], (''filter'', ''DOCKER-USER'') := [jump_of ''a'']), 3)))"

lemma removal_not_retryable_reached:
  "em_running (remove_again busy_iptables ''a'' n sample_busy) ''a'' \<noteq> None
   \<and> snd (manager_remove busy_iptables ''a'' (remove_again busy_iptables ''a'' n sample_busy)) = Inl EgressIptables"
proof -
  have "em_running sample_busy ''a'' = Some \<lparr>re_ports = sample_ports, re_config = sample_slot_config\<rparr>
      \<and> jump_of ''a'' \<notin> set (fst (em_kernel sample_busy) (''nat'', ''PREROUTING''))"
    by (simp add: sample_busy_def sample_manager_def manager_remove_def forward_parent_of_def chain_exists_def
        slot_rules_def slot_plan_def Let_def nat_rule_def filter_rule_def manager_target_def
        iptables_run_def busy_iptables_def ideal_iptables_def command_effect_def accepted_def refused_def
        is_existing_chain_error_def)
  then show ?thesis using removal_not_retryable [OF busy_laws, of sample_busy "''a''" _ n] by auto
qed

end
