(* ===== verification/Spec2Isabelle.thy ===== *)
theory Spec2Isabelle
  imports ExecutionProps RuntimeProps SseProps Breaker WorkersProps SlotNetProps
begin

text \<open>
  A model of the multi-account AI gateway under \<open>src/backend/crates\<close> and the theorems about it. The
  gateway takes a request with a client key, finds the accounts of that key in a frozen snapshot of the
  configuration, tries providers and accounts in turn, streams the answer of one of them to the client,
  and charges the request. Beside the requests it refreshes the snapshot, runs background work under
  leases, and keeps account slots: containers whose whole traffic goes through a proxy of their own.

  \<^bold>\<open>Conventions.\<close> A Rust \<open>struct\<close> is a \<open>record\<close> and an \<open>enum\<close> a \<open>datatype\<close>, both with a prefix of their own
  per type; a function keeps its name, or has the type's name in front. A \<open>String\<close> is the list of its
  UTF-8 bytes, an unsigned integer a \<open>nat\<close> with the checked, saturating or wrapping operation of the
  source written out against its bound (\<open>u64_max\<close> and others of \<open>Prelude\<close>), a hash a \<open>64 word\<close>. \<open>Result\<close> is a
  sum with the error on the left. A method that changes \<open>self\<close> returns the changed record. A \<open>BTreeMap\<close>
  or \<open>BTreeSet\<close> is a strictly sorted list (\<open>Containers\<close>), a \<open>HashMap\<close> whose order is never seen a function
  to \<open>option\<close> or an association list. What an \<open>await\<close> answers is an argument: a port's answer, a stream's
  next item, a timer; a list of rounds is a list of such answers. Where calls interleave, the atomic
  steps are an inductive relation and the theorems hold for every reachable state.

  \<^bold>\<open>Values and configuration (gateway-core).\<close>
  \<^item> \<open>Prelude\<close>, \<open>Containers\<close>, \<open>Utf8\<close>: integers, times, sorted containers, UTF-8 decoding and the \<open>str\<close>
    methods in use. The locale \<open>stable_names\<close> is the contract of the \<open>as_str\<close> and \<open>parse\<close> pairs, the locale
    \<open>unique_index\<close> that of a loop that refuses a second entry under the same key; both are interpreted on
    every pair and loop of the code.
  \<^item> \<open>Validation\<close>, \<open>Policy\<close>: \<open>validation.rs\<close>, \<open>identity.rs\<close>, \<open>policy/\<close>, \<open>account/model_access.rs\<close>,
    \<open>account/location.rs\<close>.
  \<^item> \<open>Metering\<close>: \<open>metering/\<close>, decimal amounts as an \<open>i128\<close> of billionths, price bands and multipliers. The
    printers are inverted by the parser; a custom multiplier keeps the total the sum of its parts.
  \<^item> \<open>AccountModel\<close>, \<open>AccountScope\<close>: \<open>account/model.rs\<close>, \<open>error.rs\<close>, \<open>proxy.rs\<close>, \<open>scope.rs\<close>: credentials,
    quota, status, the directory of accounts and the frozen scope of a key.
  \<^item> \<open>Float64\<close>, \<open>Selection\<close>: \<open>account/selection.rs\<close>. A float is the rational it denotes and every operation
    rounds to nearest even; selection fails only when every candidate is blocked.
  \<^item> \<open>Operation\<close>, \<open>Events\<close>, \<open>ErrorModel\<close>: \<open>operation/mod.rs\<close>, \<open>event.rs\<close>, \<open>upstream.rs\<close>, \<open>error.rs\<close>. The
    incremental validator of events accepts exactly the canonical streams.
  \<^item> \<open>Routing\<close>, \<open>Snapshot\<close>: \<open>routing/\<close>. Compilation of the persisted facts keeps what a key may use, and a
    plan tries exactly the registered, unblocked providers that support the model, in order.
  \<^item> \<open>Runtime\<close>, \<open>RuntimeProps\<close>: \<open>runtime/mod.rs\<close>. Refreshes, commits and dropped calls interleave; a
    published snapshot never goes back, and a committed change is in force when its call returns.

  \<^bold>\<open>Requests (gateway-core).\<close>
  \<^item> \<open>Concurrency\<close>: \<open>concurrency.rs\<close>. The waiting lines as state machine with tickets and wakers, bounded
    and first in, first out; its locale \<open>ticket_lines\<close> is what the waker of a line relies on.
  \<^item> \<open>Lifecycle\<close>: \<open>lifecycle.rs\<close>. The flag, the counter and the waiters of a cancellation token in atomic
    steps; no waiter is left asleep.
  \<^item> \<open>EngineModel\<close>, \<open>ProviderStream\<close>: \<open>engine/mod.rs\<close>, \<open>continuation.rs\<close>, \<open>budget.rs\<close>, \<open>provider.rs\<close>,
    \<open>admission.rs\<close>. The wrapper around a provider's stream hands out a canonical prefix.
  \<^item> \<open>Coordinator\<close>: \<open>engine/coordinator.rs\<close>, the session of one request with every call of its interface.
    \<open>CoordinatorProps\<close> has the invariants of its reachable states, \<open>CoordinatorLaws\<close> the refinement of the
    abstract delivery protocol, the order of the store's log and the gates of a retry,
    \<open>CoordinatorProgress\<close> the bound of the retry loop and the end of a cancelled request.
  \<^item> \<open>Execution\<close>, \<open>ExecutionProps\<close>: \<open>engine/execution.rs\<close>, \<open>engine/probe.rs\<close>. Authentication, admission,
    start, settlement and drop of the session the interface layer holds. A call that may be dropped while
    it waits has an allowance \<open>n\<close> of port calls that complete before; every allowance is covered. The first
    property composes them with the snapshot and the coordinator: an account is only ever called for a key
    that the persisted facts let use it.

  \<^bold>\<open>Around the requests.\<close>
  \<^item> \<open>Sse\<close>, \<open>SseProps\<close>: \<open>gateway-protocol/src/openai/sse.rs\<close>. Encoder and decoder of server-sent events; the
    frames do not depend on how the bytes are cut, no byte is lost, an encoded event is read back.
  \<^item> \<open>Breaker\<close>: \<open>providers/openai/src/transport/websocket/breaker.rs\<close>. Circuits, permits and probes; a
    half-open circuit never loses its only probe.
  \<^item> \<open>Tasks\<close>, \<open>Workers\<close>, \<open>WorkersProps\<close>: \<open>task/mod.rs\<close>, \<open>health.rs\<close> and \<open>gateway-host/src/workers/mod.rs\<close>. The
    plan of background work, each worker as a state machine under its lease, the supervisor. Their
    history follows the lease protocol, the delays are the capped backoff, shutdown leaves nothing running.
  \<^item> \<open>Sni\<close>, \<open>Dial\<close>, \<open>Dns\<close>, \<open>SlotNet\<close>: \<open>gateway-host/src/slots/egress/\<close>. The host a connection wants is read
    from its ClientHello or HTTP head (\<open>sni.rs\<close>), the proxy is asked for it by HTTP or SOCKS5 (\<open>dial.rs\<close>,
    \<open>transport.rs\<close>), names are answered (\<open>dns.rs\<close>), and \<open>iptables\<close> redirects the traffic (\<open>net.rs\<close>, \<open>plan.rs\<close>,
    \<open>iptables.rs\<close>, \<open>manager.rs\<close>, \<open>mod.rs\<close>). \<open>EgressProps\<close>: nothing leaves but through the proxy, and exactly
    what the client sent; \<open>SlotNetProps\<close>: what applying and removing the rules leaves in the kernel, and that
    a removal that failed half-way cannot be repeated.

  \<^bold>\<open>Bounds and fuel.\<close> The recursions are structural or have a measure, so every function is total. A call
  that waits, like \<open>next_event\<close>, takes the list of rounds it may use and answers \<open>None\<close> when they run out,
  which is a call that still waits; the progress theorems give a number of rounds from the budget, the
  candidates and the continuation that is always enough. Catalog compilation tries as often as the
  constant of the code. Constants keep the value of the source: 64 MiB for a decoder's buffer, 64 KiB for
  a client's handshake, 8 KiB for a proxy's reply, 64 repetitions when stale jumps are deleted; the
  theorem about applied rules therefore asks for at most 64 of them.

  \<^bold>\<open>Parameters.\<close> Code that is not in the repository is an argument: the parsers of \<open>semver\<close>, \<open>url\<close> and JSON,
  the power function of smart scores, fresh ids, clocks, the ports of stores and providers, the upstream
  resolvers, and the \<open>iptables\<close> program. The last one has the named hypotheses \<open>iptables_laws\<close> (an accepted
  command has its documented effect and a refused one none) and \<open>deletes_present\<close>, both shown to hold
  for a concrete program.

  \<^bold>\<open>Not modelled.\<close> Log output and diagnostic traces (\<open>diagnostics/\<close>), which change nothing; port traits
  without bodies (\<open>provider_ports/\<close>, \<open>account/store.rs\<close>); the statements the stores send to SQL and Redis
  (\<open>gateway-store\<close>), whose meaning is that of the databases; handlers over \<open>axum\<close> (\<open>gateway-api\<close>); the
  administration services (\<open>gateway-admin\<close>) and the network clients of the providers
  (\<open>providers/xai\<close>, \<open>providers/openai\<close>), which mostly put requests to foreign services together; sockets,
  containers and process wiring of \<open>gateway-host\<close>; the other codecs of \<open>gateway-protocol\<close>. The copying of
  joined connections is the operating system's.
\<close>

end
